(* ===== verification/Prelude.thy ===== *)
theory Prelude
  imports Main "HOL-Library.Char_ord" "HOL-Library.List_Lexorder" "HOL-Library.AList"
begin

text \<open>
  Shared ground of the development: the collections of simplification facts the
  component theories feed, the result type of fallible Go functions, and generic
  lemmas on lists, options and maps.

  A Go function that returns \<open>(T, error)\<close> is modelled by \<open>'e + 'a\<close>: \<open>Inl e\<close> is the
  non-nil error and \<open>Inr v\<close> the value with a nil error. A run-time panic is a constructor of
  the component's error type, so it is visible in every result. A pointer that may
  be nil is an \<open>option\<close>. A Go map is a partial function or an association list with distinct
  keys; where the code ranges over a map,
  the visiting order is an explicit argument.
\<close>

named_theorems go_simps \<open>equations of the Go library functions on constructors\<close>
named_theorems inv_intros \<open>operations that keep a component's invariant\<close>

type_synonym ('e, 'a) result = "'e + 'a"

section \<open>Results\<close>

text \<open>Run-time panics of Go.\<close>

datatype panic = IndexOutOfRange | NilDereference | ExplicitPanic string

definition is_ok :: "('e, 'a) result \<Rightarrow> bool" where
  "is_ok r = (case r of Inl _ \<Rightarrow> False | Inr _ \<Rightarrow> True)"

lemma is_ok_simps [simp]: "is_ok (Inr v)" "\<not> is_ok (Inl e)"
  by (simp_all add: is_ok_def)

lemma is_ok_iff: "is_ok r \<longleftrightarrow> (\<exists>v. r = Inr v)"
  by (cases r) simp_all

text \<open>\<open>ptr.Deref(p, d)\<close> of k8s.io/utils: the pointed value, or a default for nil.\<close>

definition deref :: "'a option \<Rightarrow> 'a \<Rightarrow> 'a" where
  "deref p d = (case p of None \<Rightarrow> d | Some v \<Rightarrow> v)"

lemma deref_simps [simp]: "deref None d = d" "deref (Some v) d = v"
  by (simp_all add: deref_def)

text \<open>The values of a pointer: none or one.\<close>

definition opt_list :: "'a option \<Rightarrow> 'a list" where
  "opt_list x = (case x of None \<Rightarrow> [] | Some y \<Rightarrow> [y])"

lemma opt_list_simps [simp]: "opt_list None = []" "opt_list (Some y) = [y]"
  by (simp_all add: opt_list_def)

section \<open>Maps as association lists\<close>

definition put :: "'k \<Rightarrow> 'v \<Rightarrow> ('k \<times> 'v) list \<Rightarrow> ('k \<times> 'v) list" where
  "put k v m = AList.update k v m"

definition del :: "'k \<Rightarrow> ('k \<times> 'v) list \<Rightarrow> ('k \<times> 'v) list" where
  "del k m = AList.delete k m"

lemma map_of_put [simp]: "map_of (put k v m) = (map_of m)(k \<mapsto> v)"
  by (simp add: put_def update_conv')

lemma map_of_del [simp]: "map_of (del k m) = (map_of m)(k := None)"
  by (simp add: del_def delete_conv')

lemma distinct_put: "distinct (map fst m) \<Longrightarrow> distinct (map fst (put k v m))"
  by (simp add: put_def distinct_update)

lemma distinct_del: "distinct (map fst m) \<Longrightarrow> distinct (map fst (del k m))"
  by (simp add: del_def distinct_delete)

lemma put_new: "k \<notin> fst ` set m \<Longrightarrow> put k v m = m @ [(k, v)]"
  by (induction m) (auto simp: put_def)

lemma fold_put:
  assumes "distinct (map f rs)" "set (map fst m) \<inter> f ` set rs = {}"
  shows "fold (\<lambda>r. put (f r) (g r)) rs m = m @ map (\<lambda>r. (f r, g r)) rs"
  using assms
proof (induction rs arbitrary: m)
  case (Cons r rs)
  have "put (f r) (g r) m = m @ [(f r, g r)]" using Cons.prems(2) by (intro put_new) auto
  then show ?case using Cons.IH[of "m @ [(f r, g r)]"] Cons.prems by auto
qed simp

section \<open>Lists\<close>

lemma filter_notin_set [simp]: "set (filter (\<lambda>x. x \<notin> A) xs) = set xs - A"
  by auto

lemma sorted_sort_set [simp]: "set (sort xs) = set xs"
  by simp

lemma sort_remdups_unique:
  fixes xs ys :: "'a::linorder list"
  assumes "set xs = set ys"
  shows "sort (remdups xs) = sort (remdups ys)"
  using assms
  by (metis sorted_list_of_set_sort_remdups)

lemma length_le_1_cases:
  assumes "length xs \<le> 1"
  obtains "xs = []" | x where "xs = [x]"
  using assms by (cases xs) auto

end
