(* ===== verification/GoStrings.thy ===== *)
theory GoStrings
  imports Prelude
begin

text \<open>
  The functions of Go's packages \<open>strings\<close>, \<open>strconv\<close> and \<open>sort\<close> that the program calls.
  A Go string is a sequence of bytes, here \<open>string\<close> (a list of 8-bit characters). Case folding
  and white space are those of ASCII: Kubernetes names, annotation keys and Azure resource
  names are ASCII.
\<close>

section \<open>Package strings\<close>

definition to_lower_char :: "char \<Rightarrow> char" where
  "to_lower_char c =
     (let n = (of_char c :: nat) in if 65 \<le> n \<and> n \<le> 90 then char_of (n + 32) else c)"

definition ToLower :: "string \<Rightarrow> string" where
  "ToLower s = map to_lower_char s"

definition to_upper_char :: "char \<Rightarrow> char" where
  "to_upper_char c =
     (let n = (of_char c :: nat) in if 97 \<le> n \<and> n \<le> 122 then char_of (n - 32) else c)"

definition ToUpper :: "string \<Rightarrow> string" where
  "ToUpper s = map to_upper_char s"

definition EqualFold :: "string \<Rightarrow> string \<Rightarrow> bool" where
  "EqualFold s t = (ToLower s = ToLower t)"

definition is_space :: "char \<Rightarrow> bool" where
  "is_space c = (let n = (of_char c :: nat) in n = 32 \<or> (9 \<le> n \<and> n \<le> 13))"

definition TrimSpace :: "string \<Rightarrow> string" where
  "TrimSpace s = rev (dropWhile is_space (rev (dropWhile is_space s)))"

definition HasPrefix :: "string \<Rightarrow> string \<Rightarrow> bool" where
  "HasPrefix s p = (take (length p) s = p)"

definition HasSuffix :: "string \<Rightarrow> string \<Rightarrow> bool" where
  "HasSuffix s p = HasPrefix (rev s) (rev p)"

fun Contains :: "string \<Rightarrow> string \<Rightarrow> bool" where
  "Contains [] p = (p = [])"
| "Contains (c # s) p = (HasPrefix (c # s) p \<or> Contains s p)"

text \<open>\<open>strings.Split(s, sep)\<close> for a non-empty separator: the pieces between the leftmost
  non-overlapping occurrences. \<open>split_acc\<close> carries the current piece reversed.\<close>

function split_acc :: "string \<Rightarrow> string \<Rightarrow> string \<Rightarrow> string list" where
  "split_acc sep acc s =
     (case s of
        [] \<Rightarrow> [rev acc]
      | c # cs \<Rightarrow>
          if sep \<noteq> [] \<and> HasPrefix s sep then rev acc # split_acc sep [] (drop (length sep) s)
          else split_acc sep (c # acc) cs)"
  by pat_completeness auto
termination
  by (relation "measure (\<lambda>(sep, acc, s). length s)") auto

declare split_acc.simps [simp del]

definition Split :: "string \<Rightarrow> string \<Rightarrow> string list" where
  "Split s sep = split_acc sep [] s"

fun Join :: "string list \<Rightarrow> string \<Rightarrow> string" where
  "Join [] sep = []"
| "Join [x] sep = x"
| "Join (x # y # xs) sep = x @ sep @ Join (y # xs) sep"

text \<open>\<open>strings.ReplaceAll(s, old, "")\<close> for a one-byte \<open>old\<close>, the only use in the program.\<close>

definition strip_char :: "char \<Rightarrow> string \<Rightarrow> string" where
  "strip_char c s = filter (\<lambda>d. d \<noteq> c) s"

section \<open>Package strconv\<close>

datatype num_error = ErrSyntax | ErrRange

definition digit_char :: "nat \<Rightarrow> char" where
  "digit_char d = char_of (48 + d)"

fun nat_digits :: "nat \<Rightarrow> string" where
  "nat_digits n = (if n < 10 then [digit_char n] else nat_digits (n div 10) @ [digit_char (n mod 10)])"

declare nat_digits.simps [simp del]

definition FormatInt :: "int \<Rightarrow> string" where
  "FormatInt i = (if i < 0 then CHR ''-'' # nat_digits (nat (- i)) else nat_digits (nat i))"

definition digit_val :: "char \<Rightarrow> nat option" where
  "digit_val c = (let n = (of_char c :: nat) in if 48 \<le> n \<and> n \<le> 57 then Some (n - 48) else None)"

fun digits_val :: "nat \<Rightarrow> string \<Rightarrow> nat option" where
  "digits_val acc [] = Some acc"
| "digits_val acc (c # cs) =
     (case digit_val c of None \<Rightarrow> None | Some d \<Rightarrow> digits_val (10 * acc + d) cs)"

definition parse_nat :: "string \<Rightarrow> nat option" where
  "parse_nat s = (if s = [] then None else digits_val 0 s)"

text \<open>\<open>strconv.ParseInt(s, 10, w)\<close>: an optional sign, decimal digits, and the range of a
  \<open>w\<close>-bit signed integer.\<close>

definition ParseInt :: "nat \<Rightarrow> string \<Rightarrow> (num_error, int) result" where
  "ParseInt w s =
     (let (neg, ds) = (case s of [] \<Rightarrow> (False, [])
                       | c # cs \<Rightarrow> if c = CHR ''-'' then (True, cs)
                                   else if c = CHR ''+'' then (False, cs) else (False, s))
      in case parse_nat ds of
           None \<Rightarrow> Inl ErrSyntax
         | Some n \<Rightarrow>
             let v = (if neg then - int n else int n)
             in if - (2 ^ (w - 1)) \<le> v \<and> v < 2 ^ (w - 1) then Inr v else Inl ErrRange)"

section \<open>Facts\<close>

lemma ToLower_idem [simp]: "ToLower (ToLower s) = ToLower s"
proof -
  have "to_lower_char (to_lower_char c) = to_lower_char c" for c
  proof (cases "65 \<le> (of_char c :: nat) \<and> (of_char c :: nat) \<le> 90")
    case True
    then have "(of_char (char_of ((of_char c :: nat) + 32) :: char) :: nat) = of_char c + 32"
      by simp
    with True show ?thesis by (simp add: to_lower_char_def Let_def)
  next
    case False
    then show ?thesis by (auto simp: to_lower_char_def Let_def)
  qed
  then show ?thesis by (simp add: ToLower_def)
qed

lemma ToLower_Nil [simp]: "ToLower [] = []" and ToLower_eq_Nil [simp]: "ToLower s = [] \<longleftrightarrow> s = []"
  by (simp_all add: ToLower_def)

lemma ToLower_append [simp]: "ToLower (s @ t) = ToLower s @ ToLower t"
  by (simp add: ToLower_def)

lemma EqualFold_refl [simp]: "EqualFold s s"
  by (simp add: EqualFold_def)

lemma EqualFold_sym: "EqualFold s t \<longleftrightarrow> EqualFold t s"
  by (auto simp: EqualFold_def)

lemma EqualFold_trans: "EqualFold s t \<Longrightarrow> EqualFold t u \<Longrightarrow> EqualFold s u"
  by (simp add: EqualFold_def)

lemma EqualFold_ToLower [simp]:
  "EqualFold (ToLower s) t = EqualFold s t" "EqualFold s (ToLower t) = EqualFold s t"
  by (simp_all add: EqualFold_def)

lemma HasPrefix_iff: "HasPrefix s p \<longleftrightarrow> (\<exists>r. s = p @ r)"
  unfolding HasPrefix_def by (metis append_eq_conv_conj append_take_drop_id)

lemma Contains_iff: "Contains s p \<longleftrightarrow> (\<exists>a b. s = a @ p @ b)"
proof (induction s)
  case Nil
  then show ?case by auto
next
  case (Cons c s)
  show ?case
  proof
    assume "Contains (c # s) p"
    then consider r where "c # s = p @ r" | a b where "s = a @ p @ b"
      using Cons by (auto simp: HasPrefix_iff)
    then show "\<exists>a b. c # s = a @ p @ b"
      by cases (metis append_Nil, metis append_Cons)
  next
    assume "\<exists>a b. c # s = a @ p @ b"
    then obtain a b where ab: "c # s = a @ p @ b" by blast
    show "Contains (c # s) p"
    proof (cases a)
      case Nil
      with ab have "HasPrefix (c # s) p" by (auto simp: HasPrefix_iff)
      then show ?thesis by simp
    next
      case (Cons d a')
      with ab have "s = a' @ p @ b" by simp
      with Cons.IH show ?thesis by auto
    qed
  qed
qed

lemma Contains_self [simp]: "Contains s s"
  unfolding Contains_iff by (rule exI[of _ "[]"]) (auto intro: exI[of _ "[]"])

lemma split_acc_ne [simp]: "split_acc sep acc s \<noteq> []"
proof (induction sep acc s rule: split_acc.induct)
  case (1 sep acc s)
  then show ?case
    by (subst split_acc.simps) (auto split: list.split)
qed

lemma Split_ne [simp]: "Split s sep \<noteq> []"
  by (simp add: Split_def)

text \<open>A string without the separator is one piece.\<close>

lemma split_acc_no_sep:
  "sep \<noteq> [] \<Longrightarrow> \<not> Contains s sep \<Longrightarrow> split_acc sep acc s = [rev acc @ s]"
proof (induction s arbitrary: acc)
  case Nil
  then show ?case by (simp add: split_acc.simps)
next
  case (Cons c s)
  then show ?case by (subst split_acc.simps) auto
qed

lemma Split_no_sep: "sep \<noteq> [] \<Longrightarrow> \<not> Contains s sep \<Longrightarrow> Split s sep = [s]"
  by (simp add: Split_def split_acc_no_sep)

text \<open>Joining what was split gives the string back.\<close>

lemma Join_Cons: "xs \<noteq> [] \<Longrightarrow> Join (x # xs) sep = x @ sep @ Join xs sep"
  by (cases xs) auto

lemma Join_split_acc: "sep \<noteq> [] \<Longrightarrow> Join (split_acc sep acc s) sep = rev acc @ s"
proof (induction sep acc s rule: split_acc.induct)
  case (1 sep acc s)
  show ?case
  proof (cases s)
    case Nil
    then show ?thesis by (simp add: split_acc.simps)
  next
    case (Cons c cs)
    show ?thesis
    proof (cases "HasPrefix s sep")
      case True
      then have "s = sep @ drop (length sep) s"
        unfolding HasPrefix_def by (metis append_take_drop_id)
      moreover have "Join (split_acc sep acc s) sep = rev acc @ sep @ drop (length sep) s"
        using 1 Cons True by (subst split_acc.simps) (simp add: Join_Cons)
      ultimately show ?thesis by simp
    next
      case False
      with 1 Cons show ?thesis by (subst split_acc.simps) simp
    qed
  qed
qed

theorem Join_Split: "sep \<noteq> [] \<Longrightarrow> Join (Split s sep) sep = s"
  by (simp add: Split_def Join_split_acc)

text \<open>Printing and parsing of decimal numbers.\<close>

lemma digit_val_digit_char: "d < 10 \<Longrightarrow> digit_val (digit_char d) = Some d"
  by (simp add: digit_val_def digit_char_def Let_def)

lemma digits_val_append:
  "digits_val acc (s @ t) = (case digits_val acc s of None \<Rightarrow> None | Some n \<Rightarrow> digits_val n t)"
  by (induction s arbitrary: acc) (auto split: option.split)

lemma nat_digits_ne [simp]: "nat_digits n \<noteq> []"
  by (subst nat_digits.simps) simp

lemma digits_val_nat_digits: "digits_val 0 (nat_digits n) = Some n"
proof (induction n rule: nat_digits.induct)
  case (1 n)
  show ?case
  proof (cases "n < 10")
    case True
    then show ?thesis by (subst nat_digits.simps) (simp add: digit_val_digit_char)
  next
    case False
    with 1 show ?thesis
      by (subst nat_digits.simps) (simp add: digits_val_append digit_val_digit_char)
  qed
qed

lemma parse_nat_nat_digits [simp]: "parse_nat (nat_digits n) = Some n"
  by (simp add: parse_nat_def digits_val_nat_digits)

lemma nat_digits_set: "set (nat_digits n) \<subseteq> digit_char ` {..<10}"
proof (induction n rule: nat_digits.induct)
  case (1 n)
  then show ?case by (subst nat_digits.simps) auto
qed

lemma digit_val_sign: "digit_val CHR ''-'' = None" "digit_val CHR ''+'' = None"
  by (simp_all add: digit_val_def)

lemma nat_digits_digit: "c \<in> set (nat_digits n) \<Longrightarrow> digit_val c \<noteq> None"
  using nat_digits_set[of n] by (auto simp: digit_val_digit_char dest!: subsetD)

lemma nat_digits_no_sign: "CHR ''-'' \<notin> set (nat_digits n)" "CHR ''+'' \<notin> set (nat_digits n)"
  using nat_digits_digit[of "CHR ''-''" n] nat_digits_digit[of "CHR ''+''" n]
  by (auto simp only: digit_val_sign)

theorem ParseInt_FormatInt:
  assumes "- (2 ^ (w - 1)) \<le> i" "i < 2 ^ (w - 1)"
  shows "ParseInt w (FormatInt i) = Inr i"
proof (cases "i < 0")
  case True
  then have "ParseInt w (FormatInt i) = Inr (- int (nat (- i)))"
    using assms by (simp add: ParseInt_def FormatInt_def)
  with True show ?thesis by simp
next
  case False
  obtain c cs where c: "nat_digits (nat i) = c # cs"
    by (cases "nat_digits (nat i)") auto
  then have "c \<noteq> CHR ''-''" "c \<noteq> CHR ''+''"
    using nat_digits_no_sign[of "nat i"] by auto
  moreover have "parse_nat (c # cs) = Some (nat i)"
    using parse_nat_nat_digits[of "nat i"] c by simp
  ultimately show ?thesis
    using assms False by (simp add: ParseInt_def FormatInt_def c)
qed

lemma nat_digits_inj: "nat_digits m = nat_digits n \<Longrightarrow> m = n"
  by (metis digits_val_nat_digits option.inject)

lemma FormatInt_inj: "FormatInt i = FormatInt j \<longleftrightarrow> i = j"
proof
  assume eq: "FormatInt i = FormatInt j"
  have neg: "k < 0 \<longleftrightarrow> CHR ''-'' \<in> set (FormatInt k)" for k
    by (simp add: FormatInt_def nat_digits_no_sign)
  with eq have "i < 0 \<longleftrightarrow> j < 0" by metis
  with eq have "nat (- i) = nat (- j) \<or> \<not> i < 0" "nat i = nat j \<or> i < 0"
    by (auto simp: FormatInt_def dest: nat_digits_inj)
  with \<open>i < 0 \<longleftrightarrow> j < 0\<close> show "i = j" by auto
qed simp

end
