(* ===== verification/NetIP.thy ===== *)
theory NetIP
  imports GoStrings "HOL-Library.Word" "HOL-Library.Product_Lexorder"
begin

unbundle bit_operations_syntax

text \<open>
  The types \<open>Addr\<close> and \<open>Prefix\<close> of Go's package \<open>net/netip\<close>, with the operations the program
  calls: parsing, printing, masking, comparison and overlap. An IPv4 address is a 32-bit word,
  an IPv6 address a 128-bit word with a zone (an IPv4-mapped IPv6 address is an IPv6 address,
  as in Go). The zero \<open>Addr\<close> and \<open>Prefix\<close>, which Go returns beside an error, are the error
  branch of the result type.
\<close>

type_synonym byte = "8 word"

datatype Addr = Addr4 "32 word" | Addr6 "128 word" string

record Prefix =
  pAddr :: Addr
  pBits :: nat

section \<open>Addresses\<close>

fun Is4 :: "Addr \<Rightarrow> bool" where
  "Is4 (Addr4 _) = True"
| "Is4 (Addr6 _ _) = False"

fun Is6 :: "Addr \<Rightarrow> bool" where
  "Is6 (Addr4 _) = False"
| "Is6 (Addr6 _ _) = True"

fun BitLen :: "Addr \<Rightarrow> nat" where
  "BitLen (Addr4 _) = 32"
| "BitLen (Addr6 _ _) = 128"

text \<open>Big-endian bytes of a word and back, and \<open>Addr.AsSlice\<close>.\<close>

definition be_bytes :: "nat \<Rightarrow> 'a::len word \<Rightarrow> byte list" where
  "be_bytes n w = map (\<lambda>k. ucast (drop_bit (8 * (n - 1 - k)) w)) [0..<n]"

fun be_word :: "byte list \<Rightarrow> 'a::len word" where
  "be_word [] = 0"
| "be_word (b # bs) = push_bit (8 * length bs) (ucast b) OR be_word bs"

fun AsSlice :: "Addr \<Rightarrow> byte list" where
  "AsSlice (Addr4 w) = be_bytes 4 w"
| "AsSlice (Addr6 w _) = be_bytes 16 w"

text \<open>\<open>Addr.Compare\<close> orders by bit length, then by value, then by zone; the sign of its
  result is all the program uses.\<close>

fun addr_key :: "Addr \<Rightarrow> nat \<times> nat \<times> string" where
  "addr_key (Addr4 w) = (32, unat w, [])"
| "addr_key (Addr6 w z) = (128, unat w, z)"

definition addr_less :: "Addr \<Rightarrow> Addr \<Rightarrow> bool" where
  "addr_less a b = (addr_key a < addr_key b)"

section \<open>Prefixes\<close>

text \<open>\<open>Addr.Prefix(b)\<close>: keeps the top \<open>b\<close> bits and drops the zone; an error when \<open>b\<close> exceeds
  the bit length.\<close>

fun addr_Prefix :: "Addr \<Rightarrow> nat \<Rightarrow> Prefix option" where
  "addr_Prefix (Addr4 w) b =
     (if b \<le> 32 then Some \<lparr>pAddr = Addr4 (w AND NOT (mask (32 - b))), pBits = b\<rparr> else None)"
| "addr_Prefix (Addr6 w z) b =
     (if b \<le> 128 then Some \<lparr>pAddr = Addr6 (w AND NOT (mask (128 - b))) [], pBits = b\<rparr> else None)"

definition prefix_IsValid :: "Prefix \<Rightarrow> bool" where
  "prefix_IsValid p =
     (pBits p \<le> BitLen (pAddr p) \<and> (case pAddr p of Addr4 _ \<Rightarrow> True | Addr6 _ z \<Rightarrow> z = []))"

definition Masked :: "Prefix \<Rightarrow> Prefix option" where
  "Masked p = addr_Prefix (pAddr p) (pBits p)"

definition Overlaps :: "Prefix \<Rightarrow> Prefix \<Rightarrow> bool" where
  "Overlaps p q =
     (if \<not> prefix_IsValid p \<or> \<not> prefix_IsValid q then False
      else if p = q then True
      else if Is4 (pAddr p) \<noteq> Is4 (pAddr q) then False
      else let minBits = min (pBits p) (pBits q)
           in if minBits = 0 then True
              else case (addr_Prefix (pAddr p) minBits, addr_Prefix (pAddr q) minBits) of
                     (Some p', Some q') \<Rightarrow> pAddr p' = pAddr q'
                   | _ \<Rightarrow> False)"

text \<open>\<open>Prefix.Contains\<close>: an address with a zone is in no prefix.\<close>

definition prefix_Contains :: "Prefix \<Rightarrow> Addr \<Rightarrow> bool" where
  "prefix_Contains p a =
     (prefix_IsValid p \<and>
      (case (pAddr p, a) of
         (Addr4 v, Addr4 w) \<Rightarrow> drop_bit (32 - pBits p) (v XOR w) = 0
       | (Addr6 v _, Addr6 w z) \<Rightarrow> z = [] \<and> drop_bit (128 - pBits p) (v XOR w) = 0
       | _ \<Rightarrow> False))"

section \<open>Printing\<close>

definition dotted :: "byte list \<Rightarrow> string" where
  "dotted bs = Join (map (\<lambda>b. nat_digits (unat b)) bs) ''.''"

definition hex_char :: "nat \<Rightarrow> char" where
  "hex_char d = (if d < 10 then char_of (48 + d) else char_of (87 + d))"

fun hex_digits :: "nat \<Rightarrow> string" where
  "hex_digits n = (if n < 16 then [hex_char n] else hex_digits (n div 16) @ [hex_char (n mod 16)])"

declare hex_digits.simps [simp del]

definition v6_groups :: "128 word \<Rightarrow> nat list" where
  "v6_groups w = map (\<lambda>k. unat (ucast (drop_bit (16 * (7 - k)) w) :: 16 word)) [0..<8]"

definition zero_run :: "nat list \<Rightarrow> nat \<Rightarrow> nat" where
  "zero_run gs i = length (takeWhile (\<lambda>g. g = 0) (drop i gs))"

text \<open>The longest run of at least two zero groups, the first of equal ones.\<close>

fun best_run :: "nat list \<Rightarrow> nat list \<Rightarrow> nat \<times> nat \<Rightarrow> nat \<times> nat" where
  "best_run gs [] best = best"
| "best_run gs (i # is) (s, l) =
     (let r = zero_run gs i in best_run gs is (if 2 \<le> r \<and> l < r then (i, r) else (s, l)))"

definition v6_text :: "128 word \<Rightarrow> string" where
  "v6_text w =
     (let gs = v6_groups w; (s, l) = best_run gs [0..<8] (255, 0); hs = map hex_digits gs
      in if l = 0 then Join hs '':''
         else Join (take s hs) '':'' @ ''::'' @ Join (drop (s + l) hs) '':'')"

definition Is4In6 :: "128 word \<Rightarrow> bool" where
  "Is4In6 w = (drop_bit 32 w = 0xffff)"

fun addr_String :: "Addr \<Rightarrow> string" where
  "addr_String (Addr4 w) = dotted (be_bytes 4 w)"
| "addr_String (Addr6 w z) =
     (if Is4In6 w then ''::ffff:'' @ dotted (be_bytes 4 (ucast w :: 32 word)) else v6_text w) @
     (if z = [] then [] else CHR ''%'' # z)"

definition prefix_String :: "Prefix \<Rightarrow> string" where
  "prefix_String p = addr_String (pAddr p) @ CHR ''/'' # nat_digits (pBits p)"

section \<open>Parsing\<close>

text \<open>One field of a dotted address: decimal digits, no leading zero, at most 255.\<close>

definition parse_octet :: "string \<Rightarrow> byte option" where
  "parse_octet s =
     (if 1 < length s \<and> hd s = CHR ''0'' then None
      else case parse_nat s of None \<Rightarrow> None
           | Some n \<Rightarrow> if n \<le> 255 then Some (of_nat n) else None)"

definition parse_v4_fields :: "string \<Rightarrow> byte list option" where
  "parse_v4_fields s =
     (let fs = map parse_octet (Split s ''.'')
      in if length fs = 4 \<and> None \<notin> set fs then Some (map the fs) else None)"

definition parseIPv4 :: "string \<Rightarrow> Addr option" where
  "parseIPv4 s = map_option (\<lambda>bs. Addr4 (be_word bs)) (parse_v4_fields s)"

definition hex_val :: "char \<Rightarrow> nat option" where
  "hex_val c =
     (let n = (of_char c :: nat)
      in if 48 \<le> n \<and> n \<le> 57 then Some (n - 48)
         else if 97 \<le> n \<and> n \<le> 102 then Some (n - 87)
         else if 65 \<le> n \<and> n \<le> 70 then Some (n - 55) else None)"

fun take_hex :: "string \<Rightarrow> nat list \<times> string" where
  "take_hex [] = ([], [])"
| "take_hex (c # cs) =
     (case hex_val c of None \<Rightarrow> ([], c # cs)
      | Some d \<Rightarrow> let (ds, r) = take_hex cs in (d # ds, r))"

text \<open>The loop of \<open>parseIPv6\<close> over the colon-separated fields. \<open>fuel\<close> is the number of 16-bit
  fields still free (eight at the start, the loop's bound \<open>i < 16\<close>), \<open>bs\<close> the bytes read so far and \<open>ell\<close> the
  position of the ellipsis. The result is the bytes, the ellipsis and the unread rest.\<close>

fun v6_fields :: "nat \<Rightarrow> string \<Rightarrow> byte list \<Rightarrow> nat option \<Rightarrow> (byte list \<times> nat option \<times> string) option" where
  "v6_fields 0 s bs ell = Some (bs, ell, s)"
| "v6_fields (Suc fuel) s bs ell =
     (let (ds, r) = take_hex s
      in if ds = [] \<or> 4 < length ds then None
         else if r \<noteq> [] \<and> hd r = CHR ''.'' then
           (if (ell = None \<and> length bs \<noteq> 12) \<or> 16 < length bs + 4 then None
            else case parse_v4_fields s of None \<Rightarrow> None
                 | Some q \<Rightarrow> Some (bs @ q, ell, []))
         else
           let acc = foldl (\<lambda>a d. 16 * a + d) 0 ds;
               bs' = bs @ be_bytes 2 (of_nat acc :: 16 word)
           in case r of
                [] \<Rightarrow> Some (bs', ell, [])
              | c # r1 \<Rightarrow>
                  if c \<noteq> CHR '':'' \<or> r1 = [] then None
                  else if hd r1 = CHR '':'' then
                    (if ell \<noteq> None then None
                     else if tl r1 = [] then Some (bs', Some (length bs'), [])
                     else v6_fields fuel (tl r1) bs' (Some (length bs')))
                  else v6_fields fuel r1 bs' ell)"

definition v6_finish :: "byte list \<Rightarrow> nat option \<Rightarrow> string \<Rightarrow> 128 word option" where
  "v6_finish bs ell rest =
     (if rest \<noteq> [] then None
      else if length bs < 16 then
        (case ell of None \<Rightarrow> None
         | Some e \<Rightarrow> Some (be_word (take e bs @ replicate (16 - length bs) 0 @ drop e bs)))
      else if ell \<noteq> None then None else Some (be_word bs))"

definition parseIPv6 :: "string \<Rightarrow> Addr option" where
  "parseIPv6 inp =
     (let s = takeWhile (\<lambda>c. c \<noteq> CHR ''%'') inp;
          rest = dropWhile (\<lambda>c. c \<noteq> CHR ''%'') inp; zone = tl rest
      in if rest \<noteq> [] \<and> zone = [] then None
         else if HasPrefix s ''::'' then
           (if drop 2 s = [] then Some (Addr6 0 zone)
            else case v6_fields 8 (drop 2 s) [] (Some 0) of None \<Rightarrow> None
                 | Some (bs, ell, r) \<Rightarrow> map_option (\<lambda>w. Addr6 w zone) (v6_finish bs ell r))
         else case v6_fields 8 s [] None of None \<Rightarrow> None
              | Some (bs, ell, r) \<Rightarrow> map_option (\<lambda>w. Addr6 w zone) (v6_finish bs ell r))"

definition ParseAddr :: "string \<Rightarrow> Addr option" where
  "ParseAddr s =
     (case filter (\<lambda>c. c \<in> {CHR ''.'', CHR '':'', CHR ''%''}) s of
        [] \<Rightarrow> None
      | c # _ \<Rightarrow> if c = CHR ''.'' then parseIPv4 s
                 else if c = CHR '':'' then parseIPv6 s else None)"

text \<open>\<open>netip.ParsePrefix\<close>: the text after the last slash is the length, without sign or leading
  zero; a zone is refused.\<close>

definition parse_bits :: "string \<Rightarrow> nat option" where
  "parse_bits s = (if 1 < length s \<and> hd s = CHR ''0'' then None else parse_nat s)"

definition netip_ParsePrefix :: "string \<Rightarrow> Prefix option" where
  "netip_ParsePrefix s =
     (let b = rev (takeWhile (\<lambda>c. c \<noteq> CHR ''/'') (rev s));
          a = rev (tl (dropWhile (\<lambda>c. c \<noteq> CHR ''/'') (rev s)))
      in if CHR ''/'' \<notin> set s then None
         else case (ParseAddr a, parse_bits b) of
                (Some ip, Some n) \<Rightarrow>
                  (if (case ip of Addr4 _ \<Rightarrow> False | Addr6 _ z \<Rightarrow> z \<noteq> []) \<or> BitLen ip < n then None
                   else Some \<lparr>pAddr = ip, pBits = n\<rparr>)
              | _ \<Rightarrow> None)"

end
