(* ===== verification/GoNet.thy ===== *)
theory GoNet
  imports NetIP
begin

unbundle bit_operations_syntax

text \<open>
  The types \<open>IP\<close>, \<open>IPMask\<close> and \<open>IPNet\<close> of Go's package \<open>net\<close> and the big-endian accessors of
  \<open>encoding/binary\<close>. An \<open>IP\<close> and an \<open>IPMask\<close> are byte slices of any length, as in Go; a nil slice
  is the empty list. A pointer that may be nil is an option.
\<close>

type_synonym IP = "byte list"
type_synonym IPMask = "byte list"

record IPNet =
  ipn_IP :: IP
  ipn_Mask :: IPMask

section \<open>Byte access\<close>

text \<open>\<open>binary.BigEndian.Uint32\<close> and \<open>Uint64\<close> read the first bytes of the slice. They panic on a shorter
  slice, which the callers exclude or handle. \<open>PutUint32\<close> and \<open>PutUint64\<close> on a fresh slice of
  that length write \<open>be_bytes\<close>.\<close>

definition Uint32 :: "byte list \<Rightarrow> 32 word" where
  "Uint32 bs = be_word (take 4 bs)"

definition Uint64 :: "byte list \<Rightarrow> 64 word" where
  "Uint64 bs = be_word (take 8 bs)"

text \<open>\<open>big.Int.SetBytes\<close>: the value of the bytes, most significant first.\<close>

fun SetBytes :: "byte list \<Rightarrow> int" where
  "SetBytes [] = 0"
| "SetBytes (b # bs) = uint b * 256 ^ length bs + SetBytes bs"

text \<open>Shifts of a word by an unsigned amount: all bits are lost when the amount reaches the width.\<close>

definition shl :: "'a::len word \<Rightarrow> nat \<Rightarrow> 'a word" where
  "shl w k = (if k < LENGTH('a) then push_bit k w else 0)"

definition shr :: "'a::len word \<Rightarrow> nat \<Rightarrow> 'a word" where
  "shr w k = (if k < LENGTH('a) then drop_bit k w else 0)"

text \<open>The conversion of an \<open>int\<close> to \<open>uint32\<close>, as a shift amount.\<close>

definition shift32 :: "int \<Rightarrow> nat" where
  "shift32 k = nat (k mod 2 ^ 32)"

text \<open>\<open>1 << k\<close> at type \<open>int\<close> (64 bits).\<close>

definition int_shl1 :: "nat \<Rightarrow> int" where
  "int_shl1 k = sint (shl (1 :: 64 word) k)"

definition LeadingZeros64 :: "64 word \<Rightarrow> nat" where
  "LeadingZeros64 w = length (takeWhile Not (map (\<lambda>i. bit w (63 - i)) [0..<64]))"

section \<open>IP\<close>

definition v4InV6Prefix :: "byte list" where
  "v4InV6Prefix = [0, 0, 0, 0, 0, 0, 0, 0, 0, 0, 0xff, 0xff]"

definition To4 :: "IP \<Rightarrow> IP option" where
  "To4 ip =
     (if length ip = 4 then Some ip
      else if length ip = 16 \<and> take 12 ip = v4InV6Prefix then Some (drop 12 ip)
      else None)"

definition To16 :: "IP \<Rightarrow> IP option" where
  "To16 ip =
     (if length ip = 4 then Some (v4InV6Prefix @ ip)
      else if length ip = 16 then Some ip else None)"

definition ip_Mask :: "IP \<Rightarrow> IPMask \<Rightarrow> IP" where
  "ip_Mask ip0 mask0 =
     (let mask = (if length mask0 = 16 \<and> length ip0 = 4 \<and> (\<forall>b \<in> set (take 12 mask0). b = 0xff)
                  then drop 12 mask0 else mask0);
          ip = (if length mask = 4 \<and> length ip0 = 16 \<and> take 12 ip0 = v4InV6Prefix
                then drop 12 ip0 else ip0)
      in if length ip \<noteq> length mask then [] else map2 (AND) ip mask)"

definition ip_String :: "IP \<Rightarrow> string" where
  "ip_String ip =
     (if ip = [] then ''<nil>''
      else case To4 ip of
             Some p4 \<Rightarrow> addr_String (Addr4 (be_word p4))
           | None \<Rightarrow>
               if length ip = 16 then addr_String (Addr6 (be_word ip) [])
               else CHR ''?'' # concat (map (\<lambda>b. [hex_char (unat b div 16), hex_char (unat b mod 16)]) ip))"

section \<open>IPMask\<close>

text \<open>The \<open>k\<close>-th byte of a mask with the given number of ones.\<close>

definition mask_byte :: "nat \<Rightarrow> nat \<Rightarrow> byte" where
  "mask_byte ones k = (if 8 * (k + 1) \<le> ones then 0xff else if ones \<le> 8 * k then 0
                       else NOT (mask (8 - (ones - 8 * k))))"

definition CIDRMask :: "int \<Rightarrow> int \<Rightarrow> IPMask" where
  "CIDRMask ones bits =
     (if (bits = 32 \<or> bits = 128) \<and> 0 \<le> ones \<and> ones \<le> bits
      then map (mask_byte (nat ones)) [0..<nat bits div 8] else [])"

text \<open>\<open>simpleMaskLength\<close>: the number of leading ones, \<open>-1\<close> when a one follows a zero.\<close>

definition byte_bits :: "byte \<Rightarrow> bool list" where
  "byte_bits b = map (\<lambda>i. bit b (7 - i)) [0..<8]"

definition simpleMaskLength :: "IPMask \<Rightarrow> int" where
  "simpleMaskLength m =
     (let bs = concat (map byte_bits m); n = length (takeWhile id bs)
      in if list_all Not (drop n bs) then int n else -1)"

definition mask_Size :: "IPMask \<Rightarrow> int \<times> int" where
  "mask_Size m = (let ones = simpleMaskLength m in if ones = -1 then (0, 0) else (ones, int (length m * 8)))"

section \<open>IPNet\<close>

definition networkNumberAndMask :: "IPNet \<Rightarrow> (IP \<times> IPMask) option" where
  "networkNumberAndMask n =
     (case (case To4 (ipn_IP n) of Some ip \<Rightarrow> Some ip
            | None \<Rightarrow> if length (ipn_IP n) = 16 then Some (ipn_IP n) else None) of
        None \<Rightarrow> None
      | Some ip \<Rightarrow>
          let m = ipn_Mask n
          in if length m = 4 then (if length ip \<noteq> 4 then None else Some (ip, m))
             else if length m = 16 then Some (ip, if length ip = 4 then drop 12 m else m)
             else None)"

definition net_Contains :: "IPNet \<Rightarrow> IP \<Rightarrow> bool" where
  "net_Contains n ip0 =
     (let (nn, m) = (case networkNumberAndMask n of None \<Rightarrow> ([], []) | Some x \<Rightarrow> x);
          ip = (case To4 ip0 of Some x \<Rightarrow> x | None \<Rightarrow> ip0)
      in length ip = length nn \<and>
         list_all (\<lambda>i. nn ! i AND m ! i = ip ! i AND m ! i) [0..<length ip])"

definition net_String :: "IPNet \<Rightarrow> string" where
  "net_String n =
     (case networkNumberAndMask n of
        None \<Rightarrow> ''<nil>''
      | Some (nn, m) \<Rightarrow>
          let l = simpleMaskLength m
          in ip_String nn @ CHR ''/'' #
             (if l = -1 then concat (map (\<lambda>b. [hex_char (unat b div 16), hex_char (unat b mod 16)]) m)
              else FormatInt l))"

text \<open>\<open>net.ParseCIDR\<close>: the address part must have no zone, the length part consists of decimal digits
  (leading zeros included) and does not exceed the bit length. Only the network is kept, the caller's
  second result.\<close>

definition As16 :: "Addr \<Rightarrow> IP" where
  "As16 a = (case a of Addr4 w \<Rightarrow> v4InV6Prefix @ be_bytes 4 w | Addr6 w _ \<Rightarrow> be_bytes 16 w)"

definition ParseCIDR :: "string \<Rightarrow> IPNet option" where
  "ParseCIDR s =
     (if CHR ''/'' \<notin> set s then None
      else let addr = takeWhile (\<lambda>c. c \<noteq> CHR ''/'') s; msk = tl (dropWhile (\<lambda>c. c \<noteq> CHR ''/'') s)
           in case (ParseAddr addr, parse_nat msk) of
                (Some a, Some n) \<Rightarrow>
                  if (case a of Addr4 _ \<Rightarrow> False | Addr6 _ z \<Rightarrow> z \<noteq> []) \<or> BitLen a < n then None
                  else let m = CIDRMask (int n) (int (BitLen a))
                       in Some \<lparr>ipn_IP = ip_Mask (As16 a) m, ipn_Mask = m\<rparr>
              | _ \<Rightarrow> None)"

text \<open>\<open>IsIPv6CIDR\<close> of \<open>k8s.io/utils/net\<close>; the family of a nil network is unknown.\<close>

definition IsIPv6CIDR :: "IPNet option \<Rightarrow> bool" where
  "IsIPv6CIDR cidr =
     (case cidr of None \<Rightarrow> False | Some n \<Rightarrow> To4 (ipn_IP n) = None \<and> To16 (ipn_IP n) \<noteq> None)"

end
