(* ===== verification/CidrSet.thy ===== *)
theory CidrSet
  imports GoNet
begin

unbundle bit_operations_syntax

text \<open>
  \<open>pkg/nodeipam/ipam/cidrset/cidr_set.go\<close>: the set of node CIDRs of one cluster CIDR. The bitmap
  \<open>used\<close> (a \<open>big.Int\<close>) is an integer read bit by bit, Go's \<open>int\<close> is an integer, and the \<open>uint32\<close> and
  \<open>uint64\<close> computations are on words of that width. Every method holds the mutex while it changes
  the set, so it is one step; the Prometheus metrics are left out.
\<close>

section \<open>State and errors\<close>

record CidrSet =
  clusterCIDR :: IPNet
  clusterMaskSize :: int
  nodeMask :: IPMask
  nodeMaskSize :: int
  maxCIDRs :: int
  allocatedCIDRs :: int
  nextCandidate :: int
  used :: int
  cs_label :: string

datatype cidr_error =
    ErrCIDRRangeNoCIDRsRemaining
  | ErrCIDRSetSubNetTooBig
  | NilCIDR IPNet
  | OutOfClusterRange IPNet IPNet
  | OutOfAllocatorRange IP int
  | InvalidIP IP
  | InvalidCIDRAddress string
  | UpdateParse string cidr_error
  | UpdateIndices IPNet cidr_error
  | CidrPanic panic

fun cidr_error_string :: "cidr_error \<Rightarrow> string" where
  "cidr_error_string ErrCIDRRangeNoCIDRsRemaining =
     ''CIDR allocation failed; there are no remaining CIDRs left to allocate in the accepted range''"
| "cidr_error_string ErrCIDRSetSubNetTooBig = ''New CIDR set failed; the node CIDR size is too big''"
| "cidr_error_string (NilCIDR cluster) =
     ''error getting indices for cluster cidr '' @ net_String cluster @ '', cidr is nil''"
| "cidr_error_string (OutOfClusterRange cidr cluster) =
     ''cidr '' @ net_String cidr @ '' is out the range of cluster cidr '' @ net_String cluster"
| "cidr_error_string (OutOfAllocatorRange ip m) =
     ''CIDR: '' @ ip_String ip @ ''/'' @ FormatInt m @ '' is out of the range of CIDR allocator''"
| "cidr_error_string (InvalidIP ip) = ''invalid IP: '' @ ip_String ip"
| "cidr_error_string (InvalidCIDRAddress s) = ''invalid CIDR address: '' @ s"
| "cidr_error_string (UpdateParse s e) =
     ''UpdateSubnetMaskSize: failed to parse allocated pod CIDR '' @ s @ '': '' @ cidr_error_string e"
| "cidr_error_string (UpdateIndices cidr e) =
     ''UpdateSubnetMaskSize: failed to parse the beginning and ending indices of the cidr '' @
     net_String cidr @ '': '' @ cidr_error_string e"
| "cidr_error_string (CidrPanic _) = []"

definition clusterSubnetMaxDiff :: int where
  "clusterSubnetMaxDiff = 16"

section \<open>Construction\<close>

definition NewCIDRSet :: "IPNet \<Rightarrow> int \<Rightarrow> (cidr_error, CidrSet) result" where
  "NewCIDRSet cluster subNetMaskSize =
     (let (clusterSize, bits) = mask_Size (ipn_Mask cluster)
      in if To4 (ipn_IP cluster) = None \<and> clusterSubnetMaxDiff < subNetMaskSize - clusterSize
         then Inl ErrCIDRSetSubNetTooBig
         else Inr \<lparr>clusterCIDR = cluster, clusterMaskSize = clusterSize,
                   nodeMask = CIDRMask subNetMaskSize bits, nodeMaskSize = subNetMaskSize,
                   maxCIDRs = int_shl1 (shift32 (subNetMaskSize - clusterSize)),
                   allocatedCIDRs = 0, nextCandidate = 0, used = 0, cs_label = net_String cluster\<rparr>)"

section \<open>Blocks and indices\<close>

text \<open>The \<open>index\<close>-th block; a \<open>nodeMaskSize\<close> of zero stands for the set's own. An IP that is neither IPv4
  nor IPv6 leaves the zero \<open>IPNet\<close>.\<close>

definition indexToCIDRBlock :: "CidrSet \<Rightarrow> int \<Rightarrow> int \<Rightarrow> IPNet" where
  "indexToCIDRBlock s index maskSize0 =
     (let maskSize = (if maskSize0 = 0 then nodeMaskSize s else maskSize0);
          clusterIP = ipn_IP (clusterCIDR s)
      in if To4 clusterIP \<noteq> None then
           let j = shl (of_int index :: 32 word) (shift32 (32 - nodeMaskSize s));
               ipInt = Uint32 clusterIP OR j
           in \<lparr>ipn_IP = be_bytes 4 ipInt, ipn_Mask = CIDRMask maskSize 32\<rparr>
         else if To16 clusterIP \<noteq> None then
           let left = Uint64 (take 8 clusterIP);
               right = Uint64 (drop 8 clusterIP);
               idx = (of_int index :: 64 word);
               (left', right') =
                 (if nodeMaskSize s \<le> 64
                  then (left OR shl idx (nat ((64 - nodeMaskSize s) mod 2 ^ 64)), right)
                  else
                    let left1 =
                          (if clusterMaskSize s < 64 then
                             let btl = nat ((nodeMaskSize s - 64) mod 2 ^ 64);
                                 indexMaxBit = 64 - LeadingZeros64 idx
                             in if btl < indexMaxBit then left OR shr idx btl else left
                           else left)
                    in (left1, right OR shl idx (nat ((128 - nodeMaskSize s) mod 2 ^ 64))))
           in \<lparr>ipn_IP = be_bytes 8 left' @ be_bytes 8 right', ipn_Mask = CIDRMask maskSize 128\<rparr>
         else \<lparr>ipn_IP = [], ipn_Mask = []\<rparr>)"

definition getIndexForIP :: "CidrSet \<Rightarrow> IP \<Rightarrow> (cidr_error, int) result" where
  "getIndexForIP s ip =
     (case To4 ip of
        Some ip4 \<Rightarrow>
          let cidrIndex = shr (Uint32 (ipn_IP (clusterCIDR s)) XOR Uint32 ip4)
                              (shift32 (32 - nodeMaskSize s))
          in if (of_int (maxCIDRs s) :: 32 word) \<le> cidrIndex
             then Inl (OutOfAllocatorRange ip (nodeMaskSize s))
             else Inr (uint cidrIndex)
      | None \<Rightarrow>
          if To16 ip \<noteq> None then
            let bigIP = SetBytes (ipn_IP (clusterCIDR s)) XOR SetBytes ip;
                cidrIndexBig = drop_bit (nat ((128 - nodeMaskSize s) mod 2 ^ 64)) bigIP;
                cidrIndex = (of_int cidrIndexBig :: 64 word)
            in if (of_int (maxCIDRs s) :: 64 word) \<le> cidrIndex
               then Inl (OutOfAllocatorRange ip (nodeMaskSize s))
               else Inr (sint cidrIndex)
          else Inl (InvalidIP ip))"

definition getIndexForCIDR :: "CidrSet \<Rightarrow> IPNet \<Rightarrow> (cidr_error, int) result" where
  "getIndexForCIDR s cidr = getIndexForIP s (ipn_IP cidr)"

text \<open>The last address of a CIDR, the all-ones host part. \<open>binary.BigEndian\<close> panics on a mask that is too
  short for the address.\<close>

definition lastIP :: "IPNet \<Rightarrow> (cidr_error, IP) result" where
  "lastIP cidr =
     (if To4 (ipn_IP cidr) \<noteq> None then
        if length (ipn_Mask cidr) < 4 then Inl (CidrPanic IndexOutOfRange)
        else Inr (be_bytes 4 (Uint32 (ipn_IP cidr) OR NOT (Uint32 (ipn_Mask cidr))))
      else
        if length (ipn_Mask cidr) < 16 \<or> length (ipn_IP cidr) < 16 then Inl (CidrPanic IndexOutOfRange)
        else Inr (be_bytes 8 (Uint64 (take 8 (ipn_IP cidr)) OR NOT (Uint64 (take 8 (ipn_Mask cidr)))) @
                  be_bytes 8 (Uint64 (drop 8 (ipn_IP cidr)) OR NOT (Uint64 (drop 8 (ipn_Mask cidr))))))"

definition getBeginningAndEndIndices :: "CidrSet \<Rightarrow> IPNet option \<Rightarrow> (cidr_error, int \<times> int) result" where
  "getBeginningAndEndIndices s cidr0 =
     (case cidr0 of
        None \<Rightarrow> Inl (NilCIDR (clusterCIDR s))
      | Some cidr \<Rightarrow>
          let (maskSize, _) = mask_Size (ipn_Mask cidr);
              cluster = clusterCIDR s
          in if \<not> net_Contains cluster (ip_Mask (ipn_IP cidr) (ipn_Mask cluster)) \<and>
                \<not> net_Contains cidr (ip_Mask (ipn_IP cluster) (ipn_Mask cidr))
             then Inl (OutOfClusterRange cidr cluster)
             else if clusterMaskSize s < maskSize then
               (case getIndexForCIDR s \<lparr>ipn_IP = ip_Mask (ipn_IP cidr) (nodeMask s), ipn_Mask = nodeMask s\<rparr> of
                  Inl e \<Rightarrow> Inl e
                | Inr begin \<Rightarrow>
                    (case lastIP cidr of
                       Inl e \<Rightarrow> Inl e
                     | Inr ip \<Rightarrow>
                         (case getIndexForCIDR s \<lparr>ipn_IP = ip_Mask ip (nodeMask s), ipn_Mask = nodeMask s\<rparr> of
                            Inl e \<Rightarrow> Inl e
                          | Inr end' \<Rightarrow> Inr (begin, end'))))
             else Inr (0, maxCIDRs s - 1))"

section \<open>Allocation\<close>

text \<open>The search of \<open>AllocateNext\<close>: at most \<open>n\<close> (that is \<open>maxCIDRs\<close>) candidates are looked at.\<close>

fun next_free :: "CidrSet \<Rightarrow> nat \<Rightarrow> int \<Rightarrow> int" where
  "next_free s 0 candidate = candidate"
| "next_free s (Suc n) candidate =
     (if \<not> bit (used s) (nat candidate) then candidate
      else next_free s n ((candidate + 1) mod maxCIDRs s))"

definition AllocateNext :: "CidrSet \<Rightarrow> CidrSet \<times> (cidr_error, IPNet) result" where
  "AllocateNext s =
     (if allocatedCIDRs s = maxCIDRs s then (s, Inl ErrCIDRRangeNoCIDRsRemaining)
      else if maxCIDRs s = 0 then (s, Inl (CidrPanic (ExplicitPanic ''integer divide by zero'')))
      else
        let candidate = next_free s (nat (maxCIDRs s)) (nextCandidate s);
            s' = s\<lparr>nextCandidate := (candidate + 1) mod maxCIDRs s,
                   used := set_bit (nat candidate) (used s),
                   allocatedCIDRs := allocatedCIDRs s + 1\<rparr>
        in (s', Inr (indexToCIDRBlock s' candidate 0)))"

text \<open>The first aligned run of \<open>n\<close> free indices. The step of the loop is \<open>n\<close>, so the loop ends when
  \<open>n\<close> is positive.\<close>

definition run_free :: "int \<Rightarrow> int \<Rightarrow> int \<Rightarrow> bool" where
  "run_free u i n \<longleftrightarrow>
     \<not> bit u (nat i) \<and> list_all (\<lambda>j. \<not> bit u (nat (i + j))) [1..n - 1]"

partial_function (option) find_run :: "int \<Rightarrow> int \<Rightarrow> int \<Rightarrow> int \<Rightarrow> int option option" where
  "find_run u limit n i =
     (if i < limit then
        if run_free u i n then Some (Some i) else find_run u limit n (i + n)
      else Some None)"

definition AllocateNextWithNodeMaskSize :: "CidrSet \<Rightarrow> int \<Rightarrow> (CidrSet \<times> (cidr_error, IPNet) result) option" where
  "AllocateNextWithNodeMaskSize s maskSize =
     (if nodeMaskSize s < maskSize then Some (s, Inl (CidrPanic (ExplicitPanic ''negative shift amount'')))
      else
        let relativeSize = int_shl1 (nat (nodeMaskSize s - maskSize))
        in if maxCIDRs s - allocatedCIDRs s < relativeSize
           then Some (s, Inl ErrCIDRRangeNoCIDRsRemaining)
           else
             (case find_run (used s) (maxCIDRs s - (relativeSize - 1)) relativeSize 0 of
                None \<Rightarrow> None
              | Some None \<Rightarrow> Some (s, Inl ErrCIDRRangeNoCIDRsRemaining)
              | Some (Some i) \<Rightarrow>
                  let s' = fold (\<lambda>j s. s\<lparr>used := set_bit (nat (i + j)) (used s),
                                          allocatedCIDRs := allocatedCIDRs s + 1\<rparr>) [0..relativeSize - 1] s
                  in Some (s', Inr (indexToCIDRBlock s' i maskSize))))"

section \<open>Release and Occupy\<close>

definition release_index :: "int \<Rightarrow> CidrSet \<Rightarrow> CidrSet" where
  "release_index i s =
     (if bit (used s) (nat i)
      then s\<lparr>used := unset_bit (nat i) (used s), allocatedCIDRs := allocatedCIDRs s - 1\<rparr> else s)"

definition Release :: "CidrSet \<Rightarrow> IPNet option \<Rightarrow> CidrSet \<times> (cidr_error, unit) result" where
  "Release s cidr =
     (case getBeginningAndEndIndices s cidr of
        Inl e \<Rightarrow> (s, Inl e)
      | Inr (begin, end') \<Rightarrow> (fold release_index [begin..end'] s, Inr ()))"

definition occupy_index :: "int \<Rightarrow> CidrSet \<Rightarrow> CidrSet" where
  "occupy_index i s =
     (if \<not> bit (used s) (nat i)
      then s\<lparr>used := set_bit (nat i) (used s), allocatedCIDRs := allocatedCIDRs s + 1\<rparr> else s)"

definition Occupy :: "CidrSet \<Rightarrow> IPNet option \<Rightarrow> CidrSet \<times> (cidr_error, unit) result" where
  "Occupy s cidr =
     (case getBeginningAndEndIndices s cidr of
        Inl e \<Rightarrow> (s, Inl e)
      | Inr (begin, end') \<Rightarrow> (fold occupy_index [begin..end'] s, Inr ()))"

section \<open>Changing the node mask size\<close>

text \<open>The loops of \<open>UpdateSubnetMaskSize\<close> over the pod CIDRs of all nodes, in the order in which the map
  is visited. Unlike \<open>Occupy\<close> they count an index each time it is met.\<close>

definition count_index :: "int \<Rightarrow> CidrSet \<Rightarrow> CidrSet" where
  "count_index i s = s\<lparr>used := set_bit (nat i) (used s), allocatedCIDRs := allocatedCIDRs s + 1\<rparr>"

fun recount :: "CidrSet \<Rightarrow> string list \<Rightarrow> CidrSet \<times> (cidr_error, unit) result" where
  "recount s [] = (s, Inr ())"
| "recount s (p # ps) =
     (case ParseCIDR p of
        None \<Rightarrow> (s, Inl (UpdateParse p (InvalidCIDRAddress p)))
      | Some cidr \<Rightarrow>
          if IsIPv6CIDR (Some cidr) \<noteq> IsIPv6CIDR (Some (clusterCIDR s)) then recount s ps
          else case getBeginningAndEndIndices s (Some cidr) of
                 Inl e \<Rightarrow> (s, Inl (UpdateIndices cidr e))
               | Inr (begin, end') \<Rightarrow> recount (fold count_index [begin..end'] s) ps)"

definition UpdateSubnetMaskSize ::
  "CidrSet \<Rightarrow> int \<Rightarrow> (string \<times> string list) list \<Rightarrow> CidrSet \<times> (cidr_error, unit) result" where
  "UpdateSubnetMaskSize s newNodeMaskSize nodeNamePodCIDRMap =
     (if newNodeMaskSize \<le> nodeMaskSize s then (s, Inr ())
      else
        let (clusterSize, bits) = mask_Size (ipn_Mask (clusterCIDR s))
        in if To4 (ipn_IP (clusterCIDR s)) = None \<and> clusterSubnetMaxDiff < newNodeMaskSize - clusterSize
           then (s, Inl ErrCIDRSetSubNetTooBig)
           else recount (s\<lparr>nodeMask := CIDRMask newNodeMaskSize bits,
                           maxCIDRs := int_shl1 (shift32 (newNodeMaskSize - clusterSize)),
                           nodeMaskSize := newNodeMaskSize, used := 0, allocatedCIDRs := 0\<rparr>)
                        (concat (map snd nodeNamePodCIDRMap)))"

end
