(* ===== verification/BitPath.thy ===== *)
theory BitPath
  imports Prelude "HOL-Library.Sublist"
begin

text \<open>
  Sets of IP prefixes seen as sets of bit strings. A prefix of an address family of width \<open>W\<close>
  is a path, a list of at most \<open>W\<close> bits; the addresses it stands for are the bit strings of
  length \<open>W\<close> that extend it. The theory defines when a set of paths is canonical (no path
  extends another, no two sibling paths) and proves that a canonical set is determined by the
  addresses it covers. The last part is the stack algorithm behind
  \<open>aggregatePrefixesForSingleIPFamily\<close> on paths, with its invariant.
\<close>

type_synonym path = "bool list"

section \<open>Order of paths\<close>

definition left_of :: "path \<Rightarrow> path \<Rightarrow> bool" where
  "left_of p q \<longleftrightarrow> (\<exists>c a b. p = c @ False # a \<and> q = c @ True # b)"

lemma left_of_Nil [simp]: "\<not> left_of [] q" "\<not> left_of p []"
  by (auto simp: left_of_def)

lemma left_of_Cons: "left_of (x # p) (y # q) \<longleftrightarrow> (\<not> x \<and> y) \<or> (x = y \<and> left_of p q)"
proof
  assume "left_of (x # p) (y # q)"
  then obtain c a b where "x # p = c @ False # a" "y # q = c @ True # b"
    by (auto simp: left_of_def)
  then show "(\<not> x \<and> y) \<or> (x = y \<and> left_of p q)"
    by (cases c) (auto simp: left_of_def)
next
  assume "(\<not> x \<and> y) \<or> (x = y \<and> left_of p q)"
  then show "left_of (x # p) (y # q)"
  proof
    assume "\<not> x \<and> y"
    then have "x # p = [] @ False # p" "y # q = [] @ True # q" by auto
    then show ?thesis unfolding left_of_def by blast
  next
    assume "x = y \<and> left_of p q"
    then obtain c a b where "x # p = (x # c) @ False # a" "y # q = (x # c) @ True # b"
      by (auto simp: left_of_def)
    then show ?thesis unfolding left_of_def by blast
  qed
qed

text \<open>The lexicographic order of bit strings, in terms of extension and position.\<close>

lemma path_le_iff: "(p :: path) \<le> q \<longleftrightarrow> prefix p q \<or> left_of p q"
proof (induction p arbitrary: q)
  case Nil
  then show ?case by simp
next
  case (Cons x p)
  show ?case
  proof (cases q)
    case Nil
    then show ?thesis by simp
  next
    case (Cons y q')
    with Cons.IH show ?thesis by (auto simp: left_of_Cons)
  qed
qed

lemma left_of_not_prefix: "left_of p q \<Longrightarrow> \<not> prefix p q \<and> \<not> prefix q p"
proof (induction p arbitrary: q)
  case (Cons x p)
  then show ?case by (cases q) (auto simp: left_of_Cons)
qed simp

lemma left_of_irrefl [simp]: "\<not> left_of p p"
  using left_of_not_prefix by blast

lemma left_of_trans: "left_of p q \<Longrightarrow> left_of q r \<Longrightarrow> left_of p r"
proof (induction p arbitrary: q r)
  case (Cons x p)
  then show ?case by (cases q; cases r) (auto simp: left_of_Cons)
qed simp

lemma left_of_extend: "left_of p q \<Longrightarrow> prefix q r \<Longrightarrow> left_of p r"
  by (auto simp: left_of_def prefix_def)

lemma left_of_snoc_False: "left_of s (c @ [False]) \<Longrightarrow> left_of s c"
proof (induction s arbitrary: c)
  case (Cons x s)
  then show ?case by (cases c) (auto simp: left_of_Cons)
qed simp

lemma between_siblings: "left_of (c @ [False]) u \<Longrightarrow> left_of u (c @ [True]) \<Longrightarrow> False"
proof (induction c arbitrary: u)
  case Nil
  then show ?case by (cases u) (auto simp: left_of_Cons)
next
  case (Cons x c)
  then show ?case by (cases u) (auto simp: left_of_Cons)
qed

section \<open>Addresses covered by paths\<close>

definition leaves :: "nat \<Rightarrow> path \<Rightarrow> path set" where
  "leaves W p = {x. length x = W \<and> prefix p x}"

definition cover :: "nat \<Rightarrow> path set \<Rightarrow> path set" where
  "cover W P = (\<Union>p \<in> P. leaves W p)"

lemma cover_simps [simp]:
  "cover W {} = {}" "cover W (insert p P) = leaves W p \<union> cover W P"
  "cover W (P \<union> Q) = cover W P \<union> cover W Q"
  by (auto simp: cover_def)

lemma leaves_Nil: "leaves W [] = {x. length x = W}"
  by (simp add: leaves_def)

lemma leaves_mono: "prefix p q \<Longrightarrow> leaves W q \<subseteq> leaves W p"
  by (auto simp: leaves_def intro: prefix_order.trans)

lemma leaves_nonempty: "length p \<le> W \<Longrightarrow> leaves W p \<noteq> {}"
proof -
  assume "length p \<le> W"
  then have "p @ replicate (W - length p) False \<in> leaves W p"
    by (simp add: leaves_def)
  then show ?thesis by blast
qed

lemma prefix_snoc_split:
  assumes "prefix c x" "length c < length x"
  shows "prefix (c @ [False]) x \<or> prefix (c @ [True]) x"
proof -
  from assms obtain d ds where "x = c @ d # ds"
    by (metis append_Nil2 le_antisym length_append less_imp_le_nat list.exhaust list.size(3)
        nat_less_le prefix_def)
  then show ?thesis by (cases d) auto
qed

lemma leaves_split:
  "length c < W \<Longrightarrow> leaves W c = leaves W (c @ [False]) \<union> leaves W (c @ [True])"
  using prefix_snoc_split by (fastforce simp: leaves_def dest: append_prefixD)

lemma left_of_extend_both: "left_of p q \<Longrightarrow> prefix p r \<Longrightarrow> prefix q s \<Longrightarrow> left_of r s"
  unfolding left_of_def prefix_def by force

lemma leaves_disjoint: "left_of p q \<Longrightarrow> leaves W p \<inter> leaves W q = {}"
  using left_of_extend_both[of p q] left_of_irrefl unfolding leaves_def by blast

section \<open>Canonical sets of paths\<close>

definition canonical :: "nat \<Rightarrow> path set \<Rightarrow> bool" where
  "canonical W P \<longleftrightarrow>
     (\<forall>p \<in> P. length p \<le> W) \<and>
     (\<forall>p \<in> P. \<forall>q \<in> P. prefix p q \<longrightarrow> p = q) \<and>
     (\<forall>c. \<not> (c @ [False] \<in> P \<and> c @ [True] \<in> P))"

lemma canonicalD:
  assumes "canonical W P"
  shows "p \<in> P \<Longrightarrow> length p \<le> W" "p \<in> P \<Longrightarrow> q \<in> P \<Longrightarrow> prefix p q \<Longrightarrow> p = q"
    "c @ [False] \<in> P \<Longrightarrow> c @ [True] \<in> P \<Longrightarrow> False"
  using assms by (auto simp: canonical_def)

text \<open>A path all of whose addresses are covered lies under a member.\<close>

lemma canonical_covers_ancestor:
  assumes can: "canonical W P" and len: "length q \<le> W" and cov: "leaves W q \<subseteq> cover W P"
  shows "\<exists>p \<in> P. prefix p q"
  using len cov
proof (induction "W - length q" arbitrary: q)
  case 0
  then have "q \<in> leaves W q" by (simp add: leaves_def)
  with "0.prems" obtain p where "p \<in> P" "q \<in> leaves W p" by (auto simp: cover_def)
  then show ?case by (auto simp: leaves_def)
next
  case (Suc n)
  then have lt: "length q < W" by simp
  have child: "\<exists>p \<in> P. prefix p (q @ [b])" for b
    using Suc.hyps(1)[of "q @ [b]"] Suc.hyps(2) Suc.prems lt
      leaves_mono[of q "q @ [b]" W] by fastforce
  show ?case
  proof (rule ccontr)
    assume no: "\<not> (\<exists>p \<in> P. prefix p q)"
    have "q @ [b] \<in> P" for b
    proof -
      obtain p where "p \<in> P" "prefix p (q @ [b])" using child by blast
      with no show ?thesis by (metis prefix_snoc)
    qed
    with canonicalD(3)[OF can] show False by blast
  qed
qed

theorem canonical_unique:
  assumes "canonical W P" "canonical W Q" "cover W P = cover W Q"
  shows "P = Q"
proof -
  have sub: "A \<subseteq> B" if A: "canonical W A" and B: "canonical W B" and eq: "cover W A = cover W B"
    for A B
  proof
    fix p assume p: "p \<in> A"
    then have "leaves W p \<subseteq> cover W B" using eq by (auto simp: cover_def)
    then obtain q where q: "q \<in> B" "prefix q p"
      using canonical_covers_ancestor[OF B] canonicalD(1)[OF A p] by blast
    then have "leaves W q \<subseteq> cover W A" using eq by (auto simp: cover_def)
    then obtain r where r: "r \<in> A" "prefix r q"
      using canonical_covers_ancestor[OF A] canonicalD(1)[OF B q(1)] by blast
    with q have "r = p"
      using canonicalD(2)[OF A r(1) p] prefix_order.trans by blast
    with q r show "p \<in> B" by (metis prefix_order.antisym)
  qed
  from sub[of P Q] sub[of Q P] assms show ?thesis by auto
qed

section \<open>The stack algorithm\<close>

text \<open>Two siblings, the left one first.\<close>

definition siblings :: "path \<Rightarrow> path \<Rightarrow> bool" where
  "siblings p q \<longleftrightarrow> (\<exists>c. p = c @ [False] \<and> q = c @ [True])"

text \<open>The stack is kept with its top first.\<close>

function collapse :: "path list \<Rightarrow> path list" where
  "collapse (q # p # st) = (if siblings p q then collapse (butlast p # st) else q # p # st)"
| "collapse [] = []"
| "collapse [p] = [p]"
  by pat_completeness auto
termination
  by (relation "measure length") auto

fun agg :: "path list \<Rightarrow> path list \<Rightarrow> path list" where
  "agg st [] = st"
| "agg [] (p # ps) = agg [p] ps"
| "agg (l # st) (p # ps) =
     (if prefix l p then agg (l # st) ps else agg (collapse (p # l # st)) ps)"

definition stack_ok :: "nat \<Rightarrow> path list \<Rightarrow> bool" where
  "stack_ok W st \<longleftrightarrow>
     (\<forall>p \<in> set st. length p \<le> W) \<and> sorted_wrt (\<lambda>q p. left_of p q) st \<and>
     successively (\<lambda>q p. \<not> siblings p q) st"

lemma collapse_ne [simp]: "st \<noteq> [] \<Longrightarrow> collapse st \<noteq> []"
  by (induction st rule: collapse.induct) auto

lemma collapse_top: "st \<noteq> [] \<Longrightarrow> prefix (hd (collapse st)) (hd st)"
proof (induction st rule: collapse.induct)
  case (1 q p st)
  then show ?case
    by (auto simp: siblings_def dest: append_prefixD)
qed auto

lemma collapse_cover:
  "(\<forall>p \<in> set st. length p \<le> W) \<Longrightarrow>
     cover W (set (collapse st)) = cover W (set st) \<and> (\<forall>p \<in> set (collapse st). length p \<le> W)"
proof (induction st rule: collapse.induct)
  case (1 q p st)
  show ?case
  proof (cases "siblings p q")
    case True
    then obtain c where c: "p = c @ [False]" "q = c @ [True]" by (auto simp: siblings_def)
    with 1 True show ?thesis by (auto simp: leaves_split)
  next
    case False
    with 1 show ?thesis by simp
  qed
qed auto

text \<open>Pushing a path right of the top and collapsing keeps the stack in order.\<close>

lemma collapse_stack_ok:
  "\<lbrakk>\<forall>p \<in> set st. length p \<le> W; sorted_wrt (\<lambda>q p. left_of p q) st;
     successively (\<lambda>q p. \<not> siblings p q) (tl st)\<rbrakk> \<Longrightarrow> stack_ok W (collapse st)"
proof (induction st rule: collapse.induct)
  case (1 q p st)
  show ?case
  proof (cases "siblings p q")
    case True
    then obtain c where c: "p = c @ [False]" "q = c @ [True]" by (auto simp: siblings_def)
    have "\<forall>s \<in> set st. left_of s c"
      using "1.prems" c left_of_snoc_False by auto
    moreover have "successively (\<lambda>q p. \<not> siblings p q) (tl (c # st))"
      using "1.prems" by (cases st) auto
    ultimately show ?thesis
      using 1 True c by (auto intro!: "1.IH"[simplified])
  next
    case False
    with 1 show ?thesis by (auto simp: stack_ok_def)
  qed
qed (auto simp: stack_ok_def)

lemma push_ok:
  assumes st: "stack_ok W (l # st)" and len: "length p \<le> W" and le: "l \<le> p" and np: "\<not> prefix l p"
  shows "stack_ok W (collapse (p # l # st))" "hd (collapse (p # l # st)) \<le> p" "left_of l p"
    "sorted_wrt (\<lambda>q p. left_of p q) (p # l # st)"
    "cover W (set (collapse (p # l # st))) = cover W (set (p # l # st))"
proof -
  show lp: "left_of l p" using le np by (simp add: path_le_iff)
  have lens: "\<forall>x \<in> set (p # l # st). length x \<le> W" and "sorted_wrt (\<lambda>q p. left_of p q) (l # st)"
    and sib: "successively (\<lambda>q p. \<not> siblings p q) (l # st)"
    using st len unfolding stack_ok_def by auto
  then show sorted: "sorted_wrt (\<lambda>q p. left_of p q) (p # l # st)"
    using lp left_of_trans by auto
  with lens sib show "stack_ok W (collapse (p # l # st))"
    by (intro collapse_stack_ok) (simp_all only: list.sel)
  show "hd (collapse (p # l # st)) \<le> p"
    using collapse_top[of "p # l # st"] by (simp add: path_le_iff)
  show "cover W (set (collapse (p # l # st))) = cover W (set (p # l # st))"
    using collapse_cover[OF lens] by blast
qed

lemma agg_correct:
  assumes "sorted (ps :: path list)" "\<forall>p \<in> set ps. length p \<le> W" "stack_ok W st"
    "st \<noteq> [] \<Longrightarrow> \<forall>p \<in> set ps. hd st \<le> p"
  shows "stack_ok W (agg st ps) \<and> cover W (set (agg st ps)) = cover W (set st) \<union> cover W (set ps)"
  using assms
proof (induction st ps rule: agg.induct)
  case (2 p ps)
  then show ?case by (auto simp: stack_ok_def)
next
  case (3 l st p ps)
  show ?case
  proof (cases "prefix l p")
    case True
    with 3 leaves_mono[OF True, of W] show ?thesis by auto
  next
    case False
    let ?st = "collapse (p # l # st)"
    have "length p \<le> W" "l \<le> p" using "3.prems" by auto
    note push = push_ok[OF "3.prems"(3) this False]
    have "\<forall>r \<in> set ps. hd ?st \<le> r"
      using push(2) "3.prems"(1) by (auto intro: order_trans)
    then show ?thesis
      using "3.IH"(2)[OF False _ _ push(1)] "3.prems"(1,2) push(5) False by auto
  qed
qed simp

lemma stack_ok_canonical:
  assumes "stack_ok W st"
  shows "canonical W (set st)"
proof -
  have srt: "sorted_wrt (\<lambda>q p. left_of p q) st" and sib: "successively (\<lambda>q p. \<not> siblings p q) st"
    and len: "\<forall>p \<in> set st. length p \<le> W"
    using assms by (auto simp: stack_ok_def)
  have pair: "p = q \<or> left_of p q \<or> left_of q p" if "p \<in> set st" "q \<in> set st" for p q
    using srt that by (induction st) auto
  have nosib: False if "c @ [False] \<in> set st" "c @ [True] \<in> set st" for c
    using srt sib that
  proof (induction st)
    case (Cons s st)
    have FT: "left_of (c @ [False]) (c @ [True])" by (auto simp: left_of_def)
    consider "s = c @ [True]" | "s = c @ [False]" | "s \<noteq> c @ [True]" "s \<noteq> c @ [False]" by blast
    then show ?case
    proof cases
      case 1
      then have inF: "c @ [False] \<in> set st" using Cons.prems by auto
      then obtain u us where st: "st = u # us" by (cases st) auto
      then have "left_of u s" "\<not> siblings u s" using Cons.prems by auto
      moreover have "u = c @ [False] \<or> left_of (c @ [False]) u"
        using inF st Cons.prems by auto
      ultimately show ?thesis
        using 1 between_siblings by (auto simp: siblings_def)
    next
      case 2
      with Cons.prems have "left_of (c @ [True]) (c @ [False])" by auto
      with FT left_of_trans left_of_irrefl show ?thesis by blast
    next
      case 3
      with Cons show ?thesis by (cases st) auto
    qed
  qed simp
  show ?thesis
    unfolding canonical_def using len pair nosib left_of_not_prefix by blast
qed

text \<open>The stack, read from the bottom, is the ascending list of its set.\<close>

lemma stack_ok_sorted: "stack_ok W st \<Longrightarrow> sorted (rev st) \<and> distinct st"
proof -
  assume "stack_ok W st"
  then have "sorted_wrt (\<lambda>q p. left_of p q) st" by (simp add: stack_ok_def)
  then show ?thesis
    by (induction st) (auto simp: sorted_append path_le_iff)
qed

lemma stack_ok_unique: "stack_ok W st \<Longrightarrow> stack_ok W st' \<Longrightarrow> set st = set st' \<Longrightarrow> st = st'"
  by (metis stack_ok_sorted distinct_rev rev_rev_ident set_rev sorted_distinct_set_unique)

text \<open>A canonical set has the fewest members among all sets of paths with the same cover.\<close>

theorem canonical_minimal:
  assumes can: "canonical W P" and fin: "finite Q" and len: "\<forall>q \<in> Q. length q \<le> W"
    and eq: "cover W P = cover W Q"
  shows "finite P \<and> card P \<le> card Q"
proof -
  define up where "up q = (SOME p. p \<in> P \<and> prefix p q)" for q
  have up: "up q \<in> P \<and> prefix (up q) q" if "q \<in> Q" for q
  proof -
    from that eq have "leaves W q \<subseteq> cover W P" by (auto simp: cover_def)
    then have "\<exists>p. p \<in> P \<and> prefix p q"
      using canonical_covers_ancestor[OF can] len that by blast
    then show ?thesis unfolding up_def by (rule someI_ex)
  qed
  have "p \<in> up ` Q" if p: "p \<in> P" for p
  proof -
    obtain x where x: "x \<in> leaves W p" using leaves_nonempty canonicalD(1)[OF can p] by blast
    then obtain q where q: "q \<in> Q" "x \<in> leaves W q" using p eq by (fastforce simp: cover_def)
    then have "prefix (up q) x" "prefix p x"
      using up x by (auto simp: leaves_def intro: prefix_order.trans)
    then have "prefix (up q) p \<or> prefix p (up q)" by (rule prefix_same_cases)
    then have "up q = p" using canonicalD(2)[OF can] up q(1) p by metis
    with q(1) show ?thesis by blast
  qed
  then have "P \<subseteq> up ` Q" by blast
  then show ?thesis
    using fin by (meson card_image_le card_mono finite_imageI finite_subset le_trans)
qed

end
