(* ===== verification/PrefixPaths.thy ===== *)
theory PrefixPaths
  imports NetIP BitPath
begin

unbundle bit_operations_syntax

text \<open>
  The bit string of an address and the path of a prefix. Masking an address, comparing addresses and
  testing overlap are expressed on bit strings, so the prefix algorithms can be
  verified on paths.
\<close>

section \<open>Bits of a word, most significant first\<close>

definition word_bits :: "'a::len word \<Rightarrow> bool list" where
  "word_bits w = map (\<lambda>i. bit w (LENGTH('a) - 1 - i)) [0..<LENGTH('a)]"

lemma length_word_bits [simp]: "length (word_bits (w :: 'a::len word)) = LENGTH('a)"
  by (simp add: word_bits_def)

lemma word_bits_ne [simp]: "word_bits w \<noteq> []"
  by (metis length_word_bits len_not_eq_0 list.size(3))

lemma nth_word_bits:
  "i < LENGTH('a) \<Longrightarrow> word_bits (w :: 'a::len word) ! i = bit w (LENGTH('a) - 1 - i)"
  by (simp add: word_bits_def)

lemma word_bits_inj: "word_bits v = word_bits w \<longleftrightarrow> v = (w :: 'a::len word)"
proof
  assume eq: "word_bits v = word_bits w"
  show "v = w"
  proof (rule bit_word_eqI)
    fix n assume n: "n < LENGTH('a)"
    then have "word_bits v ! (LENGTH('a) - 1 - n) = word_bits w ! (LENGTH('a) - 1 - n)"
      using eq by simp
    with n show "bit v n = bit w n" by (simp add: nth_word_bits)
  qed
qed simp

lemma word_bits_mask:
  assumes "b \<le> LENGTH('a)"
  shows "word_bits ((w :: 'a::len word) AND NOT (mask (LENGTH('a) - b))) =
           take b (word_bits w) @ replicate (LENGTH('a) - b) False"
proof (rule nth_equalityI)
  fix i assume i: "i < length (word_bits (w AND NOT (mask (LENGTH('a) - b))))"
  then show "word_bits (w AND NOT (mask (LENGTH('a) - b))) ! i =
      (take b (word_bits w) @ replicate (LENGTH('a) - b) False) ! i"
    using assms by (auto simp: nth_word_bits nth_append bit_simps)
qed (use assms in simp)

text \<open>The value of a bit string; on strings of one length it orders as the strings do.\<close>

fun bval :: "bool list \<Rightarrow> nat" where
  "bval [] = 0"
| "bval (x # xs) = of_bool x * 2 ^ length xs + bval xs"

lemma bval_less: "bval xs < 2 ^ length xs"
  by (induction xs) auto

lemma bval_le_iff: "length xs = length ys \<Longrightarrow> bval xs \<le> bval ys \<longleftrightarrow> xs \<le> ys"
proof (induction xs ys rule: list_induct2)
  case (Cons x xs y ys)
  have "bval xs < 2 ^ length ys" "bval ys < 2 ^ length ys"
    using bval_less[of xs] bval_less[of ys] Cons.hyps by auto
  then show ?case using Cons by (cases x; cases y) auto
qed simp

lemma bval_append: "bval (xs @ ys) = bval xs * 2 ^ length ys + bval ys"
  by (induction xs) (auto simp: algebra_simps power_add)

lemma bval_bits: "bval (map (\<lambda>i. bit k (n - 1 - i)) [0..<n]) = take_bit n (k :: nat)"
proof (induction n)
  case (Suc n)
  have eq: "map (\<lambda>i. bit k (Suc n - 1 - i)) [0..<Suc n] =
      bit k n # map (\<lambda>i. bit k (n - 1 - i)) [0..<n]"
    by (rule nth_equalityI) (auto simp: nth_Cons simp del: upt_Suc split: nat.split)
  show ?case
    unfolding eq bval.simps Suc by (simp add: take_bit_Suc_from_most)
qed simp

lemma bval_word_bits: "bval (word_bits (w :: 'a::len word)) = unat w"
proof -
  have "word_bits w = map (\<lambda>i. bit (unat w) (LENGTH('a) - 1 - i)) [0..<LENGTH('a)]"
    by (simp add: word_bits_def bit_unsigned_iff)
  then have "bval (word_bits w) = take_bit (LENGTH('a)) (unat w)"
    by (simp only: bval_bits)
  then show ?thesis by (simp add: take_bit_nat_eq_self)
qed

lemma unat_le_word_bits:
  "unat (v :: 'a::len word) \<le> unat (w :: 'a word) \<longleftrightarrow> word_bits v \<le> word_bits w"
  by (simp add: bval_le_iff flip: bval_word_bits)

section \<open>Addresses and prefixes as bit strings\<close>

fun addr_bits :: "Addr \<Rightarrow> path" where
  "addr_bits (Addr4 w) = word_bits w"
| "addr_bits (Addr6 w _) = word_bits w"

text \<open>The width of the addresses of a family (IPv4 when the flag is set).\<close>

definition fam_width :: "bool \<Rightarrow> nat" where
  "fam_width v = (if v then 32 else 128)"

lemma BitLen_fam_width: "BitLen a = fam_width (Is4 a)"
  by (cases a) (simp_all add: fam_width_def)

definition path_of :: "Prefix \<Rightarrow> path" where
  "path_of p = take (pBits p) (addr_bits (pAddr p))"

text \<open>A well-formed network prefix: valid, and with no bit set after the prefix length
  (what \<open>ParsePrefix\<close> of the program accepts).\<close>

definition prefix_ok :: "Prefix \<Rightarrow> bool" where
  "prefix_ok p \<longleftrightarrow> prefix_IsValid p \<and> Masked p = Some p"

lemma length_addr_bits [simp]: "length (addr_bits a) = BitLen a"
  by (cases a) simp_all

lemma prefix_okD:
  assumes "prefix_ok p"
  shows "pBits p \<le> BitLen (pAddr p)" "length (path_of p) = pBits p"
  using assms by (auto simp: prefix_ok_def prefix_IsValid_def path_of_def)

lemma prefix_ok_bits:
  assumes "prefix_ok p"
  shows "addr_bits (pAddr p) = path_of p @ replicate (BitLen (pAddr p) - pBits p) False"
proof (cases "pAddr p")
  case (Addr4 w)
  then have "w = w AND NOT (mask (32 - pBits p))" "pBits p \<le> 32"
    using assms by (auto simp: prefix_ok_def prefix_IsValid_def Masked_def) (metis Addr.inject(1) Prefix.select_convs(1))
  with word_bits_mask[of "pBits p" w] Addr4 show ?thesis
    by (simp add: path_of_def)
next
  case (Addr6 w z)
  then have "w = w AND NOT (mask (128 - pBits p))" "pBits p \<le> 128"
    using assms by (auto simp: prefix_ok_def prefix_IsValid_def Masked_def) (metis Addr.inject(2) Prefix.select_convs(1))
  with word_bits_mask[of "pBits p" w] Addr6 show ?thesis
    by (simp add: path_of_def)
qed

section \<open>Bits of a byte slice\<close>

definition bytes_bits :: "byte list \<Rightarrow> bool list" where
  "bytes_bits bs = concat (map word_bits bs)"

lemma bytes_bits_simps [simp]:
  "bytes_bits [] = []" "bytes_bits (b # bs) = word_bits b @ bytes_bits bs"
  by (simp_all add: bytes_bits_def)

lemma length_bytes_bits [simp]: "length (bytes_bits bs) = 8 * length bs"
  by (induction bs) simp_all

lemma nth_bytes_bits:
  "i < 8 * length bs \<Longrightarrow> bytes_bits bs ! i = bit (bs ! (i div 8)) (7 - i mod 8)"
proof (induction bs arbitrary: i)
  case (Cons b bs)
  show ?case
  proof (cases "i < 8")
    case True
    then show ?thesis by (simp add: nth_append nth_word_bits)
  next
    case False
    then obtain j where j: "i = j + 8" by (metis add.commute le_Suc_ex not_less)
    then have "i div 8 = Suc (j div 8)" by simp
    with Cons j show ?thesis by (simp add: nth_append)
  qed
qed simp

lemma bytes_bits_inj: "bytes_bits as = bytes_bits bs \<longleftrightarrow> as = bs"
proof (induction as arbitrary: bs)
  case Nil
  then show ?case by (cases bs) simp_all
next
  case (Cons a as)
  then show ?case by (cases bs) (simp_all add: word_bits_inj)
qed

lemma bytes_bits_eqI:
  "length as = length bs \<Longrightarrow> (\<And>i. i < 8 * length bs \<Longrightarrow> bytes_bits as ! i = bytes_bits bs ! i) \<Longrightarrow> as = bs"
  unfolding bytes_bits_inj[symmetric] by (rule nth_equalityI) simp_all

lemma length_be_bytes [simp]: "length (be_bytes n w) = n"
  by (simp add: be_bytes_def)

lemma bytes_bits_be_bytes:
  assumes "LENGTH('a) = 8 * n"
  shows "bytes_bits (be_bytes n (w :: 'a::len word)) = word_bits w"
proof (rule nth_equalityI)
  fix i assume "i < length (bytes_bits (be_bytes n w))"
  then have i: "i < 8 * n" by simp
  then have d: "i div 8 < n" by (simp add: less_mult_imp_div_less mult.commute)
  then have "8 * (n - 1 - i div 8) + (7 - i mod 8) = 8 * n - 1 - i"
    by (simp add: algebra_simps)
  then show "bytes_bits (be_bytes n w) ! i = word_bits w ! i"
    using i d assms
    by (auto simp: nth_bytes_bits nth_word_bits be_bytes_def bit_simps add.commute)
qed (simp add: assms)

lemma bytes_bits_AsSlice [simp]: "bytes_bits (AsSlice a) = addr_bits a"
  by (cases a) (simp_all add: bytes_bits_be_bytes)

lemma length_AsSlice: "8 * length (AsSlice a) = BitLen a"
  by (cases a) simp_all

section \<open>Prefixes of one family\<close>

text \<open>Within one family a well-formed prefix is determined by its path, the sort order is the order of
  paths, and containment is extension.\<close>

definition same_family :: "Prefix \<Rightarrow> Prefix \<Rightarrow> bool" where
  "same_family p q \<longleftrightarrow> Is4 (pAddr p) = Is4 (pAddr q)"

lemma same_family_BitLen: "same_family p q \<Longrightarrow> BitLen (pAddr p) = BitLen (pAddr q)"
  by (cases "pAddr p"; cases "pAddr q") (auto simp: same_family_def)

lemma prefix_ok_zone: "prefix_ok p \<Longrightarrow> pAddr p = Addr6 w z \<Longrightarrow> z = []"
  by (simp add: prefix_ok_def prefix_IsValid_def)

lemma addr_eq_bits:
  assumes "prefix_ok p" "prefix_ok q" "same_family p q"
  shows "pAddr p = pAddr q \<longleftrightarrow> addr_bits (pAddr p) = addr_bits (pAddr q)"
  using assms
  by (cases "pAddr p"; cases "pAddr q")
    (auto simp: same_family_def word_bits_inj dest: prefix_ok_zone)

lemma path_of_inj:
  assumes "prefix_ok p" "prefix_ok q" "same_family p q" "path_of p = path_of q"
  shows "p = q"
proof -
  have "pBits p = pBits q" using assms prefix_okD(2) by metis
  moreover have "pAddr p = pAddr q"
    using assms calculation prefix_ok_bits same_family_BitLen by (simp add: addr_eq_bits)
  ultimately show ?thesis by simp
qed

lemma zeros_least: "length r = n \<Longrightarrow> replicate n False \<le> (r :: path)"
  by (induction r arbitrary: n) auto

lemma pad_le_iff:
  assumes "length p \<le> W" "length q \<le> W"
  shows "(p @ replicate (W - length p) False, length p) \<le> (q @ replicate (W - length q) False, length q)
           \<longleftrightarrow> p \<le> (q :: path)"
  using assms
proof (induction p arbitrary: q W)
  case Nil
  then have "replicate W False \<le> q @ replicate (W - length q) False"
    by (intro zeros_least) simp
  then show ?case by (simp add: less_eq_prod_def)
next
  case (Cons x p)
  then obtain V where V: "W = Suc V" by (cases W) auto
  show ?case
  proof (cases q)
    case Nil
    have "replicate W False \<le> (x # p) @ replicate (W - length (x # p)) False"
      using Cons.prems by (intro zeros_least) simp
    then show ?thesis using Nil by (auto simp: less_eq_prod_def)
  next
    case q: (Cons y q')
    then show ?thesis using Cons.IH[of V q'] Cons.prems V by (auto simp: less_eq_prod_def)
  qed
qed

lemma addr_key_le:
  assumes "prefix_ok p" "prefix_ok q" "same_family p q"
  shows "addr_key (pAddr p) \<le> addr_key (pAddr q) \<longleftrightarrow> addr_bits (pAddr p) \<le> addr_bits (pAddr q)"
proof (cases "pAddr p")
  case (Addr4 v)
  with assms(3) obtain w where "pAddr q = Addr4 w"
    by (cases "pAddr q") (auto simp: same_family_def)
  with Addr4 show ?thesis by (auto simp: less_eq_prod_def simp flip: unat_le_word_bits)
next
  case (Addr6 v z)
  with assms(3) obtain w z' where "pAddr q = Addr6 w z'"
    by (cases "pAddr q") (auto simp: same_family_def)
  with Addr6 assms show ?thesis
    by (auto simp: less_eq_prod_def dest!: prefix_ok_zone simp flip: unat_le_word_bits)
qed

text \<open>The order in which prefixes are sorted is the order of their paths.\<close>

lemma key_le_iff_path_le:
  assumes "prefix_ok p" "prefix_ok q" "same_family p q"
  shows "(addr_key (pAddr p), pBits p) \<le> (addr_key (pAddr q), pBits q) \<longleftrightarrow> path_of p \<le> path_of q"
proof -
  let ?W = "BitLen (pAddr p)"
  have W: "BitLen (pAddr q) = ?W" using same_family_BitLen[OF assms(3)] by simp
  have le: "pBits p \<le> ?W" "pBits q \<le> ?W" using assms prefix_okD(1) W by metis+
  have sf: "same_family q p" using assms(3) by (simp add: same_family_def)
  have key_less: "addr_key (pAddr p) < addr_key (pAddr q) \<longleftrightarrow>
      addr_bits (pAddr p) < addr_bits (pAddr q)"
    using addr_key_le[OF assms(2,1) sf] by (simp flip: not_le)
  have "(addr_key (pAddr p), pBits p) \<le> (addr_key (pAddr q), pBits q) \<longleftrightarrow>
      (addr_bits (pAddr p), pBits p) \<le> (addr_bits (pAddr q), pBits q)"
    unfolding less_eq_prod_def[of "(addr_key (pAddr p), pBits p)"]
      less_eq_prod_def[of "(addr_bits (pAddr p), pBits p)"]
    by (simp only: fst_conv snd_conv key_less addr_key_le[OF assms])
  also have "\<dots> \<longleftrightarrow> path_of p \<le> path_of q"
    using pad_le_iff[of "path_of p" ?W "path_of q"] le
    by (simp add: prefix_ok_bits assms(1,2) W prefix_okD(2))
  finally show ?thesis .
qed

lemma addr_Prefix_ok:
  assumes "prefix_ok p" "b \<le> BitLen (pAddr p)"
  obtains q where "addr_Prefix (pAddr p) b = Some q" "prefix_ok q" "same_family q p"
    "pBits q = b" "path_of q = take b (addr_bits (pAddr p))"
proof (cases "pAddr p")
  case (Addr4 w)
  let ?q = "\<lparr>pAddr = Addr4 (w AND NOT (mask (32 - b))), pBits = b\<rparr>"
  have "path_of ?q = take b (addr_bits (pAddr p))"
    using word_bits_mask[of b w] assms(2) Addr4 by (simp add: path_of_def)
  moreover have "prefix_ok ?q"
    using assms(2) Addr4 by (simp add: prefix_ok_def prefix_IsValid_def Masked_def ac_simps)
  ultimately show thesis
    using that[of ?q] assms(2) Addr4 by (simp add: same_family_def)
next
  case (Addr6 w z)
  let ?q = "\<lparr>pAddr = Addr6 (w AND NOT (mask (128 - b))) [], pBits = b\<rparr>"
  have "path_of ?q = take b (addr_bits (pAddr p))"
    using word_bits_mask[of b w] assms(2) Addr6 by (simp add: path_of_def)
  moreover have "prefix_ok ?q"
    using assms(2) Addr6 by (simp add: prefix_ok_def prefix_IsValid_def Masked_def ac_simps)
  ultimately show thesis
    using that[of ?q] assms(2) Addr6 by (simp add: same_family_def)
qed

lemma Overlaps_iff:
  assumes "prefix_ok p" "prefix_ok q" "same_family p q" "pBits p \<le> pBits q"
  shows "Overlaps p q \<longleftrightarrow> prefix (path_of p) (path_of q)"
proof -
  have W: "BitLen (pAddr q) = BitLen (pAddr p)" using same_family_BitLen[OF assms(3)] by simp
  have le: "pBits p \<le> BitLen (pAddr p)" "pBits p \<le> BitLen (pAddr q)"
    using assms prefix_okD(1) W by metis+
  obtain p' where p': "addr_Prefix (pAddr p) (pBits p) = Some p'" "prefix_ok p'" "same_family p' p"
      "path_of p' = take (pBits p) (addr_bits (pAddr p))"
    using addr_Prefix_ok[OF assms(1) le(1)] by blast
  obtain q' where q': "addr_Prefix (pAddr q) (pBits p) = Some q'" "prefix_ok q'" "same_family q' q"
      "pBits q' = pBits p" "path_of q' = take (pBits p) (addr_bits (pAddr q))"
    using addr_Prefix_ok[OF assms(2) le(2)] by blast
  have pp: "p' = p" using p'(1) assms(1) by (simp add: prefix_ok_def Masked_def)
  have "take (pBits p) (addr_bits (pAddr q)) = take (pBits p) (path_of q)"
    using assms(4) by (simp add: path_of_def min_def)
  then have q'_path: "path_of q' = take (pBits p) (path_of q)" using q'(5) by simp
  have "pAddr p = pAddr q' \<longleftrightarrow> path_of p = path_of q'"
  proof
    assume "pAddr p = pAddr q'"
    then show "path_of p = path_of q'" using q'(4) by (simp add: path_of_def)
  next
    assume "path_of p = path_of q'"
    moreover have "same_family p q'" using q'(3) assms(3) by (simp add: same_family_def)
    ultimately show "pAddr p = pAddr q'" using path_of_inj[OF assms(1) q'(2)] by simp
  qed
  also have "\<dots> \<longleftrightarrow> prefix (path_of p) (path_of q)"
    using q'_path assms prefix_okD(2) by (metis append_take_drop_id prefixI take_all_iff
        prefix_def append_eq_conv_conj)
  finally have key: "pAddr p = pAddr q' \<longleftrightarrow> prefix (path_of p) (path_of q)" .
  have valid: "prefix_IsValid p" "prefix_IsValid q" using assms by (auto simp: prefix_ok_def)
  have fam: "Is4 (pAddr p) = Is4 (pAddr q)" using assms(3) by (simp add: same_family_def)
  have zero: "pBits p = 0 \<Longrightarrow> path_of p = []" by (simp add: path_of_def)
  show ?thesis
    using valid fam key p' q' pp zero assms(4) by (auto simp: Overlaps_def min_def Let_def)
qed

end
