(* ===== verification/NetBits.thy ===== *)
theory NetBits
  imports GoNet PrefixPaths
begin

unbundle bit_operations_syntax

text \<open>
  The operations of \<open>GoNet\<close> on the bits of addresses: masks keep a path and clear the rest, and a
  well-formed network contains exactly the addresses that extend its path.
\<close>

lemma take_eq_prefix: "length p = c \<Longrightarrow> take c x = p \<longleftrightarrow> prefix p x"
  by (metis append_eq_conv_conj prefixE take_is_prefix)

lemma prefix_same_length: "length p = length q \<Longrightarrow> prefix q (p @ r) \<longleftrightarrow> p = q"
  by (auto simp: prefix_def)

section \<open>Bytes and words\<close>

lemma bytes_bits_append [simp]: "bytes_bits (as @ bs) = bytes_bits as @ bytes_bits bs"
  by (induction as) simp_all

lemma bytes_bits_take: "bytes_bits (take n bs) = take (8 * n) (bytes_bits bs)"
proof (induction n arbitrary: bs)
  case (Suc n)
  then show ?case by (cases bs) (simp_all add: min_def)
qed simp

lemma bytes_bits_drop: "bytes_bits (drop n bs) = drop (8 * n) (bytes_bits bs)"
proof (induction n arbitrary: bs)
  case (Suc n)
  then show ?case by (cases bs) simp_all
qed simp

lemma SetBytes_bval: "SetBytes bs = int (bval (bytes_bits bs))"
proof (induction bs)
  case (Cons b bs)
  have "(256 :: int) ^ n = 2 ^ (8 * n)" for n by (simp add: power_mult)
  then show ?case
    using Cons by (simp add: bval_append bval_word_bits)
qed simp

lemma bit_be_word:
  "bit (be_word bs :: 'a::len word) n \<longleftrightarrow>
     n < LENGTH('a) \<and> n < 8 * length bs \<and> bytes_bits bs ! (8 * length bs - 1 - n)"
proof (induction bs)
  case (Cons b bs)
  show ?case
  proof (cases "n < 8 * length bs")
    case True
    then show ?thesis
      using Cons by (auto simp: bit_simps nth_append)
  next
    case False
    have "bit b (n - 8 * length bs) \<longleftrightarrow> n < 8 * length (b # bs) \<and> word_bits b ! (8 * length (b # bs) - 1 - n)"
    proof (cases "n < 8 * length (b # bs)")
      case True
      then show ?thesis using False by (simp add: nth_word_bits)
    next
      case over: False
      then have "8 \<le> n - 8 * length bs" by simp
      then show ?thesis using over bit_imp_le_length[of b "n - 8 * length bs"] by auto
    qed
    then show ?thesis
      using Cons False by (auto simp: bit_simps nth_append)
  qed
qed simp

lemma word_bits_be_word:
  assumes "8 * length bs = LENGTH('a)"
  shows "word_bits (be_word bs :: 'a::len word) = bytes_bits bs"
  by (rule nth_equalityI) (use assms in \<open>auto simp: nth_word_bits bit_be_word\<close>)

lemma be_bytes_be_word:
  assumes "8 * length bs = LENGTH('a)"
  shows "be_bytes (length bs) (be_word bs :: 'a::len word) = bs"
proof -
  have "bytes_bits (be_bytes (length bs) (be_word bs :: 'a word)) = bytes_bits bs"
    using assms by (simp add: bytes_bits_be_bytes word_bits_be_word)
  then show ?thesis by (simp add: bytes_bits_inj)
qed

lemma uint_be_word:
  "8 * length bs = LENGTH('a) \<Longrightarrow> uint (be_word bs :: 'a::len word) = SetBytes bs"
  by (metis SetBytes_bval bval_word_bits word_bits_be_word uint_nat)

section \<open>Masks\<close>

lemma byte_bits_word_bits: "byte_bits b = word_bits b"
  by (simp add: byte_bits_def word_bits_def)

lemma length_CIDRMask: "m \<le> fam_width v \<Longrightarrow> 8 * length (CIDRMask (int m) (int (fam_width v))) = fam_width v"
  by (simp add: CIDRMask_def fam_width_def)

lemma bit_mask_byte: "j < 8 \<Longrightarrow> bit (mask_byte m k) (7 - j) \<longleftrightarrow> 8 * k + j < m"
proof -
  assume j: "j < 8"
  have ff: "bit (0xff :: 8 word) (7 - j)"
    using j by (auto simp: less_Suc_eq numeral_eq_Suc)
  show ?thesis
    using j ff by (auto simp: mask_byte_def bit_simps)
qed

lemma bytes_bits_CIDRMask:
  assumes "m \<le> fam_width v"
  shows "bytes_bits (CIDRMask (int m) (int (fam_width v))) = replicate m True @ replicate (fam_width v - m) False"
proof (rule nth_equalityI)
  let ?M = "CIDRMask (int m) (int (fam_width v))"
  show len: "length (bytes_bits ?M) = length (replicate m True @ replicate (fam_width v - m) False)"
    using length_CIDRMask[OF assms] assms by simp
  fix i assume "i < length (bytes_bits ?M)"
  then have i: "i < fam_width v" using length_CIDRMask[OF assms] by simp
  then have "i div 8 < fam_width v div 8" by (auto simp: fam_width_def split: if_splits)
  then have "?M ! (i div 8) = mask_byte m (i div 8)"
    using assms by (simp add: CIDRMask_def fam_width_def)
  then have "bytes_bits ?M ! i \<longleftrightarrow> i < m"
    using i length_CIDRMask[OF assms] bit_mask_byte[of "i mod 8" m "i div 8"] by (simp add: nth_bytes_bits)
  then show "bytes_bits ?M ! i = (replicate m True @ replicate (fam_width v - m) False) ! i"
    using i by (simp add: nth_append)
qed

lemma mask_Size_CIDRMask:
  assumes "m \<le> fam_width v"
  shows "mask_Size (CIDRMask (int m) (int (fam_width v))) = (int m, int (fam_width v))"
proof -
  let ?M = "CIDRMask (int m) (int (fam_width v))"
  have bits: "concat (map byte_bits ?M) = replicate m True @ replicate (fam_width v - m) False"
    using bytes_bits_CIDRMask[OF assms] by (simp add: bytes_bits_def byte_bits_word_bits[abs_def])
  have tw: "takeWhile id (replicate m True @ replicate k False) = replicate m True" for k
    by (induction m) (cases k, simp_all)
  have "simpleMaskLength ?M = int m"
    unfolding simpleMaskLength_def bits Let_def tw by (simp add: list_all_iff)
  then show ?thesis
    using length_CIDRMask[OF assms] by (simp add: mask_Size_def Let_def mult.commute)
qed

lemma bytes_bits_and:
  "length as = length bs \<Longrightarrow> bytes_bits (map2 (AND) as bs) = map2 (\<and>) (bytes_bits as) (bytes_bits bs)"
proof (induction as bs rule: list_induct2)
  case (Cons a as b bs)
  have "word_bits (a AND b) = map2 (\<and>) (word_bits a) (word_bits b)"
    by (rule nth_equalityI) (auto simp: nth_word_bits bit_simps)
  then show ?case using Cons by (simp add: zip_append)
qed simp

lemma map2_and_mask:
  "length xs = W \<Longrightarrow> m \<le> W \<Longrightarrow>
     map2 (\<and>) xs (replicate m True @ replicate (W - m) False) = take m xs @ replicate (W - m) False"
  by (rule nth_equalityI) (auto simp: nth_append)

text \<open>Addresses in the byte form of their family. An IPv6 address is not taken for an IPv4-mapped one
  when one of its first ten bytes is set.\<close>

definition ip_ok :: "bool \<Rightarrow> IP \<Rightarrow> bool" where
  "ip_ok v ip \<longleftrightarrow> 8 * length ip = fam_width v \<and> (\<not> v \<longrightarrow> take 12 ip \<noteq> v4InV6Prefix)"

lemma To4_ok: "ip_ok v ip \<Longrightarrow> To4 ip = (if v then Some ip else None)"
  by (auto simp: ip_ok_def To4_def fam_width_def split: if_splits)

lemma To16_ok: "ip_ok v ip \<Longrightarrow> \<exists>x. To16 ip = Some x"
  by (auto simp: ip_ok_def To16_def fam_width_def split: if_splits)

lemma bytes_bits_ip_Mask:
  assumes "8 * length ip = fam_width v" "m \<le> fam_width v"
  shows "bytes_bits (ip_Mask ip (CIDRMask (int m) (int (fam_width v)))) =
     take m (bytes_bits ip) @ replicate (fam_width v - m) False"
    "8 * length (ip_Mask ip (CIDRMask (int m) (int (fam_width v)))) = fam_width v"
proof -
  let ?M = "CIDRMask (int m) (int (fam_width v))"
  have len: "length ?M = length ip" using length_CIDRMask[OF assms(2)] assms(1) by simp
  then have "ip_Mask ip ?M = map2 (AND) ip ?M" by (auto simp: ip_Mask_def Let_def)
  then show "bytes_bits (ip_Mask ip ?M) = take m (bytes_bits ip) @ replicate (fam_width v - m) False"
    "8 * length (ip_Mask ip ?M) = fam_width v"
    using assms len by (simp_all add: bytes_bits_and bytes_bits_CIDRMask map2_and_mask)
qed

section \<open>Networks\<close>

text \<open>A network as \<open>ParseCIDR\<close> returns it, with prefix length \<open>m\<close>: the host bits are clear. IPv6 networks inside
  \<open>::/80\<close>, whose addresses \<open>To4\<close> may take for IPv4, are left out.\<close>

definition net_ok :: "bool \<Rightarrow> nat \<Rightarrow> IPNet \<Rightarrow> bool" where
  "net_ok v m n \<longleftrightarrow>
     m \<le> fam_width v \<and> 8 * length (ipn_IP n) = fam_width v \<and>
     ipn_Mask n = CIDRMask (int m) (int (fam_width v)) \<and>
     drop m (bytes_bits (ipn_IP n)) = replicate (fam_width v - m) False \<and>
     (\<not> v \<longrightarrow> take 10 (ipn_IP n) \<noteq> replicate 10 0)"

definition net_path :: "nat \<Rightarrow> IPNet \<Rightarrow> path" where
  "net_path m n = take m (bytes_bits (ipn_IP n))"

lemma net_okD:
  assumes "net_ok v m n"
  shows "m \<le> fam_width v" "8 * length (ipn_IP n) = fam_width v"
    "ipn_Mask n = CIDRMask (int m) (int (fam_width v))"
    "bytes_bits (ipn_IP n) = net_path m n @ replicate (fam_width v - m) False"
    "length (net_path m n) = m"
  using assms append_take_drop_id[of m "bytes_bits (ipn_IP n)"]
  by (auto simp: net_ok_def net_path_def)

lemma mapped_bits:
  assumes "length ip = 16" "take 12 ip = v4InV6Prefix"
  shows "take 10 ip = replicate 10 0" "bytes_bits ip ! 80"
proof -
  have "take 10 ip = take 10 (take 12 ip)" by simp
  also have "\<dots> = take 10 v4InV6Prefix" by (simp only: assms(2))
  also have "\<dots> = replicate 10 0" by (simp add: v4InV6Prefix_def numeral_eq_Suc)
  finally show "take 10 ip = replicate 10 0" .
  have "ip ! 10 = take 12 ip ! 10" by simp
  also have "\<dots> = 0xff" unfolding assms(2) by (simp add: v4InV6Prefix_def)
  finally have "ip ! 10 = 0xff" .
  then show "bytes_bits ip ! 80" using assms(1) by (simp add: nth_bytes_bits)
qed

lemma net_ok_ip: "net_ok v m n \<Longrightarrow> ip_ok v (ipn_IP n)"
  using mapped_bits(1)[of "ipn_IP n"] by (auto simp: net_ok_def ip_ok_def fam_width_def split: if_splits)

text \<open>Masking an address that is not IPv4-mapped, and is not in \<open>::/80\<close>, never makes it so.\<close>

lemma ip_ok_Mask:
  assumes "8 * length ip = fam_width v" "\<not> v \<longrightarrow> take 10 ip \<noteq> replicate 10 0" "m \<le> fam_width v"
  shows "ip_ok v (ip_Mask ip (CIDRMask (int m) (int (fam_width v))))" (is "ip_ok v ?r")
  unfolding ip_ok_def
proof (intro conjI impI notI)
  show "8 * length ?r = fam_width v" by (rule bytes_bits_ip_Mask(2)[OF assms(1,3)])
  assume nv: "\<not> v" and map: "take 12 ?r = v4InV6Prefix"
  then have W: "fam_width v = 128" by (simp add: fam_width_def)
  have "length ?r = 16" using bytes_bits_ip_Mask(2)[OF assms(1,3)] W by simp
  note mb = mapped_bits[OF this map]
  have bits: "bytes_bits ?r = take m (bytes_bits ip) @ replicate (128 - m) False"
    using bytes_bits_ip_Mask(1)[OF assms(1,3)] W by simp
  have len: "length ip = 16" using assms(1) W by simp
  have "80 < m"
  proof (rule ccontr)
    assume "\<not> 80 < m"
    then show False using mb(2) len unfolding bits by (simp add: nth_append split: if_splits)
  qed
  then have "take 80 (bytes_bits ?r) = take 80 (bytes_bits ip)" unfolding bits using len by simp
  then have "bytes_bits (take 10 ?r) = bytes_bits (take 10 ip)" by (simp add: bytes_bits_take)
  then have "take 10 ip = replicate 10 0" using mb(1) by (simp add: bytes_bits_inj)
  then show False using assms(2) nv by simp
qed

lemma networkNumberAndMask_ok: "net_ok v m n \<Longrightarrow> networkNumberAndMask n = Some (ipn_IP n, ipn_Mask n)"
  using net_ok_ip[of v m n] To4_ok[of v "ipn_IP n"] length_CIDRMask[of m v]
  by (cases v) (auto simp: networkNumberAndMask_def net_ok_def fam_width_def Let_def)

lemma map2_eq_iff:
  assumes "length a = length b" "length m = length b"
  shows "map2 f a m = map2 f b m \<longleftrightarrow> list_all (\<lambda>i. f (a ! i) (m ! i) = f (b ! i) (m ! i)) [0..<length b]"
proof -
  have "map2 f a m = map2 f b m \<longleftrightarrow> (\<forall>i < length b. map2 f a m ! i = map2 f b m ! i)"
    by (subst list_eq_iff_nth_eq) (use assms in simp)
  then show ?thesis using assms by (simp add: list_all_iff Ball_def)
qed

lemma net_Contains_iff:
  assumes "net_ok v m n" "ip_ok v ip"
  shows "net_Contains n ip \<longleftrightarrow> prefix (net_path m n) (bytes_bits ip)"
proof -
  have To4: "(case To4 ip of Some x \<Rightarrow> x | None \<Rightarrow> ip) = ip"
    using To4_ok[OF assms(2)] by simp
  have len: "length ip = length (ipn_IP n)" "length (ipn_Mask n) = length ip"
    using assms length_CIDRMask[of m v] by (auto simp: net_ok_def ip_ok_def)
  have lenW: "length (bytes_bits ip) = fam_width v" "length (bytes_bits (ipn_IP n)) = fam_width v"
    using assms by (auto simp: net_ok_def ip_ok_def)
  have m: "m \<le> fam_width v" using net_okD(1)[OF assms(1)] .
  have "net_Contains n ip \<longleftrightarrow> map2 (AND) (ipn_IP n) (ipn_Mask n) = map2 (AND) ip (ipn_Mask n)"
    unfolding map2_eq_iff[OF len(1)[symmetric] len(2)]
    by (simp add: net_Contains_def networkNumberAndMask_ok[OF assms(1)] To4 len(1))
  also have "\<dots> \<longleftrightarrow> bytes_bits (map2 (AND) (ipn_IP n) (ipn_Mask n)) = bytes_bits (map2 (AND) ip (ipn_Mask n))"
    by (simp add: bytes_bits_inj)
  also have "\<dots> \<longleftrightarrow> take m (bytes_bits (ipn_IP n)) = take m (bytes_bits ip)"
    using len lenW m net_okD(3)[OF assms(1)]
    by (simp add: bytes_bits_and bytes_bits_CIDRMask map2_and_mask)
  also have "\<dots> \<longleftrightarrow> prefix (net_path m n) (bytes_bits ip)"
    using lenW m unfolding net_path_def
    by (metis append_eq_conv_conj append_take_drop_id length_take min.absorb2 prefix_def take_is_prefix)
  finally show ?thesis .
qed

text \<open>Two networks overlap when the path of one extends the path of the other; this is the test with two
  calls of \<open>Contains\<close> that the allocators use.\<close>

lemma overlap_test:
  assumes "net_ok v c n" "net_ok v k q"
  shows "net_Contains n (ip_Mask (ipn_IP q) (ipn_Mask n)) \<or> net_Contains q (ip_Mask (ipn_IP n) (ipn_Mask q)) \<longleftrightarrow>
     prefix (net_path c n) (net_path k q) \<or> prefix (net_path k q) (net_path c n)"
proof -
  have half: "net_Contains n (ip_Mask (ipn_IP q) (ipn_Mask n)) \<longleftrightarrow> prefix (net_path c n) (bytes_bits (ipn_IP q))"
    if n: "net_ok v c n" and q: "net_ok v k q" for c k n q
  proof -
    have q10: "\<not> v \<longrightarrow> take 10 (ipn_IP q) \<noteq> replicate 10 0" using q by (simp add: net_ok_def)
    note mk = ip_ok_Mask[OF net_okD(2)[OF q] q10 net_okD(1)[OF n], folded net_okD(3)[OF n]]
    have len: "length (take c (bytes_bits (ipn_IP q))) = length (net_path c n)"
      using net_okD(1)[OF n] net_okD(2)[OF q] net_okD(5)[OF n] by simp
    have "net_Contains n (ip_Mask (ipn_IP q) (ipn_Mask n)) \<longleftrightarrow>
        prefix (net_path c n) (bytes_bits (ip_Mask (ipn_IP q) (ipn_Mask n)))"
      by (rule net_Contains_iff[OF n mk])
    also have "bytes_bits (ip_Mask (ipn_IP q) (ipn_Mask n)) =
        take c (bytes_bits (ipn_IP q)) @ replicate (fam_width v - c) False"
      unfolding net_okD(3)[OF n] by (rule bytes_bits_ip_Mask(1)[OF net_okD(2)[OF q] net_okD(1)[OF n]])
    also have "prefix (net_path c n) \<dots> \<longleftrightarrow> take c (bytes_bits (ipn_IP q)) = net_path c n"
      by (rule prefix_same_length[OF len])
    also have "\<dots> \<longleftrightarrow> prefix (net_path c n) (bytes_bits (ipn_IP q))"
      by (rule take_eq_prefix[OF net_okD(5)[OF n]])
    finally show ?thesis .
  qed
  show ?thesis
    unfolding half[OF assms] half[OF assms(2,1)] net_okD(4)[OF assms(1)] net_okD(4)[OF assms(2)]
    by (metis prefix_same_cases prefixI prefix_order.trans)
qed

end
