(* ===== verification/CidrBlocks.thy ===== *)
theory CidrBlocks
  imports CidrSet NetBits
begin

unbundle bit_operations_syntax

text \<open>
  The arithmetic of \<open>cidr_set.go\<close>: the \<open>i\<close>-th block of a cluster CIDR has the path of the cluster
  followed by the binary digits of \<open>i\<close>, for IPv4 and for both 64-bit halves of IPv6, and
  \<open>getBeginningAndEndIndices\<close> returns the indices of the blocks that overlap a CIDR.
\<close>

section \<open>Shape of a set\<close>

definition cs_shape :: "bool \<Rightarrow> nat \<Rightarrow> nat \<Rightarrow> CidrSet \<Rightarrow> bool" where
  "cs_shape v c m s \<longleftrightarrow>
     net_ok v c (clusterCIDR s) \<and> clusterMaskSize s = int c \<and> nodeMaskSize s = int m \<and>
     c \<le> m \<and> m \<le> fam_width v \<and> nodeMask s = CIDRMask (int m) (int (fam_width v)) \<and>
     m - c \<le> (if v then 31 else 16) \<and> maxCIDRs s = 2 ^ (m - c)"

lemma cs_shapeD:
  assumes "cs_shape v c m s"
  shows "net_ok v c (clusterCIDR s)" "clusterMaskSize s = int c" "nodeMaskSize s = int m" "c \<le> m"
    "m \<le> fam_width v" "nodeMask s = CIDRMask (int m) (int (fam_width v))"
    "m - c \<le> (if v then 31 else 16)" "maxCIDRs s = 2 ^ (m - c)"
  using assms by (simp_all add: cs_shape_def)

text \<open>The \<open>k\<close> binary digits of an index and the path of a block.\<close>

definition nbits :: "nat \<Rightarrow> nat \<Rightarrow> path" where
  "nbits k i = map (\<lambda>j. bit i (k - 1 - j)) [0..<k]"

definition block_path :: "CidrSet \<Rightarrow> nat \<Rightarrow> nat \<Rightarrow> nat \<Rightarrow> path" where
  "block_path s c m i = net_path c (clusterCIDR s) @ nbits (m - c) i"

lemma length_nbits [simp]: "length (nbits k i) = k"
  by (simp add: nbits_def)

lemma bval_nbits: "i < 2 ^ k \<Longrightarrow> bval (nbits k i) = i"
  using bval_bits[of i k] by (simp only: nbits_def take_bit_nat_eq_self)

lemma nbits_bval: "length xs = k \<Longrightarrow> nbits k (bval xs) = xs"
proof -
  assume len: "length xs = k"
  then have "bval xs < 2 ^ k" using bval_less by blast
  then have "bval (nbits k (bval xs)) = bval xs" by (rule bval_nbits)
  then show ?thesis
    using bval_le_iff[of "nbits k (bval xs)" xs] bval_le_iff[of xs "nbits k (bval xs)"] len by simp
qed

lemma nbits_inj: "i < 2 ^ k \<Longrightarrow> j < 2 ^ k \<Longrightarrow> nbits k i = nbits k j \<Longrightarrow> i = j"
  by (metis bval_nbits)

section \<open>From an address to an index\<close>

lemma unat_of_nat_small: "n < 2 ^ LENGTH('a::len) \<Longrightarrow> unat (of_nat n :: 'a::len word) = n"
  by (simp add: unsigned_of_nat take_bit_nat_eq_self)

lemma sint_of_nat_small: "n < 2 ^ (LENGTH('a::len) - 1) \<Longrightarrow> sint (of_nat n :: 'a::len word) = int n"
proof -
  assume "n < 2 ^ (LENGTH('a) - 1)"
  then have "int n < 2 ^ (LENGTH('a) - 1)" by (metis of_nat_less_iff of_nat_numeral of_nat_power)
  moreover have "- (2 ^ (LENGTH('a) - 1)) \<le> int n" by (rule order_trans[of _ 0]) simp_all
  ultimately show ?thesis by (simp add: signed_of_nat signed_take_bit_int_eq_self)
qed

lemma unat_of_int_power: "k < LENGTH('a::len) \<Longrightarrow> unat (of_int (2 ^ k) :: 'a::len word) = 2 ^ k"
  using unat_of_nat_small[where 'a = 'a, of "2 ^ k"] by simp

lemma unat_shr:
  assumes "k \<le> LENGTH('a::len)"
  shows "unat (shr (w :: 'a::len word) k) = bval (take (LENGTH('a) - k) (word_bits w))"
proof -
  have "bval (word_bits w) =
      bval (take (LENGTH('a) - k) (word_bits w)) * 2 ^ k + bval (drop (LENGTH('a) - k) (word_bits w))"
    using bval_append[of "take (LENGTH('a) - k) (word_bits w)" "drop (LENGTH('a) - k) (word_bits w)"] assms
    by simp
  moreover have "bval (drop (LENGTH('a) - k) (word_bits w)) < 2 ^ k"
    using bval_less[of "drop (LENGTH('a) - k) (word_bits w)"] assms by simp
  ultimately have "unat w div 2 ^ k = bval (take (LENGTH('a) - k) (word_bits w))"
    by (simp add: bval_word_bits)
  moreover have "k = LENGTH('a) \<Longrightarrow> unat w div 2 ^ k = 0"
    using unsigned_less[of w] by simp
  ultimately show ?thesis
    using assms by (cases "k < LENGTH('a)") (auto simp: shr_def unat_drop_bit_eq drop_bit_eq_div[of k "unat w"])
qed

lemma word_bits_xor: "word_bits (a XOR b) = map2 (\<noteq>) (word_bits a) (word_bits b)"
  by (rule nth_equalityI) (auto simp: nth_word_bits bit_simps)

lemma xor_path:
  assumes "length xs = length ys" "c \<le> length xs" "take c xs = take c ys"
    "drop c xs = replicate (length xs - c) False"
  shows "map2 (\<noteq>) xs ys = replicate c False @ drop c ys"
proof (rule nth_equalityI)
  fix i assume "i < length (map2 (\<noteq>) xs ys)"
  then have i: "i < length xs" "i < length ys" using assms(1) by auto
  show "map2 (\<noteq>) xs ys ! i = (replicate c False @ drop c ys) ! i"
  proof (cases "i < c")
    case True
    then have "xs ! i = ys ! i" using assms(3) by (metis nth_take)
    then show ?thesis using i True by (simp add: nth_append)
  next
    case False
    then have "\<not> xs ! i"
      using assms(4) i by (metis add_diff_inverse_nat nth_drop nth_replicate assms(2) diff_less_mono leI)
    then show ?thesis using i False by (simp add: nth_append)
  qed
qed (use assms in simp)

lemma bval_leading_zeros [simp]: "bval (replicate c False @ xs) = bval xs"
  by (induction c) simp_all

text \<open>The index of an address of the cluster: its digits between the two prefix lengths.\<close>

lemma getIndexForIP_ok:
  assumes s: "cs_shape v c m s" and ip: "ip_ok v ip" and cl: "prefix (net_path c (clusterCIDR s)) (bytes_bits ip)"
  shows "getIndexForIP s ip = Inr (int (bval (drop c (take m (bytes_bits ip)))))"
proof -
  let ?C = "bytes_bits (ipn_IP (clusterCIDR s))" and ?I = "bytes_bits ip" and ?W = "fam_width v"
  note D = cs_shapeD[OF s]
  note N = net_okD[OF D(1)]
  have len: "length ?C = ?W" "length ?I = ?W" using N(2) ip by (simp_all add: ip_ok_def)
  have "take c ?I = take c ?C"
    using cl N(4,5) by (simp add: take_eq_prefix)
  moreover have "drop c ?C = replicate (length ?C - c) False" using D(1) len by (simp add: net_ok_def)
  ultimately have x: "map2 (\<noteq>) ?C ?I = replicate c False @ drop c ?I"
    using len N(1) by (intro xor_path) auto
  define j where "j = bval (drop c (take m ?I))"
  have tk: "bval (take m (map2 (\<noteq>) ?C ?I)) = j"
    unfolding x j_def using D(4) by (simp add: drop_take)
  have jlt: "j < 2 ^ (m - c)"
    using bval_less[of "drop c (take m ?I)"] len D(5) by (simp add: j_def)
  show ?thesis
  proof (cases v)
    case True
    then have W: "?W = 32" and m: "m \<le> 32" using D(5) by (simp_all add: fam_width_def)
    have l4: "length ip = 4" "length (ipn_IP (clusterCIDR s)) = 4"
      using ip N(2) W by (simp_all add: ip_ok_def)
    have sh: "shift32 (32 - int m) = 32 - m" using m by (simp add: shift32_def nat_mod_distrib)
    have wb: "word_bits (Uint32 (ipn_IP (clusterCIDR s)) XOR Uint32 ip) = map2 (\<noteq>) ?C ?I"
      using l4 by (simp add: Uint32_def word_bits_xor word_bits_be_word)
    have "unat (shr (Uint32 (ipn_IP (clusterCIDR s)) XOR Uint32 ip) (32 - m)) = j"
      using unat_shr[where 'a = 32, of "32 - m"] m tk wb by simp
    moreover have "unat (of_int (maxCIDRs s) :: 32 word) = 2 ^ (m - c)"
      unfolding D(8) by (rule unat_of_int_power) (use D(7) True in simp)
    ultimately show ?thesis
      using jlt To4_ok[OF ip] True D(3) sh
      by (auto simp: getIndexForIP_def Let_def j_def word_le_nat_alt uint_nat)
  next
    case False
    then have W: "?W = 128" and m: "m \<le> 128" and mc: "m - c \<le> 16" using D(5,7) by (simp_all add: fam_width_def)
    have l16: "length ip = 16" "length (ipn_IP (clusterCIDR s)) = 16"
      using ip N(2) W by (simp_all add: ip_ok_def)
    let ?x = "be_word (ipn_IP (clusterCIDR s)) XOR be_word ip :: 128 word"
    have "SetBytes (ipn_IP (clusterCIDR s)) XOR SetBytes ip = uint ?x"
      using l16 by (simp add: uint_be_word[where 'a = 128, symmetric] unsigned_xor_eq)
    moreover have sh: "nat ((128 - int m) mod 2 ^ 64) = 128 - m" using m by (simp add: nat_mod_distrib)
    moreover have "drop_bit (128 - m) (uint ?x) = int j"
    proof (cases "m = 0")
      case True
      then have "j = 0" using tk by simp
      moreover have "drop_bit 128 (uint ?x) = 0"
        using uint_lt2p[of ?x] by (simp add: drop_bit_eq_div)
      ultimately show ?thesis using True by simp
    next
      case False
      have "word_bits ?x = map2 (\<noteq>) ?C ?I"
        using l16 by (simp add: word_bits_xor word_bits_be_word)
      then have "unat (shr ?x (128 - m)) = j"
        using unat_shr[where 'a = 128, of "128 - m" ?x] m tk by simp
      then have "uint (drop_bit (128 - m) ?x) = int j"
        using False m by (simp add: shr_def uint_nat)
      moreover have "uint (drop_bit k w) = drop_bit k (uint w)" for k and w :: "128 word"
        using uint_lt2p[of w] by (simp add: unsigned_drop_bit_eq take_bit_int_eq_self)
      ultimately show ?thesis by metis
    qed
    moreover have "unat (of_int (maxCIDRs s) :: 64 word) = 2 ^ (m - c)"
      unfolding D(8) by (rule unat_of_int_power) (use mc in simp)
    moreover have j16: "j < 2 ^ 16" using jlt mc by (meson le_less_trans less_le_trans one_le_numeral power_increasing)
    then have "unat (of_nat j :: 64 word) = j" "sint (of_nat j :: 64 word) = int j"
      by (simp_all add: unat_of_nat_small sint_of_nat_small)
    ultimately show ?thesis
      using jlt To4_ok[OF ip] To16_ok[OF ip] False D(3)
      by (auto simp: getIndexForIP_def Let_def j_def word_le_nat_alt)
  qed
qed

section \<open>From an index to a block\<close>

lemma bit_high: "i < 2 ^ k \<Longrightarrow> k \<le> n \<Longrightarrow> \<not> bit (i :: nat) n"
  by (metis bit_take_bit_iff not_less take_bit_nat_eq_self)

lemma path_or_index:
  assumes "length L = W" "length C = W" "c \<le> m" "m \<le> W" "drop c C = replicate (W - c) False" "i < 2 ^ (m - c)"
    and bits: "\<And>n. n < W \<Longrightarrow> L ! n \<longleftrightarrow> C ! n \<or> (n < m \<and> bit i (m - 1 - n))"
  shows "L = take c C @ nbits (m - c) i @ replicate (W - m) False"
proof (rule nth_equalityI)
  fix n assume "n < length L"
  then have n: "n < W" using assms(1) by simp
  have low: "\<not> C ! n" if "c \<le> n"
    using that n assms(2,5) by (metis add_diff_inverse_nat diff_less_mono leD nth_drop nth_replicate assms(3,4) le_trans)
  consider "n < c" | "c \<le> n" "n < m" | "m \<le> n" by linarith
  then show "L ! n = (take c C @ nbits (m - c) i @ replicate (W - m) False) ! n"
  proof cases
    case 1
    then have "\<not> bit i (m - 1 - n)" using bit_high[OF assms(6)] assms(3) by simp
    then show ?thesis using 1 n bits[OF n] assms by (simp add: nth_append)
  next
    case 2
    then have "m - c - 1 - (n - c) = m - 1 - n" "n - c < m - c" by simp_all
    then show ?thesis using 2 n bits[OF n] low assms by (simp add: nth_append nbits_def)
  next
    case 3
    then have "\<not> n - c < m - c" "n - c - (m - c) < W - m" using n assms(3) by simp_all
    then show ?thesis using 3 n bits[OF n] low assms by (simp add: nth_append)
  qed
qed (use assms in simp)

lemma bit_shl: "bit (shl (w :: 'a::len word) k) n \<longleftrightarrow> n < LENGTH('a) \<and> k \<le> n \<and> bit w (n - k)"
  by (auto simp: shl_def bit_simps dest: bit_imp_le_length)

lemma bit_shr: "bit (shr (w :: 'a::len word) k) n \<longleftrightarrow> bit w (n + k)"
  by (auto simp: shr_def bit_simps add.commute dest: bit_imp_le_length)

lemma bit_of_index: "bit (of_nat i :: 'a::len word) n \<longleftrightarrow> n < LENGTH('a) \<and> bit i n"
  by (simp add: bit_simps)

text \<open>The part of the index that \<open>LeadingZeros64\<close> guards is zero otherwise.\<close>

lemma bit_LeadingZeros64:
  assumes "bit w n"
  shows "n < 64 - LeadingZeros64 w"
proof -
  let ?xs = "map (\<lambda>i. bit w (63 - i)) [0..<64]"
  have n: "n < 64" using assms bit_imp_le_length[of w n] by simp
  have "LeadingZeros64 w \<le> 63 - n"
  proof (rule ccontr)
    assume "\<not> LeadingZeros64 w \<le> 63 - n"
    then have k: "63 - n < length (takeWhile Not ?xs)" by (simp add: LeadingZeros64_def)
    then have "Not (takeWhile Not ?xs ! (63 - n))" by (metis nth_mem set_takeWhileD)
    moreover have "takeWhile Not ?xs ! (63 - n) = ?xs ! (63 - n)" using k by (rule takeWhile_nth)
    ultimately show False using n assms by simp
  qed
  then show ?thesis using n by simp
qed

lemma shr_small_index: "64 - LeadingZeros64 w \<le> btl \<Longrightarrow> shr w btl = 0"
  by (rule bit_word_eqI) (auto simp: bit_shr dest: bit_LeadingZeros64)

lemma length_block: "cs_shape v c m s \<Longrightarrow> 8 * length (ipn_IP (indexToCIDRBlock s i k)) = fam_width v"
  using To4_ok[OF net_ok_ip[OF cs_shapeD(1)]] To16_ok[OF net_ok_ip[OF cs_shapeD(1)]]
  by (auto simp: indexToCIDRBlock_def Let_def fam_width_def split: if_splits)

lemma block_mask:
  assumes "cs_shape v c m s" "0 \<le> k"
  shows "ipn_Mask (indexToCIDRBlock s i k) = CIDRMask (if k = 0 then int m else k) (int (fam_width v))"
  using To4_ok[OF net_ok_ip[OF cs_shapeD(1)[OF assms(1)]]] To16_ok[OF net_ok_ip[OF cs_shapeD(1)[OF assms(1)]]]
    cs_shapeD(3)[OF assms(1)]
  by (auto simp: indexToCIDRBlock_def Let_def fam_width_def split: if_splits)

lemma block_bits4:
  assumes s: "cs_shape True c m s" and i: "i < 2 ^ (m - c)"
  shows "bytes_bits (ipn_IP (indexToCIDRBlock s (int i) k)) = block_path s c m i @ replicate (32 - m) False"
proof -
  let ?C = "ipn_IP (clusterCIDR s)"
  note D = cs_shapeD[OF s]
  note N = net_okD[OF D(1)]
  have W: "fam_width True = 32" by (simp add: fam_width_def)
  have m: "m \<le> 32" "length ?C = 4" using D(5) N(2) W by simp_all
  have sh: "shift32 (32 - int m) = 32 - m" using m by (simp add: shift32_def nat_mod_distrib)
  let ?w = "Uint32 ?C OR shl (of_int (int i)) (32 - m)"
  have C: "word_bits (Uint32 ?C) = bytes_bits ?C" using m by (simp add: Uint32_def word_bits_be_word)
  have "word_bits ?w = take c (bytes_bits ?C) @ nbits (m - c) i @ replicate (32 - m) False"
  proof (rule path_or_index[where C = "bytes_bits ?C" and W = 32])
    fix n assume n: "n < (32::nat)"
    have "word_bits ?w ! n \<longleftrightarrow> word_bits (Uint32 ?C) ! n \<or> (n < m \<and> bit i (m - 1 - n))"
      using n m(1) by (auto simp: nth_word_bits bit_simps bit_shl bit_of_index)
    then show "word_bits ?w ! n \<longleftrightarrow> bytes_bits ?C ! n \<or> (n < m \<and> bit i (m - 1 - n))"
      unfolding C .
  qed (use m D i W in \<open>auto simp: net_ok_def\<close>)
  moreover have "ipn_IP (indexToCIDRBlock s (int i) k) = be_bytes 4 ?w"
    using To4_ok[OF net_ok_ip[OF D(1)]] D(3) sh by (simp add: indexToCIDRBlock_def Let_def)
  ultimately show ?thesis
    by (simp add: bytes_bits_be_bytes block_path_def net_path_def)
qed

text \<open>The two halves of an IPv6 block, as \<open>indexToCIDRBlock\<close> computes them.\<close>

definition v6_left :: "nat \<Rightarrow> nat \<Rightarrow> 64 word \<Rightarrow> 64 word \<Rightarrow> 64 word" where
  "v6_left c m left idx =
     (if m \<le> 64 then left OR shl idx (64 - m)
      else if c < 64 \<and> m - 64 < 64 - LeadingZeros64 idx then left OR shr idx (m - 64) else left)"

definition v6_right :: "nat \<Rightarrow> 64 word \<Rightarrow> 64 word \<Rightarrow> 64 word" where
  "v6_right m right idx = (if m \<le> 64 then right else right OR shl idx (128 - m))"

lemma v6_left_bits:
  assumes "m \<le> 128" "i < 2 ^ (m - c)" "m - c \<le> 16" "n < 64"
  shows "word_bits (v6_left c m left (of_nat i)) ! n \<longleftrightarrow> word_bits left ! n \<or> (n < m \<and> bit i (m - 1 - n))"
proof (cases "m \<le> 64")
  case True
  then show ?thesis
    using assms by (auto simp: v6_left_def nth_word_bits bit_simps bit_shl bit_of_index)
next
  case False
  let ?sh = "shr (of_nat i :: 64 word) (m - 64)"
  have small: "bit i k \<Longrightarrow> k < 64" for k
    using bit_high[OF assms(2), of k] assms(3) by (cases "m - c \<le> k") auto
  have sh: "bit ?sh (63 - n) \<longleftrightarrow> bit i (m - 1 - n)"
    using False assms(4) small[of "m - 1 - n"] by (auto simp: bit_shr bit_of_index)
  consider "64 \<le> c" | "c < 64" "m - 64 < 64 - LeadingZeros64 (of_nat i)"
    | "c < 64" "\<not> m - 64 < 64 - LeadingZeros64 (of_nat i)" by linarith
  then show ?thesis
  proof cases
    case 1
    then have "\<not> bit i (m - 1 - n)" using bit_high[OF assms(2)] assms(4) by simp
    then show ?thesis using 1 False by (simp add: v6_left_def)
  next
    case 2
    then show ?thesis using False sh assms(4) by (simp add: v6_left_def nth_word_bits bit_simps)
  next
    case 3
    then have "\<not> bit ?sh (63 - n)" using shr_small_index[of "of_nat i" "m - 64"] by simp
    then show ?thesis using 3 False sh by (simp add: v6_left_def)
  qed
qed

lemma v6_right_bits:
  assumes "m \<le> 128" "64 \<le> n" "n < 128" "i < 2 ^ (m - c)" "m - c \<le> 16"
  shows "word_bits (v6_right m right (of_nat i)) ! (n - 64) \<longleftrightarrow>
     word_bits right ! (n - 64) \<or> (n < m \<and> bit i (m - 1 - n))"
  using assms by (auto simp: v6_right_def nth_word_bits bit_simps bit_shl bit_of_index)

lemma block_halves:
  assumes s: "cs_shape False c m s"
  shows "ipn_IP (indexToCIDRBlock s (int i) k) =
     be_bytes 8 (v6_left c m (Uint64 (take 8 (ipn_IP (clusterCIDR s)))) (of_nat i)) @
     be_bytes 8 (v6_right m (Uint64 (drop 8 (ipn_IP (clusterCIDR s)))) (of_nat i))"
proof -
  note D = cs_shapeD[OF s]
  have m: "m \<le> 128" using D(5) by (simp add: fam_width_def)
  have sh: "nat ((64 - int m) mod 2 ^ 64) = 64 - m" if "m \<le> 64"
    using that by (simp add: nat_mod_distrib)
  have sh': "nat ((int m - 64) mod 2 ^ 64) = m - 64" "nat ((128 - int m) mod 2 ^ 64) = 128 - m" if "\<not> m \<le> 64"
    using that m by (simp_all add: nat_mod_distrib)
  show ?thesis
    using To4_ok[OF net_ok_ip[OF D(1)]] To16_ok[OF net_ok_ip[OF D(1)]] D(2,3) sh sh'
    by (auto simp: indexToCIDRBlock_def Let_def v6_left_def v6_right_def)
qed

lemma block_bits6:
  assumes s: "cs_shape False c m s" and i: "i < 2 ^ (m - c)"
  shows "bytes_bits (ipn_IP (indexToCIDRBlock s (int i) k)) = block_path s c m i @ replicate (128 - m) False"
proof -
  let ?C = "ipn_IP (clusterCIDR s)"
  let ?l = "Uint64 (take 8 ?C)" and ?r = "Uint64 (drop 8 ?C)"
  let ?L = "word_bits (v6_left c m ?l (of_nat i)) @ word_bits (v6_right m ?r (of_nat i))"
  note D = cs_shapeD[OF s]
  note N = net_okD[OF D(1)]
  have W: "fam_width False = 128" by (simp add: fam_width_def)
  have m: "m \<le> 128" "length ?C = 16" "m - c \<le> 16" using D(5,7) N(2) W by simp_all
  have half: "word_bits ?l = take 64 (bytes_bits ?C)" "word_bits ?r = drop 64 (bytes_bits ?C)"
    using m by (simp_all add: Uint64_def word_bits_be_word bytes_bits_take bytes_bits_drop)
  have "?L = take c (bytes_bits ?C) @ nbits (m - c) i @ replicate (128 - m) False"
  proof (rule path_or_index[where C = "bytes_bits ?C" and W = 128])
    fix n assume n: "n < (128::nat)"
    show "?L ! n \<longleftrightarrow> bytes_bits ?C ! n \<or> (n < m \<and> bit i (m - 1 - n))"
    proof (cases "n < 64")
      case True
      then show ?thesis
        using v6_left_bits[OF m(1) i m(3) True, of ?l] by (simp add: nth_append half)
    next
      case False
      then show ?thesis
        using v6_right_bits[OF m(1) _ n i m(3), of ?r] m(2) n by (simp add: nth_append half)
    qed
  qed (use m D i W in \<open>auto simp: net_ok_def\<close>)
  then show ?thesis
    unfolding block_halves[OF s] by (simp add: bytes_bits_be_bytes block_path_def net_path_def)
qed

lemma block_bits:
  assumes "cs_shape v c m s" "i < 2 ^ (m - c)"
  shows "bytes_bits (ipn_IP (indexToCIDRBlock s (int i) k)) = block_path s c m i @ replicate (fam_width v - m) False"
  using block_bits4[of c m s i k] block_bits6[of c m s i k] assms
  by (cases v) (simp_all add: fam_width_def)

section \<open>Blocks are networks\<close>

lemma take10_iff:
  assumes "length ip = 16"
  shows "take 10 ip = replicate 10 0 \<longleftrightarrow> (\<forall>n < 80. \<not> bytes_bits ip ! n)"
proof -
  have z: "bytes_bits (replicate 10 0) = replicate 80 False"
    by (simp add: numeral_eq_Suc word_bits_def bytes_bits_def)
  have "take 10 ip = replicate 10 0 \<longleftrightarrow> bytes_bits (take 10 ip) = bytes_bits (replicate 10 0)"
    by (simp only: bytes_bits_inj)
  also have "\<dots> \<longleftrightarrow> take 80 (bytes_bits ip) = replicate 80 False"
    by (simp add: bytes_bits_take z)
  also have "\<dots> \<longleftrightarrow> (\<forall>n < 80. \<not> bytes_bits ip ! n)"
    using assms by (auto simp: list_eq_iff_nth_eq)
  finally show ?thesis .
qed

text \<open>An IPv6 address that has all bits of a network outside \<open>::/80\<close> is itself outside.\<close>

lemma net_ok_more_bits:
  assumes "net_ok v c n" "8 * length ip = fam_width v"
    "\<And>j. j < fam_width v \<Longrightarrow> bytes_bits (ipn_IP n) ! j \<Longrightarrow> bytes_bits ip ! j"
  shows "\<not> v \<longrightarrow> take 10 ip \<noteq> replicate 10 0"
proof (intro impI notI)
  assume v: "\<not> v" and z: "take 10 ip = replicate 10 0"
  have "length ip = 16" "length (ipn_IP n) = 16"
    using assms(2) net_okD(2)[OF assms(1)] v by (simp_all add: fam_width_def)
  then have "take 10 (ipn_IP n) = replicate 10 0"
    using z assms(3) v by (auto simp: take10_iff fam_width_def)
  then show False using assms(1) v by (simp add: net_ok_def)
qed

lemma length_block_path: "cs_shape v c m s \<Longrightarrow> length (block_path s c m i) = m"
  using net_okD(5)[OF cs_shapeD(1)] cs_shapeD(4) by (simp add: block_path_def)

lemma block_net:
  assumes s: "cs_shape v c m s" and i: "i < 2 ^ (m - c)"
  shows "net_ok v m (indexToCIDRBlock s (int i) 0)" "net_path m (indexToCIDRBlock s (int i) 0) = block_path s c m i"
proof -
  let ?b = "indexToCIDRBlock s (int i) 0"
  note D = cs_shapeD[OF s]
  note bits = block_bits[OF s i, of 0]
  note len = length_block_path[OF s, of i]
  have "bytes_bits (ipn_IP (clusterCIDR s)) ! j \<Longrightarrow> bytes_bits (ipn_IP ?b) ! j" if "j < fam_width v" for j
    using that net_okD(4,5)[OF D(1)] unfolding bits
    by (auto simp: block_path_def nth_append split: if_splits)
  then have "\<not> v \<longrightarrow> take 10 (ipn_IP ?b) \<noteq> replicate 10 0"
    by (rule net_ok_more_bits[OF D(1) length_block[OF s]])
  then show "net_ok v m ?b"
    using D(5) length_block[OF s, of "int i" 0] block_mask[OF s, of 0 "int i"] len bits by (simp add: net_ok_def)
  show "net_path m ?b = block_path s c m i" using bits len by (simp add: net_path_def)
qed

section \<open>The indices of a CIDR\<close>

definition comparable :: "path \<Rightarrow> path \<Rightarrow> bool" where
  "comparable p q \<longleftrightarrow> prefix p q \<or> prefix q p"

lemma word_bits_or_not: "word_bits (a OR NOT b) = map2 (\<lambda>x y. x \<or> \<not> y) (word_bits a) (word_bits b)"
  by (rule nth_equalityI) (auto simp: nth_word_bits bit_simps)

lemma map2_or_not_mask:
  "length p = k \<Longrightarrow>
     map2 (\<lambda>x y. x \<or> \<not> y) (p @ replicate r False) (replicate k True @ replicate r False) = p @ replicate r True"
  by (rule nth_equalityI) (auto simp: nth_append)

lemma map2_halves:
  "length xs = length ys \<Longrightarrow> map2 f (take k xs) (take k ys) @ map2 f (drop k xs) (drop k ys) = map2 f xs ys"
  by (metis (no_types, lifting) append_take_drop_id length_take map_append zip_append)

lemma lastIP_ok:
  assumes q: "net_ok v k q"
  obtains ip where "lastIP q = Inr ip" "8 * length ip = fam_width v"
    "bytes_bits ip = net_path k q @ replicate (fam_width v - k) True"
    "\<not> v \<longrightarrow> take 10 ip \<noteq> replicate 10 0"
proof -
  note N = net_okD[OF q]
  have lens: "8 * length (ipn_Mask q) = fam_width v" using N(3) length_CIDRMask[OF N(1)] by simp
  have all: "map2 (\<lambda>x y. x \<or> \<not> y) (bytes_bits (ipn_IP q)) (bytes_bits (ipn_Mask q)) =
      net_path k q @ replicate (fam_width v - k) True"
    unfolding N(4) N(3) bytes_bits_CIDRMask[OF N(1)] by (rule map2_or_not_mask[OF N(5)])
  obtain ip where ip: "lastIP q = Inr ip" "8 * length ip = fam_width v"
      "bytes_bits ip = map2 (\<lambda>x y. x \<or> \<not> y) (bytes_bits (ipn_IP q)) (bytes_bits (ipn_Mask q))"
  proof (cases v)
    case True
    then show thesis
      using that[of "be_bytes 4 (Uint32 (ipn_IP q) OR NOT (Uint32 (ipn_Mask q)))"] N(2) lens To4_ok[OF net_ok_ip[OF q]]
      by (simp add: lastIP_def fam_width_def bytes_bits_be_bytes word_bits_or_not Uint32_def word_bits_be_word)
  next
    case False
    let ?l = "Uint64 (take 8 (ipn_IP q)) OR NOT (Uint64 (take 8 (ipn_Mask q)))"
    let ?r = "Uint64 (drop 8 (ipn_IP q)) OR NOT (Uint64 (drop 8 (ipn_Mask q)))"
    have l: "length (ipn_IP q) = 16" "length (ipn_Mask q) = 16"
      using N(2) lens False by (simp_all add: fam_width_def)
    have "word_bits ?l @ word_bits ?r =
        map2 (\<lambda>x y. x \<or> \<not> y) (bytes_bits (ipn_IP q)) (bytes_bits (ipn_Mask q))"
      using l map2_halves[of "bytes_bits (ipn_IP q)" "bytes_bits (ipn_Mask q)" _ 64]
      by (simp add: word_bits_or_not Uint64_def word_bits_be_word bytes_bits_take bytes_bits_drop)
    then show thesis
      using that[of "be_bytes 8 ?l @ be_bytes 8 ?r"] l False To4_ok[OF net_ok_ip[OF q]]
      by (simp add: lastIP_def fam_width_def bytes_bits_be_bytes)
  qed
  have "bytes_bits (ipn_IP q) ! j \<Longrightarrow> bytes_bits ip ! j" if "j < fam_width v" for j
    using that N(4,5) unfolding ip(3) all by (auto simp: nth_append split: if_splits)
  then have "\<not> v \<longrightarrow> take 10 ip \<noteq> replicate 10 0" by (rule net_ok_more_bits[OF q ip(2)])
  with ip all that show thesis by metis
qed

text \<open>An interval of indices against the digits \<open>x\<close> of a CIDR.\<close>

lemma bval_replicate_True: "bval (replicate r True) = 2 ^ r - 1"
  by (induction r) auto

lemma between_multiples_iff:
  assumes "0 < (n :: nat)"
  shows "a * n \<le> z \<and> z \<le> a * n + (n - 1) \<longleftrightarrow> z div n = a"
proof
  assume z: "a * n \<le> z \<and> z \<le> a * n + (n - 1)"
  then have "z < a * n + n" using assms by linarith
  then show "z div n = a"
    using z by (intro div_nat_eqI) (simp_all add: algebra_simps)
next
  assume "z div n = a"
  then have "z = a * n + z mod n" by (metis div_mult_mod_eq)
  moreover have "z mod n < n" using assms by simp
  ultimately show "a * n \<le> z \<and> z \<le> a * n + (n - 1)" by linarith
qed

lemma interval_iff_comparable:
  assumes "length y = n" "length x + r \<ge> n"
  shows "bval (take n (x @ replicate r False)) \<le> bval y \<and> bval y \<le> bval (take n (x @ replicate r True)) \<longleftrightarrow>
     comparable y x"
proof (cases "length x < n")
  case False
  have "y = take n x \<longleftrightarrow> comparable y x"
  proof
    assume "comparable y x"
    moreover have "prefix x y \<Longrightarrow> prefix y x"
      using False assms(1) prefix_length_le by (metis le_antisym not_less prefix_order.dual_order.refl take_all take_eq_prefix)
    ultimately have "prefix y x" by (auto simp: comparable_def)
    then show "y = take n x" using take_eq_prefix[OF assms(1)] by metis
  qed (simp add: comparable_def take_is_prefix)
  moreover have "bval (take n x) \<le> bval y \<and> bval y \<le> bval (take n x) \<longleftrightarrow> y = take n x"
    using False assms(1) bval_le_iff[of "take n x" y] bval_le_iff[of y "take n x"] by auto
  ultimately show ?thesis using False by simp
next
  case True
  let ?y1 = "take (length x) y" and ?y2 = "drop (length x) y" and ?d = "n - length x"
  have len: "length ?y1 = length x" "length ?y2 = ?d" using True assms(1) by simp_all
  have y: "bval y = bval ?y1 * 2 ^ ?d + bval ?y2" using bval_append[of ?y1 ?y2] len by simp
  have y2: "bval ?y2 < 2 ^ ?d" using bval_less[of ?y2] len by simp
  have b: "bval (take n (x @ replicate r False)) = bval x * 2 ^ ?d"
    "bval (take n (x @ replicate r True)) = bval x * 2 ^ ?d + (2 ^ ?d - 1)"
  proof -
    have "take n (x @ replicate r b) = x @ replicate ?d b" for b
      using True assms(2) by (simp add: min_absorb1)
    moreover have "bval (replicate ?d False) = 0" using bval_leading_zeros[of ?d "[]"] by simp
    ultimately show "bval (take n (x @ replicate r False)) = bval x * 2 ^ ?d"
      "bval (take n (x @ replicate r True)) = bval x * 2 ^ ?d + (2 ^ ?d - 1)"
      by (simp_all add: bval_append bval_replicate_True)
  qed
  have "bval x * 2 ^ ?d \<le> bval y \<and> bval y \<le> bval x * 2 ^ ?d + (2 ^ ?d - 1) \<longleftrightarrow> bval y div 2 ^ ?d = bval x"
    by (rule between_multiples_iff) simp
  also have "bval y div 2 ^ ?d = bval ?y1" using y y2 by simp
  also have "bval ?y1 = bval x \<longleftrightarrow> ?y1 = x"
    using bval_le_iff[of ?y1 x] bval_le_iff[of x ?y1] len by auto
  also have "\<dots> \<longleftrightarrow> prefix x y" by (rule take_eq_prefix) simp
  also have "\<dots> \<longleftrightarrow> comparable y x"
    using True assms(1) prefix_length_le[of y x] by (auto simp: comparable_def)
  finally show ?thesis unfolding b .
qed

lemma index_of_masked:
  assumes s: "cs_shape v c m s" and len: "8 * length ip = fam_width v"
    and nz: "\<not> v \<longrightarrow> take 10 ip \<noteq> replicate 10 0"
    and cl: "prefix (net_path c (clusterCIDR s)) (bytes_bits ip)"
  shows "getIndexForCIDR s \<lparr>ipn_IP = ip_Mask ip (nodeMask s), ipn_Mask = nodeMask s\<rparr> =
     Inr (int (bval (take (m - c) (drop c (bytes_bits ip)))))"
proof -
  note D = cs_shapeD[OF s]
  let ?ip = "ip_Mask ip (nodeMask s)"
  have bits: "bytes_bits ?ip = take m (bytes_bits ip) @ replicate (fam_width v - m) False"
    unfolding D(6) by (rule bytes_bits_ip_Mask(1)[OF len D(5)])
  have ok: "ip_ok v ?ip" unfolding D(6) by (rule ip_ok_Mask[OF len nz D(5)])
  have cp: "length (net_path c (clusterCIDR s)) = c" using net_okD(5)[OF D(1)] .
  have "prefix (net_path c (clusterCIDR s)) (take m (bytes_bits ip))"
    using cl cp D(4) by (metis take_eq_prefix take_take min.absorb1)
  then have "prefix (net_path c (clusterCIDR s)) (bytes_bits ?ip)" unfolding bits by simp
  from getIndexForIP_ok[OF s ok this] show ?thesis
    unfolding getIndexForCIDR_def bits using len D(5) by (simp add: drop_take)
qed

text \<open>\<open>getBeginningAndEndIndices\<close> fails on a CIDR that does not overlap the cluster, and otherwise returns
  the interval of the indices whose blocks overlap the CIDR.\<close>

lemma indices_out:
  assumes s: "cs_shape v c m s" and q: "net_ok v k q"
    and cmp: "\<not> comparable (net_path c (clusterCIDR s)) (net_path k q)"
  shows "getBeginningAndEndIndices s (Some q) = Inl (OutOfClusterRange q (clusterCIDR s))"
  using overlap_test[OF cs_shapeD(1)[OF s] q] cmp
  by (auto simp: getBeginningAndEndIndices_def comparable_def Let_def split: prod.splits)

lemma indices_in:
  assumes s: "cs_shape v c m s" and q: "net_ok v k q"
    and cmp: "comparable (net_path c (clusterCIDR s)) (net_path k q)"
  obtains b e where "getBeginningAndEndIndices s (Some q) = Inr (int b, int e)" "e < 2 ^ (m - c)"
    "\<And>i. i < 2 ^ (m - c) \<Longrightarrow> b \<le> i \<and> i \<le> e \<longleftrightarrow> comparable (block_path s c m i) (net_path k q)"
proof (cases "c < k")
  case False
  note D = cs_shapeD[OF s]
  have "prefix (net_path k q) (net_path c (clusterCIDR s))"
    using cmp False net_okD(5)[OF D(1)] net_okD(5)[OF q] prefix_length_le
    by (metis comparable_def le_antisym not_less prefix_order.eq_iff take_all take_eq_prefix)
  then have all: "comparable (block_path s c m i) (net_path k q)" for i
    by (simp add: comparable_def block_path_def)
  have "getBeginningAndEndIndices s (Some q) = Inr (int 0, int (2 ^ (m - c) - 1))"
    using overlap_test[OF D(1) q] cmp False D(2,8) mask_Size_CIDRMask[OF net_okD(1)[OF q]] net_okD(3)[OF q]
    by (auto simp: getBeginningAndEndIndices_def comparable_def Let_def of_nat_diff)
  then show thesis by (rule that) (use all in auto)
next
  case True
  note D = cs_shapeD[OF s]
  note Q = net_okD[OF q]
  let ?C = "net_path c (clusterCIDR s)" and ?x = "drop c (net_path k q)"
  have lc: "length ?C = c" using net_okD(5)[OF D(1)] .
  have pre: "prefix ?C (net_path k q)"
    using cmp True lc Q(5) prefix_length_le by (fastforce simp: comparable_def)
  then have Qx: "net_path k q = ?C @ ?x" using lc by (metis append_eq_conv_conj prefixE)
  obtain l where l: "lastIP q = Inr l" "8 * length l = fam_width v"
      "bytes_bits l = net_path k q @ replicate (fam_width v - k) True" "\<not> v \<longrightarrow> take 10 l \<noteq> replicate 10 0"
    by (rule lastIP_ok[OF q])
  have nz: "\<not> v \<longrightarrow> take 10 (ipn_IP q) \<noteq> replicate 10 0" using q by (simp add: net_ok_def)
  let ?b = "bval (take (m - c) (?x @ replicate (fam_width v - k) False))"
  let ?e = "bval (take (m - c) (?x @ replicate (fam_width v - k) True))"
  have dropb: "drop c (bytes_bits (ipn_IP q)) = ?x @ replicate (fam_width v - k) False"
    "drop c (bytes_bits l) = ?x @ replicate (fam_width v - k) True"
    unfolding Q(4) l(3) using True Q(5) by simp_all
  have beg: "getIndexForCIDR s \<lparr>ipn_IP = ip_Mask (ipn_IP q) (nodeMask s), ipn_Mask = nodeMask s\<rparr> = Inr (int ?b)"
    using index_of_masked[OF s Q(2) nz] pre Q(4) dropb(1) by simp
  have lst: "getIndexForCIDR s \<lparr>ipn_IP = ip_Mask l (nodeMask s), ipn_Mask = nodeMask s\<rparr> = Inr (int ?e)"
    using index_of_masked[OF s l(2,4)] pre l(3) dropb(2) by simp
  have res: "getBeginningAndEndIndices s (Some q) = Inr (int ?b, int ?e)"
    using overlap_test[OF D(1) q] cmp True D(2) mask_Size_CIDRMask[OF Q(1)] Q(3) beg lst l(1)
    by (auto simp: getBeginningAndEndIndices_def comparable_def Let_def)
  have lenx: "m - c \<le> length ?x + (fam_width v - k)" using Q(1,5) D(5) True by simp
  have "length (take (m - c) (?x @ replicate (fam_width v - k) True)) = m - c"
    using lenx by (simp only: length_take length_append length_replicate min_absorb2)
  then have "?e < 2 ^ (m - c)" using bval_less by metis
  moreover have "?b \<le> i \<and> i \<le> ?e \<longleftrightarrow> comparable (block_path s c m i) (net_path k q)" if "i < 2 ^ (m - c)" for i
  proof -
    have "comparable (block_path s c m i) (net_path k q) \<longleftrightarrow> comparable (nbits (m - c) i) ?x"
      unfolding comparable_def block_path_def by (subst (1 2) Qx) simp
    then show ?thesis
      using interval_iff_comparable[of "nbits (m - c) i" "m - c" ?x, OF _ lenx] bval_nbits[OF that] by simp
  qed
  ultimately show thesis using that[OF res] by blast
qed

end
