(* ===== verification/CidrPool.thy ===== *)
theory CidrPool
  imports CidrBlocks
begin

unbundle bit_operations_syntax

text \<open>
  The bookkeeping of \<open>cidr_set.go\<close>: the invariant of a set (the counter counts the bits of the bitmap),
  what every operation does to the blocks in use, and the contract \<open>cidr_pool\<close> on which the allocators
  of \<open>pkg/nodeipam/ipam\<close> rely.
\<close>

section \<open>The invariant\<close>

definition in_use :: "CidrSet \<Rightarrow> nat set" where
  "in_use s = {i. bit (used s) i}"

definition cs_ok :: "bool \<Rightarrow> nat \<Rightarrow> nat \<Rightarrow> CidrSet \<Rightarrow> bool" where
  "cs_ok v c m s \<longleftrightarrow>
     cs_shape v c m s \<and> in_use s \<subseteq> {..<2 ^ (m - c)} \<and> allocatedCIDRs s = int (card (in_use s)) \<and>
     0 \<le> nextCandidate s \<and> nextCandidate s < 2 ^ (m - c)"

lemma cs_okD:
  assumes "cs_ok v c m s"
  shows "cs_shape v c m s" "in_use s \<subseteq> {..<2 ^ (m - c)}" "finite (in_use s)"
    "allocatedCIDRs s = int (card (in_use s))" "0 \<le> nextCandidate s" "nextCandidate s < 2 ^ (m - c)"
  using assms by (auto simp: cs_ok_def intro: finite_subset)

text \<open>The fields that only \<open>UpdateSubnetMaskSize\<close> changes.\<close>

definition frame :: "CidrSet \<Rightarrow> CidrSet \<Rightarrow> bool" where
  "frame s s' \<longleftrightarrow>
     clusterCIDR s' = clusterCIDR s \<and> clusterMaskSize s' = clusterMaskSize s \<and> nodeMask s' = nodeMask s \<and>
     nodeMaskSize s' = nodeMaskSize s \<and> maxCIDRs s' = maxCIDRs s \<and> cs_label s' = cs_label s"

lemma frame_refl [simp]: "frame s s"
  by (simp add: frame_def)

lemma frame_trans: "frame s s' \<Longrightarrow> frame s' s'' \<Longrightarrow> frame s s''"
  by (simp add: frame_def)

lemma frame_shape: "frame s s' \<Longrightarrow> cs_shape v c m s' = cs_shape v c m s"
  by (simp add: frame_def cs_shape_def)

lemma frame_block: "frame s s' \<Longrightarrow> block_path s' c m i = block_path s c m i"
  by (simp add: frame_def block_path_def)

lemma frame_indexToCIDRBlock: "frame s s' \<Longrightarrow> indexToCIDRBlock s' i k = indexToCIDRBlock s i k"
  by (simp only: frame_def indexToCIDRBlock_def Let_def)

section \<open>Single indices\<close>

lemma in_use_set_bit: "used s' = set_bit i (used s) \<Longrightarrow> in_use s' = insert i (in_use s)"
  by (auto simp: in_use_def bit_simps)

lemma in_use_unset_bit: "used s' = unset_bit i (used s) \<Longrightarrow> in_use s' = in_use s - {i}"
  by (auto simp: in_use_def bit_simps)

lemma take_index_ok:
  assumes "cs_ok v c m s" "i < 2 ^ (m - c)" "i \<notin> in_use s" "frame s s'"
    "used s' = set_bit i (used s)" "allocatedCIDRs s' = allocatedCIDRs s + 1"
    "0 \<le> nextCandidate s'" "nextCandidate s' < 2 ^ (m - c)"
  shows "cs_ok v c m s'"
  using assms cs_okD[OF assms(1)] frame_shape[OF assms(4)]
  by (simp add: cs_ok_def in_use_set_bit[OF assms(5)])

lemma occupy_index_ok:
  assumes "cs_ok v c m s" "0 \<le> i" "i < 2 ^ (m - c)"
  shows "cs_ok v c m (occupy_index i s) \<and> in_use (occupy_index i s) = insert (nat i) (in_use s) \<and>
     frame s (occupy_index i s)"
proof (cases "bit (used s) (nat i)")
  case True
  then show ?thesis using assms by (auto simp: occupy_index_def in_use_def)
next
  case False
  let ?s = "s\<lparr>used := set_bit (nat i) (used s), allocatedCIDRs := allocatedCIDRs s + 1\<rparr>"
  have "frame s ?s" by (simp add: frame_def)
  moreover have "cs_ok v c m ?s"
    by (rule take_index_ok[OF assms(1), of "nat i"])
      (use False assms cs_okD[OF assms(1)] in \<open>auto simp: in_use_def frame_def nat_less_iff\<close>)
  moreover have "in_use ?s = insert (nat i) (in_use s)" by (rule in_use_set_bit) simp
  ultimately show ?thesis using False by (simp add: occupy_index_def)
qed

lemma release_index_ok:
  assumes "cs_ok v c m s" "0 \<le> i"
  shows "cs_ok v c m (release_index i s) \<and> in_use (release_index i s) = in_use s - {nat i} \<and>
     frame s (release_index i s)"
proof (cases "bit (used s) (nat i)")
  case False
  then show ?thesis using assms by (auto simp: release_index_def in_use_def)
next
  case True
  let ?s = "s\<lparr>used := unset_bit (nat i) (used s), allocatedCIDRs := allocatedCIDRs s - 1\<rparr>"
  have fr: "frame s ?s" by (simp add: frame_def)
  have use: "in_use ?s = in_use s - {nat i}" by (rule in_use_unset_bit) simp
  have mem: "nat i \<in> in_use s" using True by (simp add: in_use_def)
  have "card (in_use s) = Suc (card (in_use s - {nat i}))"
    using mem cs_okD(3)[OF assms(1)] by (rule card.remove[rotated])
  then have "cs_ok v c m ?s"
    using cs_okD[OF assms(1)] frame_shape[OF fr] use by (auto simp: cs_ok_def)
  then show ?thesis using True fr use by (simp add: release_index_def)
qed

lemma occupy_range:
  assumes "cs_ok v c m s" "\<forall>i \<in> set is. 0 \<le> i \<and> i < 2 ^ (m - c)"
  shows "cs_ok v c m (fold occupy_index is s) \<and> in_use (fold occupy_index is s) = in_use s \<union> nat ` set is \<and>
     frame s (fold occupy_index is s)"
  using assms
proof (induction "is" arbitrary: s)
  case (Cons i "is")
  let ?s = "occupy_index i s"
  have h: "cs_ok v c m ?s" "in_use ?s = insert (nat i) (in_use s)" "frame s ?s"
    using occupy_index_ok[of v c m s i] Cons.prems by simp_all
  have "cs_ok v c m (fold occupy_index is ?s)" "in_use (fold occupy_index is ?s) = in_use ?s \<union> nat ` set is"
      "frame ?s (fold occupy_index is ?s)"
    using Cons.IH[OF h(1)] Cons.prems by simp_all
  then show ?case using h frame_trans[OF h(3)] by auto
qed simp

lemma release_range:
  assumes "cs_ok v c m s" "\<forall>i \<in> set is. 0 \<le> i"
  shows "cs_ok v c m (fold release_index is s) \<and> in_use (fold release_index is s) = in_use s - nat ` set is \<and>
     frame s (fold release_index is s)"
  using assms
proof (induction "is" arbitrary: s)
  case (Cons i "is")
  let ?s = "release_index i s"
  have h: "cs_ok v c m ?s" "in_use ?s = in_use s - {nat i}" "frame s ?s"
    using release_index_ok[of v c m s i] Cons.prems by simp_all
  have "cs_ok v c m (fold release_index is ?s)" "in_use (fold release_index is ?s) = in_use ?s - nat ` set is"
      "frame ?s (fold release_index is ?s)"
    using Cons.IH[OF h(1)] Cons.prems by simp_all
  then show ?case using h frame_trans[OF h(3)] by auto
qed simp

section \<open>Occupy and Release\<close>

lemma comparable_cluster:
  "comparable (block_path s c m i) p \<Longrightarrow> comparable (net_path c (clusterCIDR s)) p"
  unfolding comparable_def block_path_def
  by (metis append_prefixD prefixI prefix_same_cases)

text \<open>The blocks that overlap a network.\<close>

definition hit :: "nat \<Rightarrow> nat \<Rightarrow> CidrSet \<Rightarrow> path \<Rightarrow> nat set" where
  "hit c m s p = {i. i < 2 ^ (m - c) \<and> comparable (block_path s c m i) p}"

lemma indices_hit:
  assumes "cs_shape v c m s" "net_ok v k q" "comparable (net_path c (clusterCIDR s)) (net_path k q)"
  obtains b e where "getBeginningAndEndIndices s (Some q) = Inr (b, e)"
    "\<forall>i \<in> set [b..e]. 0 \<le> i \<and> i < 2 ^ (m - c)" "nat ` set [b..e] = hit c m s (net_path k q)"
proof -
  obtain b e where be: "getBeginningAndEndIndices s (Some q) = Inr (int b, int e)" "e < 2 ^ (m - c)"
      "\<And>i. i < 2 ^ (m - c) \<Longrightarrow> b \<le> i \<and> i \<le> e \<longleftrightarrow> comparable (block_path s c m i) (net_path k q)"
    using indices_in[OF assms] by blast
  have e: "int e < 2 ^ (m - c)" using be(2) by (metis of_nat_less_iff of_nat_numeral of_nat_power)
  have "\<forall>i \<in> set [int b..int e]. 0 \<le> i \<and> i < 2 ^ (m - c)"
  proof
    fix i assume "i \<in> set [int b..int e]"
    then have "int b \<le> i" "i \<le> int e" by simp_all
    then show "0 \<le> i \<and> i < 2 ^ (m - c)" using e by linarith
  qed
  moreover have "nat ` set [int b..int e] = {b..e}"
    by (auto simp: image_iff Bex_def intro!: exI[of _ "int _"])
  moreover have "i \<in> {b..e} \<longleftrightarrow> i \<in> hit c m s (net_path k q)" for i
    using be(3)[of i] be(2) by (cases "i < 2 ^ (m - c)") (auto simp: hit_def)
  then have "{b..e} = hit c m s (net_path k q)" by blast
  ultimately show thesis using that[OF be(1)] by metis
qed

lemma hit_out:
  "\<not> comparable (net_path c (clusterCIDR s)) p \<Longrightarrow> hit c m s p = {}"
  using comparable_cluster by (auto simp: hit_def)

lemma Occupy_ok:
  assumes s: "cs_ok v c m s" and q: "net_ok v k q"
  obtains s' r where "Occupy s (Some q) = (s', r)" "cs_ok v c m s'" "frame s s'"
    "in_use s' = in_use s \<union> hit c m s (net_path k q)"
    "r = (if comparable (net_path c (clusterCIDR s)) (net_path k q) then Inr ()
          else Inl (OutOfClusterRange q (clusterCIDR s)))"
proof (cases "comparable (net_path c (clusterCIDR s)) (net_path k q)")
  case False
  then show thesis
    using that[of s] indices_out[OF cs_okD(1)[OF s] q] s by (simp add: Occupy_def hit_out)
next
  case True
  obtain b e where be: "getBeginningAndEndIndices s (Some q) = Inr (b, e)"
      "\<forall>i \<in> set [b..e]. 0 \<le> i \<and> i < 2 ^ (m - c)" "nat ` set [b..e] = hit c m s (net_path k q)"
    by (rule indices_hit[OF cs_okD(1)[OF s] q True])
  from occupy_range[OF s be(2)] show thesis
    using that[of "fold occupy_index [b..e] s"] be True by (simp add: Occupy_def)
qed

lemma Release_ok:
  assumes s: "cs_ok v c m s" and q: "net_ok v k q"
  obtains s' r where "Release s (Some q) = (s', r)" "cs_ok v c m s'" "frame s s'"
    "in_use s' = in_use s - hit c m s (net_path k q)"
    "r = (if comparable (net_path c (clusterCIDR s)) (net_path k q) then Inr ()
          else Inl (OutOfClusterRange q (clusterCIDR s)))"
proof (cases "comparable (net_path c (clusterCIDR s)) (net_path k q)")
  case False
  then show thesis
    using that[of s] indices_out[OF cs_okD(1)[OF s] q] s by (simp add: Release_def hit_out)
next
  case True
  obtain b e where be: "getBeginningAndEndIndices s (Some q) = Inr (b, e)"
      "\<forall>i \<in> set [b..e]. 0 \<le> i \<and> i < 2 ^ (m - c)" "nat ` set [b..e] = hit c m s (net_path k q)"
    by (rule indices_hit[OF cs_okD(1)[OF s] q True])
  then have "\<forall>i \<in> set [b..e]. 0 \<le> i" by blast
  from release_range[OF s this] show thesis
    using that[of "fold release_index [b..e] s"] be True by (simp add: Release_def)
qed

section \<open>AllocateNext\<close>

lemma next_free_visits:
  assumes "0 < maxCIDRs s" "0 \<le> cand" "cand < maxCIDRs s"
  shows "0 \<le> next_free s n cand \<and> next_free s n cand < maxCIDRs s \<and>
     (\<not> bit (used s) (nat (next_free s n cand)) \<or>
      (\<forall>k < n. bit (used s) (nat ((cand + int k) mod maxCIDRs s))))"
  using assms(2,3)
proof (induction s n cand rule: next_free.induct)
  case (2 s n cand)
  show ?case
  proof (cases "bit (used s) (nat cand)")
    case True
    let ?c = "(cand + 1) mod maxCIDRs s"
    have "bit (used s) (nat ((cand + int k) mod maxCIDRs s))"
      if all: "\<forall>k < n. bit (used s) (nat ((?c + int k) mod maxCIDRs s))" and k: "k < Suc n" for k
    proof (cases k)
      case 0
      then show ?thesis using True "2.prems" by simp
    next
      case (Suc j)
      then have "(?c + int j) mod maxCIDRs s = (cand + int k) mod maxCIDRs s"
        using mod_add_left_eq[of "cand + 1" "maxCIDRs s" "int j"] by (simp add: algebra_simps)
      then show ?thesis using all Suc k by (metis Suc_less_eq)
    qed
    moreover have "0 < maxCIDRs s" using "2.prems" by linarith
    ultimately show ?thesis using "2.IH" True by auto
  qed (use 2 in auto)
qed auto

lemma next_free_ok:
  assumes s: "cs_ok v c m s" and free: "in_use s \<noteq> {..<2 ^ (m - c)}"
  obtains i where "next_free s (nat (maxCIDRs s)) (nextCandidate s) = int i" "i < 2 ^ (m - c)" "i \<notin> in_use s"
proof -
  note D = cs_okD[OF s]
  have M: "maxCIDRs s = 2 ^ (m - c)" using cs_shapeD(8)[OF D(1)] .
  let ?r = "next_free s (nat (maxCIDRs s)) (nextCandidate s)"
  have r: "0 \<le> ?r" "?r < 2 ^ (m - c)"
    and alt: "\<not> bit (used s) (nat ?r) \<or>
      (\<forall>k < nat (maxCIDRs s). bit (used s) (nat ((nextCandidate s + int k) mod maxCIDRs s)))"
    using next_free_visits[of s "nextCandidate s" "nat (maxCIDRs s)"] D(5,6) M by auto
  have "nat ?r \<notin> in_use s"
  proof
    assume "nat ?r \<in> in_use s"
    with alt have all: "k < 2 ^ (m - c) \<Longrightarrow> bit (used s) (nat ((nextCandidate s + int k) mod 2 ^ (m - c)))" for k
      by (simp add: in_use_def M nat_power_eq)
    have "i \<in> in_use s" if i: "i < 2 ^ (m - c)" for i
    proof -
      define k where "k = nat ((int i - nextCandidate s) mod 2 ^ (m - c))"
      have "int k < 2 ^ (m - c)" by (simp add: k_def)
      then have "k < 2 ^ (m - c)" by (metis of_nat_less_iff of_nat_numeral of_nat_power)
      moreover have "(nextCandidate s + int k) mod 2 ^ (m - c) = int i"
      proof -
        have "(nextCandidate s + int k) mod 2 ^ (m - c) = int i mod 2 ^ (m - c)"
          by (simp add: k_def mod_add_right_eq)
        moreover have "int i < 2 ^ (m - c)" using i by (metis of_nat_less_iff of_nat_numeral of_nat_power)
        ultimately show ?thesis by simp
      qed
      ultimately show ?thesis using all[of k] by (simp add: in_use_def)
    qed
    then show False using D(2) free by auto
  qed
  then show thesis using that[of "nat ?r"] r by (simp add: nat_less_iff)
qed

lemma AllocateNext_ok:
  assumes s: "cs_ok v c m s"
  shows "in_use s = {..<2 ^ (m - c)} \<Longrightarrow> AllocateNext s = (s, Inl ErrCIDRRangeNoCIDRsRemaining)"
    and "in_use s \<noteq> {..<2 ^ (m - c)} \<Longrightarrow>
      \<exists>s' i. AllocateNext s = (s', Inr (indexToCIDRBlock s (int i) 0)) \<and> i < 2 ^ (m - c) \<and> i \<notin> in_use s \<and>
        cs_ok v c m s' \<and> in_use s' = insert i (in_use s) \<and> frame s s'"
proof -
  note D = cs_okD[OF s]
  have M: "maxCIDRs s = 2 ^ (m - c)" using cs_shapeD(8)[OF D(1)] .
  show "AllocateNext s = (s, Inl ErrCIDRRangeNoCIDRsRemaining)" if "in_use s = {..<2 ^ (m - c)}"
    using that D(4) M by (simp add: AllocateNext_def)
  show "\<exists>s' i. AllocateNext s = (s', Inr (indexToCIDRBlock s (int i) 0)) \<and> i < 2 ^ (m - c) \<and> i \<notin> in_use s \<and>
        cs_ok v c m s' \<and> in_use s' = insert i (in_use s) \<and> frame s s'"
    if free: "in_use s \<noteq> {..<2 ^ (m - c)}"
  proof -
    obtain i where i: "next_free s (nat (maxCIDRs s)) (nextCandidate s) = int i" "i < 2 ^ (m - c)" "i \<notin> in_use s"
      by (rule next_free_ok[OF s free])
    let ?s = "s\<lparr>nextCandidate := (int i + 1) mod maxCIDRs s, used := set_bit i (used s),
                allocatedCIDRs := allocatedCIDRs s + 1\<rparr>"
    have "card (in_use s) \<noteq> 2 ^ (m - c)"
      using D(2) free by (metis card_lessThan card_subset_eq finite_lessThan)
    then have "allocatedCIDRs s \<noteq> maxCIDRs s" unfolding D(4) M by (metis of_nat_eq_iff of_nat_numeral of_nat_power)
    then have "AllocateNext s = (?s, Inr (indexToCIDRBlock ?s (int i) 0))"
      using i(1) M by (simp add: AllocateNext_def Let_def)
    moreover have fr: "frame s ?s" by (simp add: frame_def)
    moreover have "cs_ok v c m ?s"
      by (rule take_index_ok[OF s i(2,3) fr]) (simp_all add: M)
    moreover have "in_use ?s = insert i (in_use s)" by (rule in_use_set_bit) simp
    ultimately show ?thesis
      using i frame_indexToCIDRBlock[OF fr] by (metis (no_types, lifting))
  qed
qed

section \<open>The contract of a pool of CIDRs\<close>

text \<open>Repeated allocation: the results of \<open>n\<close> calls, in order.\<close>

fun alloc_n :: "('s \<Rightarrow> 's \<times> 'r) \<Rightarrow> nat \<Rightarrow> 's \<Rightarrow> 's \<times> 'r list" where
  "alloc_n alloc 0 s = (s, [])"
| "alloc_n alloc (Suc n) s =
     (let (s', r) = alloc s; (s'', rs) = alloc_n alloc n s' in (s'', r # rs))"

locale cidr_pool =
  fixes pool_inv :: "'s \<Rightarrow> bool"
    and universe :: "'s \<Rightarrow> path set"
    and taken :: "'s \<Rightarrow> path set"
    and alloc :: "'s \<Rightarrow> 's \<times> (cidr_error, IPNet) result"
    and occupy :: "'s \<Rightarrow> IPNet option \<Rightarrow> 's \<times> (cidr_error, unit) result"
    and release :: "'s \<Rightarrow> IPNet option \<Rightarrow> 's \<times> (cidr_error, unit) result"
    and path :: "IPNet \<Rightarrow> path"
    and good :: "IPNet \<Rightarrow> bool"
  assumes taken_universe: "pool_inv s \<Longrightarrow> taken s \<subseteq> universe s \<and> finite (universe s)"
    and universe_disjoint: "pool_inv s \<Longrightarrow> p \<in> universe s \<Longrightarrow> p' \<in> universe s \<Longrightarrow> comparable p p' \<Longrightarrow> p = p'"
    and alloc_fresh: "pool_inv s \<Longrightarrow> taken s \<noteq> universe s \<Longrightarrow>
       \<exists>s' b. alloc s = (s', Inr b) \<and> good b \<and> path b \<in> universe s - taken s \<and>
         taken s' = insert (path b) (taken s) \<and> universe s' = universe s \<and> pool_inv s'"
    and alloc_full: "pool_inv s \<Longrightarrow> taken s = universe s \<Longrightarrow> alloc s = (s, Inl ErrCIDRRangeNoCIDRsRemaining)"
    and occupy_marks: "pool_inv s \<Longrightarrow> good q \<Longrightarrow> occupy s (Some q) = (s', r) \<Longrightarrow>
       pool_inv s' \<and> universe s' = universe s \<and> taken s' = taken s \<union> {p \<in> universe s. comparable p (path q)}"
    and release_frees: "pool_inv s \<Longrightarrow> good q \<Longrightarrow> release s (Some q) = (s', r) \<Longrightarrow>
       pool_inv s' \<and> universe s' = universe s \<and> taken s' = taken s - {p \<in> universe s. comparable p (path q)}"
begin

lemma alloc_release:
  assumes "pool_inv s" "alloc s = (s', Inr b)" "release s' (Some b) = (s'', r)"
  shows "taken s'' = taken s \<and> pool_inv s''"
proof -
  have "taken s \<noteq> universe s" using alloc_full[OF assms(1)] assms(2) by auto
  then have a: "good b" "path b \<in> universe s - taken s" "taken s' = insert (path b) (taken s)"
      "universe s' = universe s" "pool_inv s'"
    using alloc_fresh[OF assms(1)] assms(2) by auto
  have "{p \<in> universe s'. comparable p (path b)} = {path b}"
    using universe_disjoint[OF assms(1)] a(2,4) by (auto simp: comparable_def)
  then show ?thesis using release_frees[OF a(5,1) assms(3)] a(2,3) by auto
qed

lemma alloc_n_fresh:
  assumes "pool_inv s" "n \<le> card (universe s - taken s)" "alloc_n alloc n s = (s', rs)"
  shows "pool_inv s' \<and> universe s' = universe s \<and> (\<exists>bs. rs = map Inr bs \<and> length bs = n \<and>
     (\<forall>b \<in> set bs. good b) \<and> distinct (map path bs) \<and> path ` set bs \<subseteq> universe s - taken s \<and>
     taken s' = taken s \<union> path ` set bs)"
  using assms
proof (induction n arbitrary: s rs)
  case (Suc n)
  have fin: "finite (universe s - taken s)" using taken_universe[OF Suc.prems(1)] by simp
  have "taken s \<noteq> universe s" using Suc.prems(2) by auto
  then obtain s1 b where b: "alloc s = (s1, Inr b)" "path b \<in> universe s - taken s"
      "taken s1 = insert (path b) (taken s)" "universe s1 = universe s" "pool_inv s1" "good b"
    using alloc_fresh[OF Suc.prems(1)] by blast
  obtain rs' where rs': "alloc_n alloc n s1 = (s', rs')" "rs = Inr b # rs'"
    using Suc.prems(3) b(1) by (auto split: prod.splits)
  have "universe s1 - taken s1 = (universe s - taken s) - {path b}" using b by auto
  then have "n \<le> card (universe s1 - taken s1)" using Suc.prems(2) b(2) fin by simp
  from Suc.IH[OF b(5) this rs'(1)] obtain bs where bs: "pool_inv s'" "universe s' = universe s1"
      "rs' = map Inr bs" "length bs = n" "\<forall>b \<in> set bs. good b" "distinct (map path bs)"
      "path ` set bs \<subseteq> universe s1 - taken s1" "taken s' = taken s1 \<union> path ` set bs"
    by blast
  have "rs = map Inr (b # bs)" "length (b # bs) = Suc n" "\<forall>b \<in> set (b # bs). good b" "distinct (map path (b # bs))"
      "path ` set (b # bs) \<subseteq> universe s - taken s" "taken s' = taken s \<union> path ` set (b # bs)"
    using bs b rs' by auto
  then show ?case using bs(1,2) b(4) by metis
qed simp

text \<open>A pool with \<open>n\<close> free blocks serves exactly \<open>n\<close> requests, with pairwise disjoint blocks.\<close>

lemma alloc_exhausts:
  assumes "pool_inv s" "alloc_n alloc (card (universe s - taken s)) s = (s', rs)"
  shows "alloc s' = (s', Inl ErrCIDRRangeNoCIDRsRemaining)"
proof -
  obtain bs where bs: "pool_inv s'" "universe s' = universe s" "length bs = card (universe s - taken s)"
      "distinct (map path bs)" "path ` set bs \<subseteq> universe s - taken s" "taken s' = taken s \<union> path ` set bs"
    using alloc_n_fresh[OF assms(1) le_refl assms(2)] by auto
  have "card (path ` set bs) = card (universe s - taken s)"
    using bs(3,4) by (metis distinct_card length_map set_map)
  then have "path ` set bs = universe s - taken s"
    using bs(5) taken_universe[OF assms(1)] by (meson card_subset_eq finite_Diff)
  then have "taken s' = universe s'" using bs(2,6) taken_universe[OF assms(1)] by auto
  then show ?thesis using alloc_full[OF bs(1)] by simp
qed

end

section \<open>A CidrSet is a pool\<close>

definition net_blk :: "IPNet \<Rightarrow> path" where
  "net_blk n = take (nat (fst (mask_Size (ipn_Mask n)))) (bytes_bits (ipn_IP n))"

definition net_good :: "bool \<Rightarrow> IPNet \<Rightarrow> bool" where
  "net_good v n \<longleftrightarrow> (\<exists>k. net_ok v k n)"

lemma net_blk: "net_ok v k n \<Longrightarrow> net_blk n = net_path k n"
  using mask_Size_CIDRMask[of k v] net_okD(1,3)[of v k n] by (simp add: net_blk_def net_path_def)

definition cs_universe :: "nat \<Rightarrow> nat \<Rightarrow> CidrSet \<Rightarrow> path set" where
  "cs_universe c m s = block_path s c m ` {..<2 ^ (m - c)}"

definition cs_taken :: "nat \<Rightarrow> nat \<Rightarrow> CidrSet \<Rightarrow> path set" where
  "cs_taken c m s = block_path s c m ` in_use s"

lemma block_path_inj:
  "i < 2 ^ (m - c) \<Longrightarrow> j < 2 ^ (m - c) \<Longrightarrow> block_path s c m i = block_path s c m j \<longleftrightarrow> i = j"
  by (auto simp: block_path_def dest: nbits_inj)

lemma block_path_inj_on: "inj_on (block_path s c m) {..<2 ^ (m - c)}"
  by (rule inj_onI) (simp add: block_path_inj)

lemma block_path_disjoint:
  assumes "cs_shape v c m s" "i < 2 ^ (m - c)" "j < 2 ^ (m - c)" "comparable (block_path s c m i) (block_path s c m j)"
  shows "i = j"
proof -
  have "length (block_path s c m i) = length (block_path s c m j)" using length_block_path[OF assms(1)] by simp
  then have "block_path s c m i = block_path s c m j"
    using assms(4) unfolding comparable_def by (metis append_Nil2 prefix_same_length)
  then show ?thesis using assms(2,3) by (simp add: block_path_inj)
qed

lemma frame_pool: "frame s s' \<Longrightarrow> cs_universe c m s' = cs_universe c m s" 
  by (simp add: cs_universe_def frame_block)

lemma hit_taken: "block_path s c m ` hit c m s p = {x \<in> cs_universe c m s. comparable x p}"
  by (auto simp: hit_def cs_universe_def)

lemma taken_eq_universe:
  "in_use s \<subseteq> {..<2 ^ (m - c)} \<Longrightarrow> cs_taken c m s = cs_universe c m s \<longleftrightarrow> in_use s = {..<2 ^ (m - c)}"
  unfolding cs_taken_def cs_universe_def using block_path_inj_on
  by (metis inj_on_image_eq_iff order_refl)

interpretation cs: cidr_pool "cs_ok v c m" "cs_universe c m" "cs_taken c m" AllocateNext Occupy Release net_blk "net_good v"
  for v c m
proof
  fix s assume s: "cs_ok v c m s"
  note D = cs_okD[OF s]
  show "cs_taken c m s \<subseteq> cs_universe c m s \<and> finite (cs_universe c m s)"
    using D(2) by (auto simp: cs_taken_def cs_universe_def)
  show "p = q" if "p \<in> cs_universe c m s" "q \<in> cs_universe c m s" "comparable p q" for p q
    using that block_path_disjoint[OF D(1)] by (auto simp: cs_universe_def)
  show "AllocateNext s = (s, Inl ErrCIDRRangeNoCIDRsRemaining)" if "cs_taken c m s = cs_universe c m s"
    using that AllocateNext_ok(1)[OF s] taken_eq_universe[OF D(2)] by simp
  show "\<exists>s' b. AllocateNext s = (s', Inr b) \<and> net_good v b \<and> net_blk b \<in> cs_universe c m s - cs_taken c m s \<and>
       cs_taken c m s' = insert (net_blk b) (cs_taken c m s) \<and> cs_universe c m s' = cs_universe c m s \<and> cs_ok v c m s'"
    if free: "cs_taken c m s \<noteq> cs_universe c m s"
  proof -
    obtain s' i where a: "AllocateNext s = (s', Inr (indexToCIDRBlock s (int i) 0))" "i < 2 ^ (m - c)"
        "i \<notin> in_use s" "cs_ok v c m s'" "in_use s' = insert i (in_use s)" "frame s s'"
      using AllocateNext_ok(2)[OF s] free taken_eq_universe[OF D(2)] by blast
    let ?b = "indexToCIDRBlock s (int i) 0"
    have b: "net_ok v m ?b" "net_blk ?b = block_path s c m i"
      using block_net[OF D(1) a(2)] net_blk by simp_all
    have "block_path s c m i \<notin> cs_taken c m s"
      using a(2,3) D(2) block_path_inj[of _ m c _ s] by (fastforce simp: cs_taken_def)
    moreover have "cs_taken c m s' = insert (block_path s c m i) (cs_taken c m s)"
      using a(5) frame_block[OF a(6)] by (simp add: cs_taken_def)
    ultimately show ?thesis
      using a b frame_pool[OF a(6)] by (auto simp: net_good_def cs_universe_def)
  qed
  fix q s' r assume "net_good v q"
  then obtain k where k: "net_ok v k q" by (auto simp: net_good_def)
  show "cs_ok v c m s' \<and> cs_universe c m s' = cs_universe c m s \<and>
      cs_taken c m s' = cs_taken c m s \<union> {p \<in> cs_universe c m s. comparable p (net_blk q)}"
    if "Occupy s (Some q) = (s', r)"
    using that frame_pool frame_block
    by (rule_tac Occupy_ok[OF s k]) (auto simp: cs_taken_def net_blk[OF k] hit_taken[symmetric] image_Un)
  show "cs_ok v c m s' \<and> cs_universe c m s' = cs_universe c m s \<and>
      cs_taken c m s' = cs_taken c m s - {p \<in> cs_universe c m s. comparable p (net_blk q)}"
    if rel: "Release s (Some q) = (s', r)"
  proof -
    have s': "cs_ok v c m s'" "frame s s'" "in_use s' = in_use s - hit c m s (net_path k q)"
      using Release_ok[OF s k] rel by (metis prod.inject)+
    have "block_path s c m ` (in_use s - hit c m s (net_path k q)) =
        block_path s c m ` in_use s - block_path s c m ` hit c m s (net_path k q)"
      by (rule inj_on_image_set_diff[OF block_path_inj_on]) (use D(2) in \<open>auto simp: hit_def\<close>)
    then show ?thesis
      using s' frame_pool[OF s'(2)] frame_block[OF s'(2)]
      by (simp add: cs_taken_def net_blk[OF k] hit_taken[symmetric])
  qed
qed

end
