(* ===== verification/CidrRuns.thy ===== *)
theory CidrRuns
  imports CidrPool
begin

unbundle bit_operations_syntax

text \<open>
  Construction of a set, allocation of larger CIDRs (\<open>AllocateNextWithNodeMaskSize\<close>) and the properties of
  \<open>cidr_set.go\<close>.
\<close>

section \<open>NewCIDRSet\<close>

lemma int_shl1_small: "k < 63 \<Longrightarrow> int_shl1 k = 2 ^ k"
proof -
  assume k: "k < 63"
  have "(2 :: nat) ^ k < 2 ^ 63" by (rule power_strict_increasing[OF k]) simp
  then have "(2 :: nat) ^ k < 2 ^ (LENGTH(64) - 1)" by simp
  moreover have "shl (1 :: 64 word) k = of_nat (2 ^ k)"
    using k by (simp add: shl_def push_bit_of_1)
  ultimately show ?thesis using sint_of_nat_small[where 'a = 64, of "2 ^ k"] by (simp add: int_shl1_def)
qed

lemma NewCIDRSet_ok:
  assumes "net_ok v c cluster" "c \<le> m" "m \<le> fam_width v" "m - c \<le> (if v then 31 else 16)"
  shows "\<exists>s. NewCIDRSet cluster (int m) = Inr s \<and> cs_ok v c m s \<and> in_use s = {} \<and> clusterCIDR s = cluster"
proof -
  have "shift32 (int m - int c) = m - c"
    using assms by (simp add: shift32_def nat_mod_distrib fam_width_def nat_diff_distrib split: if_splits)
  then have M: "int_shl1 (shift32 (int m - int c)) = 2 ^ (m - c)"
    using int_shl1_small[of "m - c"] assms(4) by (simp split: if_splits)
  have sz: "mask_Size (ipn_Mask cluster) = (int c, int (fam_width v))"
    using mask_Size_CIDRMask[OF net_okD(1)[OF assms(1)]] net_okD(3)[OF assms(1)] by simp
  let ?s = "\<lparr>clusterCIDR = cluster, clusterMaskSize = int c, nodeMask = CIDRMask (int m) (int (fam_width v)),
     nodeMaskSize = int m, maxCIDRs = 2 ^ (m - c), allocatedCIDRs = 0, nextCandidate = 0, used = 0,
     cs_label = net_String cluster\<rparr>"
  have "NewCIDRSet cluster (int m) = Inr ?s"
    using To4_ok[OF net_ok_ip[OF assms(1)]] assms(2,4) sz M by (auto simp: NewCIDRSet_def clusterSubnetMaxDiff_def)
  moreover have "in_use ?s = {}" by (simp add: in_use_def)
  moreover have "cs_ok v c m ?s" using assms by (simp add: cs_ok_def cs_shape_def in_use_def)
  ultimately show ?thesis by force
qed

section \<open>Larger blocks\<close>

lemma run_free_iff:
  assumes "0 < n"
  shows "run_free u i n \<longleftrightarrow> (\<forall>t \<in> {0..<n}. \<not> bit u (nat (i + t)))"
proof -
  have "{0..<n} = insert 0 {1..n - 1}" using assms by auto
  then show ?thesis by (simp add: run_free_def list_all_iff)
qed

lemma find_run_result:
  assumes "0 < n"
  shows "(\<exists>q \<ge> j. n * q < limit \<and> run_free u (n * q) n \<and> find_run u limit n (n * j) = Some (Some (n * q))) \<or>
     (find_run u limit n (n * j) = Some None \<and> (\<forall>q \<ge> j. n * q < limit \<longrightarrow> \<not> run_free u (n * q) n))"
proof (induction "nat (limit - n * j)" arbitrary: j rule: less_induct)
  case less
  show ?case
  proof (cases "n * j < limit")
    case False
    then have "n * q < limit \<Longrightarrow> \<not> j \<le> q" for q
      using assms mult_left_mono[of j q n] by linarith
    moreover have "find_run u limit n (n * j) = Some None"
      using False by (subst find_run.simps) simp
    ultimately show ?thesis by blast
  next
    case True
    show ?thesis
    proof (cases "run_free u (n * j) n")
      case free: True
      have "find_run u limit n (n * j) = Some (Some (n * j))"
        using True free by (subst find_run.simps) simp
      then show ?thesis using True free by blast
    next
      case busy: False
      have step: "find_run u limit n (n * j) = find_run u limit n (n * (j + 1))"
        using True busy by (subst find_run.simps) (simp add: algebra_simps)
      have "nat (limit - n * (j + 1)) < nat (limit - n * j)"
        using True assms by (simp add: algebra_simps)
      from less[OF this] have ih: "(\<exists>q \<ge> j + 1. n * q < limit \<and> run_free u (n * q) n \<and> find_run u limit n (n * j) = Some (Some (n * q))) \<or>
          (find_run u limit n (n * j) = Some None \<and> (\<forall>q \<ge> j + 1. n * q < limit \<longrightarrow> \<not> run_free u (n * q) n))"
        unfolding step .
      have split: "j \<le> q \<longleftrightarrow> q = j \<or> j + 1 \<le> q" for q :: int by linarith
      show ?thesis using ih busy unfolding split by blast
    qed
  qed
qed

lemma alloc_run:
  assumes "cs_ok v c m s" "distinct js" "\<forall>j \<in> set js. 0 \<le> i + j \<and> i + j < 2 ^ (m - c) \<and> nat (i + j) \<notin> in_use s"
  shows "cs_ok v c m (fold (\<lambda>j s. s\<lparr>used := set_bit (nat (i + j)) (used s), allocatedCIDRs := allocatedCIDRs s + 1\<rparr>) js s) \<and>
     in_use (fold (\<lambda>j s. s\<lparr>used := set_bit (nat (i + j)) (used s), allocatedCIDRs := allocatedCIDRs s + 1\<rparr>) js s) =
       in_use s \<union> (\<lambda>j. nat (i + j)) ` set js \<and>
     frame s (fold (\<lambda>j s. s\<lparr>used := set_bit (nat (i + j)) (used s), allocatedCIDRs := allocatedCIDRs s + 1\<rparr>) js s)"
    (is "_ (fold ?f js s) \<and> _")
  using assms
proof (induction js arbitrary: s)
  case (Cons j js)
  have fr: "frame s (?f j s)" by (simp add: frame_def)
  have ok: "cs_ok v c m (?f j s)"
    by (rule take_index_ok[OF Cons.prems(1), of "nat (i + j)"])
      (use Cons.prems cs_okD[OF Cons.prems(1)] fr in \<open>auto simp: nat_less_iff\<close>)
  have use: "in_use (?f j s) = insert (nat (i + j)) (in_use s)" by (rule in_use_set_bit) simp
  have "\<forall>j' \<in> set js. 0 \<le> i + j' \<and> i + j' < 2 ^ (m - c) \<and> nat (i + j') \<notin> in_use (?f j s)"
    using Cons.prems(2,3) unfolding use by (auto simp: eq_nat_nat_iff)
  from Cons.IH[OF ok _ this] Cons.prems(2)
  have "cs_ok v c m (fold ?f js (?f j s))" "frame (?f j s) (fold ?f js (?f j s))"
      "in_use (fold ?f js (?f j s)) = in_use (?f j s) \<union> (\<lambda>j. nat (i + j)) ` set js"
    by simp_all
  then show ?case using use frame_trans[OF fr] by auto
qed simp

text \<open>An aligned index: its low digits are zero, so the block with the shorter mask is a network whose
  blocks are the run of indices.\<close>

lemma nbits_aligned:
  assumes "r \<le> n" "2 ^ r dvd i"
  shows "nbits n i = take (n - r) (nbits n i) @ replicate r False"
proof -
  obtain q where q: "i = push_bit r q" using assms(2) by (auto simp: push_bit_eq_mult elim: dvdE)
  have "drop (n - r) (nbits n i) = replicate r False"
    by (rule nth_equalityI) (use assms(1) q in \<open>auto simp: nbits_def bit_simps\<close>)
  then show ?thesis by (metis append_take_drop_id)
qed

lemma aligned_block:
  assumes s: "cs_shape v c m s" and k: "c \<le> k" "k \<le> m" "0 < k" and i: "i < 2 ^ (m - c)" "2 ^ (m - k) dvd i"
  shows "net_ok v k (indexToCIDRBlock s (int i) (int k))"
    "net_path k (indexToCIDRBlock s (int i) (int k)) = net_path c (clusterCIDR s) @ take (k - c) (nbits (m - c) i)"
proof -
  let ?b = "indexToCIDRBlock s (int i) (int k)"
  note D = cs_shapeD[OF s]
  have lc: "length (net_path c (clusterCIDR s)) = c" using net_okD(5)[OF D(1)] .
  have al: "nbits (m - c) i = take (k - c) (nbits (m - c) i) @ replicate (m - k) False"
    using nbits_aligned[of "m - k" "m - c" i] i(2) k by simp
  have "replicate (m - k) False @ replicate (fam_width v - m) False = replicate (fam_width v - k) False"
    using k D(5) by (simp flip: replicate_add)
  then have "nbits (m - c) i @ replicate (fam_width v - m) False =
      take (k - c) (nbits (m - c) i) @ replicate (fam_width v - k) False"
    using al by (metis append.assoc)
  then have bits: "bytes_bits (ipn_IP ?b) =
      (net_path c (clusterCIDR s) @ take (k - c) (nbits (m - c) i)) @ replicate (fam_width v - k) False"
    using block_bits[OF s i(1), of "int k"] by (simp add: block_path_def)
  have len: "length (net_path c (clusterCIDR s) @ take (k - c) (nbits (m - c) i)) = k"
    using lc k by simp
  show path: "net_path k ?b = net_path c (clusterCIDR s) @ take (k - c) (nbits (m - c) i)"
    unfolding net_path_def[of k ?b] bits using len lc by simp
  have "bytes_bits (ipn_IP (clusterCIDR s)) ! j \<Longrightarrow> bytes_bits (ipn_IP ?b) ! j" if "j < fam_width v" for j
    using that net_okD(4)[OF D(1)] lc unfolding bits by (auto simp: nth_append split: if_splits)
  then have "\<not> v \<longrightarrow> take 10 (ipn_IP ?b) \<noteq> replicate 10 0"
    by (rule net_ok_more_bits[OF D(1) length_block[OF s]])
  moreover have "drop k (bytes_bits (ipn_IP ?b)) = replicate (fam_width v - k) False"
    unfolding bits using len by simp
  ultimately show "net_ok v k ?b"
    using D(5) k length_block[OF s, of "int i" "int k"] block_mask[OF s, of "int k" "int i"]
    by (simp add: net_ok_def)
qed

lemma hit_run:
  assumes "cs_shape v c m s" "c \<le> k" "k \<le> m" "i < 2 ^ (m - c)" "2 ^ (m - k) dvd i"
  shows "hit c m s (net_path c (clusterCIDR s) @ take (k - c) (nbits (m - c) i)) = {i..<i + 2 ^ (m - k)}"
proof -
  let ?x = "take (k - c) (nbits (m - c) i)"
  have al: "nbits (m - c) i = ?x @ replicate (m - k) False"
    using nbits_aligned[of "m - k" "m - c" i] assms by simp
  have ival: "i = bval ?x * 2 ^ (m - k)"
    using bval_nbits[OF assms(4)] bval_append[of ?x "replicate (m - k) False"] bval_leading_zeros[of "m - k" "[]"]
    unfolding al[symmetric] by simp
  have bound: "i + 2 ^ (m - k) \<le> 2 ^ (m - c)"
  proof -
    have "bval ?x < 2 ^ (k - c)" using bval_less[of ?x] assms(2,3) by simp
    then have "(bval ?x + 1) * 2 ^ (m - k) \<le> 2 ^ (k - c) * 2 ^ (m - k)" by (intro mult_right_mono) simp_all
    then show ?thesis using assms(2,3) ival by (simp flip: power_add)
  qed
  have tk: "take (m - c) (?x @ replicate (m - k) b) = ?x @ replicate (m - k) b" for b
    using assms(2,3) by simp
  have "comparable (block_path s c m j) (net_path c (clusterCIDR s) @ ?x) \<longleftrightarrow> i \<le> j \<and> j < i + 2 ^ (m - k)"
    if j: "j < 2 ^ (m - c)" for j
  proof -
    have "comparable (block_path s c m j) (net_path c (clusterCIDR s) @ ?x) \<longleftrightarrow> comparable (nbits (m - c) j) ?x"
      by (simp add: comparable_def block_path_def)
    also have "\<dots> \<longleftrightarrow> bval (?x @ replicate (m - k) False) \<le> j \<and> j \<le> bval (?x @ replicate (m - k) True)"
      using interval_iff_comparable[of "nbits (m - c) j" "m - c" ?x "m - k"] assms(2,3) bval_nbits[OF j] tk by simp
    also have "\<dots> \<longleftrightarrow> i \<le> j \<and> j \<le> i + (2 ^ (m - k) - 1)"
      using ival bval_leading_zeros[of "m - k" "[]"] by (simp add: bval_append bval_replicate_True)
    also have "\<dots> \<longleftrightarrow> i \<le> j \<and> j < i + 2 ^ (m - k)"
      using zero_less_power[of "2 :: nat" "m - k"] by linarith
    finally show ?thesis .
  qed
  then show ?thesis using bound by (auto simp: hit_def)
qed

lemma run_bits_free:
  "run_free u (2 ^ r * int q) (2 ^ r) \<longleftrightarrow> (\<forall>j \<in> {2 ^ r * q..<2 ^ r * q + 2 ^ r}. \<not> bit u j)"
proof -
  have "(\<forall>t \<in> {0..<2 ^ r}. \<not> bit u (nat (2 ^ r * int q + t))) \<longleftrightarrow>
      (\<forall>j \<in> {2 ^ r * q..<2 ^ r * q + 2 ^ r}. \<not> bit u j)" (is "?L \<longleftrightarrow> ?R")
  proof
    assume L: ?L
    show ?R
    proof
      fix j assume j: "j \<in> {2 ^ r * q..<2 ^ r * q + 2 ^ r}"
      define t where "t = j - 2 ^ r * q"
      have t: "j = 2 ^ r * q + t" "t < 2 ^ r" using j by (auto simp: t_def)
      have "int t \<in> {0..<2 ^ r}" using t(2) by simp
      moreover have "nat (2 ^ r * int q + int t) = j"
        unfolding t(1) by (metis nat_int of_nat_add of_nat_mult of_nat_numeral of_nat_power)
      ultimately show "\<not> bit u j" using L by metis
    qed
  next
    assume R: ?R
    show ?L
    proof
      fix t :: int assume t: "t \<in> {0..<2 ^ r}"
      then have "nat (2 ^ r * int q + t) = 2 ^ r * q + nat t"
        by (simp add: nat_add_distrib nat_mult_distrib nat_power_eq)
      moreover have "nat t < 2 ^ r" using t by (simp add: nat_less_iff)
      ultimately show "\<not> bit u (nat (2 ^ r * int q + t))" using R by simp
    qed
  qed
  then show ?thesis using run_free_iff[of "2 ^ r" u "2 ^ r * int q"] by simp
qed

text \<open>The run found is the first aligned one that is free; without one the set has no room.\<close>

lemma find_run_ok:
  assumes sh: "cs_shape v c m s" and k: "c \<le> k" "k \<le> m"
  shows "(\<exists>i. find_run (used s) (maxCIDRs s - (2 ^ (m - k) - 1)) (2 ^ (m - k)) 0 = Some (Some (int i)) \<and>
            2 ^ (m - k) dvd i \<and> i + 2 ^ (m - k) \<le> 2 ^ (m - c) \<and> {i..<i + 2 ^ (m - k)} \<inter> in_use s = {}) \<or>
         (find_run (used s) (maxCIDRs s - (2 ^ (m - k) - 1)) (2 ^ (m - k)) 0 = Some None \<and>
            (\<forall>i. 2 ^ (m - k) dvd i \<longrightarrow> i < 2 ^ (m - c) \<longrightarrow> {i..<i + 2 ^ (m - k)} \<inter> in_use s \<noteq> {}))"
proof -
  let ?n = "2 ^ (m - k) :: nat" and ?M = "2 ^ (m - c) :: nat"
  have M: "maxCIDRs s = int ?M" using cs_shapeD(8)[OF sh] by simp
  have room: "2 ^ (m - k) * int q < maxCIDRs s - (2 ^ (m - k) - 1) \<longleftrightarrow> ?n * q + ?n \<le> ?M" for q
  proof -
    have "2 ^ (m - k) * int q < maxCIDRs s - (2 ^ (m - k) - 1) \<longleftrightarrow> int (?n * q + ?n) \<le> int ?M"
      unfolding M by simp linarith
    then show ?thesis by (simp only: of_nat_le_iff)
  qed
  have al: "?n * q < ?M \<Longrightarrow> ?n * q + ?n \<le> ?M" for q
  proof -
    assume lt: "?n * q < ?M"
    have split: "?M = ?n * 2 ^ (k - c)" using k by (simp flip: power_add)
    then have "q < 2 ^ (k - c)" using lt by simp
    then have "?n * (q + 1) \<le> ?n * 2 ^ (k - c)" by (intro mult_left_mono) simp_all
    then show ?thesis using split by simp
  qed
  have free: "run_free (used s) (2 ^ (m - k) * int q) (2 ^ (m - k)) \<longleftrightarrow> {?n * q..<?n * q + ?n} \<inter> in_use s = {}" for q
    unfolding run_bits_free by (auto simp: in_use_def)
  from find_run_result[of "2 ^ (m - k)" 0 "maxCIDRs s - (2 ^ (m - k) - 1)" "used s"]
  consider q where "0 \<le> q" "2 ^ (m - k) * q < maxCIDRs s - (2 ^ (m - k) - 1)" "run_free (used s) (2 ^ (m - k) * q) (2 ^ (m - k))"
      "find_run (used s) (maxCIDRs s - (2 ^ (m - k) - 1)) (2 ^ (m - k)) 0 = Some (Some (2 ^ (m - k) * q))"
    | "find_run (used s) (maxCIDRs s - (2 ^ (m - k) - 1)) (2 ^ (m - k)) 0 = Some None"
      "\<forall>q \<ge> 0. 2 ^ (m - k) * q < maxCIDRs s - (2 ^ (m - k) - 1) \<longrightarrow> \<not> run_free (used s) (2 ^ (m - k) * q) (2 ^ (m - k))"
    by auto
  then show ?thesis
  proof cases
    case 1
    define j where "j = nat q"
    have q: "q = int j" using 1(1) by (simp add: j_def)
    have "int (?n * j) = 2 ^ (m - k) * q" by (simp add: q)
    then show ?thesis using 1(2-4) room[of j] free[of j] unfolding q
      by (intro disjI1 exI[of _ "?n * j"]) simp
  next
    case 2
    have "{i..<i + ?n} \<inter> in_use s \<noteq> {}" if dv: "?n dvd i" and lt: "i < ?M" for i
    proof -
      obtain j where j: "i = ?n * j" using dv by (auto elim: dvdE)
      then have "2 ^ (m - k) * int j < maxCIDRs s - (2 ^ (m - k) - 1)" using room[of j] al[of j] lt by blast
      then show ?thesis using 2(2) free[of j] j by fastforce
    qed
    then show ?thesis using 2(1) by blast
  qed
qed

lemma AllocateNextWithNodeMaskSize_ok:
  assumes s: "cs_ok v c m s" and k: "c \<le> k" "k \<le> m" "0 < k"
  shows "(\<exists>s' b i. AllocateNextWithNodeMaskSize s (int k) = Some (s', Inr b) \<and> net_ok v k b \<and>
            prefix (net_path c (clusterCIDR s)) (net_path k b) \<and> hit c m s (net_path k b) = {i..<i + 2 ^ (m - k)} \<and>
            hit c m s (net_path k b) \<inter> in_use s = {} \<and> cs_ok v c m s' \<and> frame s s' \<and>
            in_use s' = in_use s \<union> hit c m s (net_path k b)) \<or>
         (AllocateNextWithNodeMaskSize s (int k) = Some (s, Inl ErrCIDRRangeNoCIDRsRemaining) \<and>
            (\<forall>i. 2 ^ (m - k) dvd i \<longrightarrow> i < 2 ^ (m - c) \<longrightarrow> {i..<i + 2 ^ (m - k)} \<inter> in_use s \<noteq> {}))"
proof -
  let ?n = "2 ^ (m - k) :: nat" and ?M = "2 ^ (m - c) :: nat"
  note D = cs_okD[OF s]
  note S = cs_shapeD[OF D(1)]
  have "m - k < 63" using S(4,7) k by (auto split: if_splits)
  then have rel: "int_shl1 (nat (nodeMaskSize s - int k)) = 2 ^ (m - k)"
    using k(2) S(3) by (simp add: int_shl1_small nat_diff_distrib)
  have M: "maxCIDRs s = int ?M" using S(8) by simp
  have noneg: "\<not> nodeMaskSize s < int k" using k(2) S(3) by simp
  from find_run_ok[OF D(1) k(1,2)] show ?thesis
  proof (elim disjE exE conjE)
    fix i assume fr: "find_run (used s) (maxCIDRs s - (2 ^ (m - k) - 1)) (2 ^ (m - k)) 0 = Some (Some (int i))"
      and i: "?n dvd i" "i + ?n \<le> ?M" "{i..<i + ?n} \<inter> in_use s = {}"
    have "0 < ?n" by simp
    then have lt: "i < ?M" using i(2) by linarith
    let ?s = "fold (\<lambda>j s. s\<lparr>used := set_bit (nat (int i + j)) (used s), allocatedCIDRs := allocatedCIDRs s + 1\<rparr>) [0..2 ^ (m - k) - 1] s"
    let ?b = "indexToCIDRBlock s (int i) (int k)"
    have img: "(\<lambda>j. nat (int i + j)) ` set [0..2 ^ (m - k) - 1] = {i..<i + ?n}"
    proof -
      have "set [0..2 ^ (m - k) - 1] = int ` {0..<?n}"
        using image_int_atLeastLessThan[of 0 ?n] by (auto simp: set_upto)
      then show ?thesis by (auto simp: image_image nat_add_distrib image_iff)
    qed
    have bnd: "\<forall>j \<in> set [0..2 ^ (m - k) - 1]. 0 \<le> int i + j \<and> int i + j < 2 ^ (m - c) \<and> nat (int i + j) \<notin> in_use s"
    proof
      fix j assume j: "j \<in> set [0..2 ^ (m - k) - 1 :: int]"
      then have "nat (int i + j) \<in> {i..<i + ?n}" using img by blast
      moreover have "0 \<le> int i + j" using j by simp
      moreover have "int i + j < int (i + ?n)" using j by simp
      then have "int i + j < int ?M" using i(2) by linarith
      ultimately show "0 \<le> int i + j \<and> int i + j < 2 ^ (m - c) \<and> nat (int i + j) \<notin> in_use s"
        using i(3) by auto
    qed
    have run: "cs_ok v c m ?s" "in_use ?s = in_use s \<union> {i..<i + ?n}" "frame s ?s"
      using alloc_run[OF s distinct_upto bnd] unfolding img by blast+
    have free: "\<not> maxCIDRs s - allocatedCIDRs s < 2 ^ (m - k)"
    proof -
      have "card (in_use s) + ?n = card (in_use s \<union> {i..<i + ?n})"
        using D(3) i(3) by (subst card_Un_disjoint) auto
      also have "\<dots> \<le> card {..<?M}" using D(2) i(2) by (intro card_mono) auto
      finally have "int (card (in_use s) + ?n) \<le> int ?M" by (simp only: card_lessThan of_nat_le_iff)
      then show ?thesis using D(4) M by simp
    qed
    note blk = aligned_block[OF D(1) k lt i(1)]
    have hit: "hit c m s (net_path k ?b) = {i..<i + ?n}"
      unfolding blk(2) by (rule hit_run[OF D(1) k(1,2) lt i(1)])
    have res: "AllocateNextWithNodeMaskSize s (int k) = Some (?s, Inr ?b)"
      using noneg free rel fr frame_indexToCIDRBlock[OF run(3)] by (simp add: AllocateNextWithNodeMaskSize_def)
    show ?thesis
      using res blk run hit i(3) by (intro disjI1 exI[of _ ?s] exI[of _ ?b] exI[of _ i]) simp
  next
    assume none: "find_run (used s) (maxCIDRs s - (2 ^ (m - k) - 1)) (2 ^ (m - k)) 0 = Some None"
      "\<forall>i. ?n dvd i \<longrightarrow> i < ?M \<longrightarrow> {i..<i + ?n} \<inter> in_use s \<noteq> {}"
    then have "AllocateNextWithNodeMaskSize s (int k) = Some (s, Inl ErrCIDRRangeNoCIDRsRemaining)"
      using noneg rel by (simp add: AllocateNextWithNodeMaskSize_def Let_def)
    with none(2) show ?thesis by blast
  qed
qed

end
