(* ===== verification/CidrProperties.thy ===== *)
theory CidrProperties
  imports CidrRuns
begin

unbundle bit_operations_syntax

text \<open>
  The properties of \<open>cidr_set.go\<close>, stated on addresses: which blocks an operation hands out, marks and
  frees, what the counter counts, and where \<open>UpdateSubnetMaskSize\<close> departs from it.
\<close>

section \<open>Shared addresses\<close>

text \<open>Two networks share an address when some address is in both.\<close>

definition share :: "bool \<Rightarrow> IPNet \<Rightarrow> IPNet \<Rightarrow> bool" where
  "share v n q \<longleftrightarrow> (\<exists>ip. ip_ok v ip \<and> net_Contains n ip \<and> net_Contains q ip)"

lemma share_iff:
  assumes "net_ok v c n" "net_ok v k q"
  shows "share v n q \<longleftrightarrow> comparable (net_path c n) (net_path k q)"
proof
  assume "share v n q"
  then obtain ip where "ip_ok v ip" "net_Contains n ip" "net_Contains q ip" by (auto simp: share_def)
  then have "prefix (net_path c n) (bytes_bits ip)" "prefix (net_path k q) (bytes_bits ip)"
    using assms net_Contains_iff by blast+
  then show "comparable (net_path c n) (net_path k q)" unfolding comparable_def by (rule prefix_same_cases)
next
  have own: "prefix (net_path j r) (bytes_bits (ipn_IP r))" for j r
    by (simp add: net_path_def take_is_prefix)
  assume "comparable (net_path c n) (net_path k q)"
  then consider "prefix (net_path c n) (net_path k q)" | "prefix (net_path k q) (net_path c n)"
    by (auto simp: comparable_def)
  then show "share v n q"
  proof cases
    case 1
    then have "prefix (net_path c n) (bytes_bits (ipn_IP q))" using own prefix_order.trans by blast
    then show ?thesis
      using net_Contains_iff[OF assms(1) net_ok_ip[OF assms(2)]] net_Contains_iff[OF assms(2) net_ok_ip[OF assms(2)]]
        own net_ok_ip[OF assms(2)] by (auto simp: share_def)
  next
    case 2
    then have "prefix (net_path k q) (bytes_bits (ipn_IP n))" using own prefix_order.trans by blast
    then show ?thesis
      using net_Contains_iff[OF assms(1) net_ok_ip[OF assms(1)]] net_Contains_iff[OF assms(2) net_ok_ip[OF assms(1)]]
        own net_ok_ip[OF assms(1)] by (auto simp: share_def)
  qed
qed

lemma hit_share:
  assumes "cs_shape v c m s" "net_ok v k q"
  shows "j \<in> hit c m s (net_path k q) \<longleftrightarrow> j < 2 ^ (m - c) \<and> share v (indexToCIDRBlock s (int j) 0) q"
  using share_iff[OF block_net(1)[OF assms(1)] assms(2)] block_net(2)[OF assms(1)] by (auto simp: hit_def)

lemma used_eqI: "in_use s = in_use s' \<Longrightarrow> used s = used s'"
  by (rule bit_eqI) (auto simp: in_use_def set_eq_iff)

text \<open>An IPv4 and an IPv6 cluster CIDR for the examples: 10.0.0.0/16 and fd00:1::/56.\<close>

lemma example_clusters:
  "net_ok True 16 \<lparr>ipn_IP = [10, 0, 0, 0], ipn_Mask = [0xff, 0xff, 0, 0]\<rparr>"
  "net_ok False 56 \<lparr>ipn_IP = [0xfd, 0, 0, 1, 0, 0, 0, 0, 0, 0, 0, 0, 0, 0, 0, 0],
     ipn_Mask = [0xff, 0xff, 0xff, 0xff, 0xff, 0xff, 0xff, 0, 0, 0, 0, 0, 0, 0, 0, 0]\<rparr>"
  by code_simp+

lemma example_set4:
  "\<exists>s. NewCIDRSet \<lparr>ipn_IP = [10, 0, 0, 0], ipn_Mask = [0xff, 0xff, 0, 0]\<rparr> 18 = Inr s \<and> cs_ok True 16 18 s \<and> in_use s = {}"
  using NewCIDRSet_ok[OF example_clusters(1), of 18] by (auto simp: fam_width_def)

lemma example_set6:
  "\<exists>s. NewCIDRSet \<lparr>ipn_IP = [0xfd, 0, 0, 1, 0, 0, 0, 0, 0, 0, 0, 0, 0, 0, 0, 0],
     ipn_Mask = [0xff, 0xff, 0xff, 0xff, 0xff, 0xff, 0xff, 0, 0, 0, 0, 0, 0, 0, 0, 0]\<rparr> 68 = Inr s \<and>
     cs_ok False 56 68 s \<and> in_use s = {}"
  using NewCIDRSet_ok[OF example_clusters(2), of 68] by (auto simp: fam_width_def)

section \<open>Properties\<close>

text \<open>C5. \<open>AllocateNext\<close> on a well-formed set fails exactly when every block is in use, and then changes nothing;
  otherwise it returns a network of the node mask size that lies in the cluster CIDR, shares no address with any
  block in use, and marks exactly its own bit.\<close>

theorem AllocateNext_fresh:
  assumes "cs_ok v c m s"
  shows "((\<forall>j < 2 ^ (m - c). bit (used s) j) \<longrightarrow> AllocateNext s = (s, Inl ErrCIDRRangeNoCIDRsRemaining)) \<and>
    ((\<exists>j < 2 ^ (m - c). \<not> bit (used s) j) \<longrightarrow>
       (\<exists>s' b i. AllocateNext s = (s', Inr b) \<and> cs_ok v c m s' \<and> net_ok v m b \<and>
          net_Contains (clusterCIDR s) (ipn_IP b) \<and> used s' = set_bit i (used s) \<and> b = indexToCIDRBlock s (int i) 0 \<and>
          (\<forall>j. bit (used s) j \<longrightarrow> \<not> share v (indexToCIDRBlock s (int j) 0) b)))"
proof (intro conjI impI)
  note D = cs_okD[OF assms]
  show "AllocateNext s = (s, Inl ErrCIDRRangeNoCIDRsRemaining)" if "\<forall>j < 2 ^ (m - c). bit (used s) j"
    using that AllocateNext_ok(1)[OF assms] D(2) by (auto simp: in_use_def)
  assume "\<exists>j < 2 ^ (m - c). \<not> bit (used s) j"
  then have "in_use s \<noteq> {..<2 ^ (m - c)}" by (auto simp: in_use_def)
  then obtain s' i where a: "AllocateNext s = (s', Inr (indexToCIDRBlock s (int i) 0))" "i < 2 ^ (m - c)"
      "i \<notin> in_use s" "cs_ok v c m s'" "in_use s' = insert i (in_use s)"
    using AllocateNext_ok(2)[OF assms] by blast
  let ?b = "indexToCIDRBlock s (int i) 0"
  have b: "net_ok v m ?b" "net_path m ?b = block_path s c m i" by (rule block_net[OF D(1) a(2)])+
  have "prefix (net_path c (clusterCIDR s)) (bytes_bits (ipn_IP ?b))"
    unfolding block_bits[OF D(1) a(2)] by (simp add: block_path_def)
  then have "net_Contains (clusterCIDR s) (ipn_IP ?b)"
    using net_Contains_iff[OF cs_shapeD(1)[OF D(1)] net_ok_ip[OF b(1)]] by simp
  moreover have "used s' = used (s\<lparr>used := set_bit i (used s)\<rparr>)"
    by (rule used_eqI) (simp add: a(5) in_use_set_bit[of "s\<lparr>used := set_bit i (used s)\<rparr>" i s])
  moreover have "\<not> share v (indexToCIDRBlock s (int j) 0) ?b" if "bit (used s) j" for j
  proof -
    have j: "j < 2 ^ (m - c)" "j \<noteq> i" using that D(2) a(3) by (auto simp: in_use_def)
    then show ?thesis
      using share_iff[OF block_net(1)[OF D(1) j(1)] b(1)] block_net(2)[OF D(1) j(1)] b(2)
        block_path_disjoint[OF D(1) j(1) a(2)] by auto
  qed
  ultimately show "\<exists>s' b i. AllocateNext s = (s', Inr b) \<and> cs_ok v c m s' \<and> net_ok v m b \<and>
          net_Contains (clusterCIDR s) (ipn_IP b) \<and> used s' = set_bit i (used s) \<and> b = indexToCIDRBlock s (int i) 0 \<and>
          (\<forall>j. bit (used s) j \<longrightarrow> \<not> share v (indexToCIDRBlock s (int j) 0) b)"
    using a(1,4) b(1) by (intro exI[of _ s'] exI[of _ ?b] exI[of _ i]) simp
qed

theorem AllocateNext_fresh_witness:
  "\<exists>s s' b. NewCIDRSet \<lparr>ipn_IP = [0xfd, 0, 0, 1, 0, 0, 0, 0, 0, 0, 0, 0, 0, 0, 0, 0],
     ipn_Mask = [0xff, 0xff, 0xff, 0xff, 0xff, 0xff, 0xff, 0, 0, 0, 0, 0, 0, 0, 0, 0]\<rparr> 68 = Inr s \<and>
     AllocateNext s = (s', Inr b) \<and> cs_ok False 56 68 s'"
proof -
  obtain s where s: "NewCIDRSet \<lparr>ipn_IP = [0xfd, 0, 0, 1, 0, 0, 0, 0, 0, 0, 0, 0, 0, 0, 0, 0],
     ipn_Mask = [0xff, 0xff, 0xff, 0xff, 0xff, 0xff, 0xff, 0, 0, 0, 0, 0, 0, 0, 0, 0]\<rparr> 68 = Inr s"
      "cs_ok False 56 68 s" "in_use s = {}"
    using example_set6 by blast
  then have "\<exists>j < 2 ^ (68 - 56). \<not> bit (used s) j"
    by (intro exI[of _ 0]) (auto simp: in_use_def)
  then show ?thesis using AllocateNext_fresh[OF s(2)] s(1) by blast
qed

text \<open>C6. \<open>Occupy\<close> marks, and \<open>Release\<close> frees, exactly the blocks that share an address with the given network, and
  both keep the set well formed. They report an error, and change nothing, exactly when the network shares no address with the
  cluster CIDR.\<close>

theorem Occupy_Release_exact:
  assumes "cs_ok v c m s" "net_ok v k q"
  shows "(\<exists>s' r. Occupy s (Some q) = (s', r) \<and> cs_ok v c m s' \<and>
       (\<forall>j. bit (used s') j \<longleftrightarrow> bit (used s) j \<or> j < 2 ^ (m - c) \<and> share v (indexToCIDRBlock s (int j) 0) q) \<and>
       (r = Inr () \<longleftrightarrow> share v (clusterCIDR s) q) \<and> (r = Inr () \<or> used s' = used s)) \<and>
    (\<exists>s' r. Release s (Some q) = (s', r) \<and> cs_ok v c m s' \<and>
       (\<forall>j. bit (used s') j \<longleftrightarrow> bit (used s) j \<and> \<not> share v (indexToCIDRBlock s (int j) 0) q) \<and>
       (r = Inr () \<longleftrightarrow> share v (clusterCIDR s) q) \<and> (r = Inr () \<or> used s' = used s))"
proof -
  note D = cs_okD[OF assms(1)]
  let ?cmp = "comparable (net_path c (clusterCIDR s)) (net_path k q)"
  have sh: "share v (clusterCIDR s) q \<longleftrightarrow> ?cmp" by (rule share_iff[OF cs_shapeD(1)[OF D(1)] assms(2)])
  obtain s1 r1 where o: "Occupy s (Some q) = (s1, r1)" "cs_ok v c m s1" "in_use s1 = in_use s \<union> hit c m s (net_path k q)"
      "r1 = (if ?cmp then Inr () else Inl (OutOfClusterRange q (clusterCIDR s)))"
    using Occupy_ok[OF assms] by metis
  obtain s2 r2 where r: "Release s (Some q) = (s2, r2)" "cs_ok v c m s2" "in_use s2 = in_use s - hit c m s (net_path k q)"
      "r2 = (if ?cmp then Inr () else Inl (OutOfClusterRange q (clusterCIDR s)))"
    using Release_ok[OF assms] by metis
  have same: "\<not> ?cmp \<Longrightarrow> used s1 = used s \<and> used s2 = used s"
    using used_eqI[of s1 s] used_eqI[of s2 s] o(3) r(3) hit_out[of c s "net_path k q" m] by auto
  have b1: "bit (used s1) j \<longleftrightarrow> bit (used s) j \<or> j < 2 ^ (m - c) \<and> share v (indexToCIDRBlock s (int j) 0) q" for j
    using o(3) hit_share[OF D(1) assms(2), of j] by (auto simp: in_use_def set_eq_iff)
  have b2: "bit (used s2) j \<longleftrightarrow> bit (used s) j \<and> \<not> share v (indexToCIDRBlock s (int j) 0) q" for j
    using r(3) hit_share[OF D(1) assms(2), of j] D(2) by (auto simp: in_use_def set_eq_iff)
  show ?thesis
    using o(1,2,4) r(1,2,4) same b1 b2 sh by (intro conjI exI[of _ s1] exI[of _ r1] exI[of _ s2] exI[of _ r2]) auto
qed

theorem Occupy_Release_exact_witness:
  "\<exists>s s' r. NewCIDRSet \<lparr>ipn_IP = [10, 0, 0, 0], ipn_Mask = [0xff, 0xff, 0, 0]\<rparr> 18 = Inr s \<and>
     Occupy s (Some \<lparr>ipn_IP = [10, 0, 64, 0], ipn_Mask = [0xff, 0xff, 0xff, 0]\<rparr>) = (s', r) \<and> cs_ok True 16 18 s'"
proof -
  obtain s where s: "NewCIDRSet \<lparr>ipn_IP = [10, 0, 0, 0], ipn_Mask = [0xff, 0xff, 0, 0]\<rparr> 18 = Inr s" "cs_ok True 16 18 s"
    using example_set4 by blast
  have "net_ok True 24 \<lparr>ipn_IP = [10, 0, 64, 0], ipn_Mask = [0xff, 0xff, 0xff, 0]\<rparr>" by code_simp
  then show ?thesis using Occupy_Release_exact[OF s(2)] s(1) by blast
qed

text \<open>C7. A new set serves exactly \<open>2 ^ (m - c)\<close> requests: that many calls of \<open>AllocateNext\<close> return pairwise disjoint
  networks, and the next call reports that no CIDR remains.\<close>

theorem AllocateNext_serves_all:
  assumes "net_ok v c cluster" "c \<le> m" "m \<le> fam_width v" "m - c \<le> (if v then 31 else 16)"
  shows "\<exists>s s' bs. NewCIDRSet cluster (int m) = Inr s \<and> alloc_n AllocateNext (2 ^ (m - c)) s = (s', map Inr bs) \<and>
     length bs = 2 ^ (m - c) \<and> (\<forall>i < length bs. \<forall>j < length bs. i \<noteq> j \<longrightarrow> \<not> share v (bs ! i) (bs ! j)) \<and>
     AllocateNext s' = (s', Inl ErrCIDRRangeNoCIDRsRemaining)"
proof -
  obtain s where s: "NewCIDRSet cluster (int m) = Inr s" "cs_ok v c m s" "in_use s = {}"
    using NewCIDRSet_ok[OF assms] by blast
  have "cs_universe c m s - cs_taken c m s = block_path s c m ` {..<2 ^ (m - c)}"
    using s(3) by (simp add: cs_universe_def cs_taken_def)
  then have n: "card (cs_universe c m s - cs_taken c m s) = 2 ^ (m - c)"
    by (simp add: card_image[OF block_path_inj_on])
  obtain s' rs where run: "alloc_n AllocateNext (2 ^ (m - c)) s = (s', rs)" by fastforce
  obtain bs where bs: "rs = map Inr bs" "length bs = 2 ^ (m - c)" "\<forall>b \<in> set bs. net_good v b"
      "distinct (map net_blk bs)" "net_blk ` set bs \<subseteq> cs_universe c m s - cs_taken c m s"
    using cs.alloc_n_fresh[OF s(2) _ run] n by auto
  have "\<not> share v (bs ! i) (bs ! j)" if ij: "i < length bs" "j < length bs" "i \<noteq> j" for i j
  proof
    assume sh: "share v (bs ! i) (bs ! j)"
    obtain k l where kl: "net_ok v k (bs ! i)" "net_ok v l (bs ! j)"
      using bs(3) nth_mem[OF ij(1)] nth_mem[OF ij(2)] unfolding net_good_def by blast
    have "comparable (net_blk (bs ! i)) (net_blk (bs ! j))"
      using sh share_iff[OF kl] net_blk[OF kl(1)] net_blk[OF kl(2)] by simp
    then have "net_blk (bs ! i) = net_blk (bs ! j)"
      using cs.universe_disjoint[OF s(2)] bs(5) ij by (meson DiffD1 image_subset_iff nth_mem)
    then show False using bs(4) ij by (simp add: distinct_conv_nth)
  qed
  moreover have "AllocateNext s' = (s', Inl ErrCIDRRangeNoCIDRsRemaining)"
    using cs.alloc_exhausts[OF s(2), of s' rs] run n by simp
  ultimately show ?thesis using s(1) run bs(1,2) by metis
qed

theorem AllocateNext_serves_all_witness:
  "\<exists>s s' bs. NewCIDRSet \<lparr>ipn_IP = [10, 0, 0, 0], ipn_Mask = [0xff, 0xff, 0, 0]\<rparr> 18 = Inr s \<and>
     alloc_n AllocateNext 4 s = (s', map Inr bs) \<and> AllocateNext s' = (s', Inl ErrCIDRRangeNoCIDRsRemaining)"
  using AllocateNext_serves_all[OF example_clusters(1), of 18] by (auto simp: fam_width_def)

text \<open>Indices and blocks correspond: the indices of the \<open>i\<close>-th block are from \<open>i\<close> to \<open>i\<close>, for IPv4 and for IPv6
  clusters whose node prefix falls in either half of the address.\<close>

theorem indexToCIDRBlock_roundtrip:
  assumes "cs_shape v c m s" "i < 2 ^ (m - c)"
  shows "getBeginningAndEndIndices s (Some (indexToCIDRBlock s (int i) 0)) = Inr (int i, int i)"
proof -
  let ?b = "indexToCIDRBlock s (int i) 0"
  note b = block_net[OF assms]
  have cmp: "comparable (net_path c (clusterCIDR s)) (net_path m ?b)"
    unfolding b(2) by (simp add: comparable_def block_path_def)
  obtain x y where xy: "getBeginningAndEndIndices s (Some ?b) = Inr (int x, int y)" "y < 2 ^ (m - c)"
      "\<And>j. j < 2 ^ (m - c) \<Longrightarrow> x \<le> j \<and> j \<le> y \<longleftrightarrow> comparable (block_path s c m j) (net_path m ?b)"
    using indices_in[OF assms(1) b(1) cmp] by blast
  have only: "x \<le> j \<and> j \<le> y \<longleftrightarrow> j = i" if "j < 2 ^ (m - c)" for j
    using xy(3)[OF that] block_path_disjoint[OF assms(1) that assms(2)] unfolding b(2) by (auto simp: comparable_def)
  have "x \<le> i" "i \<le> y" using only[OF assms(2)] by auto
  then have "y = i" "x = i" using only[OF xy(2)] only[of x] xy(2) by auto
  then show ?thesis using xy(1) by simp
qed

theorem indexToCIDRBlock_roundtrip_witness:
  "\<exists>s. NewCIDRSet \<lparr>ipn_IP = [0xfd, 0, 0, 1, 0, 0, 0, 0, 0, 0, 0, 0, 0, 0, 0, 0],
     ipn_Mask = [0xff, 0xff, 0xff, 0xff, 0xff, 0xff, 0xff, 0, 0, 0, 0, 0, 0, 0, 0, 0]\<rparr> 68 = Inr s \<and>
     getBeginningAndEndIndices s (Some (indexToCIDRBlock s (int 4095) 0)) = Inr (int 4095, int 4095)"
  using example_set6 indexToCIDRBlock_roundtrip[of False 56 68 _ 4095] cs_okD(1) by auto

text \<open>Releasing what \<open>AllocateNext\<close> returned succeeds and restores the bitmap and the counter.\<close>

theorem Release_AllocateNext:
  assumes "cs_ok v c m s" "AllocateNext s = (s', Inr b)"
  shows "\<exists>s''. Release s' (Some b) = (s'', Inr ()) \<and> used s'' = used s \<and> allocatedCIDRs s'' = allocatedCIDRs s"
proof -
  note D = cs_okD[OF assms(1)]
  have "in_use s \<noteq> {..<2 ^ (m - c)}" using AllocateNext_ok(1)[OF assms(1)] assms(2) by auto
  then obtain i where a: "b = indexToCIDRBlock s (int i) 0" "i < 2 ^ (m - c)" "cs_ok v c m s'" "frame s s'"
    using AllocateNext_ok(2)[OF assms(1)] assms(2) by auto
  have b: "net_ok v m b" "net_path m b = block_path s c m i" using block_net[OF D(1) a(2)] a(1) by simp_all
  obtain s'' r where r: "Release s' (Some b) = (s'', r)" "cs_ok v c m s''" "frame s' s''"
      "r = (if comparable (net_path c (clusterCIDR s')) (net_path m b) then Inr () else Inl (OutOfClusterRange b (clusterCIDR s')))"
    using Release_ok[OF a(3) b(1)] by metis
  have "r = Inr ()" using r(4) a(4) b(2) by (simp add: comparable_def block_path_def frame_def)
  moreover have "cs_taken c m s'' = cs_taken c m s" using cs.alloc_release[OF assms r(1)] by simp
  then have "block_path s c m ` in_use s'' = block_path s c m ` in_use s"
    using frame_block[OF frame_trans[OF a(4) r(3)]] by (simp add: cs_taken_def)
  then have "in_use s'' = in_use s"
    using inj_on_image_eq_iff[OF block_path_inj_on cs_okD(2)[OF r(2)] D(2)] by simp
  ultimately show ?thesis
    using r(1) used_eqI[of s'' s] D(4) cs_okD(4)[OF r(2)] by auto
qed

theorem Release_AllocateNext_witness:
  "\<exists>s s' b s''. NewCIDRSet \<lparr>ipn_IP = [10, 0, 0, 0], ipn_Mask = [0xff, 0xff, 0, 0]\<rparr> 18 = Inr s \<and>
     AllocateNext s = (s', Inr b) \<and> Release s' (Some b) = (s'', Inr ()) \<and> used s'' = used s"
proof -
  obtain s where s: "NewCIDRSet \<lparr>ipn_IP = [10, 0, 0, 0], ipn_Mask = [0xff, 0xff, 0, 0]\<rparr> 18 = Inr s"
      "cs_ok True 16 18 s" "in_use s = {}"
    using example_set4 by blast
  have "0 \<in> {..<2 ^ (18 - 16) :: nat}" by simp
  then have "in_use s \<noteq> {..<2 ^ (18 - 16)}" using s(3) by blast
  then obtain s' b where "AllocateNext s = (s', Inr b)" using AllocateNext_ok(2)[OF s(2)] by blast
  then show ?thesis using Release_AllocateNext[OF s(2)] s(1) by blast
qed



section \<open>Reachable sets\<close>

text \<open>The states of a set that only \<open>NewCIDRSet\<close>, the two allocations, \<open>Occupy\<close> and \<open>Release\<close> produce, whatever
  their order and results.\<close>

inductive cs_reach :: "bool \<Rightarrow> nat \<Rightarrow> nat \<Rightarrow> CidrSet \<Rightarrow> bool" for v c m where
  new: "net_ok v c cluster \<Longrightarrow> c \<le> m \<Longrightarrow> m \<le> fam_width v \<Longrightarrow> m - c \<le> (if v then 31 else 16) \<Longrightarrow>
     NewCIDRSet cluster (int m) = Inr s \<Longrightarrow> cs_reach v c m s"
| alloc: "cs_reach v c m s \<Longrightarrow> AllocateNext s = (s', r) \<Longrightarrow> cs_reach v c m s'"
| alloc_mask: "cs_reach v c m s \<Longrightarrow> c \<le> k \<Longrightarrow> k \<le> m \<Longrightarrow> 0 < k \<Longrightarrow>
     AllocateNextWithNodeMaskSize s (int k) = Some (s', r) \<Longrightarrow> cs_reach v c m s'"
| occupy: "cs_reach v c m s \<Longrightarrow> net_ok v k q \<Longrightarrow> Occupy s (Some q) = (s', ok) \<Longrightarrow> cs_reach v c m s'"
| release: "cs_reach v c m s \<Longrightarrow> net_ok v k q \<Longrightarrow> Release s (Some q) = (s', ok) \<Longrightarrow> cs_reach v c m s'"

lemma AllocateNext_keeps: "cs_ok v c m s \<Longrightarrow> AllocateNext s = (s', r) \<Longrightarrow> cs_ok v c m s'"
  using AllocateNext_ok[of v c m s] by (cases "in_use s = {..<2 ^ (m - c)}") auto

lemma cs_reach_ok: "cs_reach v c m s \<Longrightarrow> cs_ok v c m s"
proof (induction rule: cs_reach.induct)
  case (new cluster s)
  then show ?case using NewCIDRSet_ok by fastforce
next
  case (alloc s s' r)
  then show ?case using AllocateNext_keeps by blast
next
  case (alloc_mask s k s' r)
  then show ?case using AllocateNextWithNodeMaskSize_ok[of v c m s k] by auto
next
  case (occupy s k q s' ok)
  then show ?case using Occupy_ok[of v c m s k q] by (metis prod.inject)
next
  case (release s k q s' ok)
  then show ?case using Release_ok[of v c m s k q] by (metis prod.inject)
qed



section \<open>UpdateSubnetMaskSize\<close>

lemma count_range:
  assumes "cs_ok v c m s" "distinct js" "\<forall>j \<in> set js. 0 \<le> j \<and> j < 2 ^ (m - c) \<and> nat j \<notin> in_use s"
  shows "cs_ok v c m (fold count_index js s) \<and> in_use (fold count_index js s) = in_use s \<union> nat ` set js \<and>
     frame s (fold count_index js s)"
  using alloc_run[of v c m s js 0] assms by (simp add: count_index_def[abs_def])

definition hits :: "nat \<Rightarrow> nat \<Rightarrow> CidrSet \<Rightarrow> IPNet list \<Rightarrow> nat set" where
  "hits c m s qs = (\<Union>q \<in> set qs. hit c m s (net_blk q))"

lemma hit_disjoint:
  assumes "net_ok v k q" "net_ok v l r" "k \<le> m" "l \<le> m" "cs_shape v c m s" "\<not> share v q r"
  shows "hit c m s (net_path k q) \<inter> hit c m s (net_path l r) = {}"
proof -
  have short: "comparable (block_path s c m i) p \<longleftrightarrow> prefix p (block_path s c m i)" if "length p \<le> m" for i p
    using that length_block_path[OF assms(5), of i]
    by (metis append_Nil2 comparable_def le_antisym prefix_length_le prefix_same_length)
  have "\<not> (prefix (net_path k q) x \<and> prefix (net_path l r) x)" for x
    using assms(6) share_iff[OF assms(1,2)] prefix_same_cases unfolding comparable_def by blast
  then show ?thesis
    using short[of "net_path k q"] short[of "net_path l r"] assms(3,4) net_okD(5)[OF assms(1)] net_okD(5)[OF assms(2)]
    by (auto simp: hit_def)
qed

lemma IsIPv6CIDR_ok: "net_ok v k n \<Longrightarrow> IsIPv6CIDR (Some n) \<longleftrightarrow> \<not> v"
  using To4_ok[OF net_ok_ip[of v k n]] To16_ok[OF net_ok_ip[of v k n]] by (auto simp: IsIPv6CIDR_def)

text \<open>The pod CIDRs that the map records: they parse to networks of the cluster's family that lie in the cluster, no longer than
  the node prefix, and no two of them share an address.\<close>

definition pods_ok :: "bool \<Rightarrow> nat \<Rightarrow> CidrSet \<Rightarrow> string list \<Rightarrow> IPNet list \<Rightarrow> bool" where
  "pods_ok v m s ps qs \<longleftrightarrow>
     map ParseCIDR ps = map Some qs \<and> sorted_wrt (\<lambda>a b. \<not> share v a b) qs \<and>
     (\<forall>q \<in> set qs. (\<exists>k \<le> m. net_ok v k q) \<and> share v (clusterCIDR s) q)"

lemma recount_ok:
  assumes "cs_ok v c m s" "pods_ok v m s ps qs" "hits c m s qs \<inter> in_use s = {}"
  shows "\<exists>s'. recount s ps = (s', Inr ()) \<and> cs_ok v c m s' \<and> frame s s' \<and> in_use s' = in_use s \<union> hits c m s qs"
  using assms
proof (induction ps arbitrary: s qs)
  case Nil
  then show ?case by (simp add: pods_ok_def hits_def)
next
  case (Cons p ps)
  note D = cs_okD[OF Cons.prems(1)]
  obtain q qs' where q: "qs = q # qs'" "ParseCIDR p = Some q" using Cons.prems(2) by (cases qs) (auto simp: pods_ok_def)
  obtain k where k: "k \<le> m" "net_ok v k q" using Cons.prems(2) q(1) by (auto simp: pods_ok_def)
  have cmp: "comparable (net_path c (clusterCIDR s)) (net_path k q)"
    using Cons.prems(2) q(1) share_iff[OF cs_shapeD(1)[OF D(1)] k(2)] by (simp add: pods_ok_def)
  obtain b e where be: "getBeginningAndEndIndices s (Some q) = Inr (b, e)"
      "\<forall>i \<in> set [b..e]. 0 \<le> i \<and> i < 2 ^ (m - c)" "nat ` set [b..e] = hit c m s (net_path k q)"
    using indices_hit[OF D(1) k(2) cmp] by blast
  let ?s = "fold count_index [b..e] s"
  have "\<forall>j \<in> set [b..e]. 0 \<le> j \<and> j < 2 ^ (m - c) \<and> nat j \<notin> in_use s"
    using be(2,3) Cons.prems(3) q(1) net_blk[OF k(2)] by (fastforce simp: hits_def)
  from count_range[OF Cons.prems(1) distinct_upto this] be(3)
  have s1: "cs_ok v c m ?s" "in_use ?s = in_use s \<union> hit c m s (net_path k q)" "frame s ?s" by auto
  have same: "hits c m ?s x = hits c m s x" for x
    using frame_block[OF s1(3)] by (simp add: hits_def hit_def)
  have "hit c m s (net_path k q) \<inter> hit c m s (net_blk r) = {}" if r: "r \<in> set qs'" for r
  proof -
    obtain l where l: "l \<le> m" "net_ok v l r" using Cons.prems(2) q(1) r by (auto simp: pods_ok_def)
    moreover have "\<not> share v q r" using Cons.prems(2) q(1) r by (simp add: pods_ok_def)
    ultimately show ?thesis using hit_disjoint[OF k(2) l(2) k(1) l(1) D(1)] net_blk[OF l(2)] by simp
  qed
  then have "hits c m ?s qs' \<inter> in_use ?s = {}"
    unfolding same s1(2) using Cons.prems(3) q(1) by (auto simp: hits_def)
  moreover have "pods_ok v m ?s ps qs'"
    using Cons.prems(2) q s1(3) by (simp add: pods_ok_def frame_def)
  ultimately obtain s' where s': "recount ?s ps = (s', Inr ())" "cs_ok v c m s'" "frame ?s s'"
      "in_use s' = in_use ?s \<union> hits c m ?s qs'"
    using Cons.IH[OF s1(1)] by blast
  have "recount s (p # ps) = recount ?s ps"
    using q(2) be(1) IsIPv6CIDR_ok[OF k(2)] IsIPv6CIDR_ok[OF cs_shapeD(1)[OF D(1)]] by simp
  then show ?case
    using s' s1 same frame_trans[OF s1(3) s'(3)] q(1) net_blk[OF k(2)] by (auto simp: hits_def)
qed

lemma UpdateSubnetMaskSize_ok:
  assumes s: "cs_ok v c m s" and m': "m < m'" "m' \<le> fam_width v" "m' - c \<le> (if v then 31 else 16)"
    and pods: "pods_ok v m' s (concat (map snd nodes)) qs"
  shows "\<exists>s'. UpdateSubnetMaskSize s (int m') nodes = (s', Inr ()) \<and> cs_ok v c m' s' \<and> in_use s' = hits c m' s qs \<and>
     clusterCIDR s' = clusterCIDR s"
proof -
  note D = cs_okD[OF s]
  note S = cs_shapeD[OF D(1)]
  have "shift32 (int m' - int c) = m' - c"
    using S(4) m' by (simp add: shift32_def nat_mod_distrib fam_width_def nat_diff_distrib split: if_splits)
  then have M: "int_shl1 (shift32 (int m' - int c)) = 2 ^ (m' - c)"
    using int_shl1_small[of "m' - c"] m'(3) by (simp split: if_splits)
  have sz: "mask_Size (ipn_Mask (clusterCIDR s)) = (int c, int (fam_width v))"
    using mask_Size_CIDRMask[OF net_okD(1)[OF S(1)]] net_okD(3)[OF S(1)] by simp
  let ?s = "s\<lparr>nodeMask := CIDRMask (int m') (int (fam_width v)), maxCIDRs := 2 ^ (m' - c),
     nodeMaskSize := int m', used := 0, allocatedCIDRs := 0\<rparr>"
  have empty: "in_use ?s = {}" by (simp add: in_use_def)
  have "(2 :: int) ^ (m - c) \<le> 2 ^ (m' - c)" using m'(1) by (intro power_increasing) simp_all
  then have "nextCandidate s < 2 ^ (m' - c)" using D(6) by linarith
  then have ok: "cs_ok v c m' ?s"
    using S m' D(5) by (simp add: cs_ok_def cs_shape_def empty)
  have "pods_ok v m' ?s (concat (map snd nodes)) qs" using pods by (simp add: pods_ok_def)
  from recount_ok[OF ok this] obtain s' where s': "recount ?s (concat (map snd nodes)) = (s', Inr ())"
      "cs_ok v c m' s'" "frame ?s s'" "in_use s' = hits c m' ?s qs"
    using empty by auto
  have "UpdateSubnetMaskSize s (int m') nodes = (s', Inr ())"
    using S(1,3) m' sz M To4_ok[OF net_ok_ip[OF S(1)]] s'(1)
    by (auto simp: UpdateSubnetMaskSize_def clusterSubnetMaxDiff_def)
  moreover have "hits c m' ?s qs = hits c m' s qs" by (simp add: hits_def hit_def block_path_def)
  ultimately show ?thesis using s' by (auto simp: frame_def)
qed



end
