(* ===== verification/RangeAllocator.thy ===== *)
theory RangeAllocator
  imports CidrProperties
begin

text \<open>
  \<open>pkg/nodeipam/ipam/range_allocator.go\<close>, with the constants of \<open>cidr_allocator.go\<close> and \<open>PatchNodeCIDRs\<close> of
  \<open>pkg/util/node/node.go\<close>: assignment of one pod CIDR per cluster CIDR to every node. The buffered channel is a
  queue and the events sent to the recorder are a log. The Kubernetes API is a pair of arguments: \<open>get\<close> (the node lister)
  and \<open>patch\<close>, which maps the state of the server before a patch request to the state after it and an error. Every
  handler and every turn of a worker is one step; a full channel, on which Go blocks, is not modelled.
\<close>

section \<open>Nodes, errors and the API\<close>

datatype ConditionStatus = ConditionTrue | ConditionFalse | ConditionUnknown

record NodeCondition =
  cond_Type :: string
  cond_Status :: ConditionStatus

record Taint =
  taint_Key :: string
  taint_Effect :: string

record Node =
  node_Name :: string
  node_ProviderID :: string
  node_PodCIDR :: string
  node_PodCIDRs :: "string list"
  node_Taints :: "Taint list"
  node_Conditions :: "NodeCondition list"

datatype api_error =
    NotFound
  | ServerTimeout
  | OtherApiError string
  | FailedToPatch api_error

fun IsNotFound :: "api_error \<Rightarrow> bool" where
  "IsNotFound NotFound = True"
| "IsNotFound (FailedToPatch e) = IsNotFound e"
| "IsNotFound _ = False"

fun IsServerTimeout :: "api_error \<Rightarrow> bool" where
  "IsServerTimeout ServerTimeout = True"
| "IsServerTimeout (FailedToPatch e) = IsServerTimeout e"
| "IsServerTimeout _ = False"

datatype ra_error =
    NewSet cidr_error
  | NodeParse string string
  | NoClusterCIDR string string nat
  | OccupyFailed IPNet nat string cidr_error
  | AllocateAt nat cidr_error
  | AllocateFor string ra_error
  | ReleaseParse string string cidr_error
  | ReleaseFailed string cidr_error
  | Api api_error
  | RaPanic panic

fun ra_error_string :: "ra_error \<Rightarrow> string" where
  "ra_error_string (NewSet e) = cidr_error_string e"
| "ra_error_string (NodeParse name cidr) = ''failed to parse node '' @ name @ '', CIDR '' @ cidr"
| "ra_error_string (NoClusterCIDR name cidr idx) =
     ''node:'' @ name @ '' has an allocated cidr: '' @ cidr @ '' at index:'' @ nat_digits idx @
     '' that does not exist in cluster cidrs configuration''"
| "ra_error_string (OccupyFailed cidr idx name e) =
     ''failed to mark cidr['' @ net_String cidr @ ''] at idx ['' @ nat_digits idx @ ''] as occupied for node: '' @
     name @ '': '' @ cidr_error_string e"
| "ra_error_string (AllocateAt idx e) =
     ''failed to allocate cidr from cluster cidr at idx:'' @ nat_digits idx @ '': '' @ cidr_error_string e"
| "ra_error_string (AllocateFor name e) = ''failed to allocate cidr for node '' @ name @ '': '' @ ra_error_string e"
| "ra_error_string (ReleaseParse cidr name e) =
     ''failed to parse CIDR '' @ cidr @ '' on Node '' @ name @ '': '' @ cidr_error_string e"
| "ra_error_string (ReleaseFailed cidr e) = ''error when releasing CIDR '' @ cidr @ '': '' @ cidr_error_string e"
| "ra_error_string (Api e) = []"
| "ra_error_string (RaPanic p) = []"

definition cidrUpdateRetries :: nat where
  "cidrUpdateRetries = 3"

type_synonym 'w patch = "'w \<Rightarrow> string \<Rightarrow> string \<Rightarrow> string list \<Rightarrow> 'w \<times> api_error option"

type_synonym lister = "string \<Rightarrow> (api_error, Node) result"

text \<open>\<open>PatchNodeCIDRs\<close> sends the first CIDR and the whole list; it indexes the list before it sends anything.\<close>

definition PatchNodeCIDRs :: "'w patch \<Rightarrow> string \<Rightarrow> string list \<Rightarrow> 'w \<Rightarrow> 'w \<times> ra_error option" where
  "PatchNodeCIDRs patch name cidrs w =
     (case cidrs of
        [] \<Rightarrow> (w, Some (RaPanic IndexOutOfRange))
      | c # _ \<Rightarrow> (case patch w name c cidrs of
                   (w', None) \<Rightarrow> (w', None)
                 | (w', Some e) \<Rightarrow> (w', Some (Api (FailedToPatch e)))))"

section \<open>State\<close>

record nodeReservedCIDRs =
  nr_allocatedCIDRs :: "IPNet list option"
  nr_nodeName :: string

record rangeAllocator =
  ra_clusterCIDRs :: "IPNet list"
  ra_cidrSets :: "CidrSet list"
  ra_channel :: "nodeReservedCIDRs list"
  ra_nodesInProcessing :: "string set"
  ra_events :: "(string \<times> string) list"

record CIDRAllocatorParams =
  ClusterCIDRs :: "IPNet list"
  ServiceCIDR :: "IPNet option"
  SecondaryServiceCIDR :: "IPNet option"
  NodeCIDRMaskSizes :: "int list"

definition insertNodeToProcessing :: "rangeAllocator \<Rightarrow> string \<Rightarrow> rangeAllocator \<times> bool" where
  "insertNodeToProcessing r name =
     (if name \<in> ra_nodesInProcessing r then (r, False)
      else (r\<lparr>ra_nodesInProcessing := insert name (ra_nodesInProcessing r)\<rparr>, True))"

definition removeNodeFromProcessing :: "rangeAllocator \<Rightarrow> string \<Rightarrow> rangeAllocator" where
  "removeNodeFromProcessing r name = r\<lparr>ra_nodesInProcessing := ra_nodesInProcessing r - {name}\<rparr>"

definition RecordNodeStatusChange :: "rangeAllocator \<Rightarrow> string \<Rightarrow> string \<Rightarrow> rangeAllocator" where
  "RecordNodeStatusChange r name newStatus = r\<lparr>ra_events := ra_events r @ [(name, newStatus)]\<rparr>"

section \<open>Occupying and releasing the CIDRs of a node\<close>

text \<open>The loop of \<open>occupyCIDRs\<close> from index \<open>idx\<close> on; sets marked before an error stay marked.\<close>

fun occupy_from ::
  "Node \<Rightarrow> nat \<Rightarrow> string list \<Rightarrow> CidrSet list \<Rightarrow> CidrSet list \<times> (ra_error, unit) result" where
  "occupy_from node idx [] sets = (sets, Inr ())"
| "occupy_from node idx (cidr # cidrs) sets =
     (case ParseCIDR cidr of
        None \<Rightarrow> (sets, Inl (NodeParse (node_Name node) (node_PodCIDR node)))
      | Some podCIDR \<Rightarrow>
          if length sets \<le> idx then (sets, Inl (NoClusterCIDR (node_Name node) cidr idx))
          else (case Occupy (sets ! idx) (Some podCIDR) of
                  (s, Inl e) \<Rightarrow> (sets[idx := s], Inl (OccupyFailed podCIDR idx (node_Name node) e))
                | (s, Inr _) \<Rightarrow> occupy_from node (idx + 1) cidrs (sets[idx := s])))"

definition occupyCIDRs :: "rangeAllocator \<Rightarrow> Node \<Rightarrow> rangeAllocator \<times> (ra_error, unit) result" where
  "occupyCIDRs r node =
     (let (sets, res) = occupy_from node 0 (node_PodCIDRs node) (ra_cidrSets r)
      in (removeNodeFromProcessing (r\<lparr>ra_cidrSets := sets\<rparr>) (node_Name node), res))"

fun release_from ::
  "Node \<Rightarrow> nat \<Rightarrow> string list \<Rightarrow> CidrSet list \<Rightarrow> CidrSet list \<times> (ra_error, unit) result" where
  "release_from node idx [] sets = (sets, Inr ())"
| "release_from node idx (cidr # cidrs) sets =
     (case ParseCIDR cidr of
        None \<Rightarrow> (sets, Inl (ReleaseParse cidr (node_Name node) (InvalidCIDRAddress cidr)))
      | Some podCIDR \<Rightarrow>
          if length sets \<le> idx then (sets, Inl (NoClusterCIDR (node_Name node) cidr idx))
          else (case Release (sets ! idx) (Some podCIDR) of
                  (s, Inl e) \<Rightarrow> (sets[idx := s], Inl (ReleaseFailed cidr e))
                | (s, Inr _) \<Rightarrow> release_from node (idx + 1) cidrs (sets[idx := s])))"

definition ReleaseCIDR :: "rangeAllocator \<Rightarrow> Node option \<Rightarrow> rangeAllocator \<times> (ra_error, unit) result" where
  "ReleaseCIDR r node0 =
     (case node0 of
        None \<Rightarrow> (r, Inr ())
      | Some node \<Rightarrow>
          let (sets, res) = release_from node 0 (node_PodCIDRs node) (ra_cidrSets r)
          in (r\<lparr>ra_cidrSets := sets\<rparr>, res))"

section \<open>Allocation\<close>

text \<open>When the allocation from set \<open>idx\<close> fails, the CIDRs taken so far are given to \<open>Release\<close> of that same set, as
  the source does, not to the sets they came from.\<close>

function allocate_from ::
  "nat \<Rightarrow> IPNet list \<Rightarrow> CidrSet list \<Rightarrow> CidrSet list \<times> (ra_error, IPNet list) result" where
  "allocate_from idx allocated sets =
     (if idx < length sets then
        (case AllocateNext (sets ! idx) of
           (s, Inl e) \<Rightarrow>
             (sets[idx := fold (\<lambda>cidr s. fst (Release s (Some cidr))) allocated s], Inl (AllocateAt idx e))
         | (s, Inr podCIDR) \<Rightarrow> allocate_from (idx + 1) (allocated @ [podCIDR]) (sets[idx := s]))
      else (sets, Inr allocated))"
  by pat_completeness auto
termination
  by (relation "measure (\<lambda>(idx, _, sets). length sets - idx)") auto

declare allocate_from.simps [simp del]

definition allocatePodCIDRs :: "rangeAllocator \<Rightarrow> rangeAllocator \<times> (ra_error, IPNet list) result" where
  "allocatePodCIDRs r =
     (let (sets, res) = allocate_from 0 [] (ra_cidrSets r) in (r\<lparr>ra_cidrSets := sets\<rparr>, res))"

definition AllocateOrOccupyCIDR :: "rangeAllocator \<Rightarrow> Node option \<Rightarrow> rangeAllocator \<times> (ra_error, unit) result" where
  "AllocateOrOccupyCIDR r node0 =
     (case node0 of
        None \<Rightarrow> (r, Inr ())
      | Some node \<Rightarrow>
          (case insertNodeToProcessing r (node_Name node) of
             (r, False) \<Rightarrow> (r, Inr ())
           | (r, True) \<Rightarrow>
               if node_PodCIDRs node \<noteq> [] then occupyCIDRs r node
               else
                 (case allocatePodCIDRs r of
                    (r, Inl e) \<Rightarrow>
                      (RecordNodeStatusChange (removeNodeFromProcessing r (node_Name node)) (node_Name node) ''CIDRNotAvailable'',
                       Inl (AllocateFor (node_Name node) e))
                  | (r, Inr cs) \<Rightarrow>
                      (r\<lparr>ra_channel := ra_channel r @
                          [\<lparr>nr_allocatedCIDRs = Some cs, nr_nodeName = node_Name node\<rparr>]\<rparr>, Inr ()))))"

text \<open>The handler for node updates that \<open>NewCIDRRangeAllocator\<close> installs; added nodes go to
  \<open>AllocateOrOccupyCIDR\<close> and deleted ones to \<open>ReleaseCIDR\<close> directly.\<close>

definition update_handler :: "rangeAllocator \<Rightarrow> Node \<Rightarrow> rangeAllocator \<times> (ra_error, unit) result" where
  "update_handler r newNode =
     (if node_PodCIDRs newNode = [] then AllocateOrOccupyCIDR r (Some newNode) else (r, Inr ()))"

section \<open>Construction\<close>

fun new_sets :: "IPNet list \<Rightarrow> int list \<Rightarrow> (ra_error, CidrSet list) result" where
  "new_sets [] nms = Inr []"
| "new_sets (cidr # cidrs) [] = Inl (RaPanic IndexOutOfRange)"
| "new_sets (cidr # cidrs) (nm # nms) =
     (case NewCIDRSet cidr nm of
        Inl e \<Rightarrow> Inl (NewSet e)
      | Inr s \<Rightarrow> (case new_sets cidrs nms of Inl e \<Rightarrow> Inl e | Inr ss \<Rightarrow> Inr (s # ss)))"

text \<open>The two arguments of \<open>filterOutServiceRange\<close> have the same length; an error of \<open>Occupy\<close> is only logged.\<close>

fun filterOutServiceRange :: "IPNet list \<Rightarrow> CidrSet list \<Rightarrow> IPNet \<Rightarrow> CidrSet list" where
  "filterOutServiceRange (cidr # cidrs) (s # sets) serviceCIDR =
     (if \<not> net_Contains cidr (ip_Mask (ipn_IP serviceCIDR) (ipn_Mask cidr)) \<and>
         \<not> net_Contains serviceCIDR (ip_Mask (ipn_IP cidr) (ipn_Mask serviceCIDR))
      then s else fst (Occupy s (Some serviceCIDR))) # filterOutServiceRange cidrs sets serviceCIDR"
| "filterOutServiceRange _ sets _ = sets"

text \<open>The nodes that exist at start: a CIDR outside the cluster CIDR is skipped, any other error is returned.\<close>

fun occupy_nodes :: "rangeAllocator \<Rightarrow> Node list \<Rightarrow> (ra_error, rangeAllocator) result" where
  "occupy_nodes r [] = Inr r"
| "occupy_nodes r (node # nodes) =
     (if node_PodCIDRs node = [] then occupy_nodes r nodes
      else case occupyCIDRs r node of
             (r', Inr _) \<Rightarrow> occupy_nodes r' nodes
           | (r', Inl e) \<Rightarrow>
               if Contains (ra_error_string e) ''is out the range of cluster cidr'' then occupy_nodes r' nodes
               else Inl e)"

definition NewCIDRRangeAllocator :: "CIDRAllocatorParams \<Rightarrow> Node list option \<Rightarrow> (ra_error, rangeAllocator) result" where
  "NewCIDRRangeAllocator params nodeList =
     (case new_sets (ClusterCIDRs params) (NodeCIDRMaskSizes params) of
        Inl e \<Rightarrow> Inl e
      | Inr sets \<Rightarrow>
          let sets1 = (case ServiceCIDR params of None \<Rightarrow> sets
                       | Some c \<Rightarrow> filterOutServiceRange (ClusterCIDRs params) sets c);
              sets2 = (case SecondaryServiceCIDR params of None \<Rightarrow> sets1
                       | Some c \<Rightarrow> filterOutServiceRange (ClusterCIDRs params) sets1 c);
              ra = \<lparr>ra_clusterCIDRs = ClusterCIDRs params, ra_cidrSets = sets2, ra_channel = [],
                    ra_nodesInProcessing = {}, ra_events = []\<rparr>
          in case nodeList of None \<Rightarrow> Inr ra | Some nodes \<Rightarrow> occupy_nodes ra nodes)"

section \<open>Workers\<close>

definition cidrsAsString :: "IPNet list \<Rightarrow> string list" where
  "cidrsAsString cidrs = map net_String cidrs"

text \<open>Giving a reservation back: one CIDR per set, errors of \<open>Release\<close> are only logged.\<close>

fun release_each :: "CidrSet list \<Rightarrow> IPNet list \<Rightarrow> CidrSet list" where
  "release_each (s # sets) (c # cs) = fst (Release s (Some c)) # release_each sets cs"
| "release_each sets _ = sets"

text \<open>The attempts to patch the node; the result is that of the last attempt.\<close>

fun patch_attempts :: "('w \<Rightarrow> 'w \<times> ra_error option) \<Rightarrow> nat \<Rightarrow> 'w \<Rightarrow> 'w \<times> ra_error option" where
  "patch_attempts attempt 0 w = (w, None)"
| "patch_attempts attempt (Suc n) w =
     (case attempt w of
        (w', None) \<Rightarrow> (w', None)
      | (w', Some e) \<Rightarrow> if n = 0 then (w', Some e) else patch_attempts attempt n w')"

definition last_is_timeout :: "ra_error \<Rightarrow> bool" where
  "last_is_timeout e = (case e of Api a \<Rightarrow> IsServerTimeout a | _ \<Rightarrow> False)"

definition updateCIDRsAllocation ::
  "lister \<Rightarrow> 'w patch \<Rightarrow> 'w \<Rightarrow> rangeAllocator \<Rightarrow> nodeReservedCIDRs \<Rightarrow>
   'w \<times> rangeAllocator \<times> nodeReservedCIDRs \<times> ra_error option" where
  "updateCIDRsAllocation get patch w r0 data0 =
     (let name = nr_nodeName data0; done = (\<lambda>w r d. (w, removeNodeFromProcessing r name, d, None))
      in case get name of
           Inl e \<Rightarrow> if IsNotFound e then done w r0 data0 else (w, r0, data0, Some (Api e))
         | Inr node \<Rightarrow>
             (case (case nr_allocatedCIDRs data0 of
                      Some cs \<Rightarrow> (r0, Inr cs)
                    | None \<Rightarrow> allocatePodCIDRs r0) of
                (r, Inl e) \<Rightarrow>
                  (w, RecordNodeStatusChange r (node_Name node) ''CIDRNotAvailable'', data0, Some (AllocateFor name e))
              | (r, Inr cs) \<Rightarrow>
                  let dat = data0\<lparr>nr_allocatedCIDRs := Some cs\<rparr>; cidrsString = cidrsAsString cs
                  in if node_PodCIDRs node = cidrsString then done w r dat
                     else if node_PodCIDRs node \<noteq> [] then
                       done w (r\<lparr>ra_cidrSets := release_each (ra_cidrSets r) cs\<rparr>) dat
                     else
                       (case patch_attempts (PatchNodeCIDRs patch (node_Name node) cidrsString) cidrUpdateRetries w of
                          (w', None) \<Rightarrow> done w' r dat
                        | (w', Some e) \<Rightarrow>
                            let r' = RecordNodeStatusChange r (node_Name node) ''CIDRAssignmentFailed''
                            in if last_is_timeout e then (w', r', dat, Some e)
                               else (w', r'\<lparr>ra_cidrSets := release_each (ra_cidrSets r') cs\<rparr>,
                                     dat\<lparr>nr_allocatedCIDRs := None\<rparr>, Some e))))"

text \<open>One turn of \<open>worker\<close>: the first item of the channel is processed and queued again when that fails.\<close>

definition worker :: "lister \<Rightarrow> 'w patch \<Rightarrow> 'w \<Rightarrow> rangeAllocator \<Rightarrow> 'w \<times> rangeAllocator" where
  "worker get patch w r =
     (case ra_channel r of
        [] \<Rightarrow> (w, r)
      | workItem # rest \<Rightarrow>
          (case updateCIDRsAllocation get patch w (r\<lparr>ra_channel := rest\<rparr>) workItem of
             (w', r', item, Some _) \<Rightarrow> (w', r'\<lparr>ra_channel := ra_channel r' @ [item]\<rparr>)
           | (w', r', _, None) \<Rightarrow> (w', r')))"

end
