(* ===== verification/NetText.thy ===== *)
theory NetText
  imports NetBits
begin

text \<open>
  Printing a network and parsing it again, in both families: \<open>ParseCIDR\<close> inverts \<open>IPNet.String\<close> on the networks the
  allocators hand out. The allocators keep the pod CIDRs of the nodes as text, so every claim about releasing what was
  allocated rests on this round trip.
\<close>

section \<open>Splitting\<close>

lemma split_acc_char:
  assumes "c \<notin> set x"
  shows "split_acc [c] acc (x @ c # s) = (rev acc @ x) # split_acc [c] [] s"
  using assms
proof (induction x arbitrary: acc)
  case Nil
  show ?case by (subst split_acc.simps) (simp add: HasPrefix_def)
next
  case (Cons a x)
  then show ?case by (subst split_acc.simps) (auto simp: HasPrefix_def)
qed

lemma split_acc_end: "c \<notin> set x \<Longrightarrow> split_acc [c] acc x = [rev acc @ x]"
  by (rule split_acc_no_sep) (auto simp: Contains_iff)

lemma Split_Join:
  assumes "xs \<noteq> []" "\<forall>x \<in> set xs. c \<notin> set x"
  shows "Split (Join xs [c]) [c] = xs"
  unfolding Split_def using assms
proof (induction xs)
  case (Cons x xs)
  then show ?case by (cases xs) (simp_all add: split_acc_char split_acc_end)
qed simp

section \<open>Dotted addresses\<close>

lemma nat_digits_hd: "0 < n \<Longrightarrow> hd (nat_digits n) \<noteq> CHR ''0''"
proof (induction n rule: nat_digits.induct)
  case (1 n)
  show ?case
  proof (cases "n < 10")
    case True
    have "digit_val CHR ''0'' = Some 0" by (simp add: digit_val_def)
    then have "digit_char n \<noteq> CHR ''0''" using 1(2) digit_val_digit_char[OF True] by auto
    then show ?thesis using True by (subst nat_digits.simps) simp
  next
    case False
    then show ?thesis using 1 by (subst nat_digits.simps) (simp add: hd_append)
  qed
qed

lemma nat_digits_single: "length (nat_digits n) = 1 \<longleftrightarrow> n < 10"
  by (subst nat_digits.simps) simp

lemma parse_octet_nat_digits: "parse_octet (nat_digits (unat b)) = Some b"
proof -
  have "\<not> (1 < length (nat_digits (unat b)) \<and> hd (nat_digits (unat b)) = CHR ''0'')"
    using nat_digits_hd[of "unat b"] nat_digits_single[of "unat b"] by (cases "unat b = 0") auto
  moreover have "unat b < 2 ^ LENGTH(8)" by (rule unsigned_less)
  then have "unat b \<le> 255" by simp
  ultimately show ?thesis by (simp add: parse_octet_def)
qed

lemma digit_char_ne:
  "d < 10 \<Longrightarrow> digit_char d \<noteq> CHR ''.'' \<and> digit_char d \<noteq> CHR '':'' \<and> digit_char d \<noteq> CHR ''/'' \<and> digit_char d \<noteq> CHR ''%''"
proof -
  assume "d < 10"
  then have "digit_val (digit_char d) \<noteq> None" by (simp add: digit_val_digit_char)
  moreover have "digit_val CHR ''.'' = None" "digit_val CHR '':'' = None" "digit_val CHR ''/'' = None"
    "digit_val CHR ''%'' = None" by (simp_all add: digit_val_def)
  ultimately show ?thesis by metis
qed

lemma nat_digits_plain:
  "CHR ''.'' \<notin> set (nat_digits n)" "CHR '':'' \<notin> set (nat_digits n)" "CHR ''/'' \<notin> set (nat_digits n)"
  "CHR ''%'' \<notin> set (nat_digits n)"
  using nat_digits_set[of n] digit_char_ne by (auto dest!: subsetD) metis+

lemma parse_v4_fields_dotted:
  assumes "length bs = 4"
  shows "parse_v4_fields (dotted bs) = Some bs"
proof -
  have "bs \<noteq> []" using assms by auto
  then have "Split (dotted bs) ''.'' = map (\<lambda>b. nat_digits (unat b)) bs"
    unfolding dotted_def by (intro Split_Join) (auto simp: nat_digits_plain)
  then show ?thesis
    using assms by (auto simp: parse_v4_fields_def comp_def parse_octet_nat_digits)
qed

lemma set_Join: "set (Join xs sep) \<subseteq> \<Union> (set ` set xs) \<union> set sep"
proof (induction xs)
  case (Cons x xs)
  then show ?case by (cases xs) auto
qed simp

lemma dotted_plain:
  "CHR '':'' \<notin> set (dotted bs)" "CHR ''/'' \<notin> set (dotted bs)" "CHR ''%'' \<notin> set (dotted bs)"
  using set_Join[of "map (\<lambda>b. nat_digits (unat b)) bs" "''.''"] by (auto simp: dotted_def nat_digits_plain)

lemma filter_only:
  assumes "c \<in> set s" "c \<in> A" "\<forall>d \<in> set s. d \<in> A \<longrightarrow> d = c"
  shows "\<exists>r. filter (\<lambda>d. d \<in> A) s = c # r"
proof -
  have "filter (\<lambda>d. d \<in> A) s \<noteq> []" using assms(1,2) by (auto simp: filter_empty_conv)
  then show ?thesis using assms(3) by (cases "filter (\<lambda>d. d \<in> A) s") (auto dest: filter_eq_ConsD)
qed

lemma ParseAddr_dotted:
  assumes "length bs = 4"
  shows "ParseAddr (dotted bs) = Some (Addr4 (be_word bs))"
proof -
  obtain x y zs where "bs = x # y # zs" using assms by (auto simp: numeral_eq_Suc length_Suc_conv)
  then have "CHR ''.'' \<in> set (dotted bs)" by (simp add: dotted_def)
  then obtain r where "filter (\<lambda>c. c \<in> {CHR ''.'', CHR '':'', CHR ''%''}) (dotted bs) = CHR ''.'' # r"
    using filter_only[of "CHR ''.''" "dotted bs" "{CHR ''.'', CHR '':'', CHR ''%''}"] dotted_plain[of bs] by auto
  then show ?thesis by (simp add: ParseAddr_def parseIPv4_def parse_v4_fields_dotted[OF assms])
qed

section \<open>From addresses to networks\<close>

lemma simpleMaskLength_CIDRMask:
  assumes "m \<le> fam_width v"
  shows "simpleMaskLength (CIDRMask (int m) (int (fam_width v))) = int m"
proof -
  have "int (fam_width v) \<noteq> 0" by (simp add: fam_width_def)
  then show ?thesis using mask_Size_CIDRMask[OF assms] by (auto simp: mask_Size_def Let_def split: if_splits)
qed

lemma net_String_ok:
  assumes "net_ok v k n"
  shows "net_String n = ip_String (ipn_IP n) @ CHR ''/'' # nat_digits k"
  using networkNumberAndMask_ok[OF assms] net_okD(1,3)[OF assms] simpleMaskLength_CIDRMask[of k v]
  by (simp add: net_String_def FormatInt_def)

lemma ParseCIDR_text:
  assumes "CHR ''/'' \<notin> set t" "ParseAddr t = Some a" "case a of Addr4 _ \<Rightarrow> True | Addr6 _ z \<Rightarrow> z = []"
  shows "ParseCIDR (t @ CHR ''/'' # nat_digits k) =
     (if BitLen a < k then None
      else let m = CIDRMask (int k) (int (BitLen a)) in Some \<lparr>ipn_IP = ip_Mask (As16 a) m, ipn_Mask = m\<rparr>)"
proof -
  have "takeWhile (\<lambda>c. c \<noteq> CHR ''/'') (t @ CHR ''/'' # nat_digits k) = t"
    "dropWhile (\<lambda>c. c \<noteq> CHR ''/'') (t @ CHR ''/'' # nat_digits k) = CHR ''/'' # nat_digits k"
    using assms(1) by (auto simp: takeWhile_append dropWhile_append)
  then show ?thesis using assms(2,3) by (cases a) (simp_all add: ParseCIDR_def)
qed

lemma ip_Mask_net:
  assumes "net_ok v k n"
  shows "ip_Mask (ipn_IP n) (CIDRMask (int k) (int (fam_width v))) = ipn_IP n"
proof -
  have "bytes_bits (ip_Mask (ipn_IP n) (CIDRMask (int k) (int (fam_width v)))) = bytes_bits (ipn_IP n)"
    unfolding bytes_bits_ip_Mask(1)[OF net_okD(2,1)[OF assms]] net_okD(4)[OF assms]
    by (simp add: net_okD(5)[OF assms])
  then show ?thesis by (simp only: bytes_bits_inj)
qed

lemma ParseCIDR_v4:
  assumes "net_ok True k n"
  shows "ParseCIDR (net_String n) = Some n"
proof -
  note D = net_okD[OF assms]
  let ?ip = "ipn_IP n"
  have l: "length ?ip = 4" using D(2) by (simp add: fam_width_def)
  have k: "k \<le> 32" using D(1) by (simp add: fam_width_def)
  have b: "be_bytes 4 (be_word ?ip :: 32 word) = ?ip" using be_bytes_be_word[of ?ip, where 'a = 32] l by simp
  have m: "length (CIDRMask (int k) 32) = 4" using length_CIDRMask[of k True] k by (simp add: fam_width_def)
  have "ip_Mask (v4InV6Prefix @ ?ip) (CIDRMask (int k) 32) = ip_Mask ?ip (CIDRMask (int k) 32)"
    using m l by (simp add: ip_Mask_def v4InV6Prefix_def Let_def)
  then have "ip_Mask (As16 (Addr4 (be_word ?ip))) (CIDRMask (int k) 32) = ?ip"
    using ip_Mask_net[OF assms] by (simp add: As16_def b fam_width_def)
  moreover have "ip_String ?ip = dotted ?ip" using l b by (auto simp: ip_String_def To4_def)
  ultimately show ?thesis
    using ParseCIDR_text[OF dotted_plain(2) ParseAddr_dotted[OF l], of k] k D(3)
    by (simp add: net_String_ok[OF assms] fam_width_def Let_def)
qed

section \<open>Hexadecimal groups\<close>

lemma hex_val_hex_char: "d < 16 \<Longrightarrow> hex_val (hex_char d) = Some d"
  by (auto simp: hex_val_def hex_char_def Let_def)

lemma hex_digits_ne [simp]: "hex_digits n \<noteq> []"
  by (subst hex_digits.simps) simp

lemma hex_digits_vals:
  "\<exists>ds. map hex_val (hex_digits n) = map Some ds \<and> foldl (\<lambda>a d. 16 * a + d) 0 ds = n"
proof (induction n rule: hex_digits.induct)
  case (1 n)
  show ?case
  proof (cases "n < 16")
    case True
    then show ?thesis
      by (intro exI[of _ "[n]"]) (subst hex_digits.simps, simp add: hex_val_hex_char)
  next
    case False
    then obtain ds where ds: "map hex_val (hex_digits (n div 16)) = map Some ds"
      "foldl (\<lambda>a d. 16 * a + d) 0 ds = n div 16" using 1 by blast
    have "map hex_val (hex_digits n) = map Some (ds @ [n mod 16])"
      using False ds(1) by (subst hex_digits.simps) (simp add: hex_val_hex_char)
    then show ?thesis using ds(2) by (intro exI[of _ "ds @ [n mod 16]"]) simp
  qed
qed

lemma length_hex_digits: "n < 16 ^ k \<Longrightarrow> 0 < k \<Longrightarrow> length (hex_digits n) \<le> k"
proof (induction k arbitrary: n)
  case (Suc k)
  show ?case
  proof (cases "n < 16")
    case True
    then show ?thesis by (subst hex_digits.simps) simp
  next
    case False
    then have "0 < k" using Suc.prems(1) by (cases k) auto
    moreover have "n div 16 < 16 ^ k" using Suc.prems(1) by (simp add: less_mult_imp_div_less mult.commute)
    ultimately show ?thesis using Suc.IH[of "n div 16"] False by (subst hex_digits.simps) simp
  qed
qed simp

lemma take_hex_map:
  assumes "map hex_val s = map Some ds" "r = [] \<or> hex_val (hd r) = None"
  shows "take_hex (s @ r) = (ds, r)"
  using assms
proof (induction s arbitrary: ds)
  case Nil
  then show ?case by (cases r) auto
next
  case (Cons c s)
  then show ?case by (cases ds) auto
qed

definition group_bytes :: "nat \<Rightarrow> byte list" where
  "group_bytes g = be_bytes 2 (of_nat g :: 16 word)"

lemma length_group_bytes [simp]: "length (group_bytes g) = 2"
  by (simp add: group_bytes_def be_bytes_def)

lemma take_hex_group:
  assumes "g < 65536" "r = [] \<or> hex_val (hd r) = None"
  obtains ds where "take_hex (hex_digits g @ r) = (ds, r)" "ds \<noteq> []" "\<not> 4 < length ds"
    "foldl (\<lambda>a d. 16 * a + d) 0 ds = g"
proof -
  obtain ds where ds: "map hex_val (hex_digits g) = map Some ds" "foldl (\<lambda>a d. 16 * a + d) 0 ds = g"
    using hex_digits_vals by blast
  have l: "length ds = length (hex_digits g)" using ds(1) by (metis length_map)
  have "length (hex_digits g) \<le> 4" by (rule length_hex_digits) (use assms(1) in simp_all)
  moreover have "ds \<noteq> []" using l by auto
  ultimately show thesis using that[OF take_hex_map[OF ds(1) assms(2)]] ds(2) l by simp
qed

lemma hex_val_colon [simp]: "hex_val CHR '':'' = None"
  by (simp add: hex_val_def)

declare v6_fields.simps [simp del]

section \<open>The parser on printed groups\<close>

lemma v6_fields_last:
  assumes "g < 65536"
  shows "v6_fields (Suc f) (hex_digits g) bs ell = Some (bs @ group_bytes g, ell, [])"
proof -
  obtain ds where "take_hex (hex_digits g @ []) = (ds, [])" "ds \<noteq> []" "\<not> 4 < length ds"
    "foldl (\<lambda>a d. 16 * a + d) 0 ds = g" using take_hex_group[OF assms, of "[]"] by blast
  then show ?thesis by (simp add: v6_fields.simps group_bytes_def Let_def)
qed

lemma v6_fields_next:
  assumes "g < 65536" "s \<noteq> []" "hd s \<noteq> CHR '':''"
  shows "v6_fields (Suc f) (hex_digits g @ CHR '':'' # s) bs ell = v6_fields f s (bs @ group_bytes g) ell"
proof -
  obtain ds where "take_hex (hex_digits g @ CHR '':'' # s) = (ds, CHR '':'' # s)" "ds \<noteq> []" "\<not> 4 < length ds"
    "foldl (\<lambda>a d. 16 * a + d) 0 ds = g" using take_hex_group[OF assms(1), of "CHR '':'' # s"] by auto
  then show ?thesis using assms(2,3) by (simp add: v6_fields.simps group_bytes_def Let_def)
qed

lemma v6_fields_ellipsis:
  assumes "g < 65536"
  shows "v6_fields (Suc f) (hex_digits g @ ''::'' @ s) bs None =
     (let bs' = bs @ group_bytes g
      in if s = [] then Some (bs', Some (length bs'), []) else v6_fields f s bs' (Some (length bs')))"
proof -
  obtain ds where "take_hex (hex_digits g @ ''::'' @ s) = (ds, ''::'' @ s)" "ds \<noteq> []" "\<not> 4 < length ds"
    "foldl (\<lambda>a d. 16 * a + d) 0 ds = g" using take_hex_group[OF assms(1), of "''::'' @ s"] by auto
  then show ?thesis by (simp add: v6_fields.simps group_bytes_def Let_def)
qed

lemma hd_Join_hex:
  assumes "gs \<noteq> []"
  shows "Join (map hex_digits gs) '':'' @ r \<noteq> []" "hex_val (hd (Join (map hex_digits gs) '':'' @ r)) \<noteq> None"
proof -
  obtain g gs' where g: "gs = g # gs'" using assms by (cases gs) auto
  obtain c cs where c: "hex_digits g = c # cs" by (cases "hex_digits g") auto
  obtain ds where "map hex_val (hex_digits g) = map Some ds" using hex_digits_vals by blast
  then have "hex_val c \<noteq> None" using c by (cases ds) auto
  moreover obtain t where "Join (map hex_digits gs) '':'' = c # t" using g c by (cases gs') auto
  ultimately show "Join (map hex_digits gs) '':'' @ r \<noteq> []" "hex_val (hd (Join (map hex_digits gs) '':'' @ r)) \<noteq> None"
    by simp_all
qed

lemma hd_Join_colon:
  assumes "gs \<noteq> []"
  shows "hd (Join (map hex_digits gs) '':'' @ r) \<noteq> CHR '':''"
  using hd_Join_hex(2)[OF assms, of r] hex_val_colon by metis

lemma v6_fields_groups:
  assumes "gs \<noteq> []" "\<forall>g \<in> set gs. g < 65536" "length gs \<le> f"
  shows "v6_fields f (Join (map hex_digits gs) '':'') bs ell = Some (bs @ concat (map group_bytes gs), ell, [])"
  using assms
proof (induction gs arbitrary: f bs)
  case (Cons g gs)
  then obtain f' where f: "f = Suc f'" by (cases f) auto
  show ?case
  proof (cases "gs = []")
    case True
    then show ?thesis using Cons.prems f v6_fields_last by simp
  next
    case False
    have "Join (map hex_digits (g # gs)) '':'' = hex_digits g @ CHR '':'' # Join (map hex_digits gs) '':''"
      using False by (simp add: Join_Cons)
    then show ?thesis
      using v6_fields_next[of g "Join (map hex_digits gs) '':''" f' bs ell] hd_Join_hex(1)[OF False, of "[]"]
        hd_Join_colon[OF False, of "[]"] Cons.IH[of f' "bs @ group_bytes g"] Cons.prems False f by simp
  qed
qed simp

lemma v6_fields_groups_ellipsis:
  assumes "gs \<noteq> []" "\<forall>g \<in> set gs. g < 65536" "length gs \<le> f"
  shows "v6_fields f (Join (map hex_digits gs) '':'' @ ''::'' @ s) bs None =
     (let bs' = bs @ concat (map group_bytes gs)
      in if s = [] then Some (bs', Some (length bs'), []) else v6_fields (f - length gs) s bs' (Some (length bs')))"
  using assms
proof (induction gs arbitrary: f bs)
  case (Cons g gs)
  then obtain f' where f: "f = Suc f'" by (cases f) auto
  show ?case
  proof (cases "gs = []")
    case True
    then show ?thesis using Cons.prems f v6_fields_ellipsis[of g f' s bs] by (simp add: Let_def)
  next
    case False
    have "Join (map hex_digits (g # gs)) '':'' @ ''::'' @ s =
        hex_digits g @ CHR '':'' # (Join (map hex_digits gs) '':'' @ ''::'' @ s)"
      using False by (simp add: Join_Cons)
    then show ?thesis
      using v6_fields_next[of g "Join (map hex_digits gs) '':'' @ ''::'' @ s" f' bs None]
        hd_Join_hex(1)[OF False, of "''::'' @ s"] hd_Join_colon[OF False, of "''::'' @ s"]
        Cons.IH[of f' "bs @ group_bytes g"] Cons.prems False f by (simp add: Let_def)
  qed
qed simp

section \<open>The longest run of zeros\<close>

definition run_ok :: "nat list \<Rightarrow> nat \<times> nat \<Rightarrow> bool" where
  "run_ok gs r \<longleftrightarrow> snd r = 0 \<or> 2 \<le> snd r \<and> take (snd r) (drop (fst r) gs) = replicate (snd r) 0"

lemma zero_run_take: "take (zero_run gs i) (drop i gs) = replicate (zero_run gs i) 0"
proof -
  let ?z = "takeWhile (\<lambda>g. g = 0) (drop i gs)"
  have "take (length ?z) (drop i gs) = ?z" by (rule takeWhile_eq_take[symmetric])
  moreover have "replicate (length ?z) 0 = ?z"
    by (rule replicate_length_same) (auto dest: set_takeWhileD)
  ultimately show ?thesis by (simp only: zero_run_def)
qed

lemma best_run_ok: "run_ok gs best \<Longrightarrow> run_ok gs (best_run gs is best)"
proof (induction gs "is" best rule: best_run.induct)
  case (2 gs i "is" s l)
  then show ?case by (auto simp: Let_def run_ok_def zero_run_take)
qed simp

lemma run_ok_split:
  assumes "run_ok gs (s, l)" "0 < l"
  shows "gs = take s gs @ replicate l 0 @ drop (s + l) gs" "s + l \<le> length gs"
proof -
  have r: "take l (drop s gs) = replicate l 0" using assms by (simp add: run_ok_def)
  then show "gs = take s gs @ replicate l 0 @ drop (s + l) gs"
    by (metis append_take_drop_id drop_drop add.commute)
  show "s + l \<le> length gs" using arg_cong[OF r, of length] assms(2) by simp
qed

section \<open>IPv6 addresses\<close>

lemma v6_groups_ok: "length (v6_groups w) = 8" "\<forall>g \<in> set (v6_groups w). g < 65536"
proof -
  have "unat x < 2 ^ LENGTH(16)" for x :: "16 word" by (rule unsigned_less)
  then have "unat x < 65536" for x :: "16 word" by simp
  then show "length (v6_groups w) = 8" "\<forall>g \<in> set (v6_groups w). g < 65536" by (auto simp: v6_groups_def)
qed

lemma group_bytes_groups: "concat (map group_bytes (v6_groups w)) = be_bytes 16 w"
proof -
  have hi: "(ucast (drop_bit 8 (ucast (drop_bit n w) :: 16 word)) :: byte) = ucast (drop_bit (n + 8) w)" for n
    by (rule bit_word_eqI) (auto simp: bit_simps ac_simps)
  have lo: "(ucast (ucast (drop_bit n w) :: 16 word) :: byte) = ucast (drop_bit n w)" for n
    by (rule bit_word_eqI) (auto simp: bit_simps)
  have g: "group_bytes (unat (x :: 16 word)) = [ucast (drop_bit 8 x), ucast x]" for x
    by (simp add: group_bytes_def be_bytes_def upt_rec)
  have "[0..<8] = [0, 1, 2, 3, 4, 5, 6, 7 :: nat]"
    "[0..<16] = [0, 1, 2, 3, 4, 5, 6, 7, 8, 9, 10, 11, 12, 13, 14, 15 :: nat]" by (simp_all add: upt_rec)
  then show ?thesis
    using hi[of 0] lo[of 0] by (simp add: v6_groups_def be_bytes_def g hi lo)
qed

lemma group_bytes_zeros: "concat (map group_bytes (replicate l 0)) = replicate (2 * l) 0"
  by (induction l) (simp_all add: group_bytes_def be_bytes_def numeral_eq_Suc)

lemma length_concat_groups [simp]: "length (concat (map group_bytes gs)) = 2 * length gs"
  by (induction gs) simp_all

lemma hex_digits_plain:
  "CHR '':'' \<notin> set (hex_digits n)" "CHR ''/'' \<notin> set (hex_digits n)" "CHR ''%'' \<notin> set (hex_digits n)"
  "CHR ''.'' \<notin> set (hex_digits n)"
proof -
  obtain ds where "map hex_val (hex_digits n) = map Some ds" using hex_digits_vals by blast
  then have *: "hex_val c \<noteq> None" if "c \<in> set (hex_digits n)" for c
    using that by (metis (no_types, lifting) ex_map_conv list.set_map image_iff option.distinct(1))
  have "hex_val CHR ''/'' = None" "hex_val CHR ''%'' = None" "hex_val CHR ''.'' = None"
    by (simp_all add: hex_val_def)
  with * show "CHR '':'' \<notin> set (hex_digits n)" "CHR ''/'' \<notin> set (hex_digits n)" "CHR ''%'' \<notin> set (hex_digits n)"
    "CHR ''.'' \<notin> set (hex_digits n)" using hex_val_colon by blast+
qed

lemma v6_text_plain: "CHR ''/'' \<notin> set (v6_text w)" "CHR ''%'' \<notin> set (v6_text w)" "CHR ''.'' \<notin> set (v6_text w)"
proof -
  obtain s l where sl: "best_run (v6_groups w) [0..<8] (255, 0) = (s, l)" by fastforce
  have join: "c \<notin> set (Join (map hex_digits gs) '':'')" if "c \<in> {CHR ''/'', CHR ''%'', CHR ''.''}" for c gs
    using that set_Join[of "map hex_digits gs" "'':''"] hex_digits_plain by auto
  have "c \<notin> set (v6_text w)" if "c \<in> {CHR ''/'', CHR ''%'', CHR ''.''}" for c
    using join[OF that] that by (auto simp: v6_text_def Let_def sl take_map drop_map)
  then show "CHR ''/'' \<notin> set (v6_text w)" "CHR ''%'' \<notin> set (v6_text w)" "CHR ''.'' \<notin> set (v6_text w)"
    by simp_all
qed

lemma v6_text_colon: "CHR '':'' \<in> set (v6_text w)"
proof -
  obtain x y zs where "map hex_digits (v6_groups w) = x # y # zs"
    using v6_groups_ok(1)[of w] by (auto simp: numeral_eq_Suc length_Suc_conv)
  moreover obtain s l where "best_run (v6_groups w) [0..<8] (255, 0) = (s, l)" by fastforce
  ultimately show ?thesis by (simp add: v6_text_def Let_def)
qed

lemma parseIPv6_no_zone:
  assumes "CHR ''%'' \<notin> set t"
  shows "parseIPv6 t =
     (if HasPrefix t ''::'' \<and> drop 2 t = [] then Some (Addr6 0 [])
      else case (if HasPrefix t ''::'' then v6_fields 8 (drop 2 t) [] (Some 0) else v6_fields 8 t [] None) of
             None \<Rightarrow> None
           | Some (bs, ell, r) \<Rightarrow> map_option (\<lambda>w. Addr6 w []) (v6_finish bs ell r))"
proof -
  have "takeWhile (\<lambda>c. c \<noteq> CHR ''%'') t = t" "dropWhile (\<lambda>c. c \<noteq> CHR ''%'') t = []"
    using assms by (auto simp: takeWhile_eq_all_conv dropWhile_eq_Nil_conv)
  then show ?thesis unfolding parseIPv6_def Let_def by (simp only: list.sel(2)) simp
qed

lemma parseIPv6_v6_text:
  assumes "length ip = 16"
  shows "parseIPv6 (v6_text (be_word ip)) = Some (Addr6 (be_word ip) [])"
proof -
  let ?w = "be_word ip :: 128 word" let ?gs = "v6_groups ?w"
  note parse = parseIPv6_no_zone[OF v6_text_plain(2)[of ?w]]
  have bytes: "concat (map group_bytes ?gs) = ip"
    using group_bytes_groups[of ?w] be_bytes_be_word[of ip, where 'a = 128] assms by simp
  note gs = v6_groups_ok[of ?w]
  obtain s l where sl: "best_run ?gs [0..<8] (255, 0) = (s, l)" by fastforce
  have ok: "run_ok ?gs (s, l)" using best_run_ok[of ?gs "(255, 0)" "[0..<8]"] sl by (simp add: run_ok_def)
  show ?thesis
  proof (cases "l = 0")
    case True
    have ne: "?gs \<noteq> []" using gs(1) by auto
    have t: "v6_text ?w = Join (map hex_digits ?gs) '':''" using True sl by (simp add: v6_text_def)
    have "\<not> HasPrefix (v6_text ?w) ''::''"
      using hd_Join_colon[OF ne, of "[]"] t by (auto simp: HasPrefix_iff)
    moreover have "v6_fields 8 (v6_text ?w) [] None = Some (ip, None, [])"
      using v6_fields_groups[OF ne gs(2), of 8 "[]" None] gs(1) bytes t by simp
    ultimately show ?thesis using parse assms by (simp add: v6_finish_def)
  next
    case False
    let ?A = "take s ?gs" and ?B = "drop (s + l) ?gs"
    note split = run_ok_split[OF ok] False
    have l: "2 \<le> l" using ok False by (simp add: run_ok_def)
    have len: "s + l \<le> 8" "length ?A = s" "length ?B = 8 - (s + l)" using split gs(1) by auto
    have ip: "ip = concat (map group_bytes ?A) @ replicate (2 * l) 0 @ concat (map group_bytes ?B)"
      using bytes split(1) False group_bytes_zeros[of l] by (metis concat_append map_append neq0_conv)
    have t: "v6_text ?w = Join (map hex_digits ?A) '':'' @ ''::'' @ Join (map hex_digits ?B) '':''"
      using False sl by (simp add: v6_text_def take_map drop_map Let_def)
    have small: "\<forall>g \<in> set ?A. g < 65536" "\<forall>g \<in> set ?B. g < 65536"
      using gs(2) in_set_takeD in_set_dropD by fast+
    let ?bs = "concat (map group_bytes ?A) @ concat (map group_bytes ?B)"
    have fin: "v6_finish ?bs (Some (2 * s)) [] = Some ?w"
    proof -
      have n: "length ?bs < 16" "16 - length ?bs = 2 * l" "length (concat (map group_bytes ?A)) = 2 * s"
        using len l by simp_all
      then have "take (2 * s) ?bs @ replicate (16 - length ?bs) 0 @ drop (2 * s) ?bs = ip" using ip by simp
      then show ?thesis using n(1) by (simp only: v6_finish_def option.case if_True) simp
    qed
    have B0: "Join (map hex_digits ?B) '':'' = [] \<longleftrightarrow> ?B = []"
      using hd_Join_hex(1)[of ?B "[]"] by auto
    show ?thesis
    proof (cases "s = 0")
      case s0: True
      then have t0: "v6_text ?w = ''::'' @ Join (map hex_digits ?B) '':''" using t by simp
      show ?thesis
      proof (cases "?B = []")
        case True
        then have "ip = replicate (2 * l) 0" using ip s0 by simp
        moreover have "be_word (replicate k 0) = (0 :: 128 word)" for k by (induction k) simp_all
        ultimately have "?w = 0" by simp
        then show ?thesis using t0 True parse by (simp add: HasPrefix_def)
      next
        case ne: False
        have "v6_fields 8 (Join (map hex_digits ?B) '':'') [] (Some 0) = Some (?bs, Some (2 * s), [])"
          using v6_fields_groups[OF ne small(2), of 8 "[]" "Some 0"] len s0 by simp
        then show ?thesis
          using t0 parse fin ne B0 by (simp add: HasPrefix_def)
      qed
    next
      case s: False
      then have ne: "?A \<noteq> []" using len by auto
      have np: "\<not> HasPrefix (v6_text ?w) ''::''"
        using hd_Join_colon[OF ne, of "''::'' @ Join (map hex_digits ?B) '':''"] t by (auto simp: HasPrefix_iff)
      have "v6_fields 8 (v6_text ?w) [] None = Some (?bs, Some (2 * s), [])"
        unfolding t using v6_fields_groups_ellipsis[OF ne small(1), of 8 "Join (map hex_digits ?B) '':''" "[]"] len
          v6_fields_groups[OF _ small(2), of "8 - s" "concat (map group_bytes ?A)" "Some (2 * s)"] B0
        by (cases "?B = []") (simp_all add: Let_def)
      then show ?thesis using parse fin np by simp
    qed
  qed
qed

lemma ParseAddr_v6_text:
  assumes "length ip = 16"
  shows "ParseAddr (v6_text (be_word ip)) = Some (Addr6 (be_word ip) [])"
proof -
  let ?t = "v6_text (be_word ip)"
  obtain r where "filter (\<lambda>c. c \<in> {CHR ''.'', CHR '':'', CHR ''%''}) ?t = CHR '':'' # r"
    using filter_only[of "CHR '':''" ?t "{CHR ''.'', CHR '':'', CHR ''%''}"] v6_text_plain[of "be_word ip"]
      v6_text_colon[of "be_word ip"] by auto
  then show ?thesis by (simp add: ParseAddr_def parseIPv6_v6_text[OF assms])
qed

lemma Is4In6_bytes:
  assumes "Is4In6 w"
  shows "take 12 (be_bytes 16 w) = v4InV6Prefix"
proof -
  have "take 12 (be_bytes 16 w) = map (\<lambda>k. ucast (drop_bit (8 * (11 - k)) (drop_bit 32 w))) [0..<12]"
    by (simp add: be_bytes_def take_map algebra_simps)
  also have "\<dots> = map (\<lambda>k. ucast (drop_bit (8 * (11 - k)) (0xffff :: 128 word))) [0..<12]"
    using assms by (simp only: Is4In6_def)
  also have "\<dots> = v4InV6Prefix" by code_simp
  finally show ?thesis .
qed

lemma ParseCIDR_v6:
  assumes "net_ok False k n"
  shows "ParseCIDR (net_String n) = Some n"
proof -
  note D = net_okD[OF assms]
  let ?ip = "ipn_IP n" let ?w = "be_word ?ip :: 128 word"
  have l: "length ?ip = 16" using D(2) by (simp add: fam_width_def)
  have k: "k \<le> 128" using D(1) by (simp add: fam_width_def)
  have b: "be_bytes 16 ?w = ?ip" using be_bytes_be_word[of ?ip, where 'a = 128] l by simp
  have to4: "To4 ?ip = None" using To4_ok[OF net_ok_ip[OF assms]] by simp
  have "\<not> Is4In6 ?w"
  proof
    assume "Is4In6 ?w"
    from Is4In6_bytes[OF this] show False using b to4 l by (simp add: To4_def)
  qed
  then have "ip_String ?ip = v6_text ?w" using l to4 by (auto simp: ip_String_def)
  moreover have "ip_Mask (As16 (Addr6 ?w [])) (CIDRMask (int k) 128) = ?ip"
    using ip_Mask_net[OF assms] by (simp add: As16_def b fam_width_def)
  ultimately show ?thesis
    using ParseCIDR_text[OF v6_text_plain(1) ParseAddr_v6_text[OF l], of k] k D(3)
    by (simp add: net_String_ok[OF assms] fam_width_def Let_def)
qed

lemma ParseCIDR_net_String: "net_ok v k n \<Longrightarrow> ParseCIDR (net_String n) = Some n"
  by (cases v) (simp_all add: ParseCIDR_v4 ParseCIDR_v6)

end
