(* ===== verification/RangeSets.thy ===== *)
theory RangeSets
  imports RangeAllocator NetText
begin

text \<open>
  The CIDR sets of an allocator as a whole. A \<^emph>\<open>shape\<close> is the family of a set with the prefix lengths of its cluster
  and of its blocks. A text is \<open>held\<close> in a set when it is the text of a block that is marked there; the lemmas say what
  allocating, occupying and releasing does to the texts that are held.
\<close>

type_synonym shape = "bool \<times> nat \<times> nat"

definition sh_ok :: "shape \<Rightarrow> CidrSet \<Rightarrow> bool" where
  "sh_ok t s = (case t of (v, c, m) \<Rightarrow> cs_ok v c m s)"

definition sh_universe :: "shape \<Rightarrow> CidrSet \<Rightarrow> path set" where
  "sh_universe t s = (case t of (v, c, m) \<Rightarrow> cs_universe c m s)"

definition sh_taken :: "shape \<Rightarrow> CidrSet \<Rightarrow> path set" where
  "sh_taken t s = (case t of (v, c, m) \<Rightarrow> cs_taken c m s)"

interpretation sh: cidr_pool "sh_ok t" "sh_universe t" "sh_taken t" AllocateNext Occupy Release net_blk "net_good (fst t)"
  for t
proof -
  obtain v c m where t: "t = (v, c, m)" by (cases t) auto
  show "cidr_pool (sh_ok t) (sh_universe t) (sh_taken t) AllocateNext Occupy Release net_blk (net_good (fst t))"
    unfolding t sh_ok_def sh_universe_def sh_taken_def prod.case fst_conv by (rule cs.cidr_pool_axioms)
qed

section \<open>Held texts\<close>

definition held :: "shape \<Rightarrow> CidrSet \<Rightarrow> string \<Rightarrow> bool" where
  "held t s x \<longleftrightarrow> (\<exists>b. x = net_String b \<and> net_good (fst t) b \<and> net_blk b \<in> sh_taken t s)"

lemma net_blk_inj:
  assumes "net_good v a" "net_good v b" "net_blk a = net_blk b"
  shows "a = b"
proof -
  obtain k l where k: "net_ok v k a" and l: "net_ok v l b" using assms(1,2) by (auto simp: net_good_def)
  have p: "net_path k a = net_path l b" using assms(3) net_blk[OF k] net_blk[OF l] by simp
  then have "k = l" using net_okD(5)[OF k] net_okD(5)[OF l] by metis
  then have "bytes_bits (ipn_IP a) = bytes_bits (ipn_IP b)" "ipn_Mask a = ipn_Mask b"
    using p net_okD(3,4)[OF k] net_okD(3,4)[OF l] by simp_all
  then show ?thesis by (simp add: bytes_bits_inj)
qed

lemma net_good_text: "net_good v b \<Longrightarrow> ParseCIDR (net_String b) = Some b"
  by (auto simp: net_good_def ParseCIDR_net_String)

lemma held_ParseCIDR:
  assumes "held t s x"
  obtains b where "ParseCIDR x = Some b" "x = net_String b" "net_good (fst t) b" "net_blk b \<in> sh_taken t s"
  using assms net_good_text by (auto simp: held_def)

lemma held_mono: "held t s x \<Longrightarrow> sh_taken t s \<subseteq> sh_taken t s' \<Longrightarrow> held t s' x"
  by (auto simp: held_def)

lemma AllocateNext_held:
  assumes s: "sh_ok t s" and a: "AllocateNext s = (s', r)"
  shows "sh_ok t s'" "held t s x \<Longrightarrow> held t s' x"
    "r = Inr b \<Longrightarrow> net_good (fst t) b \<and> held t s' (net_String b) \<and> \<not> held t s (net_String b)"
    "r = Inl e \<Longrightarrow> s' = s"
proof -
  consider "s' = s" "r = Inl ErrCIDRRangeNoCIDRsRemaining"
    | b where "r = Inr b" "net_good (fst t) b" "net_blk b \<in> sh_universe t s - sh_taken t s"
        "sh_taken t s' = insert (net_blk b) (sh_taken t s)" "sh_ok t s'"
    using sh.alloc_fresh[OF s] sh.alloc_full[OF s] a by (cases "sh_taken t s = sh_universe t s") auto
  then have "sh_ok t s' \<and> (held t s x \<longrightarrow> held t s' x) \<and>
      (r = Inr b \<longrightarrow> net_good (fst t) b \<and> held t s' (net_String b) \<and> \<not> held t s (net_String b)) \<and> (r = Inl e \<longrightarrow> s' = s)"
  proof cases
    case 1
    then show ?thesis using s by simp
  next
    case (2 c)
    have "\<not> held t s (net_String c)"
      using 2(2,3) net_good_text[OF 2(2)] by (metis DiffD2 held_ParseCIDR option.inject)
    then show ?thesis using 2 held_mono[of t s x s'] by (auto simp: held_def)
  qed
  then show "sh_ok t s'" "held t s x \<Longrightarrow> held t s' x"
    "r = Inr b \<Longrightarrow> net_good (fst t) b \<and> held t s' (net_String b) \<and> \<not> held t s (net_String b)"
    "r = Inl e \<Longrightarrow> s' = s" by blast+
qed

lemma Occupy_held:
  assumes "sh_ok t s" "net_good (fst t) q" "Occupy s (Some q) = (s', r)"
  shows "sh_ok t s'" "held t s x \<Longrightarrow> held t s' x"
  using sh.occupy_marks[OF assms] held_mono[of t s x s'] by auto

lemma Release_held:
  assumes s: "sh_ok t s" and b: "net_good (fst t) b" "net_blk b \<in> sh_taken t s" and r: "Release s (Some b) = (s', r)"
  shows "sh_ok t s'" "held t s y \<Longrightarrow> y \<noteq> net_String b \<Longrightarrow> held t s' y"
proof -
  note R = sh.release_frees[OF s b(1) r]
  show "sh_ok t s'" using R by simp
  assume y: "held t s y" "y \<noteq> net_String b"
  then obtain a where a: "y = net_String a" "net_good (fst t) a" "net_blk a \<in> sh_taken t s" by (auto simp: held_def)
  have "net_blk a \<noteq> net_blk b" using net_blk_inj[OF a(2) b(1)] a(1) y(2) by auto
  then have "\<not> comparable (net_blk a) (net_blk b)"
    using sh.universe_disjoint[OF s] sh.taken_universe[OF s] a(3) b(2) by blast
  then show "held t s' y" using a R by (auto simp: held_def)
qed

lemma Release_held_result:
  assumes s: "sh_ok t s" and b: "net_good (fst t) b" "net_blk b \<in> sh_taken t s"
  shows "\<exists>s'. Release s (Some b) = (s', Inr ())"
proof -
  obtain v c m where t: "t = (v, c, m)" by (cases t) auto
  obtain k where k: "net_ok v k b" using b(1) t by (auto simp: net_good_def)
  have "net_path k b \<in> cs_universe c m s"
    using b(2) sh.taken_universe[OF s] net_blk[OF k] t by (auto simp: sh_universe_def)
  then have "comparable (net_path c (clusterCIDR s)) (net_path k b)"
    by (auto simp: cs_universe_def block_path_def comparable_def)
  then show ?thesis using Release_ok[OF _ k, of c m s] s t by (auto simp: sh_ok_def)
qed

section \<open>Lists of sets\<close>

definition sets_ok :: "shape list \<Rightarrow> CidrSet list \<Rightarrow> bool" where
  "sets_ok sh sets \<longleftrightarrow> list_all2 sh_ok sh sets"

definition held_all :: "shape list \<Rightarrow> CidrSet list \<Rightarrow> string list \<Rightarrow> bool" where
  "held_all sh sets h \<longleftrightarrow> length h = length sets \<and> (\<forall>i < length sets. held (sh ! i) (sets ! i) (h ! i))"

definition apart :: "string list \<Rightarrow> string list \<Rightarrow> bool" where
  "apart g h \<longleftrightarrow> (\<forall>i < length g. i < length h \<longrightarrow> g ! i \<noteq> h ! i)"

lemma sets_ok_nth: "sets_ok sh sets \<Longrightarrow> i < length sets \<Longrightarrow> sh_ok (sh ! i) (sets ! i)"
  by (simp add: sets_ok_def list_all2_conv_all_nth)

lemma sets_ok_length: "sets_ok sh sets \<Longrightarrow> length sh = length sets"
  by (simp add: sets_ok_def list_all2_conv_all_nth)

lemma sets_ok_update:
  "sets_ok sh sets \<Longrightarrow> (i < length sets \<Longrightarrow> sh_ok (sh ! i) s) \<Longrightarrow> sets_ok sh (sets[i := s])"
  by (cases "i < length sets") (auto simp: sets_ok_def list_all2_conv_all_nth nth_list_update)

text \<open>What a step on the sets keeps: everything that was held, or everything except one list of texts.\<close>

definition grows :: "shape list \<Rightarrow> CidrSet list \<Rightarrow> CidrSet list \<Rightarrow> bool" where
  "grows sh sets sets' \<longleftrightarrow>
     sets_ok sh sets' \<and> length sets' = length sets \<and>
     (\<forall>i < length sets. \<forall>x. held (sh ! i) (sets ! i) x \<longrightarrow> held (sh ! i) (sets' ! i) x)"

definition frees :: "shape list \<Rightarrow> CidrSet list \<Rightarrow> string list \<Rightarrow> CidrSet list \<Rightarrow> bool" where
  "frees sh sets h sets' \<longleftrightarrow>
     sets_ok sh sets' \<and> length sets' = length sets \<and> (\<forall>g. held_all sh sets g \<longrightarrow> apart g h \<longrightarrow> held_all sh sets' g)"

lemma grows_refl: "sets_ok sh sets \<Longrightarrow> grows sh sets sets"
  by (simp add: grows_def)

lemma grows_trans: "grows sh a b \<Longrightarrow> grows sh b c \<Longrightarrow> grows sh a c"
  by (auto simp: grows_def)

lemma grows_held_all: "grows sh sets sets' \<Longrightarrow> held_all sh sets g \<Longrightarrow> held_all sh sets' g"
  by (auto simp: grows_def held_all_def)

lemma grows_update:
  assumes "sets_ok sh sets" "i < length sets" "sh_ok (sh ! i) s" "\<And>x. held (sh ! i) (sets ! i) x \<Longrightarrow> held (sh ! i) s x"
  shows "grows sh sets (sets[i := s])"
  using assms by (auto simp: grows_def nth_list_update intro!: sets_ok_update)

section \<open>Allocation\<close>

lemma foreign_not_contained:
  assumes "net_ok v c n" "net_ok (\<not> v) k q"
  shows "\<not> net_Contains n (ip_Mask (ipn_IP q) (ipn_Mask n))"
proof -
  let ?r = "ip_Mask (ipn_IP q) (ipn_Mask n)"
  have m: "8 * length (ipn_Mask n) = fam_width v"
    using net_okD(3)[OF assms(1)] length_CIDRMask[OF net_okD(1)[OF assms(1)]] by simp
  have "To4 (ipn_IP q) = (if v then None else Some (ipn_IP q))" using To4_ok[OF net_ok_ip[OF assms(2)]] by simp
  then have "?r = [] \<or> \<not> v \<and> length ?r = 4"
    using m net_okD(2)[OF assms(2)] by (auto simp: ip_Mask_def fam_width_def To4_def split: if_splits)
  moreover have "8 * length (ipn_IP n) = fam_width v" by (rule net_okD(2)[OF assms(1)])
  ultimately show ?thesis
    using networkNumberAndMask_ok[OF assms(1)] by (auto simp: net_Contains_def To4_def fam_width_def split: if_splits)
qed

lemma Release_foreign:
  assumes "sh_ok t s" "net_good (\<not> fst t) q"
  shows "fst (Release s (Some q)) = s"
proof -
  obtain v c m where t: "t = (v, c, m)" by (cases t) auto
  obtain k where k: "net_ok (\<not> v) k q" using assms(2) t by (auto simp: net_good_def)
  have cl: "net_ok v c (clusterCIDR s)" using assms(1) t cs_shapeD(1)[OF cs_okD(1)] by (auto simp: sh_ok_def)
  have "\<not> net_Contains q (ip_Mask (ipn_IP (clusterCIDR s)) (ipn_Mask q))"
    using foreign_not_contained[OF k] cl by simp
  with foreign_not_contained[OF cl k] show ?thesis
    by (simp add: Release_def getBeginningAndEndIndices_def split: prod.split)
qed

text \<open>Every set gives a block that was free. When one set is full, what the earlier sets gave stays marked, and the
  release in the full set changes nothing because the blocks belong to the other family.\<close>

lemma fold_Release_foreign:
  assumes "sh_ok t s" "\<forall>q \<in> set qs. net_good (\<not> fst t) q"
  shows "fold (\<lambda>q s. fst (Release s (Some q))) qs s = s"
  using assms by (induction qs) (simp_all add: Release_foreign)

definition families_differ :: "shape list \<Rightarrow> bool" where
  "families_differ sh \<longleftrightarrow> (\<forall>i < length sh. \<forall>j < i. fst (sh ! j) \<noteq> fst (sh ! i))"

lemma allocate_from_ok:
  assumes "sets_ok sh sets" "families_differ sh" "length acc = idx" "idx \<le> length sets"
    "\<forall>j < idx. net_good (fst (sh ! j)) (acc ! j)" "allocate_from idx acc sets = (sets', res)"
  shows "grows sh sets sets' \<and>
    (\<forall>cs. res = Inr cs \<longrightarrow> length cs = length sets \<and> take idx cs = acc \<and> 
       (\<forall>j < length sets. net_good (fst (sh ! j)) (cs ! j)) \<and>
       (\<forall>j < length sets. idx \<le> j \<longrightarrow> held (sh ! j) (sets' ! j) (net_String (cs ! j)) \<and>
                                      \<not> held (sh ! j) (sets ! j) (net_String (cs ! j))))"
  using assms
proof (induction idx acc sets rule: allocate_from.induct)
  case (1 idx acc sets)
  show ?case
  proof (cases "idx < length sets")
    case False
    then show ?thesis using "1.prems" allocate_from.simps[of idx acc sets] by (simp add: grows_refl)
  next
    case True
    let ?t = "sh ! idx"
    note ok = sets_ok_nth[OF "1.prems"(1) True]
    obtain s r where a: "AllocateNext (sets ! idx) = (s, r)" by fastforce
    note A = AllocateNext_held[OF ok a]
    show ?thesis
    proof (cases r)
      case (Inl e)
      have "fold (\<lambda>q s. fst (Release s (Some q))) acc s = s"
        using "1.prems" True sets_ok_length[OF "1.prems"(1)]
        by (intro fold_Release_foreign[OF A(1)]) (auto simp: in_set_conv_nth families_differ_def)
      moreover have "s = sets ! idx" using A(4) Inl by simp
      ultimately have "sets' = sets" "res = Inl (AllocateAt idx e)"
        using "1.prems"(6) True a Inl by (auto simp: allocate_from.simps[of idx acc sets])
      then show ?thesis using "1.prems"(1) by (simp add: grows_refl)
    next
      case (Inr b)
      let ?sets = "sets[idx := s]"
      have g: "grows sh sets ?sets" by (rule grows_update[OF "1.prems"(1) True A(1)]) (rule A(2))
      have b: "net_good (fst ?t) b" "held ?t s (net_String b)" "\<not> held ?t (sets ! idx) (net_String b)"
        using A(3)[of b] Inr by simp_all
      have acc: "\<forall>j < idx + 1. net_good (fst (sh ! j)) ((acc @ [b]) ! j)"
        using "1.prems"(3,5) b(1) by (auto simp: nth_append less_Suc_eq)
      have rec: "allocate_from (idx + 1) (acc @ [b]) ?sets = (sets', res)"
        using "1.prems"(6) True a Inr by (simp add: allocate_from.simps[of idx acc sets])
      have "sets_ok sh ?sets" using g by (simp add: grows_def)
      note IH = "1.IH"[OF True a[symmetric] Inr this "1.prems"(2) _ _ acc rec]
      have G: "grows sh ?sets sets'" using IH "1.prems"(3) True by simp
      show ?thesis
      proof (intro conjI allI impI)
        show "grows sh sets sets'" by (rule grows_trans[OF g G])
        fix cs assume cs: "res = Inr cs"
        have C: "length cs = length sets" "take (idx + 1) cs = acc @ [b]"
            "\<forall>j < length sets. net_good (fst (sh ! j)) (cs ! j)"
            "\<forall>j < length sets. idx + 1 \<le> j \<longrightarrow> held (sh ! j) (sets' ! j) (net_String (cs ! j)) \<and>
               \<not> held (sh ! j) (?sets ! j) (net_String (cs ! j))"
          using IH "1.prems"(3) True cs by simp_all
        show "length cs = length sets" by (rule C(1))
        show "net_good (fst (sh ! j)) (cs ! j)" if "j < length sets" for j using C(3) that by simp
        show "take idx cs = acc" using arg_cong[OF C(2), of "take idx"] "1.prems"(3) by simp
        have nth: "cs ! idx = b" using arg_cong[OF C(2), of "\<lambda>l. l ! idx"] "1.prems"(3) by (simp add: nth_append)
        fix j assume j: "j < length sets" "idx \<le> j"
        show "held (sh ! j) (sets' ! j) (net_String (cs ! j))" "\<not> held (sh ! j) (sets ! j) (net_String (cs ! j))"
          using C(4) j b(2,3) nth G True by (cases "j = idx"; auto simp: grows_def)+
      qed
    qed
  qed
qed

lemma allocatePodCIDRs_ok:
  assumes "sets_ok sh (ra_cidrSets r)" "families_differ sh" "allocatePodCIDRs r = (r', res)"
  shows "grows sh (ra_cidrSets r) (ra_cidrSets r')" "r' = r\<lparr>ra_cidrSets := ra_cidrSets r'\<rparr>"
    "res = Inr cs \<Longrightarrow> held_all sh (ra_cidrSets r') (cidrsAsString cs) \<and>
       (\<forall>j < length cs. net_good (fst (sh ! j)) (cs ! j)) \<and> length cs = length (ra_cidrSets r)"
    "res = Inr cs \<Longrightarrow> held_all sh (ra_cidrSets r) g \<Longrightarrow> apart g (cidrsAsString cs)"
proof -
  obtain sets' where a: "allocate_from 0 [] (ra_cidrSets r) = (sets', res)" "r' = r\<lparr>ra_cidrSets := sets'\<rparr>"
    using assms(3) by (auto simp: allocatePodCIDRs_def split: prod.splits)
  note A = allocate_from_ok[OF assms(1,2) _ _ _ a(1), simplified]
  show "grows sh (ra_cidrSets r) (ra_cidrSets r')" "r' = r\<lparr>ra_cidrSets := ra_cidrSets r'\<rparr>" using A a(2) by simp_all
  then have l: "length sets' = length (ra_cidrSets r)" using a(2) by (simp add: grows_def)
  show "held_all sh (ra_cidrSets r') (cidrsAsString cs) \<and>
       (\<forall>j < length cs. net_good (fst (sh ! j)) (cs ! j)) \<and> length cs = length (ra_cidrSets r)" if "res = Inr cs"
    using A that a(2) l by (auto simp: held_all_def cidrsAsString_def)
  show "apart g (cidrsAsString cs)" if "res = Inr cs" "held_all sh (ra_cidrSets r) g"
    using A that by (auto simp: held_all_def apart_def cidrsAsString_def)
qed

section \<open>Occupying and releasing what a node has\<close>

lemma held_all_parse:
  assumes "held_all sh sets h" "i < length sets"
  obtains b where "ParseCIDR (h ! i) = Some b" "h ! i = net_String b" "net_good (fst (sh ! i)) b"
    "net_blk b \<in> sh_taken (sh ! i) (sets ! i)"
  using assms held_ParseCIDR[of "sh ! i" "sets ! i" "h ! i"] by (auto simp: held_all_def)

lemma occupy_from_ok:
  assumes "sets_ok sh sets" "\<forall>j < length h. \<exists>b. ParseCIDR (h ! j) = Some b \<and> net_good (fst (sh ! (idx + j))) b"
    "occupy_from node idx h sets = (sets', res)"
  shows "grows sh sets sets'"
  using assms
proof (induction node idx h sets rule: occupy_from.induct)
  case (1 node idx sets)
  then show ?case by (simp add: grows_refl)
next
  case (2 node idx x h sets)
  obtain b where b: "ParseCIDR x = Some b" "net_good (fst (sh ! idx)) b" using "2.prems"(2) by force
  show ?case
  proof (cases "idx < length sets")
    case False
    then show ?thesis using "2.prems" b by (simp add: grows_refl)
  next
    case True
    obtain s r where o: "Occupy (sets ! idx) (Some b) = (s, r)" by fastforce
    note O = Occupy_held[OF sets_ok_nth[OF "2.prems"(1) True] b(2) o]
    have g: "grows sh sets (sets[idx := s])" by (rule grows_update[OF "2.prems"(1) True O(1)]) (rule O(2))
    then have ok: "sets_ok sh (sets[idx := s])" by (simp add: grows_def)
    have rest: "\<forall>j < length h. \<exists>b. ParseCIDR (h ! j) = Some b \<and> net_good (fst (sh ! (idx + 1 + j))) b"
      using "2.prems"(2) by (metis Suc_eq_plus1 add.assoc add.commute length_Cons not_less_eq nth_Cons_Suc)
    show ?thesis
    proof (cases r)
      case (Inl e)
      then show ?thesis using "2.prems"(3) b True o g by simp
    next
      case (Inr u)
      have "occupy_from node (idx + 1) h (sets[idx := s]) = (sets', res)" using "2.prems"(3) b True o Inr by simp
      then show ?thesis using "2.IH"[OF b(1) _ o[symmetric] Inr ok rest] True grows_trans[OF g] by simp
    qed
  qed
qed

text \<open>Releasing from index \<open>idx\<close> on what the sets hold from there on.\<close>

lemma release_from_ok:
  assumes "sets_ok sh sets" "idx + length h = length sets"
    "\<forall>j < length h. held (sh ! (idx + j)) (sets ! (idx + j)) (h ! j)"
    "release_from node idx h sets = (sets', res)"
  shows "res = Inr () \<and> sets_ok sh sets' \<and> length sets' = length sets \<and>
    (\<forall>i < length sets. \<forall>y. held (sh ! i) (sets ! i) y \<longrightarrow> (idx \<le> i \<longrightarrow> y \<noteq> h ! (i - idx)) \<longrightarrow> held (sh ! i) (sets' ! i) y)"
  using assms
proof (induction node idx h sets rule: release_from.induct)
  case (2 node idx x h sets)
  have i: "idx < length sets" using "2.prems"(2) by simp
  note ok = sets_ok_nth[OF "2.prems"(1) i]
  have "held (sh ! idx) (sets ! idx) x" using "2.prems"(3) by force
  then obtain b where b: "ParseCIDR x = Some b" "x = net_String b" "net_good (fst (sh ! idx)) b"
      "net_blk b \<in> sh_taken (sh ! idx) (sets ! idx)" by (rule held_ParseCIDR)
  obtain s where r: "Release (sets ! idx) (Some b) = (s, Inr ())" using Release_held_result[OF ok b(3,4)] by blast
  note R = Release_held[OF ok b(3,4) r]
  let ?sets = "sets[idx := s]"
  have ok': "sets_ok sh ?sets" using sets_ok_update[OF "2.prems"(1)] R(1) by simp
  have rest: "\<forall>j < length h. held (sh ! (idx + 1 + j)) (?sets ! (idx + 1 + j)) (h ! j)"
  proof (intro allI impI)
    fix j assume "j < length h"
    then have "held (sh ! (idx + Suc j)) (sets ! (idx + Suc j)) ((x # h) ! Suc j)" using "2.prems"(3) by (metis Suc_less_eq length_Cons)
    then show "held (sh ! (idx + 1 + j)) (?sets ! (idx + 1 + j)) (h ! j)" by simp
  qed
  have rec: "release_from node (idx + 1) h ?sets = (sets', res)" using "2.prems"(4) b(1) i r by simp
  note IH = "2.IH"[OF b(1) _ r[symmetric] refl ok' _ rest rec]
  have IH': "res = Inr ()" "sets_ok sh sets'" "length sets' = length sets"
      "\<forall>i < length sets. \<forall>y. held (sh ! i) (?sets ! i) y \<longrightarrow> (idx + 1 \<le> i \<longrightarrow> y \<noteq> h ! (i - (idx + 1))) \<longrightarrow> held (sh ! i) (sets' ! i) y"
    using IH i "2.prems"(2) by simp_all
  show ?case
  proof (intro conjI allI impI)
    fix k y assume k: "k < length sets" "held (sh ! k) (sets ! k) y" "idx \<le> k \<longrightarrow> y \<noteq> (x # h) ! (k - idx)"
    have "held (sh ! k) (?sets ! k) y" using k R(2) b(2) by (cases "k = idx") auto
    moreover have "y \<noteq> h ! (k - (idx + 1))" if "idx + 1 \<le> k"
      using that k(3) by (auto simp: nth_Cons' split: if_splits)
    ultimately show "held (sh ! k) (sets' ! k) y" using IH'(4) k(1) by blast
  qed (use IH' in simp_all)
qed simp

lemma release_from_frees:
  assumes "sets_ok sh sets" "held_all sh sets h" "release_from node 0 h sets = (sets', res)"
  shows "frees sh sets h sets'" "res = Inr ()"
proof -
  have R: "res = Inr ()" "sets_ok sh sets'" "length sets' = length sets"
    "\<forall>i < length sets. \<forall>y. held (sh ! i) (sets ! i) y \<longrightarrow> y \<noteq> h ! i \<longrightarrow> held (sh ! i) (sets' ! i) y"
    using release_from_ok[OF assms(1) _ _ assms(3)] assms(2) by (simp_all add: held_all_def)
  then show "res = Inr ()" "frees sh sets h sets'"
    using assms(2) by (auto simp: frees_def held_all_def apart_def)
qed

lemma release_each_nth:
  "length cs = length sets \<Longrightarrow> length (release_each sets cs) = length sets \<and>
     (\<forall>i < length sets. release_each sets cs ! i = fst (Release (sets ! i) (Some (cs ! i))))"
proof (induction sets cs rule: release_each.induct)
  case (1 s sets c cs)
  then show ?case by (auto simp: nth_Cons')
qed simp_all

lemma release_each_frees:
  assumes ok: "sets_ok sh sets" and good: "\<forall>j < length cs. net_good (fst (sh ! j)) (cs ! j)"
    and h: "held_all sh sets (cidrsAsString cs)"
  shows "frees sh sets (cidrsAsString cs) (release_each sets cs)"
proof -
  have l: "length cs = length sets" using h by (simp add: held_all_def cidrsAsString_def)
  note N = release_each_nth[OF l]
  have one: "sh_ok (sh ! i) (release_each sets cs ! i)"
      "held (sh ! i) (sets ! i) y \<Longrightarrow> y \<noteq> net_String (cs ! i) \<Longrightarrow> held (sh ! i) (release_each sets cs ! i) y"
    if i: "i < length sets" for i y
  proof -
    obtain s r where R: "Release (sets ! i) (Some (cs ! i)) = (s, r)" by fastforce
    have g: "net_good (fst (sh ! i)) (cs ! i)" using good i l by simp
    obtain b where "ParseCIDR (cidrsAsString cs ! i) = Some b" "net_blk b \<in> sh_taken (sh ! i) (sets ! i)"
      using held_all_parse[OF h i] by metis
    then have "net_blk (cs ! i) \<in> sh_taken (sh ! i) (sets ! i)"
      using net_good_text[OF g] i l by (simp add: cidrsAsString_def)
    note R' = Release_held[OF sets_ok_nth[OF ok i] g this R]
    show "sh_ok (sh ! i) (release_each sets cs ! i)"
      "held (sh ! i) (sets ! i) y \<Longrightarrow> y \<noteq> net_String (cs ! i) \<Longrightarrow> held (sh ! i) (release_each sets cs ! i) y"
      using R' N i R by simp_all
  qed
  then have "sets_ok sh (release_each sets cs)"
    using N sets_ok_length[OF ok] by (simp add: sets_ok_def list_all2_conv_all_nth)
  then show ?thesis
    using N one l by (auto simp: frees_def held_all_def apart_def cidrsAsString_def)
qed

end
