(* ===== verification/RangeSafety.thy ===== *)
theory RangeSafety
  imports RangeSets
begin

text \<open>
  The range allocator together with the Kubernetes API server as a transition system: nodes are created and deleted, the
  informer calls the handlers, possibly with a node it read before the pod CIDRs were set, and the workers take items
  from the queue while requests fail in any pattern. The invariant says that all pod CIDRs in the system, assigned, queued
  or of deleted nodes that were not handled yet, are marked in the sets and are pairwise different.
\<close>

section \<open>The system\<close>

text \<open>The server applies a patch unless its next fault is an error; a request that fails is not applied.\<close>

record server =
  srv_nodes :: "string \<rightharpoonup> Node"
  srv_deleted :: "string \<rightharpoonup> Node"
  srv_faults :: "api_error option list"

definition server_patch :: "server patch" where
  "server_patch w name c cs =
     (let w' = w\<lparr>srv_faults := tl (srv_faults w)\<rparr>
      in case srv_faults w of
           Some e # _ \<Rightarrow> (w', Some e)
         | _ \<Rightarrow> (case srv_nodes w name of
                   None \<Rightarrow> (w', Some NotFound)
                 | Some node \<Rightarrow>
                     (w'\<lparr>srv_nodes := (srv_nodes w)(name \<mapsto> node\<lparr>node_PodCIDR := c, node_PodCIDRs := cs\<rparr>)\<rparr>, None)))"

definition reads :: "lister \<Rightarrow> server \<Rightarrow> bool" where
  "reads get w \<longleftrightarrow> (\<forall>n node. get n = Inr node \<longrightarrow> srv_nodes w n = Some node)"

inductive sys_step :: "server \<times> rangeAllocator \<Rightarrow> server \<times> rangeAllocator \<Rightarrow> bool" where
  create: "srv_nodes w n = None \<Longrightarrow> node_Name node = n \<Longrightarrow> node_PodCIDRs node = [] \<Longrightarrow>
    sys_step (w, r) (w\<lparr>srv_nodes := (srv_nodes w)(n \<mapsto> node)\<rparr>, r)"
| faults: "sys_step (w, r) (w\<lparr>srv_faults := fs\<rparr>, r)"
| added: "srv_nodes w n = Some node \<Longrightarrow> node' = node \<or> node' = node\<lparr>node_PodCIDRs := []\<rparr> \<Longrightarrow>
    AllocateOrOccupyCIDR r (Some node') = (r', res) \<Longrightarrow> sys_step (w, r) (w, r')"
| updated: "srv_nodes w n = Some node \<Longrightarrow> node' = node \<or> node' = node\<lparr>node_PodCIDRs := []\<rparr> \<Longrightarrow>
    update_handler r node' = (r', res) \<Longrightarrow> sys_step (w, r) (w, r')"
| work: "reads get w \<Longrightarrow> worker get server_patch w r = (w', r') \<Longrightarrow> sys_step (w, r) (w', r')"
| delete: "srv_nodes w n = Some node \<Longrightarrow> srv_deleted w n = None \<Longrightarrow>
    sys_step (w, r) (w\<lparr>srv_nodes := (srv_nodes w)(n := None), srv_deleted := (srv_deleted w)(n \<mapsto> node)\<rparr>, r)"
| deleted: "srv_deleted w n = Some node \<Longrightarrow> ReleaseCIDR r (Some node) = (r', res) \<Longrightarrow>
    sys_step (w, r) (w\<lparr>srv_deleted := (srv_deleted w)(n := None)\<rparr>, r')"

section \<open>Holders\<close>

datatype holder = Assigned string | Deleted string | Queued string

definition node_hold :: "Node option \<Rightarrow> string list option" where
  "node_hold node0 = (case node0 of None \<Rightarrow> None
     | Some node \<Rightarrow> if node_PodCIDRs node = [] then None else Some (node_PodCIDRs node))"

fun q_hold :: "nodeReservedCIDRs list \<Rightarrow> string \<Rightarrow> string list option" where
  "q_hold [] n = None"
| "q_hold (it # ch) n =
     (if nr_nodeName it = n then map_option cidrsAsString (nr_allocatedCIDRs it) else q_hold ch n)"

fun holds :: "server \<Rightarrow> nodeReservedCIDRs list \<Rightarrow> holder \<Rightarrow> string list option" where
  "holds w ch (Assigned n) = node_hold (srv_nodes w n)"
| "holds w ch (Deleted n) = node_hold (srv_deleted w n)"
| "holds w ch (Queued n) = q_hold ch n"

lemma q_hold_none: "n \<notin> nr_nodeName ` set ch \<Longrightarrow> q_hold ch n = None"
  by (induction ch) auto

lemma q_hold_snoc:
  "nr_nodeName it \<notin> nr_nodeName ` set ch \<Longrightarrow>
     q_hold (ch @ [it]) n = (if n = nr_nodeName it then map_option cidrsAsString (nr_allocatedCIDRs it) else q_hold ch n)"
  by (induction ch) auto

lemma holds_snoc:
  assumes "nr_nodeName it \<notin> nr_nodeName ` set ch"
  shows "holds w (ch @ [it]) = (holds w ch)(Queued (nr_nodeName it) := map_option cidrsAsString (nr_allocatedCIDRs it))"
proof
  fix a show "holds w (ch @ [it]) a =
      ((holds w ch)(Queued (nr_nodeName it) := map_option cidrsAsString (nr_allocatedCIDRs it))) a"
    using q_hold_snoc[OF assms] by (cases a) auto
qed

lemma holds_Cons:
  "holds w (it # ch) = (holds w ch)(Queued (nr_nodeName it) := map_option cidrsAsString (nr_allocatedCIDRs it))"
proof
  fix a show "holds w (it # ch) a =
      ((holds w ch)(Queued (nr_nodeName it) := map_option cidrsAsString (nr_allocatedCIDRs it))) a"
    by (cases a) auto
qed

lemma holds_server:
  "holds (w\<lparr>srv_nodes := N, srv_deleted := D\<rparr>) ch =
     (\<lambda>a. case a of Assigned n \<Rightarrow> node_hold (N n) | Deleted n \<Rightarrow> node_hold (D n) | Queued n \<Rightarrow> q_hold ch n)"
proof
  fix a show "holds (w\<lparr>srv_nodes := N, srv_deleted := D\<rparr>) ch a =
     (case a of Assigned n \<Rightarrow> node_hold (N n) | Deleted n \<Rightarrow> node_hold (D n) | Queued n \<Rightarrow> q_hold ch n)"
    by (cases a) auto
qed

section \<open>Reservations\<close>

definition reserved :: "shape list \<Rightarrow> CidrSet list \<Rightarrow> (holder \<Rightarrow> string list option) \<Rightarrow> bool" where
  "reserved sh sets H \<longleftrightarrow>
     sets_ok sh sets \<and> (\<forall>a h. H a = Some h \<longrightarrow> held_all sh sets h) \<and>
     (\<forall>a b g h. a \<noteq> b \<longrightarrow> H a = Some g \<longrightarrow> H b = Some h \<longrightarrow> apart g h)"

lemma apart_sym: "apart g h \<Longrightarrow> apart h g"
  by (auto simp: apart_def)

lemma reserved_grows: "reserved sh sets H \<Longrightarrow> grows sh sets sets' \<Longrightarrow> reserved sh sets' H"
  by (auto simp: reserved_def grows_held_all) (simp add: grows_def)

lemma reserved_drop: "reserved sh sets H \<Longrightarrow> reserved sh sets (H(a := None))"
  by (auto simp: reserved_def)

lemma reserved_add:
  assumes "reserved sh sets H" "held_all sh sets h" "\<And>b g. H b = Some g \<Longrightarrow> apart g h"
  shows "reserved sh sets (H(a \<mapsto> h))"
  using assms apart_sym by (auto simp: reserved_def)

lemma reserved_free:
  assumes "reserved sh sets H" "H a = Some h" "frees sh sets h sets'"
  shows "reserved sh sets' (H(a := None))"
  using assms by (auto simp: reserved_def frees_def)

lemma reserved_move:
  assumes "reserved sh sets H" "H a = Some h"
  shows "reserved sh sets ((H(a := None))(b \<mapsto> h))"
proof (rule reserved_add[OF reserved_drop[OF assms(1)]])
  show "held_all sh sets h" using assms by (auto simp: reserved_def)
  fix c g assume "(H(a := None)) c = Some g"
  then have "c \<noteq> a" "H c = Some g" by (auto split: if_splits)
  then show "apart g h" using assms unfolding reserved_def by blast
qed

section \<open>The invariant\<close>

definition items_ok :: "shape list \<Rightarrow> nodeReservedCIDRs list \<Rightarrow> string set \<Rightarrow> bool" where
  "items_ok sh ch proc \<longleftrightarrow>
     distinct (map nr_nodeName ch) \<and> nr_nodeName ` set ch \<subseteq> proc \<and>
     (\<forall>it \<in> set ch. \<forall>cs. nr_allocatedCIDRs it = Some cs \<longrightarrow> (\<forall>j < length cs. net_good (fst (sh ! j)) (cs ! j)))"

definition names_ok :: "server \<Rightarrow> bool" where
  "names_ok w \<longleftrightarrow> (\<forall>n node. srv_nodes w n = Some node \<longrightarrow> node_Name node = n)"

definition sys_inv :: "shape list \<Rightarrow> server \<Rightarrow> rangeAllocator \<Rightarrow> bool" where
  "sys_inv sh w r \<longleftrightarrow>
     reserved sh (ra_cidrSets r) (holds w (ra_channel r)) \<and>
     items_ok sh (ra_channel r) (ra_nodesInProcessing r) \<and> names_ok w"

lemma allocate_reserved:
  assumes "reserved sh (ra_cidrSets r) H" "families_differ sh" "allocatePodCIDRs r = (r', res)"
  shows "reserved sh (ra_cidrSets r') H"
    "res = Inr cs \<Longrightarrow> reserved sh (ra_cidrSets r') (H(a \<mapsto> cidrsAsString cs))"
    "res = Inr cs \<Longrightarrow> j < length cs \<Longrightarrow> net_good (fst (sh ! j)) (cs ! j)"
    "ra_channel r' = ra_channel r" "ra_nodesInProcessing r' = ra_nodesInProcessing r"
proof -
  have ok: "sets_ok sh (ra_cidrSets r)" using assms(1) by (simp add: reserved_def)
  note A = allocatePodCIDRs_ok[OF ok assms(2,3)]
  show R: "reserved sh (ra_cidrSets r') H" using reserved_grows[OF assms(1) A(1)] .
  show "ra_channel r' = ra_channel r" "ra_nodesInProcessing r' = ra_nodesInProcessing r"
    using A(2) by (metis rangeAllocator.ext_inject rangeAllocator.surjective rangeAllocator.update_convs(2))+
  show "net_good (fst (sh ! j)) (cs ! j)" if "res = Inr cs" "j < length cs" using A(3)[OF that(1)] that(2) by simp
  show "reserved sh (ra_cidrSets r') (H(a \<mapsto> cidrsAsString cs))" if "res = Inr cs"
  proof (rule reserved_add[OF R])
    show "held_all sh (ra_cidrSets r') (cidrsAsString cs)" using A(3)[OF that] by simp
    show "apart g (cidrsAsString cs)" if "H b = Some g" for b g
      using A(4)[OF \<open>res = Inr cs\<close>] assms(1) that by (auto simp: reserved_def)
  qed
qed

lemma items_ok_remove:
  "items_ok sh ch proc \<Longrightarrow> n \<notin> nr_nodeName ` set ch \<Longrightarrow> items_ok sh ch (proc - {n})"
  by (auto simp: items_ok_def)

lemma items_ok_insert: "items_ok sh ch proc \<Longrightarrow> items_ok sh ch (insert n proc)"
  by (auto simp: items_ok_def)

lemma items_ok_snoc:
  assumes "items_ok sh ch proc" "nr_nodeName it \<notin> nr_nodeName ` set ch" "nr_nodeName it \<in> proc"
    "\<forall>cs. nr_allocatedCIDRs it = Some cs \<longrightarrow> (\<forall>j < length cs. net_good (fst (sh ! j)) (cs ! j))"
  shows "items_ok sh (ch @ [it]) proc"
  using assms by (auto simp: items_ok_def)

lemma occupyCIDRs_ok:
  assumes "reserved sh (ra_cidrSets r) H" "H a = Some (node_PodCIDRs node)" "occupyCIDRs r node = (r', res)"
  shows "reserved sh (ra_cidrSets r') H" "ra_channel r' = ra_channel r"
    "ra_nodesInProcessing r' = ra_nodesInProcessing r - {node_Name node}"
proof -
  obtain sets where o: "occupy_from node 0 (node_PodCIDRs node) (ra_cidrSets r) = (sets, res)"
      "r' = removeNodeFromProcessing (r\<lparr>ra_cidrSets := sets\<rparr>) (node_Name node)"
    using assms(3) by (auto simp: occupyCIDRs_def split: prod.splits)
  have h: "sets_ok sh (ra_cidrSets r)" "held_all sh (ra_cidrSets r) (node_PodCIDRs node)"
    using assms(1,2) by (auto simp: reserved_def)
  have "\<exists>b. ParseCIDR (node_PodCIDRs node ! j) = Some b \<and> net_good (fst (sh ! (0 + j))) b"
    if "j < length (node_PodCIDRs node)" for j
    using that h(2) held_all_parse[OF h(2), of j] by (metis add_0 held_all_def)
  then have "grows sh (ra_cidrSets r) sets" using occupy_from_ok[OF h(1) _ o(1)] by blast
  then show "reserved sh (ra_cidrSets r') H" "ra_channel r' = ra_channel r"
    "ra_nodesInProcessing r' = ra_nodesInProcessing r - {node_Name node}"
    using reserved_grows[OF assms(1)] o(2) by (simp_all add: removeNodeFromProcessing_def)
qed

lemma AllocateOrOccupyCIDR_inv:
  assumes inv: "sys_inv sh w r" and fam: "families_differ sh" and node: "srv_nodes w n = Some node"
    and node': "node' = node \<or> node' = node\<lparr>node_PodCIDRs := []\<rparr>"
    and step: "AllocateOrOccupyCIDR r (Some node') = (r', res)"
  shows "sys_inv sh w r'"
proof (cases "n \<in> ra_nodesInProcessing r")
  case True
  have "node_Name node' = n" using inv node node' by (auto simp: sys_inv_def names_ok_def)
  then have "r' = r" using True step by (simp add: AllocateOrOccupyCIDR_def insertNodeToProcessing_def)
  then show ?thesis using inv by simp
next
  case new: False
  have nm: "node_Name node' = n" using inv node node' by (auto simp: sys_inv_def names_ok_def)
  let ?r = "r\<lparr>ra_nodesInProcessing := insert n (ra_nodesInProcessing r)\<rparr>" and ?H = "holds w (ra_channel r)"
  have I: "reserved sh (ra_cidrSets ?r) ?H" "items_ok sh (ra_channel r) (ra_nodesInProcessing r)" "names_ok w"
    using inv by (simp_all add: sys_inv_def)
  have q: "n \<notin> nr_nodeName ` set (ra_channel r)" using I(2) new by (auto simp: items_ok_def)
  have rm: "items_ok sh (ra_channel r) (insert n (ra_nodesInProcessing r) - {n})"
    using items_ok_remove[OF items_ok_insert[OF I(2)] q] .
  show ?thesis
  proof (cases "node_PodCIDRs node' = []")
    case False
    then have h: "?H (Assigned n) = Some (node_PodCIDRs node')" using node node' by (auto simp: node_hold_def)
    have o: "occupyCIDRs ?r node' = (r', res)"
      using step new nm False by (simp add: AllocateOrOccupyCIDR_def insertNodeToProcessing_def)
    show ?thesis using occupyCIDRs_ok[OF I(1) h o] nm rm I(3) by (simp add: sys_inv_def)
  next
    case True
    obtain r1 a where al: "allocatePodCIDRs ?r = (r1, a)" by fastforce
    note A = allocate_reserved[OF I(1) fam al]
    show ?thesis
    proof (cases a)
      case (Inl e)
      then have "r' = RecordNodeStatusChange (removeNodeFromProcessing r1 n) n ''CIDRNotAvailable''"
        using step new nm True al by (simp add: AllocateOrOccupyCIDR_def insertNodeToProcessing_def)
      then show ?thesis
        using A(1,4,5) rm I(3) by (simp add: sys_inv_def RecordNodeStatusChange_def removeNodeFromProcessing_def)
    next
      case (Inr cs)
      let ?it = "\<lparr>nr_allocatedCIDRs = Some cs, nr_nodeName = n\<rparr>"
      have r': "r' = r1\<lparr>ra_channel := ra_channel r1 @ [?it]\<rparr>"
        using step new nm True al Inr by (simp add: AllocateOrOccupyCIDR_def insertNodeToProcessing_def)
      have "items_ok sh (ra_channel r @ [?it]) (insert n (ra_nodesInProcessing r))"
        by (rule items_ok_snoc[OF items_ok_insert[OF I(2)]]) (use q A(3) Inr in auto)
      moreover have "reserved sh (ra_cidrSets r1) (holds w (ra_channel r @ [?it]))"
        using A(2)[OF Inr, of "Queued n"] holds_snoc[of ?it "ra_channel r" w] q by simp
      ultimately show ?thesis using r' A(4,5) I(3) by (simp add: sys_inv_def)
    qed
  qed
qed

lemma ReleaseCIDR_inv:
  assumes inv: "sys_inv sh w r" and node: "srv_deleted w n = Some node"
    and step: "ReleaseCIDR r (Some node) = (r', res)"
  shows "sys_inv sh (w\<lparr>srv_deleted := (srv_deleted w)(n := None)\<rparr>) r'"
proof -
  let ?H = "holds w (ra_channel r)" and ?w = "w\<lparr>srv_deleted := (srv_deleted w)(n := None)\<rparr>"
  obtain sets where R: "release_from node 0 (node_PodCIDRs node) (ra_cidrSets r) = (sets, res)" "r' = r\<lparr>ra_cidrSets := sets\<rparr>"
    using step by (auto simp: ReleaseCIDR_def split: prod.splits)
  have I: "reserved sh (ra_cidrSets r) ?H" using inv by (simp add: sys_inv_def)
  have H: "holds ?w (ra_channel r) = ?H(Deleted n := None)"
  proof
    fix a show "holds ?w (ra_channel r) a = (?H(Deleted n := None)) a" by (cases a) (auto simp: node_hold_def)
  qed
  have "reserved sh sets (?H(Deleted n := None))"
  proof (cases "node_PodCIDRs node = []")
    case True
    then show ?thesis using reserved_drop[OF I] R by simp
  next
    case False
    then have h: "?H (Deleted n) = Some (node_PodCIDRs node)" using node by (simp add: node_hold_def)
    then have "held_all sh (ra_cidrSets r) (node_PodCIDRs node)" "sets_ok sh (ra_cidrSets r)"
      using I unfolding reserved_def by blast+
    then show ?thesis using reserved_free[OF I h] release_from_frees(1) R(1) by blast
  qed
  then show ?thesis using inv R(2) H by (simp add: sys_inv_def names_ok_def)
qed

section \<open>Workers\<close>

lemma server_attempt:
  assumes "srv_nodes w n = Some node" "PatchNodeCIDRs server_patch n cs w = (w', e)"
  shows "srv_deleted w' = srv_deleted w"
    "e = None \<Longrightarrow> srv_nodes w' = (srv_nodes w)(n \<mapsto> node\<lparr>node_PodCIDR := hd cs, node_PodCIDRs := cs\<rparr>)"
    "e \<noteq> None \<Longrightarrow> srv_nodes w' = srv_nodes w"
  using assms by (auto simp: PatchNodeCIDRs_def server_patch_def Let_def split: list.splits option.splits)

lemma server_attempts:
  assumes "srv_nodes w n = Some node" "patch_attempts (PatchNodeCIDRs server_patch n cs) (Suc k) w = (w', e)"
  shows "srv_deleted w' = srv_deleted w"
    "e = None \<Longrightarrow> srv_nodes w' = (srv_nodes w)(n \<mapsto> node\<lparr>node_PodCIDR := hd cs, node_PodCIDRs := cs\<rparr>)"
    "e \<noteq> None \<Longrightarrow> srv_nodes w' = srv_nodes w"
proof -
  have "srv_deleted w' = srv_deleted w \<and>
      (e = None \<longrightarrow> srv_nodes w' = (srv_nodes w)(n \<mapsto> node\<lparr>node_PodCIDR := hd cs, node_PodCIDRs := cs\<rparr>)) \<and>
      (e \<noteq> None \<longrightarrow> srv_nodes w' = srv_nodes w)"
    using assms
  proof (induction k arbitrary: w)
    case 0
    obtain w1 e1 where a: "PatchNodeCIDRs server_patch n cs w = (w1, e1)" by fastforce
    then have "w' = w1" "e = e1" using "0.prems"(2) by (cases e1; simp)+
    then show ?case using server_attempt[OF "0.prems"(1) a] by simp
  next
    case (Suc k)
    obtain w1 e1 where a: "PatchNodeCIDRs server_patch n cs w = (w1, e1)" by fastforce
    note A = server_attempt[OF Suc.prems(1) a]
    show ?case
    proof (cases e1)
      case None
      then show ?thesis using Suc.prems(2) a A by simp
    next
      case (Some x)
      then have "patch_attempts (PatchNodeCIDRs server_patch n cs) (Suc k) w1 = (w', e)" using Suc.prems(2) a by simp
      moreover have "srv_nodes w1 n = Some node" using A(3) Some Suc.prems(1) by simp
      ultimately show ?thesis using Suc.IH[of w1] A(1,3) Some by simp
    qed
  qed
  then show "srv_deleted w' = srv_deleted w"
    "e = None \<Longrightarrow> srv_nodes w' = (srv_nodes w)(n \<mapsto> node\<lparr>node_PodCIDR := hd cs, node_PodCIDRs := cs\<rparr>)"
    "e \<noteq> None \<Longrightarrow> srv_nodes w' = srv_nodes w" by blast+
qed

text \<open>What remains of a turn once the item has its CIDRs: \<open>ch\<close> is the queue without the item.\<close>

lemma finish_item:
  assumes R: "reserved sh (ra_cidrSets r) ((holds w ch)(Queued n := None))" and I: "items_ok sh ch proc"
    and q: "n \<notin> nr_nodeName ` set ch" and W: "names_ok w"
    and r: "ra_channel r = ch" "ra_nodesInProcessing r = proc - {n}"
  shows "sys_inv sh w r"
proof -
  have "(holds w ch)(Queued n := None) = holds w ch" using q_hold_none[OF q] by auto
  then show ?thesis using R W r items_ok_remove[OF I q] by (simp add: sys_inv_def)
qed

lemma requeue_item:
  assumes R: "reserved sh (ra_cidrSets r) ((holds w ch)(Queued n := map_option cidrsAsString (nr_allocatedCIDRs it)))"
    and I: "items_ok sh ch proc" "n \<in> proc" and q: "n \<notin> nr_nodeName ` set ch" "nr_nodeName it = n" and W: "names_ok w"
    and g: "\<forall>cs. nr_allocatedCIDRs it = Some cs \<longrightarrow> (\<forall>j < length cs. net_good (fst (sh ! j)) (cs ! j))"
    and r: "ra_channel r = ch @ [it]" "ra_nodesInProcessing r = proc"
  shows "sys_inv sh w r"
  using R W r items_ok_snoc[OF I(1), of it] I(2) q g holds_snoc[of it ch w] by (simp add: sys_inv_def)

lemma item_cidrs:
  assumes R: "reserved sh (ra_cidrSets r) (H(a := map_option cidrsAsString (nr_allocatedCIDRs it)))" and fam: "families_differ sh"
    and g: "\<forall>cs. nr_allocatedCIDRs it = Some cs \<longrightarrow> (\<forall>j < length cs. net_good (fst (sh ! j)) (cs ! j))"
    and c: "(case nr_allocatedCIDRs it of Some cs \<Rightarrow> (r, Inr cs) | None \<Rightarrow> allocatePodCIDRs r) = (r', res)"
  shows "ra_channel r' = ra_channel r" "ra_nodesInProcessing r' = ra_nodesInProcessing r"
    "res = Inl e \<Longrightarrow> reserved sh (ra_cidrSets r') (H(a := None)) \<and> nr_allocatedCIDRs it = None"
    "res = Inr cs \<Longrightarrow> reserved sh (ra_cidrSets r') (H(a \<mapsto> cidrsAsString cs)) \<and>
       (\<forall>j < length cs. net_good (fst (sh ! j)) (cs ! j))"
proof -
  show "ra_channel r' = ra_channel r" "ra_nodesInProcessing r' = ra_nodesInProcessing r"
    using c by (auto simp: allocatePodCIDRs_def split: option.splits prod.splits)
  show "reserved sh (ra_cidrSets r') (H(a := None)) \<and> nr_allocatedCIDRs it = None" if "res = Inl e"
    using that c R allocate_reserved(1)[of sh r "H(a := None)" r' res] fam by (cases "nr_allocatedCIDRs it") auto
  show "reserved sh (ra_cidrSets r') (H(a \<mapsto> cidrsAsString cs)) \<and> (\<forall>j < length cs. net_good (fst (sh ! j)) (cs ! j))"
    if "res = Inr cs"
  proof (cases "nr_allocatedCIDRs it")
    case None
    then have "reserved sh (ra_cidrSets r) (H(a := None))" "allocatePodCIDRs r = (r', res)" using R c by simp_all
    from allocate_reserved(2,3)[OF this(1) fam this(2) that] show ?thesis by (metis fun_upd_upd)
  next
    case (Some ds)
    then show ?thesis using that c R g by simp
  qed
qed

lemma reserved_release:
  assumes "reserved sh sets (H(a \<mapsto> cidrsAsString cs)) \<and> (\<forall>j < length cs. net_good (fst (sh ! j)) (cs ! j))"
  shows "reserved sh (release_each sets cs) (H(a := None))"
proof -
  let ?H = "H(a \<mapsto> cidrsAsString cs)"
  have h: "?H a = Some (cidrsAsString cs)" by simp
  then have "sets_ok sh sets" "held_all sh sets (cidrsAsString cs)" using assms unfolding reserved_def by blast+
  then have "frees sh sets (cidrsAsString cs) (release_each sets cs)" using release_each_frees assms by blast
  from reserved_free[OF conjunct1[OF assms] h this] show ?thesis by (simp only: fun_upd_upd)
qed

text \<open>The turn of a worker that sends the patch.\<close>

lemma patch_turn_inv:
  assumes W: "names_ok w" and I: "items_ok sh ch proc" "n \<in> proc" "n \<notin> nr_nodeName ` set ch"
    and node: "srv_nodes w n = Some node" "node_PodCIDRs node = []" "cidrsAsString cs \<noteq> []"
    and R: "reserved sh (ra_cidrSets r) ((holds w ch)(Queued n \<mapsto> cidrsAsString cs)) \<and>
        (\<forall>j < length cs. net_good (fst (sh ! j)) (cs ! j))"
    and r: "ra_channel r = ch" "ra_nodesInProcessing r = proc"
    and pa: "patch_attempts (PatchNodeCIDRs server_patch n (cidrsAsString cs)) cidrUpdateRetries w = (w', e)"
  shows "e = None \<Longrightarrow> sys_inv sh w' (removeNodeFromProcessing r n)"
    "e = Some x \<Longrightarrow> ra_cidrSets r' = ra_cidrSets r \<Longrightarrow> nr_nodeName it = n \<Longrightarrow> 
       ra_channel r' = ch @ [it\<lparr>nr_allocatedCIDRs := Some cs\<rparr>] \<Longrightarrow> ra_nodesInProcessing r' = proc \<Longrightarrow> sys_inv sh w' r'"
    "e = Some x \<Longrightarrow> ra_cidrSets r' = release_each (ra_cidrSets r) cs \<Longrightarrow> nr_nodeName it = n \<Longrightarrow> 
       ra_channel r' = ch @ [it\<lparr>nr_allocatedCIDRs := None\<rparr>] \<Longrightarrow> ra_nodesInProcessing r' = proc \<Longrightarrow> sys_inv sh w' r'"
proof -
  let ?H = "holds w ch"
  have "patch_attempts (PatchNodeCIDRs server_patch n (cidrsAsString cs)) (Suc 2) w = (w', e)"
    using pa by (simp add: cidrUpdateRetries_def eval_nat_numeral)
  note S = server_attempts[OF node(1) this]
  show "sys_inv sh w' (removeNodeFromProcessing r n)" if e: "e = None"
  proof -
    have "holds w' ch = ?H(Assigned n \<mapsto> cidrsAsString cs)"
    proof
      fix x show "holds w' ch x = (?H(Assigned n \<mapsto> cidrsAsString cs)) x"
        using S(1) S(2)[OF e] node by (cases x) (auto simp: node_hold_def)
    qed
    then have "reserved sh (ra_cidrSets r) ((holds w' ch)(Queued n := None))"
      using reserved_move[of sh _ "?H(Queued n \<mapsto> cidrsAsString cs)" "Queued n" _ "Assigned n"] R
      by (simp add: fun_upd_twist)
    moreover have "names_ok w'" using S(2)[OF e] W node(1) by (auto simp: names_ok_def)
    ultimately show ?thesis
      using finish_item[OF _ I(1,3), of "removeNodeFromProcessing r n" w'] r by (simp add: removeNodeFromProcessing_def)
  qed
  have H: "holds w' ch = ?H" "names_ok w'" if e: "e = Some x"
  proof -
    have nodes: "srv_nodes w' = srv_nodes w" using S(3) e by simp
    show "names_ok w'" using nodes W by (simp add: names_ok_def)
    show "holds w' ch = ?H"
    proof
      fix y show "holds w' ch y = ?H y" using S(1) nodes by (cases y) auto
    qed
  qed
  show "sys_inv sh w' r'" if "e = Some x" "ra_cidrSets r' = ra_cidrSets r" "nr_nodeName it = n"
      "ra_channel r' = ch @ [it\<lparr>nr_allocatedCIDRs := Some cs\<rparr>]" "ra_nodesInProcessing r' = proc"
    using that requeue_item[OF _ I _ H(2), of r' "it\<lparr>nr_allocatedCIDRs := Some cs\<rparr>"] R H by auto
  show "sys_inv sh w' r'" if "e = Some x" "ra_cidrSets r' = release_each (ra_cidrSets r) cs" "nr_nodeName it = n"
      "ra_channel r' = ch @ [it\<lparr>nr_allocatedCIDRs := None\<rparr>]" "ra_nodesInProcessing r' = proc"
    using that requeue_item[OF _ I _ H(2), of r' "it\<lparr>nr_allocatedCIDRs := None\<rparr>"] reserved_release[OF R] H by auto
qed

lemma worker_inv:
  assumes inv: "sys_inv sh w r" and fam: "families_differ sh" and rd: "reads get w"
    and step: "worker get server_patch w r = (w', r')"
  shows "sys_inv sh w' r'"
proof (cases "ra_channel r")
  case Nil
  then show ?thesis using inv step by (simp add: worker_def)
next
  case (Cons it ch)
  define n where "n = nr_nodeName it"
  define r0 where "r0 = r\<lparr>ra_channel := ch\<rparr>"
  let ?H = "holds w ch" and ?proc = "ra_nodesInProcessing r"
  have W: "names_ok w" using inv by (simp add: sys_inv_def)
  have I: "items_ok sh ch ?proc" "n \<in> ?proc" "n \<notin> nr_nodeName ` set ch"
    and g: "\<forall>cs. nr_allocatedCIDRs it = Some cs \<longrightarrow> (\<forall>j < length cs. net_good (fst (sh ! j)) (cs ! j))"
    using inv Cons by (auto simp: sys_inv_def items_ok_def n_def)
  have R: "reserved sh (ra_cidrSets r0) (?H(Queued n := map_option cidrsAsString (nr_allocatedCIDRs it)))"
    using inv Cons by (simp add: sys_inv_def holds_Cons n_def r0_def)
  have r0: "ra_channel r0 = ch" "ra_nodesInProcessing r0 = ?proc" by (simp_all add: r0_def)
  obtain w1 r1 d e where u: "updateCIDRsAllocation get server_patch w r0 it = (w1, r1, d, e)" by (metis prod_cases4)
  have step': "w' = w1" "r' = (case e of None \<Rightarrow> r1 | Some _ \<Rightarrow> r1\<lparr>ra_channel := ra_channel r1 @ [d]\<rparr>)"
    using step Cons u by (auto simp: worker_def r0_def split: option.splits)
  show ?thesis
  proof (cases "get n")
    case (Inl x)
    show ?thesis
    proof (cases "IsNotFound x")
      case True
      then have "e = None" "w1 = w" "r1 = removeNodeFromProcessing r0 n"
        using u Inl by (auto simp: updateCIDRsAllocation_def Let_def n_def)
      then show ?thesis
        using step' finish_item[OF _ I(1,3) W, of r1] reserved_drop[OF R, of "Queued n"] r0
        by (simp add: removeNodeFromProcessing_def)
    next
      case False
      then have "e \<noteq> None" "w1 = w" "r1 = r0" "d = it"
        using u Inl by (auto simp: updateCIDRsAllocation_def Let_def n_def)
      then show ?thesis
        using step' requeue_item[OF _ I(1-3) n_def[symmetric] W g, of r'] R r0 by auto
    qed
  next
    case (Inr node)
    have node: "srv_nodes w n = Some node" "node_Name node = n"
      using Inr rd W by (auto simp: reads_def names_ok_def)
    obtain r2 a where c: "(case nr_allocatedCIDRs it of Some cs \<Rightarrow> (r0, Inr cs) | None \<Rightarrow> allocatePodCIDRs r0) = (r2, a)"
      by fastforce
    note C = item_cidrs[OF R fam g c]
    note upd = updateCIDRsAllocation_def[of get server_patch w r0 it, unfolded Let_def, folded n_def, unfolded Inr c sum.case prod.case]
    show ?thesis
    proof (cases a)
      case (Inl x)
      then have "e \<noteq> None" "w1 = w" "d = it" "r1 = RecordNodeStatusChange r2 n ''CIDRNotAvailable''"
        using u upd node(2) by auto
      then show ?thesis
        using step' requeue_item[OF _ I(1-3) n_def[symmetric] W g, of r'] C(1,2) C(3)[OF Inl] r0
        by (auto simp: RecordNodeStatusChange_def)
    next
      case (Inr cs)
      note C4 = C(4)[OF Inr]
      then have F: "reserved sh (release_each (ra_cidrSets r2) cs) (?H(Queued n := None))"
        using reserved_release by blast
      have D: "reserved sh (ra_cidrSets r2) (?H(Queued n := None))"
        using reserved_drop[of sh "ra_cidrSets r2" "?H(Queued n \<mapsto> cidrsAsString cs)" "Queued n"] C4 by simp
      consider "node_PodCIDRs node = cidrsAsString cs" | "node_PodCIDRs node \<noteq> cidrsAsString cs" "node_PodCIDRs node \<noteq> []"
        | "node_PodCIDRs node \<noteq> cidrsAsString cs" "node_PodCIDRs node = []" by blast
      then show ?thesis
      proof cases
        case 1
        then have "e = None" "w1 = w" "r1 = removeNodeFromProcessing r2 n" using u upd Inr by auto
        then show ?thesis
          using step' finish_item[OF _ I(1,3) W, of r1] D C(1,2) r0 by (simp add: removeNodeFromProcessing_def)
      next
        case 2
        then have "e = None" "w1 = w"
            "r1 = removeNodeFromProcessing (r2\<lparr>ra_cidrSets := release_each (ra_cidrSets r2) cs\<rparr>) n" using u upd Inr by auto
        then show ?thesis
          using step' finish_item[OF _ I(1,3) W, of r1] F C(1,2) r0 by (simp add: removeNodeFromProcessing_def)
      next
        case 3
        obtain w2 pe where pa: "patch_attempts (PatchNodeCIDRs server_patch n (cidrsAsString cs)) cidrUpdateRetries w = (w2, pe)"
          by fastforce
        have r2: "ra_channel r2 = ch" "ra_nodesInProcessing r2 = ?proc" using C(1,2) r0 by simp_all
        note P = patch_turn_inv[OF W I node(1) 3(2) not_sym[OF 3(1), unfolded 3(2)] C4 r2 pa]
        show ?thesis
        proof (cases pe)
          case None
          then have "e = None" "w1 = w2" "r1 = removeNodeFromProcessing r2 n" using u upd Inr 3 pa node(2) by auto
          then show ?thesis using step' P(1) None by simp
        next
          case (Some x)
          let ?r = "RecordNodeStatusChange r2 n ''CIDRAssignmentFailed''"
          have "e \<noteq> None" "w1 = w2"
              "(r1, d) = (if last_is_timeout x then (?r, it\<lparr>nr_allocatedCIDRs := Some cs\<rparr>)
                 else (?r\<lparr>ra_cidrSets := release_each (ra_cidrSets ?r) cs\<rparr>, it\<lparr>nr_allocatedCIDRs := None\<rparr>))"
            using u upd Inr 3 pa node(2) Some by (auto split: if_splits)
          then show ?thesis
            using step' P(2)[OF Some _ n_def[symmetric], of r'] P(3)[OF Some _ n_def[symmetric], of r'] r2
            by (cases "last_is_timeout x") (auto simp: RecordNodeStatusChange_def)
        qed
      qed
    qed
  qed
qed

section \<open>Every step keeps the invariant\<close>

lemma sys_step_inv:
  assumes "sys_step (w, r) (w', r')" "sys_inv sh w r" "families_differ sh"
  shows "sys_inv sh w' r'"
  using assms(1)
proof cases
  case (create n node)
  have "holds w' (ra_channel r) a = holds w (ra_channel r) a" for a
    using create by (cases a) (auto simp: node_hold_def)
  then have "holds w' (ra_channel r) = holds w (ra_channel r)" ..
  then show ?thesis using create assms(2) by (auto simp: sys_inv_def names_ok_def)
next
  case (faults fs)
  have "holds w' (ra_channel r) a = holds w (ra_channel r) a" for a using faults by (cases a) auto
  then have "holds w' (ra_channel r) = holds w (ra_channel r)" ..
  then show ?thesis using faults assms(2) by (auto simp: sys_inv_def names_ok_def)
next
  case (added n node node' res)
  then show ?thesis using AllocateOrOccupyCIDR_inv[OF assms(2,3)] by blast
next
  case (updated n node node' res)
  then show ?thesis
    using AllocateOrOccupyCIDR_inv[OF assms(2,3), of n node node' r' res] assms(2)
    by (simp add: update_handler_def split: if_splits)
next
  case (work get)
  then show ?thesis using worker_inv[OF assms(2,3)] by blast
next
  case (delete n node)
  let ?H = "holds w (ra_channel r)"
  have I: "reserved sh (ra_cidrSets r) ?H" using assms(2) by (simp add: sys_inv_def)
  have H: "holds w' (ra_channel r) a = (if a = Assigned n then None else if a = Deleted n then ?H (Assigned n) else ?H a)" for a
    using delete by (cases a) (auto simp: node_hold_def)
  have "reserved sh (ra_cidrSets r) (holds w' (ra_channel r))"
  proof (cases "?H (Assigned n)")
    case None
    then have "holds w' (ra_channel r) = ?H" using H delete by (auto simp: fun_eq_iff node_hold_def)
    then show ?thesis using I by simp
  next
    case (Some h)
    then have "holds w' (ra_channel r) = (?H(Assigned n := None))(Deleted n \<mapsto> h)" using H by (auto simp: fun_eq_iff)
    then show ?thesis using reserved_move[OF I Some] by simp
  qed
  then show ?thesis using delete assms(2) by (auto simp: sys_inv_def names_ok_def)
next
  case (deleted n node res)
  then show ?thesis using ReleaseCIDR_inv[OF assms(2)] by blast
qed

lemma sys_reach_inv:
  assumes "sys_step\<^sup>*\<^sup>* x y" "sys_inv sh (fst x) (snd x)" "families_differ sh"
  shows "sys_inv sh (fst y) (snd y)"
  using assms
proof (induction rule: rtranclp_induct)
  case (step y z)
  then show ?case using sys_step_inv[of "fst y" "snd y" "fst z" "snd z" sh] by simp
qed

section \<open>Start\<close>

definition cluster_ok :: "shape \<Rightarrow> IPNet \<Rightarrow> bool" where
  "cluster_ok t n = (case t of (v, c, m) \<Rightarrow>
     net_ok v c n \<and> c \<le> m \<and> m \<le> fam_width v \<and> m - c \<le> (if v then 31 else 16))"

definition config_ok :: "shape list \<Rightarrow> CIDRAllocatorParams \<Rightarrow> bool" where
  "config_ok sh params \<longleftrightarrow>
     list_all2 cluster_ok sh (ClusterCIDRs params) \<and> NodeCIDRMaskSizes params = map (\<lambda>(v, c, m). int m) sh \<and>
     families_differ sh \<and>
     (\<forall>q. ServiceCIDR params = Some q \<or> SecondaryServiceCIDR params = Some q \<longrightarrow> (\<exists>v. net_good v q))"

lemma new_sets_ok:
  assumes "list_all2 cluster_ok sh clusters"
  shows "\<exists>sets. new_sets clusters (map (\<lambda>(v, c, m). int m) sh) = Inr sets \<and> sets_ok sh sets \<and> map clusterCIDR sets = clusters"
  using assms
proof (induction sh clusters)
  case (Cons t sh cl clusters)
  obtain v c m where t: "t = (v, c, m)" by (cases t) auto
  obtain s where "NewCIDRSet cl (int m) = Inr s" "cs_ok v c m s" "clusterCIDR s = cl"
    using NewCIDRSet_ok[of v c cl m] Cons.hyps(1) t by (auto simp: cluster_ok_def)
  then show ?case using Cons.IH t by (auto simp: sets_ok_def sh_ok_def)
qed (simp add: sets_ok_def)

lemma filterOutServiceRange_ok:
  assumes "sets_ok sh sets" "list_all2 (\<lambda>t cl. \<exists>k. net_ok (fst t) k cl) sh clusters" "net_good v q"
  shows "sets_ok sh (filterOutServiceRange clusters sets q)"
  using assms
proof (induction clusters sets q arbitrary: sh rule: filterOutServiceRange.induct)
  case (1 cl clusters s sets q)
  then obtain t sh' where sh: "sh = t # sh'" "sh_ok t s" "sets_ok sh' sets" by (auto simp: sets_ok_def list_all2_Cons2)
  then obtain k j where k: "net_ok (fst t) k cl" and j: "net_ok v j q" using "1.prems"(2,3) by (auto simp: net_good_def)
  obtain s' r where o: "Occupy s (Some q) = (s', r)" by fastforce
  have "sh_ok t (fst (Occupy s (Some q)))" if "fst t = v"
    using Occupy_held(1)[OF sh(2) _ o] "1.prems"(3) that o by simp
  moreover have "\<not> net_Contains cl (ip_Mask (ipn_IP q) (ipn_Mask cl))" "\<not> net_Contains q (ip_Mask (ipn_IP cl) (ipn_Mask q))"
    if "fst t \<noteq> v" using that foreign_not_contained[OF k, of j q] foreign_not_contained[OF j, of k cl] j k by (cases v; simp)+
  ultimately show ?case using "1.IH"[OF sh(3)] "1.prems" sh by (auto simp: sets_ok_def)
qed simp_all

lemma NewCIDRRangeAllocator_ok:
  assumes "config_ok sh params" "NewCIDRRangeAllocator params (Some []) = Inr r"
  shows "sets_ok sh (ra_cidrSets r)" "ra_channel r = []" "length (ra_cidrSets r) = length (ClusterCIDRs params)"
proof -
  have cl: "list_all2 cluster_ok sh (ClusterCIDRs params)" using assms(1) by (simp add: config_ok_def)
  obtain sets where sets: "new_sets (ClusterCIDRs params) (NodeCIDRMaskSizes params) = Inr sets" "sets_ok sh sets"
    using new_sets_ok[OF cl] assms(1) by (auto simp: config_ok_def)
  have fam: "list_all2 (\<lambda>t cl. \<exists>k. net_ok (fst t) k cl) sh (ClusterCIDRs params)"
    by (rule list_all2_mono[OF cl]) (auto simp: cluster_ok_def)
  have f: "sets_ok sh (case opt of None \<Rightarrow> ss | Some q \<Rightarrow> filterOutServiceRange (ClusterCIDRs params) ss q)"
    if "sets_ok sh ss" "\<And>q. opt = Some q \<Longrightarrow> \<exists>v. net_good v q" for opt ss
    using that filterOutServiceRange_ok[OF that(1) fam] by (cases opt) auto
  show ok: "sets_ok sh (ra_cidrSets r)"
    using assms sets f[OF f[OF sets(2), of "ServiceCIDR params"], of "SecondaryServiceCIDR params"]
    by (auto simp: NewCIDRRangeAllocator_def Let_def config_ok_def)
  show "ra_channel r = []" using assms(2) sets(1) by (auto simp: NewCIDRRangeAllocator_def Let_def)
  show "length (ra_cidrSets r) = length (ClusterCIDRs params)"
    using sets_ok_length[OF ok] list_all2_lengthD[OF cl] by simp
qed

lemma start_inv:
  assumes "config_ok sh params" "NewCIDRRangeAllocator params (Some []) = Inr r"
    "srv_nodes w = Map.empty" "srv_deleted w = Map.empty"
  shows "sys_inv sh w r" "families_differ sh"
proof -
  have "holds w [] a = None" for a using assms(3,4) by (cases a) (auto simp: node_hold_def)
  then show "sys_inv sh w r" "families_differ sh"
    using NewCIDRRangeAllocator_ok[OF assms(1,2)] assms(1,3)
    by (auto simp: sys_inv_def reserved_def items_ok_def names_ok_def config_ok_def)
qed

lemma held_share:
  assumes s: "sh_ok t s" and h: "held t s x" "held t s y" "x \<noteq> y"
  obtains p q where "ParseCIDR x = Some p" "ParseCIDR y = Some q" "\<not> share (fst t) p q"
proof -
  obtain p where p: "ParseCIDR x = Some p" "x = net_String p" "net_good (fst t) p" "net_blk p \<in> sh_taken t s"
    using held_ParseCIDR[OF h(1)] by blast
  obtain q where q: "ParseCIDR y = Some q" "y = net_String q" "net_good (fst t) q" "net_blk q \<in> sh_taken t s"
    using held_ParseCIDR[OF h(2)] by blast
  obtain k j where k: "net_ok (fst t) k p" "net_ok (fst t) j q" using p q by (auto simp: net_good_def)
  have "net_blk p \<noteq> net_blk q" using net_blk_inj[OF p(3) q(3)] p(2) q(2) h(3) by auto
  then have "\<not> comparable (net_blk p) (net_blk q)"
    using sh.universe_disjoint[OF s] sh.taken_universe[OF s] p(4) q(4) by blast
  then have "\<not> share (fst t) p q" using share_iff[OF k] net_blk[OF k(1)] net_blk[OF k(2)] by simp
  then show thesis using that p(1) q(1) by blast
qed

end
