(* ===== verification/CloudAllocator.thy ===== *)
theory CloudAllocator
  imports RangeAllocator "HOL-Library.AList"
begin

text \<open>
  \<open>pkg/nodeipam/ipam/cloud_cidr_allocator.go\<close>, the allocator that gives every node a pod CIDR of the size tagged on its
  scale set, with \<open>TaintExists\<close> (\<open>pkg/util/taints\<close>) and \<open>GetNodeCondition\<close> (\<open>pkg/util/controller/node\<close>). \<open>GetNodeCIDRMasksByProviderID\<close> of the VM set is an argument \<open>masks\<close> that
  yields the two sizes; the source logs its error and goes on with the values that came with it, so the argument is just
  those values. The maps indexed by node names are association lists in the order in which Go visits them.
\<close>

section \<open>Conditions and taints\<close>

fun find_condition :: "string \<Rightarrow> int \<Rightarrow> NodeCondition list \<Rightarrow> int \<times> NodeCondition option" where
  "find_condition t i [] = (- 1, None)"
| "find_condition t i (c # cs) = (if cond_Type c = t then (i, Some c) else find_condition t (i + 1) cs)"

definition GetNodeCondition :: "NodeCondition list option \<Rightarrow> string \<Rightarrow> int \<times> NodeCondition option" where
  "GetNodeCondition status conditionType =
     (case status of None \<Rightarrow> (- 1, None) | Some conditions \<Rightarrow> find_condition conditionType 0 conditions)"

definition MatchTaint :: "Taint \<Rightarrow> Taint \<Rightarrow> bool" where
  "MatchTaint t taintToMatch \<longleftrightarrow> taint_Key t = taint_Key taintToMatch \<and> taint_Effect t = taint_Effect taintToMatch"

fun TaintExists :: "Taint list \<Rightarrow> Taint \<Rightarrow> bool" where
  "TaintExists [] taintToFind = False"
| "TaintExists (taint # taints) taintToFind =
     (if MatchTaint taint taintToFind then True else TaintExists taints taintToFind)"

section \<open>State\<close>

definition DefaultNodeMaskCIDRIPv4 :: int where
  "DefaultNodeMaskCIDRIPv4 = 24"

definition DefaultNodeMaskCIDRIPv6 :: int where
  "DefaultNodeMaskCIDRIPv6 = 64"

record cloudCIDRAllocator =
  ca_channel :: "nodeReservedCIDRs list"
  ca_nodesInProcessing :: "string set"
  ca_nodeNameSubnetMaskSizesMap :: "(string \<times> int list) list"
  ca_maxSubnetMaskSizes :: "int list"
  ca_cidrSets :: "CidrSet list"
  ca_clusterCIDRs :: "IPNet list"
  ca_nodeNamePodCIDRsMap :: "(string \<times> string list) list"
  ca_events :: "(string \<times> string) list"

datatype ca_error =
    InvalidMaskSize string int string int
  | Range ra_error
  | Cidr cidr_error
  | CaApi api_error

definition ca_insertNodeToProcessing :: "cloudCIDRAllocator \<Rightarrow> string \<Rightarrow> cloudCIDRAllocator \<times> bool" where
  "ca_insertNodeToProcessing ca name =
     (if name \<in> ca_nodesInProcessing ca then (ca, False)
      else (ca\<lparr>ca_nodesInProcessing := insert name (ca_nodesInProcessing ca)\<rparr>, True))"

definition ca_removeNodeFromProcessing :: "cloudCIDRAllocator \<Rightarrow> string \<Rightarrow> cloudCIDRAllocator" where
  "ca_removeNodeFromProcessing ca name = ca\<lparr>ca_nodesInProcessing := ca_nodesInProcessing ca - {name}\<rparr>"

section \<open>Mask sizes\<close>

fun max_sizes :: "int list \<Rightarrow> int list \<Rightarrow> int list" where
  "max_sizes (m # ms) (z # zs) = (if m < z then z else m) # max_sizes ms zs"
| "max_sizes ms _ = ms"

definition updateMaxSubnetMaskSizes :: "cloudCIDRAllocator \<Rightarrow> cloudCIDRAllocator" where
  "updateMaxSubnetMaskSizes ca =
     ca\<lparr>ca_maxSubnetMaskSizes :=
         fold (\<lambda>(_, sizes) acc. max_sizes acc sizes) (ca_nodeNameSubnetMaskSizesMap ca)
           (replicate (length (ca_clusterCIDRs ca)) 0)\<rparr>"

fun mask_sizes :: "string \<Rightarrow> int \<Rightarrow> int \<Rightarrow> IPNet list \<Rightarrow> (ca_error, int list) result" where
  "mask_sizes nodeName ipv4Mask ipv6Mask [] = Inr []"
| "mask_sizes nodeName ipv4Mask ipv6Mask (cluster # clusters) =
     (let clusterMaskSize = fst (mask_Size (ipn_Mask cluster));
          (family, size) = (if IsIPv6CIDR (Some cluster) then (''ipv6'', ipv6Mask) else (''ipv4'', ipv4Mask))
      in if size < clusterMaskSize then Inl (InvalidMaskSize family size nodeName clusterMaskSize)
         else case mask_sizes nodeName ipv4Mask ipv6Mask clusters of
                Inl e \<Rightarrow> Inl e | Inr sizes \<Rightarrow> Inr (size # sizes))"

definition updateNodeSubnetMaskSizes ::
  "(string \<Rightarrow> int \<times> int) \<Rightarrow> cloudCIDRAllocator \<Rightarrow> string \<Rightarrow> string \<Rightarrow> cloudCIDRAllocator \<times> (ca_error, unit) result" where
  "updateNodeSubnetMaskSizes masks ca nodeName providerID =
     (let (v4, v6) = masks providerID;
          ipv4Mask = (if v4 = 0 then DefaultNodeMaskCIDRIPv4 else v4);
          ipv6Mask = (if v6 = 0 then DefaultNodeMaskCIDRIPv6 else v6)
      in case mask_sizes nodeName ipv4Mask ipv6Mask (ca_clusterCIDRs ca) of
           Inl e \<Rightarrow> (ca, Inl e)
         | Inr sizes \<Rightarrow>
             (ca\<lparr>ca_nodeNameSubnetMaskSizesMap := AList.update nodeName sizes (ca_nodeNameSubnetMaskSizesMap ca)\<rparr>,
              Inr ()))"

section \<open>Occupying and allocating\<close>

text \<open>The CIDRs of the node are marked as in the range allocator. When all could be marked they are recorded under the
  name of the node, padded with empty strings to one entry per cluster CIDR.\<close>

definition ca_occupyCIDRs :: "cloudCIDRAllocator \<Rightarrow> Node \<Rightarrow> cloudCIDRAllocator \<times> (ca_error, unit) result" where
  "ca_occupyCIDRs ca node =
     (if node_PodCIDRs node = [] then (ca_removeNodeFromProcessing ca (node_Name node), Inr ())
      else
        let podCIDRs = node_PodCIDRs node @
              replicate (length (ca_clusterCIDRs ca) - length (node_PodCIDRs node)) []
        in case occupy_from node 0 (node_PodCIDRs node) (ca_cidrSets ca) of
             (sets, Inl e) \<Rightarrow>
               (ca_removeNodeFromProcessing (ca\<lparr>ca_cidrSets := sets\<rparr>) (node_Name node), Inl (Range e))
           | (sets, Inr _) \<Rightarrow>
               (ca_removeNodeFromProcessing
                  (ca\<lparr>ca_cidrSets := sets,
                     ca_nodeNamePodCIDRsMap := AList.update (node_Name node) podCIDRs (ca_nodeNamePodCIDRsMap ca)\<rparr>)
                  (node_Name node), Inr ()))"

text \<open>\<open>UpdateSubnetMaskSize\<close> on every set, up to the first error.\<close>

fun update_sets ::
  "(string \<times> string list) list \<Rightarrow> int list \<Rightarrow> CidrSet list \<Rightarrow> CidrSet list \<times> (cidr_error, unit) result" where
  "update_sets pods (z # sizes) (s # sets) =
     (case UpdateSubnetMaskSize s z pods of
        (s', Inl e) \<Rightarrow> (s' # sets, Inl e)
      | (s', Inr _) \<Rightarrow> (case update_sets pods sizes sets of (sets', res) \<Rightarrow> (s' # sets', res)))"
| "update_sets pods _ sets = (sets, Inr ())"

text \<open>One block from every set. After an error the blocks already taken from earlier sets stay marked; \<open>None\<close> means that
  the search in a set does not end.\<close>

fun allocate_sizes ::
  "nat \<Rightarrow> int list \<Rightarrow> CidrSet list \<Rightarrow> (CidrSet list \<times> (ra_error, IPNet list) result) option" where
  "allocate_sizes i (z # sizes) (s # sets) =
     (case AllocateNextWithNodeMaskSize s z of
        None \<Rightarrow> None
      | Some (s', Inl e) \<Rightarrow> Some (s' # sets, Inl (AllocateAt i e))
      | Some (s', Inr podCIDR) \<Rightarrow>
          (case allocate_sizes (i + 1) sizes sets of
             None \<Rightarrow> None
           | Some (sets', Inl e) \<Rightarrow> Some (s' # sets', Inl e)
           | Some (sets', Inr cs) \<Rightarrow> Some (s' # sets', Inr (podCIDR # cs))))"
| "allocate_sizes i [] (s # sets) = Some (s # sets, Inl (RaPanic IndexOutOfRange))"
| "allocate_sizes i _ [] = Some ([], Inr [])"

definition ca_AllocateOrOccupyCIDR ::
  "(string \<Rightarrow> int \<times> int) \<Rightarrow> cloudCIDRAllocator \<Rightarrow> Node option \<Rightarrow>
   (cloudCIDRAllocator \<times> (ca_error, unit) result) option" where
  "ca_AllocateOrOccupyCIDR masks ca node0 =
     (case node0 of
        None \<Rightarrow> Some (ca, Inr ())
      | Some node \<Rightarrow>
          if node_ProviderID node = [] then Some (ca, Inr ())
          else
            let name = node_Name node in
            case ca_insertNodeToProcessing ca name of
              (ca, False) \<Rightarrow> Some (ca, Inr ())
            | (ca, True) \<Rightarrow>
                (case updateNodeSubnetMaskSizes masks ca name (node_ProviderID node) of
                   (ca, Inl e) \<Rightarrow> Some (ca, Inl e)
                 | (ca, Inr _) \<Rightarrow>
                     let ca = updateMaxSubnetMaskSizes ca in
                     case update_sets (ca_nodeNamePodCIDRsMap ca) (ca_maxSubnetMaskSizes ca) (ca_cidrSets ca) of
                       (sets, Inl e) \<Rightarrow>
                         Some (ca_removeNodeFromProcessing (ca\<lparr>ca_cidrSets := sets\<rparr>) name, Inl (Cidr e))
                     | (sets, Inr _) \<Rightarrow>
                         let ca = ca\<lparr>ca_cidrSets := sets\<rparr> in
                         if node_PodCIDRs node \<noteq> [] then Some (ca_occupyCIDRs ca node)
                         else
                           (case allocate_sizes 0
                                   (case map_of (ca_nodeNameSubnetMaskSizesMap ca) name of None \<Rightarrow> [] | Some zs \<Rightarrow> zs)
                                   (ca_cidrSets ca) of
                              None \<Rightarrow> None
                            | Some (sets, Inl e) \<Rightarrow>
                                Some ((ca_removeNodeFromProcessing (ca\<lparr>ca_cidrSets := sets\<rparr>) name)
                                        \<lparr>ca_events := ca_events ca @ [(name, ''CIDRNotAvailable'')]\<rparr>, Inl (Range e))
                            | Some (sets, Inr cs) \<Rightarrow>
                                Some (ca\<lparr>ca_cidrSets := sets,
                                         ca_channel := ca_channel ca @
                                           [\<lparr>nr_allocatedCIDRs = Some cs, nr_nodeName = name\<rparr>]\<rparr>, Inr ()))))"

definition ca_ReleaseCIDR :: "cloudCIDRAllocator \<Rightarrow> Node option \<Rightarrow> cloudCIDRAllocator \<times> (ca_error, unit) result" where
  "ca_ReleaseCIDR ca node0 =
     (case node0 of
        None \<Rightarrow> (ca, Inr ())
      | Some node \<Rightarrow>
          if node_PodCIDRs node = [] then (ca, Inr ())
          else
            (case release_from node 0 (node_PodCIDRs node) (ca_cidrSets ca) of
               (sets, Inl e) \<Rightarrow> (ca\<lparr>ca_cidrSets := sets\<rparr>, Inl (Range e))
             | (sets, Inr _) \<Rightarrow>
                 (ca\<lparr>ca_cidrSets := sets,
                    ca_nodeNamePodCIDRsMap := AList.delete (node_Name node) (ca_nodeNamePodCIDRsMap ca)\<rparr>, Inr ())))"

section \<open>Workers\<close>

text \<open>After the failed attempts the condition of the node is set in any case, and the error of that request, not the
  error of the patch, is what the caller sees. The item that the worker queues again is the one it received.\<close>

definition ca_updateCIDRsAllocation ::
  "lister \<Rightarrow> 'w patch \<Rightarrow> ('w \<Rightarrow> string \<Rightarrow> 'w \<times> api_error option) \<Rightarrow> 'w \<Rightarrow> cloudCIDRAllocator \<Rightarrow> nodeReservedCIDRs \<Rightarrow>
   'w \<times> cloudCIDRAllocator \<times> (ca_error, unit) result" where
  "ca_updateCIDRsAllocation get patch setCondition w ca0 data =
     (let name = nr_nodeName data; ca = ca_removeNodeFromProcessing ca0 name;
          cs = deref (nr_allocatedCIDRs data) []; cidrsString = cidrsAsString cs
      in case get name of
           Inl e \<Rightarrow> (w, ca, if IsNotFound e then Inr () else Inl (CaApi e))
         | Inr node \<Rightarrow>
             if node_PodCIDRs node = cidrsString then (w, ca, Inr ())
             else if node_PodCIDRs node \<noteq> [] then (w, ca\<lparr>ca_cidrSets := release_each (ca_cidrSets ca) cs\<rparr>, Inr ())
             else
               (case patch_attempts (PatchNodeCIDRs patch (node_Name node) cidrsString) cidrUpdateRetries w of
                  (w', None) \<Rightarrow> (w', ca, Inr ())
                | (w', Some e) \<Rightarrow>
                    let ca1 = ca\<lparr>ca_events := ca_events ca @ [(node_Name node, ''CIDRAssignmentFailed'')]\<rparr>;
                        ca2 = (if last_is_timeout e then ca1
                               else ca1\<lparr>ca_cidrSets := release_each (ca_cidrSets ca1) cs\<rparr>)
                    in (case setCondition w' (node_Name node) of
                          (w'', None) \<Rightarrow> (w'', ca2, Inr ())
                        | (w'', Some e') \<Rightarrow> (w'', ca2, Inl (CaApi e')))))"

definition ca_worker ::
  "lister \<Rightarrow> 'w patch \<Rightarrow> ('w \<Rightarrow> string \<Rightarrow> 'w \<times> api_error option) \<Rightarrow> 'w \<Rightarrow> cloudCIDRAllocator \<Rightarrow>
   'w \<times> cloudCIDRAllocator" where
  "ca_worker get patch setCondition w ca =
     (case ca_channel ca of
        [] \<Rightarrow> (w, ca)
      | workItem # rest \<Rightarrow>
          (case ca_updateCIDRsAllocation get patch setCondition w (ca\<lparr>ca_channel := rest\<rparr>) workItem of
             (w', ca', Inl _) \<Rightarrow> (w', ca'\<lparr>ca_channel := ca_channel ca' @ [workItem]\<rparr>)
           | (w', ca', Inr _) \<Rightarrow> (w', ca')))"

definition ca_update_handler ::
  "(string \<Rightarrow> int \<times> int) \<Rightarrow> cloudCIDRAllocator \<Rightarrow> Node \<Rightarrow> (cloudCIDRAllocator \<times> (ca_error, unit) result) option" where
  "ca_update_handler masks ca newNode =
     (if node_PodCIDR newNode = [] then ca_AllocateOrOccupyCIDR masks ca (Some newNode)
      else
        let networkUnavailableTaint = \<lparr>taint_Key = ''node.kubernetes.io/network-unavailable'', taint_Effect = ''NoSchedule''\<rparr>;
            cond = snd (GetNodeCondition (Some (node_Conditions newNode)) ''NetworkUnavailable'')
        in if (case cond of None \<Rightarrow> True | Some c \<Rightarrow> cond_Status c \<noteq> ConditionFalse) \<or>
              TaintExists (node_Taints newNode) networkUnavailableTaint
           then ca_AllocateOrOccupyCIDR masks ca (Some newNode) else Some (ca, Inr ()))"

section \<open>Construction\<close>

fun read_masks ::
  "(string \<Rightarrow> int \<times> int) \<Rightarrow> cloudCIDRAllocator \<Rightarrow> Node list \<Rightarrow> (ca_error, cloudCIDRAllocator) result" where
  "read_masks masks ca [] = Inr ca"
| "read_masks masks ca (node # nodes) =
     (if node_ProviderID node = [] then read_masks masks ca nodes
      else case updateNodeSubnetMaskSizes masks ca (node_Name node) (node_ProviderID node) of
             (_, Inl e) \<Rightarrow> Inl e
           | (ca', Inr _) \<Rightarrow> read_masks masks ca' nodes)"

fun ca_occupy_nodes :: "cloudCIDRAllocator \<Rightarrow> Node list \<Rightarrow> (ca_error, cloudCIDRAllocator) result" where
  "ca_occupy_nodes ca [] = Inr ca"
| "ca_occupy_nodes ca (node # nodes) =
     (if node_PodCIDRs node = [] then ca_occupy_nodes ca nodes
      else case ca_occupyCIDRs ca node of
             (_, Inl e) \<Rightarrow> Inl e
           | (ca', Inr _) \<Rightarrow> ca_occupy_nodes ca' nodes)"

definition NewCloudCIDRAllocator ::
  "(string \<Rightarrow> int \<times> int) \<Rightarrow> CIDRAllocatorParams \<Rightarrow> Node list option \<Rightarrow> (ca_error, cloudCIDRAllocator) result" where
  "NewCloudCIDRAllocator masks params nodeList =
     (let nodes = deref nodeList [];
          ca0 = \<lparr>ca_channel = [], ca_nodesInProcessing = {}, ca_nodeNameSubnetMaskSizesMap = [],
                 ca_maxSubnetMaskSizes = replicate (length (ClusterCIDRs params)) 0, ca_cidrSets = [],
                 ca_clusterCIDRs = ClusterCIDRs params, ca_nodeNamePodCIDRsMap = [], ca_events = []\<rparr>
      in case read_masks masks ca0 nodes of
           Inl e \<Rightarrow> Inl e
         | Inr ca1 \<Rightarrow>
             let ca2 = updateMaxSubnetMaskSizes ca1 in
             case new_sets (ClusterCIDRs params) (ca_maxSubnetMaskSizes ca2) of
               Inl e \<Rightarrow> Inl (Range e)
             | Inr sets \<Rightarrow>
                 let sets1 = (case ServiceCIDR params of None \<Rightarrow> sets
                              | Some c \<Rightarrow> filterOutServiceRange (ClusterCIDRs params) sets c);
                     sets2 = (case SecondaryServiceCIDR params of None \<Rightarrow> sets1
                              | Some c \<Rightarrow> filterOutServiceRange (ClusterCIDRs params) sets1 c)
                 in ca_occupy_nodes (ca2\<lparr>ca_cidrSets := sets2\<rparr>) nodes)"

end
