(* ===== verification/NodeIpam.thy ===== *)
theory NodeIpam
  imports CloudAllocator
begin

text \<open>
  Start-up of node IPAM: the flags read by \<open>startNodeIpamController\<close> (\<open>cmd/cloud-controller-manager/app/core.go\<close>), the
  checks of \<open>NewNodeIpamController\<close> (\<open>pkg/nodeipam/node_ipam_controller.go\<close>) and the choice of the allocator
  (\<open>pkg/nodeipam/ipam/cidr_allocator.go\<close>). \<open>klog.Fatal\<close>, which ends the process, is the error \<open>Fatal\<close>.
  \<open>ParseCIDRSloppy\<close> of \<open>k8s.io/utils/net\<close> and the list of nodes are arguments.
\<close>

datatype ipam_error =
    InvalidClusterCIDR nat
  | NotDualStack nat
  | TooManyClusters nat
  | ServicesNotDualStack
  | UnknownFamily
  | Fatal
  | ListNodes
  | InvalidAllocatorType string
  | FromRange ra_error
  | FromCloud ca_error
  | IpamPanic panic

datatype allocator = Range_Allocator rangeAllocator | Cloud_Allocator cloudCIDRAllocator

definition RangeAllocatorType :: string where
  "RangeAllocatorType = ''RangeAllocator''"

definition CloudAllocatorType :: string where
  "CloudAllocatorType = ''CloudAllocator''"

text \<open>\<open>New\<close> of \<open>cidr_allocator.go\<close>; \<open>nodeList\<close> is the result of \<open>listNodes\<close>, \<open>None\<close> when the grace period passes.\<close>

definition ipam_New ::
  "(string \<Rightarrow> int \<times> int) \<Rightarrow> Node list option \<Rightarrow> string \<Rightarrow> CIDRAllocatorParams \<Rightarrow> (ipam_error, allocator) result" where
  "ipam_New masks nodeList allocatorType params =
     (case nodeList of
        None \<Rightarrow> Inl ListNodes
      | Some nodes \<Rightarrow>
          if allocatorType = RangeAllocatorType then
            (case NewCIDRRangeAllocator params (Some nodes) of Inl e \<Rightarrow> Inl (FromRange e) | Inr r \<Rightarrow> Inr (Range_Allocator r))
          else if allocatorType = CloudAllocatorType then
            (case NewCloudCIDRAllocator masks params (Some nodes) of
               Inl e \<Rightarrow> Inl (FromCloud e) | Inr ca \<Rightarrow> Inr (Cloud_Allocator ca))
          else Inl (InvalidAllocatorType allocatorType))"

text \<open>Every cluster CIDR must not be smaller than the blocks taken from it.\<close>

fun check_masks :: "IPNet list \<Rightarrow> int list \<Rightarrow> (ipam_error, unit) result" where
  "check_masks [] sizes = Inr ()"
| "check_masks (cidr # cidrs) [] = Inl (IpamPanic IndexOutOfRange)"
| "check_masks (cidr # cidrs) (z # sizes) =
     (if z < fst (mask_Size (ipn_Mask cidr)) then Inl Fatal else check_masks cidrs sizes)"

definition NewNodeIpamController ::
  "(string \<Rightarrow> int \<times> int) \<Rightarrow> Node list option \<Rightarrow> IPNet list \<Rightarrow> IPNet option \<Rightarrow> IPNet option \<Rightarrow> int list \<Rightarrow> string \<Rightarrow>
   (ipam_error, allocator) result" where
  "NewNodeIpamController masks nodeList clusters serviceCIDR secondaryServiceCIDR nodeCIDRMaskSizes allocatorType =
     (case (if allocatorType \<noteq> CloudAllocatorType then
              if clusters = [] then Inl Fatal else check_masks clusters nodeCIDRMaskSizes
            else Inr ()) of
        Inl e \<Rightarrow> Inl e
      | Inr _ \<Rightarrow>
          ipam_New masks nodeList allocatorType
            \<lparr>ClusterCIDRs = clusters, ServiceCIDR = serviceCIDR, SecondaryServiceCIDR = secondaryServiceCIDR,
             NodeCIDRMaskSizes = nodeCIDRMaskSizes\<rparr>)"

section \<open>Flags\<close>

record NodeIPAMControllerConfiguration =
  cfg_ServiceCIDR :: string
  cfg_SecondaryServiceCIDR :: string
  cfg_NodeCIDRMaskSize :: "32 word"
  cfg_NodeCIDRMaskSizeIPv4 :: "32 word"
  cfg_NodeCIDRMaskSizeIPv6 :: "32 word"

definition setNodeCIDRMaskSizesDualStack :: "NodeIPAMControllerConfiguration \<Rightarrow> int \<times> int" where
  "setNodeCIDRMaskSizesDualStack cfg =
     ((if cfg_NodeCIDRMaskSizeIPv4 cfg \<noteq> 0 then sint (cfg_NodeCIDRMaskSizeIPv4 cfg) else DefaultNodeMaskCIDRIPv4),
      (if cfg_NodeCIDRMaskSizeIPv6 cfg \<noteq> 0 then sint (cfg_NodeCIDRMaskSizeIPv6 cfg) else DefaultNodeMaskCIDRIPv6))"

definition getNodeCIDRMaskSizes :: "IPNet list \<Rightarrow> int \<Rightarrow> int \<Rightarrow> int list" where
  "getNodeCIDRMaskSizes clusters maskSizeIPv4 maskSizeIPv6 =
     map (\<lambda>cluster. if IsIPv6CIDR (Some cluster) then maskSizeIPv6 else maskSizeIPv4) clusters"

fun ParseCIDRs :: "(string \<Rightarrow> IPNet option) \<Rightarrow> nat \<Rightarrow> string list \<Rightarrow> (ipam_error, IPNet list) result" where
  "ParseCIDRs sloppy i [] = Inr []"
| "ParseCIDRs sloppy i (s # ss) =
     (case sloppy s of
        None \<Rightarrow> Inl (InvalidClusterCIDR i)
      | Some c \<Rightarrow> (case ParseCIDRs sloppy (i + 1) ss of Inl e \<Rightarrow> Inl e | Inr cs \<Rightarrow> Inr (c # cs)))"

text \<open>\<open>IsDualStackCIDRs\<close>: both families occur; a network whose address has neither 4 nor 16 bytes is an error.\<close>

definition IsIPv4CIDR :: "IPNet \<Rightarrow> bool" where
  "IsIPv4CIDR n \<longleftrightarrow> To4 (ipn_IP n) \<noteq> None"

definition IsDualStackCIDRs :: "IPNet list \<Rightarrow> bool option" where
  "IsDualStackCIDRs cidrs =
     (if \<exists>c \<in> set cidrs. \<not> IsIPv4CIDR c \<and> \<not> IsIPv6CIDR (Some c) then None
      else Some ((\<exists>c \<in> set cidrs. IsIPv4CIDR c) \<and> (\<exists>c \<in> set cidrs. IsIPv6CIDR (Some c))))"

definition processCIDRs :: "(string \<Rightarrow> IPNet option) \<Rightarrow> string \<Rightarrow> (ipam_error, IPNet list \<times> bool) result" where
  "processCIDRs sloppy cidrsList =
     (case ParseCIDRs sloppy 0 (Split (TrimSpace cidrsList) '','') of
        Inl e \<Rightarrow> Inl e
      | Inr cidrs \<Rightarrow> Inr (cidrs, deref (IsDualStackCIDRs cidrs) False))"

text \<open>A service CIDR that does not parse is only logged.\<close>

definition service_cidr :: "string \<Rightarrow> IPNet option" where
  "service_cidr s = (if TrimSpace s \<noteq> [] then ParseCIDR s else None)"

definition startNodeIpamController ::
  "(string \<Rightarrow> IPNet option) \<Rightarrow> (string \<Rightarrow> int \<times> int) \<Rightarrow> Node list option \<Rightarrow>
   bool \<Rightarrow> string \<Rightarrow> string \<Rightarrow> NodeIPAMControllerConfiguration \<Rightarrow> (ipam_error, allocator option) result" where
  "startNodeIpamController sloppy masks nodeList allocateNodeCIDRs clusterFlag allocatorType cfg =
     (if \<not> allocateNodeCIDRs then Inr None
      else
        case processCIDRs sloppy clusterFlag of
          Inl e \<Rightarrow> Inl e
        | Inr (clusters, dualStack) \<Rightarrow>
            if 1 < length clusters \<and> \<not> dualStack then Inl (NotDualStack (length clusters))
            else if 2 < length clusters then Inl (TooManyClusters (length clusters))
            else
              let serviceCIDR = service_cidr (cfg_ServiceCIDR cfg);
                  secondaryServiceCIDR = service_cidr (cfg_SecondaryServiceCIDR cfg)
              in case (case (serviceCIDR, secondaryServiceCIDR) of
                         (Some a, Some b) \<Rightarrow>
                           (case IsDualStackCIDRs [a, b] of
                              None \<Rightarrow> Some UnknownFamily
                            | Some dual \<Rightarrow> if dual then None else Some ServicesNotDualStack)
                       | _ \<Rightarrow> None) of
                   Some e \<Rightarrow> Inl e
                 | None \<Rightarrow>
                     let (v4, v6) = setNodeCIDRMaskSizesDualStack cfg
                     in case NewNodeIpamController masks nodeList clusters serviceCIDR secondaryServiceCIDR
                               (getNodeCIDRMaskSizes clusters v4 v6) allocatorType of
                          Inl e \<Rightarrow> Inl e
                        | Inr a \<Rightarrow> Inr (Some a))"

end
