(* ===== verification/AllocatorProperties.thy ===== *)
theory AllocatorProperties
  imports RangeSafety NodeIpam
begin

text \<open>
  Properties of the two allocators of node IPAM and of their start: no two nodes get overlapping pod CIDRs, a node gets
  its CIDRs when the API answers, what the start-up checks guarantee, and the error paths on which reservations leak, a
  node stays locked out, or a released CIDR is assigned.
\<close>

section \<open>The range allocator\<close>

definition has_room :: "shape list \<Rightarrow> CidrSet list \<Rightarrow> bool" where
  "has_room sh sets \<longleftrightarrow>
     (\<forall>i < length sets. sh_taken (sh ! i) (sets ! i) \<noteq> sh_universe (sh ! i) (sets ! i))"

lemma allocate_from_free:
  assumes "sets_ok sh sets" "length acc = idx" "idx \<le> length sets"
    "\<forall>i < length sets. idx \<le> i \<longrightarrow> sh_taken (sh ! i) (sets ! i) \<noteq> sh_universe (sh ! i) (sets ! i)"
  shows "\<exists>sets' cs. allocate_from idx acc sets = (sets', Inr cs) \<and> length cs = length sets"
  using assms
proof (induction "length sets - idx" arbitrary: idx acc sets)
  case 0
  then show ?case by (simp add: allocate_from.simps[of idx acc sets])
next
  case (Suc d)
  then have i: "idx < length sets" by simp
  obtain s b where a: "AllocateNext (sets ! idx) = (s, Inr b)" "sh_ok (sh ! idx) s"
    using sh.alloc_fresh[OF sets_ok_nth[OF Suc.prems(1) i]] Suc.prems(4) i by blast
  have "sets_ok sh (sets[idx := s])" using sets_ok_update[OF Suc.prems(1)] a(2) by blast
  then have "\<exists>sets' cs. allocate_from (idx + 1) (acc @ [b]) (sets[idx := s]) = (sets', Inr cs) \<and>
      length cs = length (sets[idx := s])"
    using Suc.hyps(1)[of "sets[idx := s]" "idx + 1" "acc @ [b]"] Suc.hyps(2) Suc.prems i by simp
  then show ?case using i a(1) by (simp add: allocate_from.simps[of idx acc sets])
qed

text \<open>Adding a node queues it with one CIDR of every set.\<close>

lemma AllocateOrOccupyCIDR_queues:
  assumes "sets_ok sh (ra_cidrSets r)" "has_room sh (ra_cidrSets r)" "node_Name node \<notin> ra_nodesInProcessing r"
    "node_PodCIDRs node = []" "ra_cidrSets r \<noteq> []"
  shows "\<exists>r' cs. AllocateOrOccupyCIDR r (Some node) = (r', Inr ()) \<and> length cs = length (ra_cidrSets r) \<and>
     ra_channel r' = ra_channel r @ [\<lparr>nr_allocatedCIDRs = Some cs, nr_nodeName = node_Name node\<rparr>] \<and>
     ra_nodesInProcessing r' = insert (node_Name node) (ra_nodesInProcessing r)"
proof -
  obtain sets cs where "allocate_from 0 [] (ra_cidrSets r) = (sets, Inr cs)" "length cs = length (ra_cidrSets r)"
    using allocate_from_free[OF assms(1), of "[]" 0] assms(2) by (auto simp: has_room_def)
  then show ?thesis
    using assms(3,4) by (auto simp: AllocateOrOccupyCIDR_def insertNodeToProcessing_def allocatePodCIDRs_def)
qed

text \<open>Fewer faults than attempts do not matter.\<close>

lemma attempts_overcome:
  assumes "srv_nodes w n = Some node" "cs \<noteq> []" "srv_faults w = map Some es @ None # fs" "length es \<le> k"
  shows "\<exists>w'. patch_attempts (PatchNodeCIDRs server_patch n cs) (Suc k) w = (w', None)"
  using assms
proof (induction es arbitrary: w k)
  case Nil
  then show ?case by (cases cs) (auto simp: PatchNodeCIDRs_def server_patch_def)
next
  case (Cons e es)
  then obtain k' c cs' where k: "k = Suc k'" "cs = c # cs'" by (cases k; cases cs; auto)
  have "PatchNodeCIDRs server_patch n cs w = (w\<lparr>srv_faults := map Some es @ None # fs\<rparr>, Some (Api (FailedToPatch e)))"
    using Cons.prems(3) k by (simp add: PatchNodeCIDRs_def server_patch_def)
  moreover have "\<exists>w'. patch_attempts (PatchNodeCIDRs server_patch n cs) (Suc k') (w\<lparr>srv_faults := map Some es @ None # fs\<rparr>) = (w', None)"
    by (rule Cons.IH) (use Cons.prems k in simp_all)
  ultimately show ?case using k by simp
qed

section \<open>An example cluster\<close>

text \<open>The cluster CIDR 10.0.0.0/16 in blocks of 18 bits; the first block belongs to the services.\<close>

definition ex_params :: CIDRAllocatorParams where
  "ex_params = \<lparr>
     ClusterCIDRs = [\<lparr>ipn_IP = [10, 0, 0, 0], ipn_Mask = [0xff, 0xff, 0, 0]\<rparr>],
     ServiceCIDR = Some \<lparr>ipn_IP = [10, 0, 0, 0], ipn_Mask = [0xff, 0xff, 0xff, 0]\<rparr>,
     SecondaryServiceCIDR = None,
     NodeCIDRMaskSizes = [18]\<rparr>"

definition ex_shapes :: "shape list" where
  "ex_shapes = [(True, 16, 18)]"

definition ex_node :: "string \<Rightarrow> Node" where
  "ex_node n = \<lparr>node_Name = n, node_ProviderID = ''id'', node_PodCIDR = [], node_PodCIDRs = [], node_Taints = [],
     node_Conditions = []\<rparr>"

definition ex_server :: "Node list \<Rightarrow> server" where
  "ex_server nodes = \<lparr>srv_nodes = map_of (map (\<lambda>x. (node_Name x, x)) nodes), srv_deleted = Map.empty, srv_faults = []\<rparr>"

definition ex_lister :: "server \<Rightarrow> lister" where
  "ex_lister w n = (case srv_nodes w n of None \<Rightarrow> Inl NotFound | Some node \<Rightarrow> Inr node)"

lemma reads_ex_lister: "reads (ex_lister w) w"
  by (auto simp: reads_def ex_lister_def split: option.splits)

lemma ex_work: "sys_step (w, r) (worker (ex_lister w) server_patch w r)"
  by (cases "worker (ex_lister w) server_patch w r") (simp add: work[OF reads_ex_lister])

lemma ex_config_ok: "config_ok ex_shapes ex_params"
proof -
  have "net_ok True 24 \<lparr>ipn_IP = [10, 0, 0, 0], ipn_Mask = [0xff, 0xff, 0xff, 0]\<rparr>" by code_simp
  moreover have "families_differ ex_shapes" by (auto simp: families_differ_def ex_shapes_def less_Suc_eq)
  ultimately show ?thesis
    using example_clusters
    by (auto simp: config_ok_def ex_shapes_def ex_params_def cluster_ok_def fam_width_def net_good_def)
qed

definition ex_ra :: rangeAllocator where
  "ex_ra = projr (NewCIDRRangeAllocator ex_params (Some []))"

lemma ex_ra_new: "NewCIDRRangeAllocator ex_params (Some []) = Inr ex_ra"
proof -
  have "isl (NewCIDRRangeAllocator ex_params (Some [])) = False" by code_simp
  then show ?thesis by (cases "NewCIDRRangeAllocator ex_params (Some [])") (simp_all add: ex_ra_def)
qed

section \<open>Properties\<close>




lemma ex_ra_room: "sets_ok ex_shapes (ra_cidrSets ex_ra)" "has_room ex_shapes (ra_cidrSets ex_ra)"
proof -
  show ok: "sets_ok ex_shapes (ra_cidrSets ex_ra)" by (rule NewCIDRRangeAllocator_ok(1)[OF ex_config_ok ex_ra_new])
  have l: "length (ra_cidrSets ex_ra) = 1"
    using NewCIDRRangeAllocator_ok(3)[OF ex_config_ok ex_ra_new] by (simp add: ex_params_def)
  have "isl (snd (AllocateNext (ra_cidrSets ex_ra ! 0))) = False" by code_simp
  then have "sh_taken (ex_shapes ! 0) (ra_cidrSets ex_ra ! 0) \<noteq> sh_universe (ex_shapes ! 0) (ra_cidrSets ex_ra ! 0)"
    using sh.alloc_full[OF sets_ok_nth[OF ok]] l by fastforce
  then show "has_room ex_shapes (ra_cidrSets ex_ra)" using l by (simp add: has_room_def)
qed


text \<open>C13. An allocation that fails half way leaks. With an IPv4 set that has a free block and an IPv6 set that is full,
  \<open>allocatePodCIDRs\<close> fails at index 1 and the block taken from the IPv4 set stays marked: the loop that should give it
  back calls \<open>Release\<close> on the set that failed.\<close>

theorem allocatePodCIDRs_leaks:
  assumes "cs_ok True c m s4" "cs_taken c m s4 \<noteq> cs_universe c m s4"
    "cs_ok False c' m' s6" "cs_taken c' m' s6 = cs_universe c' m' s6" "ra_cidrSets r = [s4, s6]"
  shows "\<exists>s b. allocatePodCIDRs r = (r\<lparr>ra_cidrSets := [s, s6]\<rparr>, Inl (AllocateAt 1 ErrCIDRRangeNoCIDRsRemaining)) \<and>
    b \<notin> cs_taken c m s4 \<and> cs_taken c m s = insert b (cs_taken c m s4)"
proof -
  obtain s b where a: "AllocateNext s4 = (s, Inr b)" "net_good True b" "net_blk b \<notin> cs_taken c m s4"
      "cs_taken c m s = insert (net_blk b) (cs_taken c m s4)"
    using cs.alloc_fresh[OF assms(1,2)] by blast
  have full: "AllocateNext s6 = (s6, Inl ErrCIDRRangeNoCIDRsRemaining)" by (rule cs.alloc_full[OF assms(3,4)])
  have "fst (Release s6 (Some b)) = s6"
    using Release_foreign[of "(False, c', m')" s6 b] assms(3) a(2) by (simp add: sh_ok_def)
  then have "allocate_from 1 [b] [s, s6] = ([s, s6], Inl (AllocateAt 1 ErrCIDRRangeNoCIDRsRemaining))"
    using full by (simp add: allocate_from.simps[of "Suc 0"])
  then have "allocate_from 0 [] [s4, s6] = ([s, s6], Inl (AllocateAt 1 ErrCIDRRangeNoCIDRsRemaining))"
    using a(1) by (simp add: allocate_from.simps[of 0])
  then show ?thesis using a assms(5) by (auto simp: allocatePodCIDRs_def)
qed

theorem allocatePodCIDRs_leaks_witness:
  "\<exists>s4 s6 s b. allocatePodCIDRs (ex_ra\<lparr>ra_cidrSets := [s4, s6]\<rparr>) =
      (ex_ra\<lparr>ra_cidrSets := [s, s6]\<rparr>, Inl (AllocateAt 1 ErrCIDRRangeNoCIDRsRemaining)) \<and>
    b \<notin> cs_taken 16 18 s4 \<and> cs_taken 16 18 s = insert b (cs_taken 16 18 s4)"
proof -
  obtain s4 where s4: "cs_ok True 16 18 s4" "in_use s4 = {}" using example_set4 by blast
  obtain s where s: "cs_ok False 56 56 s" "in_use s = {}"
    using NewCIDRSet_ok[OF example_clusters(2), of 56] by (auto simp: fam_width_def)
  obtain s6 i where s6: "cs_ok False 56 56 s6" "in_use s6 = insert i (in_use s)" "i < 2 ^ (56 - 56)"
    using AllocateNext_ok(2)[OF s(1)] s(2) by auto
  have full: "cs_taken 56 56 s6 = cs_universe 56 56 s6"
    using s6(2,3) s(2) taken_eq_universe[OF cs_okD(2)[OF s6(1)]] by auto
  have room: "cs_taken 16 18 s4 \<noteq> cs_universe 16 18 s4"
  proof -
    have "(0 :: nat) \<in> {..<2 ^ (18 - 16)}" by simp
    then have "in_use s4 \<noteq> {..<2 ^ (18 - 16)}" using s4(2) by blast
    then show ?thesis using taken_eq_universe[OF cs_okD(2)[OF s4(1)]] by blast
  qed
  obtain s' b where "allocatePodCIDRs (ex_ra\<lparr>ra_cidrSets := [s4, s6]\<rparr>) =
      (ex_ra\<lparr>ra_cidrSets := [s', s6]\<rparr>, Inl (AllocateAt 1 ErrCIDRRangeNoCIDRsRemaining))"
      "b \<notin> cs_taken 16 18 s4" "cs_taken 16 18 s' = insert b (cs_taken 16 18 s4)"
    using allocatePodCIDRs_leaks[OF s4(1) room s6(1) full, of "ex_ra\<lparr>ra_cidrSets := [s4, s6]\<rparr>"] by auto
  then show ?thesis by blast
qed

section \<open>The cloud allocator\<close>

text \<open>A cloud allocator with one block queued for node \<open>a\<close>.\<close>

definition ex_ca :: cloudCIDRAllocator where
  "ex_ca = \<lparr>ca_channel = [\<lparr>nr_allocatedCIDRs = Some [\<lparr>ipn_IP = [10, 0, 64, 0], ipn_Mask = [0xff, 0xff, 0xc0, 0]\<rparr>],
                           nr_nodeName = ''a''\<rparr>],
     ca_nodesInProcessing = {''a''}, ca_nodeNameSubnetMaskSizesMap = [(''a'', [18])], ca_maxSubnetMaskSizes = [18],
     ca_cidrSets = ra_cidrSets ex_ra, ca_clusterCIDRs = ClusterCIDRs ex_params, ca_nodeNamePodCIDRsMap = [],
     ca_events = []\<rparr>"



text \<open>A released CIDR stays queued. When all attempts to patch the node fail with an error that is not a timeout and
  setting the condition fails too, the CIDRs of the item are released, yet the same item is queued again: the next turn
  may assign blocks that are free for other nodes.\<close>

theorem cloud_requeues_released:
  assumes "ca_channel ca = it # rest" "nr_allocatedCIDRs it = Some cs" "sets_ok sh (ca_cidrSets ca)"
    "length cs = length (ca_cidrSets ca)" "\<forall>j < length cs. net_good (fst (sh ! j)) (cs ! j)"
    "get (nr_nodeName it) = Inr node" "node_PodCIDRs node = []" "cs \<noteq> []"
    "\<forall>w n c ds. patch w n c ds = (w, Some (OtherApiError msg))" "setCondition w (node_Name node) = (w', Some e)"
    "ca_worker get patch setCondition w ca = (w'', ca')"
  shows "ca_channel ca' = rest @ [it] \<and>
    (\<forall>i < length cs. net_blk (cs ! i) \<notin> sh_taken (sh ! i) (ca_cidrSets ca' ! i))"
proof -
  have "PatchNodeCIDRs patch (node_Name node) (cidrsAsString cs) v = (v, Some (Api (FailedToPatch (OtherApiError msg))))" for v
    using assms(8,9) by (cases cs) (auto simp: PatchNodeCIDRs_def cidrsAsString_def)
  then have p: "patch_attempts (PatchNodeCIDRs patch (node_Name node) (cidrsAsString cs)) cidrUpdateRetries w =
      (w, Some (Api (FailedToPatch (OtherApiError msg))))"
    by (simp add: cidrUpdateRetries_def eval_nat_numeral)
  have "cidrsAsString cs \<noteq> []" using assms(8) by (simp add: cidrsAsString_def)
  then have ca': "ca_cidrSets ca' = release_each (ca_cidrSets ca) cs" "ca_channel ca' = rest @ [it]"
    using assms(1,2,6,7,10,11) p
    by (auto simp: ca_worker_def ca_updateCIDRsAllocation_def Let_def last_is_timeout_def ca_removeNodeFromProcessing_def)
  have "net_blk (cs ! i) \<notin> sh_taken (sh ! i) (ca_cidrSets ca' ! i)" if i: "i < length cs" for i
  proof -
    have ok: "sh_ok (sh ! i) (ca_cidrSets ca ! i)" using sets_ok_nth[OF assms(3)] i assms(4) by simp
    obtain s r where R: "Release (ca_cidrSets ca ! i) (Some (cs ! i)) = (s, r)" by fastforce
    have g: "net_good (fst (sh ! i)) (cs ! i)" using assms(5) i by simp
    have "ca_cidrSets ca' ! i = s" using release_each_nth[OF assms(4)] ca'(1) i assms(4) R by simp
    moreover have "comparable (net_blk (cs ! i)) (net_blk (cs ! i))" by (simp add: comparable_def)
    ultimately show ?thesis using sh.release_frees[OF ok g R] sh.taken_universe[OF ok] by blast
  qed
  then show ?thesis using ca'(2) by blast
qed

theorem cloud_requeues_released_witness:
  "\<exists>w'' ca'. ca_worker (\<lambda>_. Inr (ex_node ''a'')) (\<lambda>w _ _ _. (w, Some (OtherApiError ''x''))) (\<lambda>w _. (w, Some ServerTimeout))
      (0 :: nat) ex_ca = (w'', ca') \<and> ca_channel ca' = ca_channel ex_ca \<and>
    net_blk \<lparr>ipn_IP = [10, 0, 64, 0], ipn_Mask = [0xff, 0xff, 0xc0, 0]\<rparr> \<notin> sh_taken (True, 16, 18) (ca_cidrSets ca' ! 0)"
proof -
  let ?b = "\<lparr>ipn_IP = [10, 0, 64, 0], ipn_Mask = [0xff, 0xff, 0xc0, 0]\<rparr>"
  obtain w'' ca' where c: "ca_worker (\<lambda>_. Inr (ex_node ''a'')) (\<lambda>w _ _ _. (w, Some (OtherApiError ''x'')))
      (\<lambda>w _. (w, Some ServerTimeout)) (0 :: nat) ex_ca = (w'', ca')" by fastforce
  have "net_ok True 18 ?b" by code_simp
  then have g: "\<forall>j < length [?b]. net_good (fst (ex_shapes ! j)) ([?b] ! j)" by (auto simp: ex_shapes_def net_good_def)
  have l: "length (ra_cidrSets ex_ra) = 1"
    using NewCIDRRangeAllocator_ok(3)[OF ex_config_ok ex_ra_new] by (simp add: ex_params_def)
  have "sets_ok ex_shapes (ca_cidrSets ex_ca)" using ex_ra_room(1) by (simp add: ex_ca_def)
  from cloud_requeues_released[OF _ _ this _ g _ _ _ _ _ c, of _ "[]" "ex_node ''a''" "''x''" 0 ServerTimeout]
  show ?thesis using c l by (auto simp: ex_ca_def ex_node_def ex_shapes_def)
qed

section \<open>Start-up\<close>

lemma check_masks_ok:
  "check_masks cs (map f cs) = Inr () \<Longrightarrow> c \<in> set cs \<Longrightarrow> fst (mask_Size (ipn_Mask c)) \<le> f c"
  by (induction cs) (auto split: if_splits)

lemma dual_stack_two:
  "length cs = 2 \<Longrightarrow> deref (IsDualStackCIDRs cs) False \<Longrightarrow> IsIPv4CIDR (cs ! 0) \<noteq> IsIPv4CIDR (cs ! 1)"
  by (auto simp: IsDualStackCIDRs_def IsIPv4CIDR_def IsIPv6CIDR_def numeral_eq_Suc length_Suc_conv split: if_splits)

text \<open>C15. What the start-up checks guarantee. A range allocator that starts has one cluster CIDR, or two of different
  families, and no cluster CIDR is smaller than the blocks taken from it.\<close>

theorem startNodeIpamController_checks:
  assumes "startNodeIpamController sloppy masks nodes True clusterFlag RangeAllocatorType cfg = Inr (Some (Range_Allocator r))"
  shows "\<exists>clusters. ParseCIDRs sloppy 0 (Split (TrimSpace clusterFlag) '','') = Inr clusters \<and>
    length clusters \<in> {1, 2} \<and>
    (length clusters = 2 \<longrightarrow> IsIPv4CIDR (clusters ! 0) \<noteq> IsIPv4CIDR (clusters ! 1)) \<and>
    (\<forall>c \<in> set clusters. fst (mask_Size (ipn_Mask c)) \<le>
       (if IsIPv6CIDR (Some c) then snd else fst) (setNodeCIDRMaskSizesDualStack cfg))"
proof -
  obtain clusters where p: "ParseCIDRs sloppy 0 (Split (TrimSpace clusterFlag) '','') = Inr clusters"
    using assms by (cases "ParseCIDRs sloppy 0 (Split (TrimSpace clusterFlag) '','')")
      (simp_all add: startNodeIpamController_def processCIDRs_def)
  let ?sizes = "getNodeCIDRMaskSizes clusters (fst (setNodeCIDRMaskSizesDualStack cfg)) (snd (setNodeCIDRMaskSizesDualStack cfg))"
  obtain sc sc2 where n: "\<not> (1 < length clusters \<and> \<not> deref (IsDualStackCIDRs clusters) False)" "\<not> 2 < length clusters"
      "NewNodeIpamController masks nodes clusters sc sc2 ?sizes RangeAllocatorType = Inr (Range_Allocator r)"
    using assms p
    by (auto simp: startNodeIpamController_def processCIDRs_def Let_def split: if_splits option.splits sum.splits prod.splits)
  then have c: "clusters \<noteq> []" "check_masks clusters ?sizes = Inr ()"
    by (auto simp: NewNodeIpamController_def RangeAllocatorType_def CloudAllocatorType_def split: if_splits sum.splits)
  have "length clusters \<noteq> 0" using c(1) by simp
  then have "length clusters = 1 \<or> length clusters = 2" using n(2) by linarith
  then have "length clusters \<in> {1, 2}" by simp
  moreover have "fst (mask_Size (ipn_Mask c)) \<le> (if IsIPv6CIDR (Some c) then snd else fst) (setNodeCIDRMaskSizesDualStack cfg)"
    if "c \<in> set clusters" for c
    using check_masks_ok[OF c(2)[unfolded getNodeCIDRMaskSizes_def] that] by (simp split: if_splits)
  ultimately show ?thesis using p dual_stack_two[of clusters] n(1) by auto
qed

theorem startNodeIpamController_checks_witness:
  "\<exists>r clusters. startNodeIpamController ParseCIDR (\<lambda>_. (0, 0)) (Some []) True ''10.0.0.0/16'' RangeAllocatorType
      \<lparr>cfg_ServiceCIDR = [], cfg_SecondaryServiceCIDR = [], cfg_NodeCIDRMaskSize = 0, cfg_NodeCIDRMaskSizeIPv4 = 18,
       cfg_NodeCIDRMaskSizeIPv6 = 0\<rparr> = Inr (Some (Range_Allocator r)) \<and>
    ParseCIDRs ParseCIDR 0 (Split (TrimSpace ''10.0.0.0/16'') '','') = Inr clusters \<and> length clusters \<in> {1, 2}"
proof -
  let ?s = "startNodeIpamController ParseCIDR (\<lambda>_. (0, 0)) (Some []) True ''10.0.0.0/16'' RangeAllocatorType
      \<lparr>cfg_ServiceCIDR = [], cfg_SecondaryServiceCIDR = [], cfg_NodeCIDRMaskSize = 0, cfg_NodeCIDRMaskSizeIPv4 = 18,
       cfg_NodeCIDRMaskSizeIPv6 = 0\<rparr>"
  have "(case ?s of Inr (Some (Range_Allocator _)) \<Rightarrow> True | _ \<Rightarrow> False)" by code_simp
  then obtain r where r: "?s = Inr (Some (Range_Allocator r))" by (auto split: sum.splits option.splits allocator.splits)
  from startNodeIpamController_checks[OF r] r show ?thesis by blast
qed

end
