(* ===== verification/FnUtil.thy ===== *)
theory FnUtil
  imports GoStrings
begin

text \<open>
  The generic collection helpers of \<open>pkg/util/collectionutil/slice.go\<close> (package \<open>fnutil\<close>) and
  the case-insensitive string set of \<open>pkg/util/sets/string.go\<close>. Each loop over a slice is a
  recursion with the loop's accumulator. The facts at the end say what the loops compute.
\<close>

section \<open>Slices\<close>

fun Map :: "('a \<Rightarrow> 'b) \<Rightarrow> 'a list \<Rightarrow> 'b list" where
  "Map f [] = []"
| "Map f (x # xs) = f x # Map f xs"

fun Filter_loop :: "('a \<Rightarrow> bool) \<Rightarrow> 'a list \<Rightarrow> 'a list \<Rightarrow> 'a list" where
  "Filter_loop f rv [] = rv"
| "Filter_loop f rv (x # xs) = Filter_loop f (if f x then rv @ [x] else rv) xs"

definition Filter :: "('a \<Rightarrow> bool) \<Rightarrow> 'a list \<Rightarrow> 'a list" where
  "Filter f xs = Filter_loop f [] xs"

definition RemoveIf :: "('a \<Rightarrow> bool) \<Rightarrow> 'a list \<Rightarrow> 'a list" where
  "RemoveIf f xs = Filter_loop (\<lambda>x. \<not> f x) [] xs"

fun IsAll :: "('a \<Rightarrow> bool) \<Rightarrow> 'a list \<Rightarrow> bool" where
  "IsAll f [] = True"
| "IsAll f (x # xs) = (if \<not> f x then False else IsAll f xs)"

section \<open>Index sets\<close>

text \<open>\<open>IndexSetWithComparableIndex\<close>: a map from the hash code of an element to the element.\<close>

record ('i, 'd) IndexSetWithComparableIndex =
  hashCode :: "'d \<Rightarrow> 'i"
  index_data :: "'i \<rightharpoonup> 'd"

fun index_fill :: "('d \<Rightarrow> 'i) \<Rightarrow> 'd list \<Rightarrow> ('i \<rightharpoonup> 'd) \<Rightarrow> ('i \<rightharpoonup> 'd)" where
  "index_fill h [] m = m"
| "index_fill h (x # xs) m = index_fill h xs (m(h x \<mapsto> x))"

definition NewIndexSetWithComparableIndex ::
  "('d \<Rightarrow> 'i) \<Rightarrow> 'd list \<Rightarrow> ('i, 'd) IndexSetWithComparableIndex" where
  "NewIndexSetWithComparableIndex h xs =
     \<lparr>hashCode = h, index_data = index_fill h xs Map.empty\<rparr>"

definition IndexSet :: "'d list \<Rightarrow> ('d, 'd) IndexSetWithComparableIndex" where
  "IndexSet xs = NewIndexSetWithComparableIndex (\<lambda>d. d) xs"

definition index_Contains :: "('i, 'd) IndexSetWithComparableIndex \<Rightarrow> 'd \<Rightarrow> bool" where
  "index_Contains xs d = (index_data xs (hashCode xs d) \<noteq> None)"

definition index_Intersection :: "('i, 'd) IndexSetWithComparableIndex \<Rightarrow> 'd list \<Rightarrow> 'd list" where
  "index_Intersection xs ys = Filter_loop (index_Contains xs) [] ys"

definition SubtractedBy :: "('i, 'd) IndexSetWithComparableIndex \<Rightarrow> 'd list \<Rightarrow> 'd list" where
  "SubtractedBy xs ys = Filter_loop (\<lambda>y. \<not> index_Contains xs y) [] ys"

definition Intersection :: "'d list \<Rightarrow> 'd list \<Rightarrow> 'd list" where
  "Intersection xs ys = index_Intersection (IndexSet xs) ys"

section \<open>Case-insensitive sets\<close>

text \<open>\<open>IgnoreCaseSet\<close>: a nil pointer and a nil inner set both read as "not initialized" and are
  \<open>None\<close> here.\<close>

type_synonym IgnoreCaseSet = "string set option"

definition Initialized :: "IgnoreCaseSet \<Rightarrow> bool" where
  "Initialized s = (s \<noteq> None)"

definition NewString :: "string list \<Rightarrow> IgnoreCaseSet" where
  "NewString items = Some (set (map ToLower items))"

text \<open>\<open>Insert\<close> on a set that is not initialized writes to a nil map, which panics: \<open>None\<close>.\<close>

fun set_Insert :: "IgnoreCaseSet \<Rightarrow> string list \<Rightarrow> IgnoreCaseSet option" where
  "set_Insert None [] = Some None"
| "set_Insert None (i # is) = None"
| "set_Insert (Some s) items = Some (Some (s \<union> set (map ToLower items)))"

definition SafeInsert :: "IgnoreCaseSet \<Rightarrow> string list \<Rightarrow> IgnoreCaseSet" where
  "SafeInsert s items =
     (case s of None \<Rightarrow> NewString items | Some _ \<Rightarrow> the (set_Insert s items))"

definition set_Has :: "IgnoreCaseSet \<Rightarrow> string \<Rightarrow> bool" where
  "set_Has s item = (case s of None \<Rightarrow> False | Some x \<Rightarrow> ToLower item \<in> x)"

definition set_Delete :: "IgnoreCaseSet \<Rightarrow> string \<Rightarrow> bool \<times> IgnoreCaseSet" where
  "set_Delete s item0 =
     (let item = ToLower item0
      in if Initialized s \<and> set_Has s item then (True, map_option (\<lambda>x. x - {item}) s)
         else (False, s))"

definition set_Len :: "IgnoreCaseSet \<Rightarrow> nat" where
  "set_Len s = (case s of None \<Rightarrow> 0 | Some x \<Rightarrow> card x)"

section \<open>What the loops compute\<close>

lemma Map_eq [simp]: "Map f xs = map f xs"
  by (induction xs) simp_all

lemma Filter_loop_eq [simp]: "Filter_loop f rv xs = rv @ filter f xs"
  by (induction xs arbitrary: rv) auto

lemma Filter_eq [simp]: "Filter f xs = filter f xs"
  by (simp add: Filter_def)

lemma RemoveIf_eq [simp]: "RemoveIf f xs = filter (\<lambda>x. \<not> f x) xs"
  by (simp add: RemoveIf_def)

lemma IsAll_eq [simp]: "IsAll f xs = list_all f xs"
  by (induction xs) auto

lemma index_fill_dom: "dom (index_fill h xs m) = dom m \<union> h ` set xs"
  by (induction xs arbitrary: m) auto

lemma index_Contains_IndexSet [simp]: "index_Contains (IndexSet xs) d \<longleftrightarrow> d \<in> set xs"
proof -
  have "d \<in> dom (index_fill (\<lambda>d. d) xs Map.empty) \<longleftrightarrow> d \<in> set xs"
    by (simp add: index_fill_dom)
  then show ?thesis
    by (auto simp: index_Contains_def IndexSet_def NewIndexSetWithComparableIndex_def dom_def)
qed

lemma Intersection_eq: "Intersection xs ys = filter (\<lambda>y. y \<in> set xs) ys"
  by (auto simp: Intersection_def index_Intersection_def intro: filter_cong)

lemma SubtractedBy_IndexSet: "SubtractedBy (IndexSet xs) ys = filter (\<lambda>y. y \<notin> set xs) ys"
  by (simp add: SubtractedBy_def)

lemma set_Intersection [simp]: "set (Intersection xs ys) = set xs \<inter> set ys"
  by (auto simp: Intersection_eq)

lemma ToLower_image: "ToLower y \<in> ToLower ` A \<longleftrightarrow> (\<exists>x \<in> A. EqualFold x y)"
  by (simp add: EqualFold_def image_iff) metis

section \<open>The set interface\<close>

text \<open>What the callers of a case-insensitive set rely on: membership depends on the spelling
  up to case only, and inserting and deleting act on one item.\<close>

locale fold_set =
  fixes ins :: "'s \<Rightarrow> string list \<Rightarrow> 's"
    and del :: "'s \<Rightarrow> string \<Rightarrow> bool \<times> 's"
    and has :: "'s \<Rightarrow> string \<Rightarrow> bool"
  assumes has_fold: "EqualFold x y \<Longrightarrow> has s x = has s y"
    and has_ins: "has (ins s xs) y \<longleftrightarrow> has s y \<or> (\<exists>x \<in> set xs. EqualFold x y)"
    and has_del: "has (snd (del s x)) y \<longleftrightarrow> has s y \<and> \<not> EqualFold x y"
    and del_found: "fst (del s x) \<longleftrightarrow> has s x"
begin

lemma has_ins_self: "x \<in> set xs \<Longrightarrow> has (ins s xs) x"
  unfolding has_ins using EqualFold_refl by blast

lemma del_ins_fresh:
  assumes "\<not> has s x"
  shows "has (snd (del (ins s [x]) x)) y = has s y"
  using assms has_fold by (auto simp: has_ins has_del)

lemma del_idem: "has (snd (del (snd (del s x)) x)) y = has (snd (del s x)) y"
  by (auto simp: has_del)

lemma ins_commute: "has (ins (ins s xs) ys) z = has (ins (ins s ys) xs) z"
  by (auto simp: has_ins)

end

interpretation ics: fold_set SafeInsert set_Delete set_Has
proof
  fix s xs x y
  show "EqualFold x y \<Longrightarrow> set_Has s x = set_Has s y"
    by (simp add: set_Has_def EqualFold_def split: option.split)
  show "set_Has (SafeInsert s xs) y \<longleftrightarrow> set_Has s y \<or> (\<exists>x \<in> set xs. EqualFold x y)"
    by (cases s) (simp_all add: set_Has_def SafeInsert_def NewString_def ToLower_image)
  show "set_Has (snd (set_Delete s x)) y \<longleftrightarrow> set_Has s y \<and> \<not> EqualFold x y"
    by (auto simp: set_Has_def set_Delete_def Initialized_def EqualFold_def Let_def
        split: option.split)
  show "fst (set_Delete s x) \<longleftrightarrow> set_Has s x"
    by (auto simp: set_Has_def set_Delete_def Initialized_def Let_def split: option.split)
qed

end
