(* ===== verification/IPUtil.thy ===== *)
theory IPUtil
  imports NetIP FnUtil
begin

unbundle bit_operations_syntax

text \<open>
  Package \<open>pkg/util/iputil\<close>: address families, parsing of addresses and network prefixes, bit
  access in byte slices, and the aggregation of prefixes. Definitions only; the
  correctness of the aggregation is in the theory \<open>PrefixAggregation\<close>.
\<close>

section \<open>family.go\<close>

datatype Family = IPv4 | IPv6

fun family_string :: "Family \<Rightarrow> string" where
  "family_string IPv4 = ''IPv4''"
| "family_string IPv6 = ''IPv6''"

definition FamilyOfAddr :: "Addr \<Rightarrow> Family" where
  "FamilyOfAddr a = (if Is4 a then IPv4 else IPv6)"

definition ArePrefixesFromSameFamily :: "Prefix list \<Rightarrow> bool" where
  "ArePrefixesFromSameFamily prefixes =
     (if length prefixes \<le> 1 then True
      else IsAll (\<lambda>p. Is4 (pAddr p) = Is4 (pAddr (hd prefixes))) prefixes)"

definition AreAddressesFromSameFamily :: "Addr list \<Rightarrow> bool" where
  "AreAddressesFromSameFamily addresses =
     (if length addresses \<le> 1 then True
      else IsAll (\<lambda>p. Is4 p = Is4 (hd addresses)) addresses)"

section \<open>addr.go\<close>

datatype ip_error =
    InvalidAddress string
  | InvalidCIDR string
  | NotMasked string Prefix

fun ParseAddresses :: "string list \<Rightarrow> (ip_error, Addr list) result" where
  "ParseAddresses [] = Inr []"
| "ParseAddresses (v # vs) =
     (case ParseAddr v of
        None \<Rightarrow> Inl (InvalidAddress v)
      | Some addr \<Rightarrow> (case ParseAddresses vs of Inl e \<Rightarrow> Inl e | Inr rv \<Rightarrow> Inr (addr # rv)))"

fun GroupAddressesByFamily_loop :: "Addr list \<Rightarrow> Addr list \<Rightarrow> Addr list \<Rightarrow> Addr list \<times> Addr list" where
  "GroupAddressesByFamily_loop v4 v6 [] = (v4, v6)"
| "GroupAddressesByFamily_loop v4 v6 (v # vs) =
     (if Is4 v then GroupAddressesByFamily_loop (v4 @ [v]) v6 vs
      else GroupAddressesByFamily_loop v4 (v6 @ [v]) vs)"

definition GroupAddressesByFamily :: "Addr list \<Rightarrow> Addr list \<times> Addr list" where
  "GroupAddressesByFamily vs = GroupAddressesByFamily_loop [] [] vs"

section \<open>bits.go\<close>

text \<open>Both functions panic when the index is out of bounds; that is \<open>None\<close>.\<close>

definition setBitAt :: "byte list \<Rightarrow> nat \<Rightarrow> byte \<Rightarrow> byte list option" where
  "setBitAt bytes i b =
     (if i div 8 < length bytes then
        Some (if b = 1 then bytes[i div 8 := bytes ! (i div 8) OR push_bit (7 - i mod 8) 1]
              else bytes[i div 8 := bytes ! (i div 8) AND NOT (push_bit (7 - i mod 8) 1)])
      else None)"

definition bitAt :: "byte list \<Rightarrow> nat \<Rightarrow> byte option" where
  "bitAt bytes i =
     (if i div 8 < length bytes then Some (drop_bit (7 - i mod 8) (bytes ! (i div 8)) AND 1)
      else None)"

section \<open>prefix.go\<close>

fun IsPrefixesAllowAll :: "Prefix list \<Rightarrow> bool" where
  "IsPrefixesAllowAll [] = False"
| "IsPrefixesAllowAll (p # ps) = (if pBits p = 0 then True else IsPrefixesAllowAll ps)"

definition ParsePrefix :: "string \<Rightarrow> (ip_error, Prefix) result" where
  "ParsePrefix v =
     (case netip_ParsePrefix v of
        None \<Rightarrow> Inl (InvalidCIDR v)
      | Some prefix \<Rightarrow>
          (case Masked prefix of
             None \<Rightarrow> Inl (InvalidCIDR v)
           | Some masked \<Rightarrow>
               if addr_key (pAddr prefix) \<noteq> addr_key (pAddr masked) then Inl (NotMasked v masked)
               else Inr prefix))"

fun GroupPrefixesByFamily_loop ::
  "Prefix list \<Rightarrow> Prefix list \<Rightarrow> Prefix list \<Rightarrow> Prefix list \<times> Prefix list" where
  "GroupPrefixesByFamily_loop v4 v6 [] = (v4, v6)"
| "GroupPrefixesByFamily_loop v4 v6 (v # vs) =
     (if Is4 (pAddr v) then GroupPrefixesByFamily_loop (v4 @ [v]) v6 vs
      else GroupPrefixesByFamily_loop v4 (v6 @ [v]) vs)"

definition GroupPrefixesByFamily :: "Prefix list \<Rightarrow> Prefix list \<times> Prefix list" where
  "GroupPrefixesByFamily vs = GroupPrefixesByFamily_loop [] [] vs"

definition ContainsPrefix :: "Prefix \<Rightarrow> Prefix \<Rightarrow> bool" where
  "ContainsPrefix p q = (pBits p \<le> pBits q \<and> Overlaps p q)"

text \<open>The result is a panic, or the merged prefix when the merge succeeds. When the bit
  accesses are in range, \<open>bits - 1\<close> does not exceed the bit length and \<open>Addr.Prefix\<close>
  cannot fail.\<close>

definition mergeAdjacentPrefixes :: "Prefix \<Rightarrow> Prefix \<Rightarrow> (panic, Prefix option) result" where
  "mergeAdjacentPrefixes p1 p2 =
     (if pBits p1 \<noteq> pBits p2 \<or> pBits p1 = 0 then Inr None
      else
        let bits = pBits p1; p1Bytes = AsSlice (pAddr p1); p2Bytes = AsSlice (pAddr p2)
        in case bitAt p1Bytes (bits - 1) of
             None \<Rightarrow> Inl IndexOutOfRange
           | Some b \<Rightarrow>
               (case (if b = 0 then (setBitAt p1Bytes (bits - 1) 1, Some p2Bytes)
                      else (Some p1Bytes, setBitAt p2Bytes (bits - 1) 1)) of
                  (Some b1, Some b2) \<Rightarrow>
                    if b1 \<noteq> b2 then Inr None else Inr (addr_Prefix (pAddr p1) (bits - 1))
                | _ \<Rightarrow> Inl IndexOutOfRange))"

text \<open>The inner loop: merge the last two elements of \<open>rv\<close> while that succeeds.\<close>

function merge_tail :: "Prefix list \<Rightarrow> (panic, Prefix list) result" where
  "merge_tail rv =
     (if length rv < 2 then Inr rv
      else case mergeAdjacentPrefixes (rv ! (length rv - 2)) (rv ! (length rv - 1)) of
             Inl e \<Rightarrow> Inl e
           | Inr None \<Rightarrow> Inr rv
           | Inr (Some p) \<Rightarrow> merge_tail (take (length rv - 2) rv @ [p]))"
  by pat_completeness auto
termination
  by (relation "measure length") auto

declare merge_tail.simps [simp del]

text \<open>The outer loop over the sorted prefixes.\<close>

fun aggregate_loop :: "Prefix list \<Rightarrow> Prefix list \<Rightarrow> (panic, Prefix list) result" where
  "aggregate_loop rv [] = Inr rv"
| "aggregate_loop rv (p # ps) =
     (if ContainsPrefix (rv ! (length rv - 1)) p then aggregate_loop rv ps
      else case merge_tail (rv @ [p]) of Inl e \<Rightarrow> Inl e | Inr rv' \<Rightarrow> aggregate_loop rv' ps)"

text \<open>The order of the call to \<open>sort.Slice\<close>: by address, then by prefix length.\<close>

definition prefix_key :: "Prefix \<Rightarrow> (nat \<times> nat \<times> string) \<times> nat" where
  "prefix_key p = (addr_key (pAddr p), pBits p)"

definition aggregatePrefixesForSingleIPFamily :: "Prefix list \<Rightarrow> (panic, Prefix list) result" where
  "aggregatePrefixesForSingleIPFamily prefixes =
     (if length prefixes \<le> 1 then Inr prefixes
      else let ps = sort_key prefix_key prefixes in aggregate_loop [hd ps] (tl ps))"

definition AggregatePrefixes :: "Prefix list \<Rightarrow> (panic, Prefix list) result" where
  "AggregatePrefixes prefixes =
     (let (v4, v6) = GroupPrefixesByFamily prefixes
      in case aggregatePrefixesForSingleIPFamily v4 of
           Inl e \<Rightarrow> Inl e
         | Inr a4 \<Rightarrow>
             (case aggregatePrefixesForSingleIPFamily v6 of
                Inl e \<Rightarrow> Inl e
              | Inr a6 \<Rightarrow> Inr (a4 @ a6)))"

section \<open>What the grouping loops compute\<close>

lemma GroupAddressesByFamily_eq:
  "GroupAddressesByFamily vs = (filter Is4 vs, filter (\<lambda>v. \<not> Is4 v) vs)"
proof -
  have "GroupAddressesByFamily_loop a b vs = (a @ filter Is4 vs, b @ filter (\<lambda>v. \<not> Is4 v) vs)" for a b
    by (induction vs arbitrary: a b) auto
  then show ?thesis by (simp add: GroupAddressesByFamily_def)
qed

lemma GroupPrefixesByFamily_eq:
  "GroupPrefixesByFamily vs =
     (filter (\<lambda>p. Is4 (pAddr p)) vs, filter (\<lambda>p. \<not> Is4 (pAddr p)) vs)"
proof -
  have "GroupPrefixesByFamily_loop a b vs =
      (a @ filter (\<lambda>p. Is4 (pAddr p)) vs, b @ filter (\<lambda>p. \<not> Is4 (pAddr p)) vs)" for a b
    by (induction vs arbitrary: a b) auto
  then show ?thesis by (simp add: GroupPrefixesByFamily_def)
qed

lemma IsPrefixesAllowAll_iff: "IsPrefixesAllowAll ps \<longleftrightarrow> (\<exists>p \<in> set ps. pBits p = 0)"
  by (induction ps) auto

lemma AreAddressesFromSameFamily_iff:
  "AreAddressesFromSameFamily as \<longleftrightarrow> (\<forall>a \<in> set as. \<forall>b \<in> set as. Is4 a = Is4 b)"
proof (cases as)
  case (Cons a as')
  then show ?thesis
    by (cases as') (auto simp: AreAddressesFromSameFamily_def list_all_iff)
qed (simp add: AreAddressesFromSameFamily_def)

lemma ArePrefixesFromSameFamily_iff:
  "ArePrefixesFromSameFamily ps \<longleftrightarrow> (\<forall>p \<in> set ps. \<forall>q \<in> set ps. Is4 (pAddr p) = Is4 (pAddr q))"
proof (cases ps)
  case (Cons p ps')
  then show ?thesis
    by (cases ps') (auto simp: ArePrefixesFromSameFamily_def list_all_iff)
qed (simp add: ArePrefixesFromSameFamily_def)

lemma ParseAddresses_iff:
  "ParseAddresses vs = Inr rv \<longleftrightarrow> map ParseAddr vs = map Some rv"
proof (induction vs arbitrary: rv)
  case (Cons v vs)
  have "ParseAddresses (v # vs) = Inr rv \<longleftrightarrow>
      (\<exists>a rv'. ParseAddr v = Some a \<and> ParseAddresses vs = Inr rv' \<and> rv = a # rv')"
    by (auto split: option.splits sum.splits)
  also have "\<dots> \<longleftrightarrow> map ParseAddr (v # vs) = map Some rv"
    unfolding Cons.IH by (cases rv) auto
  finally show ?case .
qed auto

end
