(* ===== verification/SecurityRule.thy ===== *)
theory SecurityRule
  imports IPUtil
begin

text \<open>
  \<open>pkg/provider/securitygroup/securityrule.go\<close>: names of the rules the provider manages, normal forms of prefixes and
  ports, and access to the fields of a rule. A rule is the part of \<open>armnetwork.SecurityRule\<close> that the package reads or
  writes; pointers that may be nil are options, a nil slice is \<open>None\<close>. \<open>md5hex\<close> stands for the hexadecimal MD5 digest
  of a string.
\<close>

record SecurityRule =
  sr_Name :: string
  sr_Priority :: "int option"
  sr_Protocol :: "string option"
  sr_Access :: "string option"
  sr_Direction :: "string option"
  sr_SourceAddressPrefix :: "string option"
  sr_SourceAddressPrefixes :: "string list option"
  sr_SourcePortRange :: "string option"
  sr_DestinationAddressPrefix :: "string option"
  sr_DestinationAddressPrefixes :: "string list option"
  sr_DestinationPortRange :: "string option"
  sr_DestinationPortRanges :: "string list option"
  sr_DestinationASGs :: "string list"

definition SecurityRuleNamePrefix :: string where
  "SecurityRuleNamePrefix = ''k8s-azure-lb''"

definition SecurityRuleNameSep :: string where
  "SecurityRuleNameSep = ''_''"

definition port_strings :: "int list \<Rightarrow> string list" where
  "port_strings dstPorts = Map FormatInt dstPorts"

text \<open>The source prefixes are sorted in place, so the caller sees the sorted slice too.\<close>

definition GenerateAllowSecurityRuleName ::
  "(string \<Rightarrow> string) \<Rightarrow> string \<Rightarrow> Family \<Rightarrow> string list \<Rightarrow> int list \<Rightarrow> string list \<times> string" where
  "GenerateAllowSecurityRuleName md5hex protocol ipFamily srcPrefixes dstPorts =
     (let dstPortRanges = sort (port_strings dstPorts);
          srcPrefixes' = sort srcPrefixes;
          v = Join [protocol, Join srcPrefixes' '','', Join dstPortRanges '',''] ''_'';
          ruleID = md5hex v
      in (srcPrefixes', Join [SecurityRuleNamePrefix, ''allow'', family_string ipFamily, ruleID] SecurityRuleNameSep))"

definition GenerateDenyAllSecurityRuleName :: "Family \<Rightarrow> string" where
  "GenerateDenyAllSecurityRuleName ipFamily =
     Join [SecurityRuleNamePrefix, ''deny-all'', family_string ipFamily] SecurityRuleNameSep"

text \<open>The keys of a map, sorted: the order in which the map is visited does not matter.\<close>

definition NormalizeSecurityRuleAddressPrefixes :: "string list \<Rightarrow> string list" where
  "NormalizeSecurityRuleAddressPrefixes vs = sort (remdups vs)"

definition NormalizeDestinationPortRanges :: "int list \<Rightarrow> string list" where
  "NormalizeDestinationPortRanges dstPorts = sort (port_strings dstPorts)"

definition ListSourcePrefixes :: "SecurityRule \<Rightarrow> string list" where
  "ListSourcePrefixes r = opt_list (sr_SourceAddressPrefix r) @ deref (sr_SourceAddressPrefixes r) []"

definition ListDestinationPrefixes :: "SecurityRule \<Rightarrow> string list" where
  "ListDestinationPrefixes r = opt_list (sr_DestinationAddressPrefix r) @ deref (sr_DestinationAddressPrefixes r) []"

definition SetDestinationPrefixes :: "SecurityRule \<Rightarrow> string list \<Rightarrow> SecurityRule" where
  "SetDestinationPrefixes r prefixes =
     (let ps = NormalizeSecurityRuleAddressPrefixes prefixes
      in if length ps = 1
         then r\<lparr>sr_DestinationAddressPrefix := Some (hd ps), sr_DestinationAddressPrefixes := None\<rparr>
         else r\<lparr>sr_DestinationAddressPrefix := None, sr_DestinationAddressPrefixes := Some ps\<rparr>)"

fun parse_ports :: "string list \<Rightarrow> (string \<times> num_error, int list) result" where
  "parse_ports [] = Inr []"
| "parse_ports (v # vs) =
     (case ParseInt 32 v of
        Inl e \<Rightarrow> Inl (v, e)
      | Inr p \<Rightarrow> (case parse_ports vs of Inl e \<Rightarrow> Inl e | Inr ps \<Rightarrow> Inr (p # ps)))"

definition ListDestinationPortRanges :: "SecurityRule \<Rightarrow> (string \<times> num_error, int list) result" where
  "ListDestinationPortRanges r =
     parse_ports (opt_list (sr_DestinationPortRange r) @ deref (sr_DestinationPortRanges r) [])"

definition ProtocolFromKubernetes :: "string \<Rightarrow> string option" where
  "ProtocolFromKubernetes p =
     (if p = ''TCP'' then Some ''Tcp'' else if p = ''UDP'' then Some ''Udp''
      else if p = ''SCTP'' then Some ''*'' else None)"

section \<open>Facts\<close>

lemma set_Normalize [simp]: "set (NormalizeSecurityRuleAddressPrefixes vs) = set vs"
  by (simp add: NormalizeSecurityRuleAddressPrefixes_def)

lemma Normalize_cong: "set vs = set ws \<Longrightarrow> NormalizeSecurityRuleAddressPrefixes vs = NormalizeSecurityRuleAddressPrefixes ws"
  unfolding NormalizeSecurityRuleAddressPrefixes_def by (rule sort_remdups_unique)

lemma Dest_SetDestinationPrefixes:
  "ListDestinationPrefixes (SetDestinationPrefixes r ps) = NormalizeSecurityRuleAddressPrefixes ps"
proof (cases "length (NormalizeSecurityRuleAddressPrefixes ps) = 1")
  case True
  then show ?thesis
    by (cases "NormalizeSecurityRuleAddressPrefixes ps")
      (auto simp: SetDestinationPrefixes_def ListDestinationPrefixes_def)
next
  case False
  then show ?thesis by (simp add: SetDestinationPrefixes_def ListDestinationPrefixes_def Let_def)
qed

lemma ListDestinationPrefixes_update [simp]:
  "ListDestinationPrefixes (r\<lparr>sr_DestinationPortRanges := x\<rparr>) = ListDestinationPrefixes r"
  "ListDestinationPrefixes (r\<lparr>sr_DestinationPortRange := y\<rparr>) = ListDestinationPrefixes r"
  "ListDestinationPrefixes (r\<lparr>sr_SourcePortRange := y\<rparr>) = ListDestinationPrefixes r"
  by (simp_all add: ListDestinationPrefixes_def)

lemma SetDestinationPrefixes_sel [simp]:
  "sr_Name (SetDestinationPrefixes r ps) = sr_Name r" "sr_Priority (SetDestinationPrefixes r ps) = sr_Priority r"
  "sr_Protocol (SetDestinationPrefixes r ps) = sr_Protocol r" "sr_Access (SetDestinationPrefixes r ps) = sr_Access r"
  "sr_SourceAddressPrefix (SetDestinationPrefixes r ps) = sr_SourceAddressPrefix r"
  "sr_SourceAddressPrefixes (SetDestinationPrefixes r ps) = sr_SourceAddressPrefixes r"
  "sr_DestinationPortRange (SetDestinationPrefixes r ps) = sr_DestinationPortRange r"
  "sr_DestinationPortRanges (SetDestinationPrefixes r ps) = sr_DestinationPortRanges r"
  "sr_Direction (SetDestinationPrefixes r ps) = sr_Direction r"
  "sr_DestinationASGs (SetDestinationPrefixes r ps) = sr_DestinationASGs r"
  by (simp_all add: SetDestinationPrefixes_def Let_def)

text \<open>Ports survive printing and parsing.\<close>

lemma parse_ports_FormatInt:
  assumes "\<forall>p \<in> set ps. - (2 ^ 31) \<le> p \<and> p < 2 ^ 31"
  shows "parse_ports (map FormatInt ps) = Inr ps"
  using assms
proof (induction ps)
  case (Cons p ps)
  have "ParseInt 32 (FormatInt p) = Inr p" by (rule ParseInt_FormatInt) (use Cons.prems in simp_all)
  then show ?case using Cons by simp
qed simp

end
