(* ===== verification/SecurityGroup.thy ===== *)
theory SecurityGroup
  imports SecurityRule
begin

text \<open>
  \<open>pkg/provider/securitygroup/securitygroup.go\<close>: the helper that edits the rules of a network security group. The map of
  rules is an association list with distinct names; where the code ranges over it, the visited names are an argument,
  because Go visits a map in any order and may or may not visit entries added meanwhile. The JSON snapshot that tells
  whether anything changed is modelled by the sorted list of rules it encodes.
\<close>

record SecurityGroup =
  sg_Name :: "string option"
  sg_SecurityRules :: "SecurityRule list option"
  sg_Tags :: "(string \<times> string option) list option"

datatype sg_error =
    ErrInvalidSecurityGroup
  | ErrSecurityRulePriorityExhausted
  | ErrSecurityRuleSourceAddressesNotFromSameIPFamily
  | ErrSecurityRuleDestinationAddressesNotFromSameIPFamily
  | ErrSecurityRuleSourceAndDestinationNotFromSameIPFamily
  | ParsePrefixAsAddress string
  | ExceedsRules nat
  | ExceedsSourceIPs nat
  | ExceedsDestinationIPs nat
  | SgPanic panic

record RuleHelper =
  rh_sg :: SecurityGroup
  rh_snapshot :: "SecurityRule list"
  rh_rules :: "(string \<times> SecurityRule) list"
  rh_priorities :: "(int \<times> string) list"

definition MaxSecurityRulesPerGroup :: nat where
  "MaxSecurityRulesPerGroup = 1000"

definition MaxSecurityRuleSourceIPsPerGroup :: nat where
  "MaxSecurityRuleSourceIPsPerGroup = 4000"

definition MaxSecurityRuleDestinationIPsPerGroup :: nat where
  "MaxSecurityRuleDestinationIPsPerGroup = 4000"

definition LoadBalancerMinimumPriority :: int where
  "LoadBalancerMinimumPriority = 500"

definition LoadBalancerMaximumPriority :: int where
  "LoadBalancerMaximumPriority = 4096"

section \<open>Snapshots and construction\<close>

text \<open>The rules in the order of their priorities; the sort is stable.\<close>

definition makeSecurityGroupSnapshot :: "SecurityRule list \<Rightarrow> SecurityRule list" where
  "makeSecurityGroupSnapshot rules = sort_key (\<lambda>r. deref (sr_Priority r) 0) rules"

definition NewSecurityGroupHelper :: "SecurityGroup option \<Rightarrow> (sg_error, RuleHelper) result" where
  "NewSecurityGroupHelper sg0 =
     (case sg0 of
        None \<Rightarrow> Inl ErrInvalidSecurityGroup
      | Some sg \<Rightarrow>
          (case (sg_Name sg, sg_SecurityRules sg) of
             (Some _, Some rules) \<Rightarrow>
               if \<exists>r \<in> set rules. sr_Priority r = None then Inl (SgPanic NilDereference)
               else Inr \<lparr>rh_sg = sg\<lparr>sg_SecurityRules := Some (makeSecurityGroupSnapshot rules)\<rparr>,
                         rh_snapshot = makeSecurityGroupSnapshot rules,
                         rh_rules = fold (\<lambda>r. put (sr_Name r) r) rules [],
                         rh_priorities = fold (\<lambda>r. put (the (sr_Priority r)) (sr_Name r)) rules []\<rparr>
           | _ \<Rightarrow> Inl ErrInvalidSecurityGroup))"

section \<open>Creating rules\<close>

datatype rulePriorityPrefer = rulePriorityPreferFromStart | rulePriorityPreferFromEnd

text \<open>The loop of \<open>nextRulePriority\<close> runs from \<open>p\<close> to \<open>e\<close> in steps of \<open>d\<close>, which is 1 or -1.\<close>

function next_priority :: "(int \<Rightarrow> bool) \<Rightarrow> int \<Rightarrow> int \<Rightarrow> int \<Rightarrow> int option" where
  "next_priority found p e d =
     (if p = e \<or> \<not> (d = 1 \<and> p < e \<or> d = - 1 \<and> e < p) then None
      else if found p then next_priority found (p + d) e d else Some p)"
  by pat_completeness auto
termination
  by (relation "measure (\<lambda>(found, p, e, d). nat \<bar>e - p\<bar>)") auto

declare next_priority.simps [simp del]

definition nextRulePriority :: "RuleHelper \<Rightarrow> rulePriorityPrefer \<Rightarrow> (sg_error, int) result" where
  "nextRulePriority helper prefer =
     (let (init, end', delta) =
            (case prefer of
               rulePriorityPreferFromStart \<Rightarrow> (LoadBalancerMinimumPriority, LoadBalancerMaximumPriority, 1)
             | rulePriorityPreferFromEnd \<Rightarrow> (LoadBalancerMaximumPriority - 1, LoadBalancerMinimumPriority - 1, - 1))
      in case next_priority (\<lambda>p. map_of (rh_priorities helper) p \<noteq> None) init end' delta of
           None \<Rightarrow> Inl ErrSecurityRulePriorityExhausted
         | Some p \<Rightarrow> Inr p)"

definition new_rule :: "string \<Rightarrow> int \<Rightarrow> SecurityRule" where
  "new_rule name priority =
     \<lparr>sr_Name = name, sr_Priority = Some priority, sr_Protocol = None, sr_Access = None, sr_Direction = None,
      sr_SourceAddressPrefix = None, sr_SourceAddressPrefixes = None, sr_SourcePortRange = None,
      sr_DestinationAddressPrefix = None, sr_DestinationAddressPrefixes = None, sr_DestinationPortRange = None,
      sr_DestinationPortRanges = None, sr_DestinationASGs = []\<rparr>"

definition getOrCreateRule ::
  "RuleHelper \<Rightarrow> string \<Rightarrow> rulePriorityPrefer \<Rightarrow> RuleHelper \<times> (sg_error, SecurityRule) result" where
  "getOrCreateRule helper name priorityPrefer =
     (case map_of (rh_rules helper) name of
        Some rule \<Rightarrow> (helper, Inr rule)
      | None \<Rightarrow>
          (case nextRulePriority helper priorityPrefer of
             Inl e \<Rightarrow> (helper, Inl e)
           | Inr priority \<Rightarrow>
               let rule = new_rule name priority
               in (helper\<lparr>rh_rules := put name rule (rh_rules helper),
                          rh_priorities := put priority name (rh_priorities helper)\<rparr>, Inr rule)))"

text \<open>A rule is changed through its pointer, so the change is visible in the map.\<close>

definition set_rule :: "RuleHelper \<Rightarrow> string \<Rightarrow> SecurityRule \<Rightarrow> RuleHelper" where
  "set_rule helper name rule = helper\<lparr>rh_rules := put name rule (rh_rules helper)\<rparr>"

definition addAllowRule ::
  "(string \<Rightarrow> string) \<Rightarrow> RuleHelper \<Rightarrow> string \<Rightarrow> Family \<Rightarrow> string list \<Rightarrow> string list \<Rightarrow> int list \<Rightarrow>
   RuleHelper \<times> (sg_error, unit) result" where
  "addAllowRule md5hex helper protocol ipFamily srcPrefixes0 dstPrefixes dstPorts =
     (let (srcPrefixes, name) = GenerateAllowSecurityRuleName md5hex protocol ipFamily srcPrefixes0 dstPorts
      in case getOrCreateRule helper name rulePriorityPreferFromStart of
           (helper', Inl e) \<Rightarrow> (helper', Inl e)
         | (helper', Inr rule) \<Rightarrow>
             let dstPortRanges = sort (port_strings dstPorts);
                 rule1 = rule\<lparr>sr_Protocol := Some protocol, sr_Access := Some ''Allow'', sr_Direction := Some ''Inbound''\<rparr>;
                 rule2 = (if length srcPrefixes = 1 then rule1\<lparr>sr_SourceAddressPrefix := Some (hd srcPrefixes)\<rparr>
                          else rule1\<lparr>sr_SourceAddressPrefixes := Some srcPrefixes\<rparr>)\<lparr>sr_SourcePortRange := Some ''*''\<rparr>;
                 rule3 = (SetDestinationPrefixes rule2 (ListDestinationPrefixes rule2 @ dstPrefixes))
                           \<lparr>sr_DestinationPortRanges := Some dstPortRanges\<rparr>
             in (set_rule helper' name rule3, Inr ()))"

definition AddRuleForAllowedServiceTag ::
  "(string \<Rightarrow> string) \<Rightarrow> RuleHelper \<Rightarrow> string \<Rightarrow> string \<Rightarrow> Addr list \<Rightarrow> int list \<Rightarrow> RuleHelper \<times> (sg_error, unit) result" where
  "AddRuleForAllowedServiceTag md5hex helper serviceTag protocol dstAddresses dstPorts =
     (if \<not> AreAddressesFromSameFamily dstAddresses
      then (helper, Inl ErrSecurityRuleDestinationAddressesNotFromSameIPFamily)
      else case dstAddresses of
             [] \<Rightarrow> (helper, Inl (SgPanic IndexOutOfRange))
           | a # _ \<Rightarrow>
               addAllowRule md5hex helper protocol (FamilyOfAddr a) [serviceTag] (Map addr_String dstAddresses) dstPorts)"

definition AddRuleForAllowedIPRanges ::
  "(string \<Rightarrow> string) \<Rightarrow> RuleHelper \<Rightarrow> Prefix list \<Rightarrow> string \<Rightarrow> Addr list \<Rightarrow> int list \<Rightarrow> RuleHelper \<times> (sg_error, unit) result" where
  "AddRuleForAllowedIPRanges md5hex helper ipRanges protocol dstAddresses dstPorts =
     (if \<not> ArePrefixesFromSameFamily ipRanges then (helper, Inl ErrSecurityRuleSourceAddressesNotFromSameIPFamily)
      else if \<not> AreAddressesFromSameFamily dstAddresses
      then (helper, Inl ErrSecurityRuleDestinationAddressesNotFromSameIPFamily)
      else case (ipRanges, dstAddresses) of
             (p # _, a # _) \<Rightarrow>
               if Is4 (pAddr p) \<noteq> Is4 a then (helper, Inl ErrSecurityRuleSourceAndDestinationNotFromSameIPFamily)
               else addAllowRule md5hex helper protocol (FamilyOfAddr (pAddr p)) (Map prefix_String ipRanges)
                      (Map addr_String dstAddresses) dstPorts
           | _ \<Rightarrow> (helper, Inl (SgPanic IndexOutOfRange)))"

definition AddRuleForDenyAll :: "RuleHelper \<Rightarrow> Addr list \<Rightarrow> RuleHelper \<times> (sg_error, unit) result" where
  "AddRuleForDenyAll helper dstAddresses =
     (if \<not> AreAddressesFromSameFamily dstAddresses
      then (helper, Inl ErrSecurityRuleDestinationAddressesNotFromSameIPFamily)
      else case dstAddresses of
             [] \<Rightarrow> (helper, Inl (SgPanic IndexOutOfRange))
           | a # _ \<Rightarrow>
               let ruleName = GenerateDenyAllSecurityRuleName (FamilyOfAddr a)
               in case getOrCreateRule helper ruleName rulePriorityPreferFromEnd of
                    (helper', Inl e) \<Rightarrow> (helper', Inl e)
                  | (helper', Inr rule) \<Rightarrow>
                      let rule1 = rule\<lparr>sr_Protocol := Some ''*'', sr_Access := Some ''Deny'', sr_Direction := Some ''Inbound'',
                                       sr_SourceAddressPrefix := Some ''*'', sr_SourcePortRange := Some ''*''\<rparr>;
                          rule2 = (SetDestinationPrefixes rule1 (Map addr_String dstAddresses @ ListDestinationPrefixes rule1))
                                    \<lparr>sr_DestinationPortRange := Some ''*''\<rparr>
                      in (set_rule helper' ruleName rule2, Inr ()))"

section \<open>Removing destinations\<close>

definition removeDestinationFromRule ::
  "(string \<Rightarrow> string) \<Rightarrow> RuleHelper \<Rightarrow> string \<Rightarrow> SecurityRule \<Rightarrow> string list \<Rightarrow> int list \<Rightarrow>
   RuleHelper \<times> (sg_error, unit) result" where
  "removeDestinationFromRule md5hex helper name rule prefixes retainDstPorts =
     (let prefixIndex = IndexSet prefixes;
          currentPrefixes = ListDestinationPrefixes rule;
          expectedPrefixes = SubtractedBy prefixIndex currentPrefixes;
          targetPrefixes = Intersection currentPrefixes prefixes;
          rule' = SetDestinationPrefixes rule expectedPrefixes
      in case (sr_Access rule, sr_Protocol rule) of
           (Some access, Some protocol) \<Rightarrow>
             if access = ''Deny'' \<and> retainDstPorts = [] then (set_rule helper name rule', Inr ())
             else
               (case ListDestinationPortRanges rule of
                  Inl _ \<Rightarrow> (helper, Inr ())
                | Inr currentPorts \<Rightarrow>
                    let expectedPorts = Intersection currentPorts retainDstPorts
                    in if targetPrefixes = [] \<or> length currentPorts = length expectedPorts then (helper, Inr ())
                       else
                         let helper' = set_rule helper name rule'
                         in if expectedPorts = [] then (helper', Inr ())
                            else (case prefixes of
                                    [] \<Rightarrow> (helper', Inl (SgPanic IndexOutOfRange))
                                  | p # _ \<Rightarrow>
                                      (case ParseAddr p of
                                         None \<Rightarrow> (helper', Inl (ParsePrefixAsAddress p))
                                       | Some addr \<Rightarrow>
                                           addAllowRule md5hex helper' protocol (FamilyOfAddr addr) (ListSourcePrefixes rule')
                                             prefixes expectedPorts)))
         | _ \<Rightarrow> (helper, Inl (SgPanic NilDereference)))"

text \<open>One turn of the loop of \<open>RemoveDestinationFromRules\<close>; an error of a rule is only logged, a panic ends the loop.\<close>

definition is_panic :: "(sg_error, 'a) result \<Rightarrow> bool" where
  "is_panic r = (case r of Inl (SgPanic _) \<Rightarrow> True | _ \<Rightarrow> False)"

definition remove_from_rule ::
  "(string \<Rightarrow> string) \<Rightarrow> string \<Rightarrow> string list \<Rightarrow> int list \<Rightarrow> RuleHelper \<Rightarrow> string \<Rightarrow> RuleHelper \<times> (sg_error, unit) result" where
  "remove_from_rule md5hex protocol dstPrefixes retainDstPorts helper name =
     (case map_of (rh_rules helper) name of
        None \<Rightarrow> (helper, Inr ())
      | Some rule \<Rightarrow>
          (case sr_Priority rule of
             None \<Rightarrow> (helper, Inr ())
           | Some priority \<Rightarrow>
               if priority < LoadBalancerMinimumPriority \<or> LoadBalancerMaximumPriority < priority then (helper, Inr ())
               else
                 (case sr_Protocol rule of
                    None \<Rightarrow> (helper, Inl (SgPanic NilDereference))
                  | Some proto \<Rightarrow>
                      if proto \<noteq> protocol then (helper, Inr ())
                      else removeDestinationFromRule md5hex helper name rule dstPrefixes retainDstPorts)))"

fun RemoveDestinationFromRules ::
  "(string \<Rightarrow> string) \<Rightarrow> string list \<Rightarrow> RuleHelper \<Rightarrow> string \<Rightarrow> string list \<Rightarrow> int list \<Rightarrow>
   RuleHelper \<times> (sg_error, unit) result" where
  "RemoveDestinationFromRules md5hex [] helper protocol dstPrefixes retainDstPorts = (helper, Inr ())"
| "RemoveDestinationFromRules md5hex (name # visit) helper protocol dstPrefixes retainDstPorts =
     (case remove_from_rule md5hex protocol dstPrefixes retainDstPorts helper name of
        (helper', r) \<Rightarrow>
          if is_panic r then (helper', r)
          else RemoveDestinationFromRules md5hex visit helper' protocol dstPrefixes retainDstPorts)"

section \<open>The resulting group\<close>

definition count_ips :: "string option \<Rightarrow> string list option \<Rightarrow> nat" where
  "count_ips one many = length (deref many []) + length (opt_list one)"

definition helper_SecurityGroup :: "RuleHelper \<Rightarrow> string list \<Rightarrow> (sg_error, SecurityGroup \<times> bool) result" where
  "helper_SecurityGroup helper visit =
     (let visited = List.map_filter (map_of (rh_rules helper)) visit;
          rules = filter (\<lambda>r. \<not> (ListDestinationPrefixes r = [] \<and> sr_DestinationASGs r = [])) visited;
          snapshot = makeSecurityGroupSnapshot rules;
          updated = (rh_snapshot helper \<noteq> snapshot);
          nRules = length snapshot;
          nSrcIPs = sum_list (map (\<lambda>r. count_ips (sr_SourceAddressPrefix r) (sr_SourceAddressPrefixes r)) snapshot);
          nDstIPs = sum_list (map (\<lambda>r. count_ips (sr_DestinationAddressPrefix r) (sr_DestinationAddressPrefixes r)) snapshot)
      in if MaxSecurityRulesPerGroup < nRules then Inl (ExceedsRules nRules)
         else if MaxSecurityRuleSourceIPsPerGroup < nSrcIPs then Inl (ExceedsSourceIPs nSrcIPs)
         else if MaxSecurityRuleDestinationIPsPerGroup < nDstIPs then Inl (ExceedsDestinationIPs nDstIPs)
         else Inr ((rh_sg helper)\<lparr>sg_SecurityRules := Some snapshot\<rparr>, updated))"

end
