(* ===== verification/ServiceConfig.thy ===== *)
theory ServiceConfig
  imports IPUtil
begin

text \<open>
  Services and their configuration: the fields of \<open>v1.Service\<close> the provider reads, the annotation helpers of
  \<open>pkg/consts/helpers.go\<close>, the access configuration of \<open>pkg/provider/loadbalancer/configuration.go\<close>. The annotations
  are an association list with distinct keys; where the code ranges over them, the list is in the visited order.
\<close>

record ServicePort =
  sp_Name :: string
  sp_Protocol :: string
  sp_AppProtocol :: "string option"
  sp_Port :: int
  sp_NodePort :: int

record Service =
  svc_Namespace :: string
  svc_Name :: string
  svc_UID :: string
  svc_Annotations :: "(string \<times> string) list"
  svc_Ports :: "ServicePort list"
  svc_LoadBalancerSourceRanges :: "string list"
  svc_ExternalTrafficPolicy :: string
  svc_HealthCheckNodePort :: int
  svc_IPFamilies :: "string list"
  svc_LoadBalancerIP :: string
  svc_Ingress :: "string list"
  svc_Type :: string
  svc_SessionAffinity :: string

section \<open>Annotation keys (pkg/consts/consts.go)\<close>

definition ServiceAnnotationLoadBalancerInternal :: string where
  "ServiceAnnotationLoadBalancerInternal = ''service.beta.kubernetes.io/azure-load-balancer-internal''"

definition ServiceAnnotationAllowedServiceTags :: string where
  "ServiceAnnotationAllowedServiceTags = ''service.beta.kubernetes.io/azure-allowed-service-tags''"

definition ServiceAnnotationAllowedIPRanges :: string where
  "ServiceAnnotationAllowedIPRanges = ''service.beta.kubernetes.io/azure-allowed-ip-ranges''"

definition AnnotationLoadBalancerSourceRangesKey :: string where
  "AnnotationLoadBalancerSourceRangesKey = ''service.beta.kubernetes.io/load-balancer-source-ranges''"

definition ServiceAnnotationDenyAllExceptLoadBalancerSourceRanges :: string where
  "ServiceAnnotationDenyAllExceptLoadBalancerSourceRanges =
     ''service.beta.kubernetes.io/azure-deny-all-except-load-balancer-source-ranges''"

definition ServiceAnnotationLoadBalancerEnableHighAvailabilityPorts :: string where
  "ServiceAnnotationLoadBalancerEnableHighAvailabilityPorts =
     ''service.beta.kubernetes.io/azure-load-balancer-enable-high-availability-ports''"

definition ServiceAnnotationLoadBalancerHealthProbeProtocol :: string where
  "ServiceAnnotationLoadBalancerHealthProbeProtocol = ''service.beta.kubernetes.io/azure-load-balancer-health-probe-protocol''"

definition ServiceAnnotationLoadBalancerHealthProbeInterval :: string where
  "ServiceAnnotationLoadBalancerHealthProbeInterval = ''service.beta.kubernetes.io/azure-load-balancer-health-probe-interval''"

definition ServiceAnnotationLoadBalancerHealthProbeNumOfProbe :: string where
  "ServiceAnnotationLoadBalancerHealthProbeNumOfProbe =
     ''service.beta.kubernetes.io/azure-load-balancer-health-probe-num-of-probe''"

definition ServiceAnnotationLoadBalancerHealthProbeRequestPath :: string where
  "ServiceAnnotationLoadBalancerHealthProbeRequestPath =
     ''service.beta.kubernetes.io/azure-load-balancer-health-probe-request-path''"

definition ServiceAnnotationDisableLoadBalancerFloatingIP :: string where
  "ServiceAnnotationDisableLoadBalancerFloatingIP = ''service.beta.kubernetes.io/azure-disable-load-balancer-floating-ip''"

definition ServiceAnnotationAdditionalPublicIPs :: string where
  "ServiceAnnotationAdditionalPublicIPs = ''service.beta.kubernetes.io/azure-additional-public-ips''"

definition ServiceAnnotationLoadBalancerConfigurations :: string where
  "ServiceAnnotationLoadBalancerConfigurations = ''service.beta.kubernetes.io/azure-load-balancer-configurations''"

definition ServiceAnnotationDisableTCPReset :: string where
  "ServiceAnnotationDisableTCPReset = ''service.beta.kubernetes.io/azure-load-balancer-disable-tcp-reset''"

definition ServiceAnnotationPLSCreation :: string where
  "ServiceAnnotationPLSCreation = ''service.beta.kubernetes.io/azure-pls-create''"

definition ServiceAnnotationPLSProxyProtocol :: string where
  "ServiceAnnotationPLSProxyProtocol = ''service.beta.kubernetes.io/azure-pls-proxy-protocol''"

definition TrueAnnotationValue :: string where
  "TrueAnnotationValue = ''true''"

definition PortAnnotationNoLBRule :: string where
  "PortAnnotationNoLBRule = ''no_lb_rule''"

definition PortAnnotationNoHealthProbeRule :: string where
  "PortAnnotationNoHealthProbeRule = ''no_probe_rule''"

definition HealthProbeParamsProtocol :: string where
  "HealthProbeParamsProtocol = ''protocol''"

definition HealthProbeParamsPort :: string where
  "HealthProbeParamsPort = ''port''"

definition HealthProbeParamsProbeInterval :: string where
  "HealthProbeParamsProbeInterval = ''interval''"

definition HealthProbeParamsNumOfProbe :: string where
  "HealthProbeParamsNumOfProbe = ''num-of-probe''"

definition HealthProbeParamsRequestPath :: string where
  "HealthProbeParamsRequestPath = ''request-path''"

section \<open>helpers.go\<close>

text \<open>An error of a value, or of a validator. A validator is a function that may be nil and reports an error message.\<close>

datatype attr_error = ErrorValue num_error string | ErrorParsing string

type_synonym 'a validator = "('a \<Rightarrow> string option) option"

fun run_validators :: "'a validator list \<Rightarrow> 'a \<Rightarrow> string option" where
  "run_validators [] x = None"
| "run_validators (v # vs) x =
     (case v of
        None \<Rightarrow> run_validators vs x
      | Some validate \<Rightarrow> (case validate x of Some e \<Rightarrow> Some e | None \<Rightarrow> run_validators vs x))"

definition GetAttributeValueInSvcAnnotation ::
  "(string \<times> string) list \<Rightarrow> string \<Rightarrow> string validator list \<Rightarrow> (string, string option) result" where
  "GetAttributeValueInSvcAnnotation annotations key validators =
     (case map_of annotations key of
        Some l \<Rightarrow> (case run_validators validators l of Some e \<Rightarrow> Inl e | None \<Rightarrow> Inr (Some l))
      | None \<Rightarrow> Inr None)"

definition expectAttributeInSvcAnnotationBeEqualTo :: "(string \<times> string) list \<Rightarrow> string \<Rightarrow> string \<Rightarrow> bool" where
  "expectAttributeInSvcAnnotationBeEqualTo annotations key value =
     (case GetAttributeValueInSvcAnnotation annotations key [] of
        Inr (Some l) \<Rightarrow> EqualFold l value
      | _ \<Rightarrow> False)"

definition extractInt32FromString :: "string \<Rightarrow> int validator list \<Rightarrow> (attr_error, int option) result" where
  "extractInt32FromString val0 businessValidator =
     (let val = TrimSpace val0
      in case ParseInt 32 val of
           Inl e \<Rightarrow> Inl (ErrorValue e (val @ '' value must be a whole number''))
         | Inr parsedInt \<Rightarrow>
             (case run_validators businessValidator parsedInt of
                Some e \<Rightarrow> Inl (ErrorParsing e)
              | None \<Rightarrow> Inr (Some parsedInt)))"

definition Getint32ValueFromK8sSvcAnnotation ::
  "(string \<times> string) list \<Rightarrow> string \<Rightarrow> int validator list \<Rightarrow> (attr_error, int option) result" where
  "Getint32ValueFromK8sSvcAnnotation annotations key validators =
     (case GetAttributeValueInSvcAnnotation annotations key [] of
        Inr (Some val) \<Rightarrow> extractInt32FromString val validators
      | Inr None \<Rightarrow> Inr None
      | Inl err \<Rightarrow> Inl (ErrorParsing err))"

definition BuildAnnotationKeyForPort :: "int \<Rightarrow> string \<Rightarrow> string" where
  "BuildAnnotationKeyForPort port key = ''service.beta.kubernetes.io/port_'' @ FormatInt port @ ''_'' @ key"

definition BuildHealthProbeAnnotationKeyForPort :: "int \<Rightarrow> string \<Rightarrow> string" where
  "BuildHealthProbeAnnotationKeyForPort port key = BuildAnnotationKeyForPort port (''health-probe_'' @ key)"

definition GetHealthProbeConfigOfPortFromK8sSvcAnnotation ::
  "(string \<times> string) list \<Rightarrow> int \<Rightarrow> string \<Rightarrow> string validator list \<Rightarrow> (string, string option) result" where
  "GetHealthProbeConfigOfPortFromK8sSvcAnnotation annotations port key validators =
     GetAttributeValueInSvcAnnotation annotations (BuildHealthProbeAnnotationKeyForPort port key) validators"

definition GetInt32HealthProbeConfigOfPortFromK8sSvcAnnotation ::
  "(string \<times> string) list \<Rightarrow> int \<Rightarrow> string \<Rightarrow> int validator list \<Rightarrow> (attr_error, int option) result" where
  "GetInt32HealthProbeConfigOfPortFromK8sSvcAnnotation annotations port key validators =
     Getint32ValueFromK8sSvcAnnotation annotations (BuildHealthProbeAnnotationKeyForPort port key) validators"

definition IsK8sServiceHasHAModeEnabled :: "Service \<Rightarrow> bool" where
  "IsK8sServiceHasHAModeEnabled service =
     expectAttributeInSvcAnnotationBeEqualTo (svc_Annotations service)
       ServiceAnnotationLoadBalancerEnableHighAvailabilityPorts TrueAnnotationValue"

definition IsK8sServiceUsingInternalLoadBalancer :: "Service \<Rightarrow> bool" where
  "IsK8sServiceUsingInternalLoadBalancer service =
     expectAttributeInSvcAnnotationBeEqualTo (svc_Annotations service) ServiceAnnotationLoadBalancerInternal TrueAnnotationValue"

definition IsK8sServiceDisableLoadBalancerFloatingIP :: "Service \<Rightarrow> bool" where
  "IsK8sServiceDisableLoadBalancerFloatingIP service =
     expectAttributeInSvcAnnotationBeEqualTo (svc_Annotations service) ServiceAnnotationDisableLoadBalancerFloatingIP
       TrueAnnotationValue"

definition IsHealthProbeRuleOnK8sServicePortDisabled :: "(string \<times> string) list \<Rightarrow> int \<Rightarrow> bool" where
  "IsHealthProbeRuleOnK8sServicePortDisabled annotations port =
     expectAttributeInSvcAnnotationBeEqualTo annotations (BuildAnnotationKeyForPort port PortAnnotationNoHealthProbeRule)
       TrueAnnotationValue"

definition IsLBRuleOnK8sServicePortDisabled :: "(string \<times> string) list \<Rightarrow> int \<Rightarrow> bool" where
  "IsLBRuleOnK8sServicePortDisabled annotations port =
     expectAttributeInSvcAnnotationBeEqualTo annotations (BuildAnnotationKeyForPort port PortAnnotationNoLBRule)
       TrueAnnotationValue"

definition IsPLSProxyProtocolEnabled :: "(string \<times> string) list \<Rightarrow> bool" where
  "IsPLSProxyProtocolEnabled annotations =
     expectAttributeInSvcAnnotationBeEqualTo annotations ServiceAnnotationPLSProxyProtocol TrueAnnotationValue"

definition IsPLSEnabled :: "(string \<times> string) list \<Rightarrow> bool" where
  "IsPLSEnabled annotations =
     expectAttributeInSvcAnnotationBeEqualTo annotations ServiceAnnotationPLSCreation TrueAnnotationValue"

definition IsTCPResetDisabled :: "(string \<times> string) list \<Rightarrow> bool" where
  "IsTCPResetDisabled annotations =
     expectAttributeInSvcAnnotationBeEqualTo annotations ServiceAnnotationDisableTCPReset TrueAnnotationValue"

definition GetLoadBalancerConfigurationsNames :: "Service \<Rightarrow> string list" where
  "GetLoadBalancerConfigurationsNames service =
     map (\<lambda>n. ToLower (TrimSpace n))
       (concat (map (\<lambda>(key, lbConfig). if EqualFold key ServiceAnnotationLoadBalancerConfigurations then Split lbConfig '','' else [])
          (svc_Annotations service)))"

section \<open>configuration.go\<close>

record ErrAnnotationValue =
  AnnotationKey :: string
  AnnotationValue :: string
  Inner :: "ip_error list"

definition IsInternal :: "Service \<Rightarrow> bool" where
  "IsInternal svc =
     (case map_of (svc_Annotations svc) ServiceAnnotationLoadBalancerInternal of
        Some value \<Rightarrow> ToLower value = ''true''
      | None \<Rightarrow> False)"

definition AllowedServiceTags :: "Service \<Rightarrow> string list" where
  "AllowedServiceTags svc =
     (case map_of (svc_Annotations svc) ServiceAnnotationAllowedServiceTags of
        None \<Rightarrow> []
      | Some value \<Rightarrow> map TrimSpace (Split (TrimSpace value) '',''))"

text \<open>The loop both range functions share: valid prefixes, invalid strings and errors, in the order of the input.\<close>

fun parse_ranges :: "string list \<Rightarrow> Prefix list \<times> string list \<times> ip_error list" where
  "parse_ranges [] = ([], [], [])"
| "parse_ranges (p0 # ps) =
     (let p = TrimSpace p0; (valid, invalid, errs) = parse_ranges ps
      in case ParsePrefix p of
           Inl err \<Rightarrow> (valid, p # invalid, err # errs)
         | Inr prefix \<Rightarrow> (prefix # valid, invalid, errs))"

fun ranges_by_key :: "Service \<Rightarrow> string list \<Rightarrow> Prefix list \<times> string list \<times> ErrAnnotationValue list" where
  "ranges_by_key svc [] = ([], [], [])"
| "ranges_by_key svc (key # keys) =
     (let (valid, invalid, errs) = ranges_by_key svc keys
      in case map_of (svc_Annotations svc) key of
           None \<Rightarrow> (valid, invalid, errs)
         | Some value \<Rightarrow>
             let (v, i, errsByKey) = parse_ranges (Split (TrimSpace value) '','')
             in (v @ valid, i @ invalid,
                 (if errsByKey = [] then [] else [\<lparr>AnnotationKey = key, AnnotationValue = value, Inner = errsByKey\<rparr>]) @ errs))"

definition AllowedIPRanges :: "Service \<Rightarrow> Prefix list \<times> string list \<times> ErrAnnotationValue list" where
  "AllowedIPRanges svc = ranges_by_key svc [ServiceAnnotationAllowedIPRanges, AnnotationLoadBalancerSourceRangesKey]"

definition SourceRanges :: "Service \<Rightarrow> Prefix list \<times> string list \<times> ip_error list" where
  "SourceRanges svc = parse_ranges (svc_LoadBalancerSourceRanges svc)"

definition AdditionalPublicIPs :: "Service \<Rightarrow> (ErrAnnotationValue, Addr list) result" where
  "AdditionalPublicIPs svc =
     (case map_of (svc_Annotations svc) ServiceAnnotationAdditionalPublicIPs of
        None \<Rightarrow> Inr []
      | Some value \<Rightarrow>
          (case ParseAddresses (Split (TrimSpace value) '','') of
             Inl err \<Rightarrow> Inl \<lparr>AnnotationKey = ServiceAnnotationAdditionalPublicIPs, AnnotationValue = value, Inner = [err]\<rparr>
           | Inr rv \<Rightarrow> Inr rv))"

end
