(* ===== verification/AccessControl.thy ===== *)
theory AccessControl
  imports SecurityGroup ServiceConfig
begin

text \<open>
  \<open>pkg/provider/loadbalancer/accesscontrol.go\<close> and \<open>pkg/provider/azure_loadbalancer_accesscontrol.go\<close>: what a service
  opens in the network security group, and the ports that other services keep open on shared addresses. Events the
  constructor emits are returned as a list. Where the code ranges over the map of rules, \<open>visit i rules\<close> is the order of
  the i-th such loop of the call.
\<close>

record AccessControl =
  ac_svc :: Service
  ac_sgHelper :: RuleHelper
  ac_SourceRanges :: "Prefix list"
  ac_AllowedIPRanges :: "Prefix list"
  ac_AllowedServiceTags :: "string list"
  ac_invalidRanges :: "string list"
  ac_portsByProtocol :: "(string \<times> int list) list"

datatype ac_error =
    SgError sg_error
  | UnsupportedProtocol string
  | ErrSetBothLoadBalancerSourceRangesAndAllowedIPRanges
  | AddServiceTagIPv4 sg_error
  | AddIPRangesIPv4 sg_error
  | AddServiceTagIPv6 sg_error
  | AddIPRangesIPv6 sg_error
  | AddDenyAllIPv4 sg_error
  | AddDenyAllIPv6 sg_error
  | ListServices
  | FetchPorts string string
  | AcPanic panic

datatype ac_event = InvalidSourceRanges "string list" | InvalidAllowedIPRanges "string list" | ConflictConfiguration

definition ServiceTagInternet :: string where
  "ServiceTagInternet = ''Internet''"

definition ports_of :: "(string \<times> int list) list \<Rightarrow> string \<Rightarrow> int list" where
  "ports_of m protocol = deref (map_of m protocol) []"

fun ports_by_protocol :: "Service \<Rightarrow> ServicePort list \<Rightarrow> (string \<times> int list) list \<Rightarrow> (string, (string \<times> int list) list) result" where
  "ports_by_protocol svc [] rv = Inr rv"
| "ports_by_protocol svc (port # ports) rv =
     (case ProtocolFromKubernetes (sp_Protocol port) of
        None \<Rightarrow> Inl (sp_Protocol port)
      | Some protocol \<Rightarrow>
          let p = (if IsK8sServiceDisableLoadBalancerFloatingIP svc then sp_NodePort port else sp_Port port)
          in ports_by_protocol svc ports (put protocol (ports_of rv protocol @ [p]) rv))"

definition SecurityRuleDestinationPortsByProtocol :: "Service \<Rightarrow> (string, (string \<times> int list) list) result" where
  "SecurityRuleDestinationPortsByProtocol svc = ports_by_protocol svc (svc_Ports svc) []"

text \<open>Reading \<open>sg.Name\<close> for the logger panics on a nil group before the helper can reject it.\<close>

definition NewAccessControl :: "Service \<Rightarrow> SecurityGroup option \<Rightarrow> ac_event list \<times> (ac_error, AccessControl) result" where
  "NewAccessControl svc sg =
     (case sg of
        None \<Rightarrow> ([], Inl (AcPanic NilDereference))
      | Some _ \<Rightarrow>
     (case NewSecurityGroupHelper sg of
        Inl e \<Rightarrow> ([], Inl (SgError e))
      | Inr sgHelper \<Rightarrow>
          let (sourceRanges, invalidSourceRanges, err1) = SourceRanges svc;
              (allowedIPRanges, invalidAllowedIPRanges, err2) = AllowedIPRanges svc;
              events = (if err1 \<noteq> [] then [InvalidSourceRanges invalidSourceRanges] else []) @
                       (if err2 \<noteq> [] then [InvalidAllowedIPRanges invalidAllowedIPRanges] else []);
              allowedServiceTags = AllowedServiceTags svc
          in (case SecurityRuleDestinationPortsByProtocol svc of
               Inl p \<Rightarrow> (events, Inl (UnsupportedProtocol p))
             | Inr portsByProtocol \<Rightarrow>
                 if sourceRanges \<noteq> [] \<and> allowedIPRanges \<noteq> []
                 then (events, Inl ErrSetBothLoadBalancerSourceRangesAndAllowedIPRanges)
                 else (events @ (if sourceRanges \<noteq> [] \<and> allowedServiceTags \<noteq> [] then [ConflictConfiguration] else []),
                       Inr \<lparr>ac_svc = svc, ac_sgHelper = sgHelper, ac_SourceRanges = sourceRanges,
                            ac_AllowedIPRanges = allowedIPRanges, ac_AllowedServiceTags = allowedServiceTags,
                            ac_invalidRanges = invalidSourceRanges @ invalidAllowedIPRanges,
                            ac_portsByProtocol = portsByProtocol\<rparr>))))"

definition IsAllowFromInternet :: "AccessControl \<Rightarrow> bool" where
  "IsAllowFromInternet ac =
     (if 0 < length (ac_AllowedServiceTags ac) then False
      else if 0 < length (ac_SourceRanges ac) \<and> \<not> IsPrefixesAllowAll (ac_SourceRanges ac) then False
      else if 0 < length (ac_AllowedIPRanges ac) \<and> \<not> IsPrefixesAllowAll (ac_AllowedIPRanges ac) then False
      else if 0 < length (ac_invalidRanges ac) then False
      else if \<not> IsInternal (ac_svc ac) then True
      else 0 < length (ac_AllowedIPRanges ac) \<or> 0 < length (ac_SourceRanges ac))"

definition DenyAllExceptSourceRanges :: "AccessControl \<Rightarrow> bool" where
  "DenyAllExceptSourceRanges ac =
     (let annotationEnabled =
            EqualFold (deref (map_of (svc_Annotations (ac_svc ac)) ServiceAnnotationDenyAllExceptLoadBalancerSourceRanges) [])
              ''true'';
          sourceRangeSpecified = (0 < length (ac_SourceRanges ac) \<or> 0 < length (ac_AllowedIPRanges ac));
          invalidRangesSpecified = (0 < length (ac_invalidRanges ac))
      in annotationEnabled \<and> sourceRangeSpecified \<or> invalidRangesSpecified)"

definition AllowedIPv4Ranges :: "AccessControl \<Rightarrow> Prefix list" where
  "AllowedIPv4Ranges ac =
     filter (\<lambda>cidr. Is4 (pAddr cidr)) (ac_SourceRanges ac) @ filter (\<lambda>cidr. Is4 (pAddr cidr)) (ac_AllowedIPRanges ac)"

definition AllowedIPv6Ranges :: "AccessControl \<Rightarrow> Prefix list" where
  "AllowedIPv6Ranges ac =
     filter (\<lambda>cidr. Is6 (pAddr cidr)) (ac_SourceRanges ac) @ filter (\<lambda>cidr. Is6 (pAddr cidr)) (ac_AllowedIPRanges ac)"

section \<open>PatchSecurityGroup\<close>

fun add_tags ::
  "(string \<Rightarrow> string) \<Rightarrow> RuleHelper \<Rightarrow> string list \<Rightarrow> string \<Rightarrow> Addr list \<Rightarrow> int list \<Rightarrow> RuleHelper \<times> (sg_error, unit) result" where
  "add_tags md5hex helper [] protocol dst dstPorts = (helper, Inr ())"
| "add_tags md5hex helper (tag # tags) protocol dst dstPorts =
     (case AddRuleForAllowedServiceTag md5hex helper tag protocol dst dstPorts of
        (helper', Inl e) \<Rightarrow> (helper', Inl e)
      | (helper', Inr _) \<Rightarrow> add_tags md5hex helper' tags protocol dst dstPorts)"

text \<open>The rules of one protocol for the destinations of one family; \<open>ta\<close> and \<open>ra\<close> wrap the error.\<close>

definition patch_family ::
  "(string \<Rightarrow> string) \<Rightarrow> (sg_error \<Rightarrow> ac_error) \<Rightarrow> (sg_error \<Rightarrow> ac_error) \<Rightarrow> RuleHelper \<Rightarrow> string list \<Rightarrow> Prefix list \<Rightarrow>
   string \<Rightarrow> Addr list \<Rightarrow> int list \<Rightarrow> RuleHelper \<times> (ac_error, unit) result" where
  "patch_family md5hex ta ra helper tags ranges protocol dst dstPorts =
     (if dst = [] then (helper, Inr ())
      else case add_tags md5hex helper tags protocol dst dstPorts of
             (helper1, Inl e) \<Rightarrow> (helper1, Inl (ta e))
           | (helper1, Inr _) \<Rightarrow>
               if ranges = [] then (helper1, Inr ())
               else (case AddRuleForAllowedIPRanges md5hex helper1 ranges protocol dst dstPorts of
                       (helper2, Inl e) \<Rightarrow> (helper2, Inl (ra e))
                     | (helper2, Inr _) \<Rightarrow> (helper2, Inr ())))"

definition protocols :: "string list" where
  "protocols = [''Tcp'', ''Udp'', ''*'']"

fun patch_protocols ::
  "(string \<Rightarrow> string) \<Rightarrow> (string \<times> int list) list \<Rightarrow> RuleHelper \<Rightarrow> string list \<Rightarrow> Prefix list \<Rightarrow> Prefix list \<Rightarrow> Addr list \<Rightarrow> Addr list \<Rightarrow>
   string list \<Rightarrow> RuleHelper \<times> (ac_error, unit) result" where
  "patch_protocols md5hex ports helper tags v4 v6 dst4 dst6 [] = (helper, Inr ())"
| "patch_protocols md5hex ports helper tags v4 v6 dst4 dst6 (protocol # ps) =
     (case map_of ports protocol of
        None \<Rightarrow> patch_protocols md5hex ports helper tags v4 v6 dst4 dst6 ps
      | Some dstPorts \<Rightarrow>
          (case patch_family md5hex AddServiceTagIPv4 AddIPRangesIPv4 helper tags v4 protocol dst4 dstPorts of
             (helper1, Inl e) \<Rightarrow> (helper1, Inl e)
           | (helper1, Inr _) \<Rightarrow>
               (case patch_family md5hex AddServiceTagIPv6 AddIPRangesIPv6 helper1 tags v6 protocol dst6 dstPorts of
                  (helper2, Inl e) \<Rightarrow> (helper2, Inl e)
                | (helper2, Inr _) \<Rightarrow> patch_protocols md5hex ports helper2 tags v4 v6 dst4 dst6 ps)))"

definition deny_family :: "(sg_error \<Rightarrow> ac_error) \<Rightarrow> RuleHelper \<Rightarrow> Addr list \<Rightarrow> RuleHelper \<times> (ac_error, unit) result" where
  "deny_family wrap helper dst =
     (if dst = [] then (helper, Inr ())
      else case AddRuleForDenyAll helper dst of
             (helper', Inl e) \<Rightarrow> (helper', Inl (wrap e))
           | (helper', Inr _) \<Rightarrow> (helper', Inr ()))"

definition patch_tags :: "AccessControl \<Rightarrow> string list" where
  "patch_tags ac = ac_AllowedServiceTags ac @ (if IsAllowFromInternet ac then [ServiceTagInternet] else [])"

definition patch_helper ::
  "(string \<Rightarrow> string) \<Rightarrow> AccessControl \<Rightarrow> Addr list \<Rightarrow> Addr list \<Rightarrow> RuleHelper \<times> (ac_error, unit) result" where
  "patch_helper md5hex ac dst4 dst6 =
     (case AggregatePrefixes (AllowedIPv4Ranges ac @ AllowedIPv6Ranges ac) of
        Inl p \<Rightarrow> (ac_sgHelper ac, Inl (AcPanic p))
      | Inr ipRanges \<Rightarrow>
          let (v4, v6) = GroupPrefixesByFamily ipRanges
          in case patch_protocols md5hex (ac_portsByProtocol ac) (ac_sgHelper ac) (patch_tags ac) v4 v6 dst4 dst6 protocols of
               (helper1, Inl e) \<Rightarrow> (helper1, Inl e)
             | (helper1, Inr _) \<Rightarrow>
                 if DenyAllExceptSourceRanges ac
                 then (case deny_family AddDenyAllIPv4 helper1 dst4 of
                         (helper2, Inl e) \<Rightarrow> (helper2, Inl e)
                       | (helper2, Inr _) \<Rightarrow> deny_family AddDenyAllIPv6 helper2 dst6)
                 else (helper1, Inr ()))"

definition PatchSecurityGroup ::
  "(string \<Rightarrow> string) \<Rightarrow> AccessControl \<Rightarrow> Addr list \<Rightarrow> Addr list \<Rightarrow> AccessControl \<times> (ac_error, unit) result" where
  "PatchSecurityGroup md5hex ac dst4 dst6 =
     (case patch_helper md5hex ac dst4 dst6 of (helper, r) \<Rightarrow> (ac\<lparr>ac_sgHelper := helper\<rparr>, r))"

section \<open>CleanSecurityGroup and SecurityGroup\<close>

type_synonym visits = "nat \<Rightarrow> (string \<times> SecurityRule) list \<Rightarrow> string list"

fun clean_protocols ::
  "(string \<Rightarrow> string) \<Rightarrow> visits \<Rightarrow> nat \<Rightarrow> (string \<times> int list) list \<Rightarrow> RuleHelper \<Rightarrow> string list \<Rightarrow> string list \<Rightarrow> string list \<Rightarrow>
   RuleHelper \<times> (sg_error, unit) result" where
  "clean_protocols md5hex visit i retain helper v4 v6 [] = (helper, Inr ())"
| "clean_protocols md5hex visit i retain helper v4 v6 (protocol # ps) =
     (let retainDstPorts = ports_of retain protocol
      in case RemoveDestinationFromRules md5hex (visit i (rh_rules helper)) helper protocol v4 retainDstPorts of
           (helper1, Inl e) \<Rightarrow> (helper1, Inl e)
         | (helper1, Inr _) \<Rightarrow>
             (case RemoveDestinationFromRules md5hex (visit (i + 1) (rh_rules helper1)) helper1 protocol v6 retainDstPorts of
                (helper2, Inl e) \<Rightarrow> (helper2, Inl e)
              | (helper2, Inr _) \<Rightarrow> clean_protocols md5hex visit (i + 2) retain helper2 v4 v6 ps))"

definition CleanSecurityGroup ::
  "(string \<Rightarrow> string) \<Rightarrow> visits \<Rightarrow> AccessControl \<Rightarrow> Addr list \<Rightarrow> Addr list \<Rightarrow> (string \<times> int list) list \<Rightarrow>
   AccessControl \<times> (ac_error, unit) result" where
  "CleanSecurityGroup md5hex visit ac dst4 dst6 retainPortRanges =
     (case clean_protocols md5hex visit 0 retainPortRanges (ac_sgHelper ac) (Map addr_String dst4) (Map addr_String dst6) protocols of
        (helper, Inl e) \<Rightarrow> (ac\<lparr>ac_sgHelper := helper\<rparr>, Inl (SgError e))
      | (helper, Inr _) \<Rightarrow> (ac\<lparr>ac_sgHelper := helper\<rparr>, Inr ()))"

definition ac_SecurityGroup :: "AccessControl \<Rightarrow> string list \<Rightarrow> (sg_error, SecurityGroup \<times> bool) result" where
  "ac_SecurityGroup ac visit = helper_SecurityGroup (ac_sgHelper ac) visit"

section \<open>Ports of services that share an address\<close>

definition filterServicesByIngressIPs :: "Service list \<Rightarrow> Addr list \<Rightarrow> Service list" where
  "filterServicesByIngressIPs services ips =
     (let targetIPs = Map addr_String ips
      in Filter (\<lambda>svc. 0 < length (Intersection (Filter (\<lambda>ip. ip \<noteq> []) (svc_Ingress svc)) targetIPs)) services)"

definition filterServicesByDisableFloatingIP :: "Service list \<Rightarrow> Service list" where
  "filterServicesByDisableFloatingIP services = Filter IsK8sServiceDisableLoadBalancerFloatingIP services"

text \<open>The order in which the ports of one service are visited does not matter: each protocol has an entry of its own.\<close>

fun shared_ports :: "Service \<Rightarrow> Service list \<Rightarrow> (string \<times> int list) list \<Rightarrow> (ac_error, (string \<times> int list) list) result" where
  "shared_ports svc [] rv = Inr rv"
| "shared_ports svc (s # services) rv =
     (if svc_Namespace svc = svc_Namespace s \<and> svc_Name svc = svc_Name s then shared_ports svc services rv
      else case SecurityRuleDestinationPortsByProtocol s of
             Inl p \<Rightarrow> Inl (FetchPorts (svc_Name s) p)
           | Inr portsByProtocol \<Rightarrow>
               shared_ports svc services
                 (fold (\<lambda>(protocol, ports) rv. put protocol (ports_of rv protocol @ ports) rv) portsByProtocol rv))"

definition listSharedIPPortMapping ::
  "Service list option \<Rightarrow> Service \<Rightarrow> Addr list \<Rightarrow> (ac_error, (string \<times> int list) list) result" where
  "listSharedIPPortMapping serviceList svc ingressIPs =
     (case serviceList of
        None \<Rightarrow> Inl ListServices
      | Some services0 \<Rightarrow>
          let services = (if IsK8sServiceDisableLoadBalancerFloatingIP svc then filterServicesByDisableFloatingIP services0
                          else filterServicesByIngressIPs services0 ingressIPs)
          in shared_ports svc services [])"

end
