(* ===== verification/AzureUtils.thy ===== *)
theory AzureUtils
  imports ServiceConfig SecurityRule GoNet
begin

text \<open>
  \<open>pkg/provider/azure_utils.go\<close>: tags of Azure resources, addresses of nodes and services, comparison of lists, names.
  A map of tags is an association list in the order in which the code visits it; the values are pointers.
\<close>

type_synonym tags = "(string \<times> string option) list"

section \<open>Tags\<close>

definition convertMapToMapPointer :: "(string \<times> string) list \<Rightarrow> tags" where
  "convertMapToMapPointer origin = fold (\<lambda>(k, v) newly. put k (Some v) newly) origin []"

fun findKeyInMapCaseInsensitive :: "(string \<times> 'v) list \<Rightarrow> string \<Rightarrow> string option" where
  "findKeyInMapCaseInsensitive [] key = None"
| "findKeyInMapCaseInsensitive ((k, v) # m) key = (if EqualFold k key then Some k else findKeyInMapCaseInsensitive m key)"

definition parse_tag :: "string \<Rightarrow> tags \<Rightarrow> tags" where
  "parse_tag kv formatted =
     (case Split kv ''='' of
        [a, b] \<Rightarrow> (let k = TrimSpace a; v = TrimSpace b in if k = [] then formatted else put k (Some v) formatted)
      | _ \<Rightarrow> formatted)"

definition parse_map_tag :: "string \<times> string \<Rightarrow> tags \<Rightarrow> tags" where
  "parse_map_tag kv formatted =
     (let key = TrimSpace (fst kv); val = TrimSpace (snd kv)
      in if key = [] then formatted
         else let formatted' =
                (case findKeyInMapCaseInsensitive formatted key of
                   Some k \<Rightarrow> if k \<noteq> key then del k formatted else formatted
                 | None \<Rightarrow> formatted)
              in put key (Some val) formatted')"

definition parseTags :: "string \<Rightarrow> (string \<times> string) list \<Rightarrow> tags" where
  "parseTags tags tagsMap =
     fold parse_map_tag tagsMap (if tags \<noteq> [] then fold parse_tag (Split tags '','') [] else [])"

text \<open>One turn of the first loop of \<open>reconcileTags\<close>, on the tags of the resource and the flag.\<close>

definition apply_tag :: "string \<times> string option \<Rightarrow> tags \<times> bool \<Rightarrow> tags \<times> bool" where
  "apply_tag kv st =
     (let (k, v) = kv; (current, changed) = st
      in case findKeyInMapCaseInsensitive current k of
           None \<Rightarrow> (put k v current, True)
         | Some key \<Rightarrow>
             if \<not> EqualFold (deref v []) (deref (deref (map_of current key) None) []) then (put key v current, True)
             else (current, changed))"

definition system_tags :: "string \<Rightarrow> (string \<times> string option) list" where
  "system_tags SystemTags =
     (if SystemTags \<noteq> [] then fold (\<lambda>t m. put (TrimSpace t) (Some []) m) (Split SystemTags '','') [] else [])"

definition keep_tag :: "tags \<Rightarrow> (string \<times> string option) list \<Rightarrow> string \<Rightarrow> bool" where
  "keep_tag newTags systemTagsMap k =
     (map_of newTags k \<noteq> None \<or> findKeyInMapCaseInsensitive systemTagsMap k \<noteq> None)"

definition reconcileTags :: "string \<Rightarrow> tags \<Rightarrow> tags \<Rightarrow> tags \<times> bool" where
  "reconcileTags SystemTags currentTagsOnResource newTags =
     (let systemTagsMap = system_tags SystemTags;
          (current, changed) = fold apply_tag newTags (currentTagsOnResource, False)
      in if 0 < length systemTagsMap
         then let kept = filter (\<lambda>(k, v). keep_tag newTags systemTagsMap k) current
              in (kept, changed \<or> length kept \<noteq> length current)
         else (current, changed))"

section \<open>Addresses\<close>

record NodeAddress =
  na_Type :: string
  na_Address :: string

text \<open>\<open>utilnet.IsIPv6String\<close> of k8s.io/utils is an argument.\<close>

fun getNodePrivateIPAddress :: "(string \<Rightarrow> bool) \<Rightarrow> NodeAddress list \<Rightarrow> bool \<Rightarrow> string" where
  "getNodePrivateIPAddress isIPv6String [] isIPv6 = []"
| "getNodePrivateIPAddress isIPv6String (a # as) isIPv6 =
     (if EqualFold (na_Type a) ''InternalIP'' \<and> isIPv6String (na_Address a) = isIPv6 then na_Address a
      else getNodePrivateIPAddress isIPv6String as isIPv6)"

definition getNodePrivateIPAddresses :: "NodeAddress list \<Rightarrow> string list" where
  "getNodePrivateIPAddresses addresses = map na_Address (filter (\<lambda>a. EqualFold (na_Type a) ''InternalIP'') addresses)"

definition getBoolValueFromServiceAnnotations :: "Service \<Rightarrow> string \<Rightarrow> bool" where
  "getBoolValueFromServiceAnnotations service key =
     (case map_of (svc_Annotations service) key of Some l \<Rightarrow> EqualFold (TrimSpace l) TrueAnnotationValue | None \<Rightarrow> False)"

definition isServiceDualStack :: "Service \<Rightarrow> bool" where
  "isServiceDualStack svc = (length (svc_IPFamilies svc) = 2)"

definition getIPFamiliesEnabled :: "Service \<Rightarrow> bool \<times> bool" where
  "getIPFamiliesEnabled svc =
     fold (\<lambda>ipFamily (v4, v6). if ipFamily = ''IPv4'' then (True, v6) else if ipFamily = ''IPv6'' then (v4, True) else (v4, v6))
       (svc_IPFamilies svc) (False, False)"

definition ServiceAnnotationLoadBalancerIPDualStack :: "bool \<Rightarrow> string" where
  "ServiceAnnotationLoadBalancerIPDualStack isIPv6 =
     (if isIPv6 then ''service.beta.kubernetes.io/azure-load-balancer-ipv6''
      else ''service.beta.kubernetes.io/azure-load-balancer-ipv4'')"

definition ServiceAnnotationPIPNameDualStack :: "bool \<Rightarrow> string" where
  "ServiceAnnotationPIPNameDualStack isIPv6 =
     (if isIPv6 then ''service.beta.kubernetes.io/azure-pip-name-ipv6'' else ''service.beta.kubernetes.io/azure-pip-name'')"

definition ServiceAnnotationPIPPrefixIDDualStack :: "bool \<Rightarrow> string" where
  "ServiceAnnotationPIPPrefixIDDualStack isIPv6 =
     (if isIPv6 then ''service.beta.kubernetes.io/azure-pip-prefix-id-ipv6'' else ''service.beta.kubernetes.io/azure-pip-prefix-id'')"

text \<open>\<open>net.ParseIP\<close>: an address without a zone, in the 16-byte form.\<close>

definition ParseIP :: "string \<Rightarrow> IP option" where
  "ParseIP s =
     (case ParseAddr s of
        Some a \<Rightarrow> (case a of Addr6 _ z \<Rightarrow> if z = [] then Some (As16 a) else None | Addr4 _ \<Rightarrow> Some (As16 a))
      | None \<Rightarrow> None)"

definition ip_is_v4 :: "IP option \<Rightarrow> bool" where
  "ip_is_v4 ip = (case ip of None \<Rightarrow> False | Some b \<Rightarrow> To4 b \<noteq> None)"

definition getServiceLoadBalancerIP :: "Service option \<Rightarrow> bool \<Rightarrow> string" where
  "getServiceLoadBalancerIP service0 isIPv6 =
     (case service0 of
        None \<Rightarrow> []
      | Some service \<Rightarrow>
          let ip = deref (map_of (svc_Annotations service) (ServiceAnnotationLoadBalancerIPDualStack isIPv6)) []
          in if ip \<noteq> [] then ip
             else let svcLBIP = svc_LoadBalancerIP service
                  in if (ip_is_v4 (ParseIP svcLBIP) \<and> \<not> isIPv6) \<or> (\<not> ip_is_v4 (ParseIP svcLBIP) \<and> isIPv6) then svcLBIP
                     else [])"

definition getServiceLoadBalancerIPs :: "Service option \<Rightarrow> string list" where
  "getServiceLoadBalancerIPs service0 =
     (case service0 of
        None \<Rightarrow> []
      | Some service \<Rightarrow>
          let ips = filter (\<lambda>ip. ip \<noteq> [])
                (map (\<lambda>v6. deref (map_of (svc_Annotations service) (ServiceAnnotationLoadBalancerIPDualStack v6)) []) [False, True])
          in if length ips \<noteq> 0 then ips
             else if svc_LoadBalancerIP service \<noteq> [] then [svc_LoadBalancerIP service] else [])"

definition setServiceLoadBalancerIP :: "Service option \<Rightarrow> string \<Rightarrow> Service option" where
  "setServiceLoadBalancerIP service0 ip =
     (case service0 of
        None \<Rightarrow> None
      | Some service \<Rightarrow>
          (case ParseIP ip of
             None \<Rightarrow> Some service
           | Some parsedIP \<Rightarrow>
               let isIPv6 = (To4 parsedIP = None)
               in Some (service\<lparr>svc_Annotations :=
                          put (ServiceAnnotationLoadBalancerIPDualStack isIPv6) ip (svc_Annotations service)\<rparr>)))"

definition getServicePIPName :: "Service option \<Rightarrow> bool \<Rightarrow> string" where
  "getServicePIPName service0 isIPv6 =
     (case service0 of
        None \<Rightarrow> []
      | Some service \<Rightarrow>
          if \<not> isServiceDualStack service
          then deref (map_of (svc_Annotations service) (ServiceAnnotationPIPNameDualStack False)) []
          else deref (map_of (svc_Annotations service) (ServiceAnnotationPIPNameDualStack isIPv6)) [])"

definition getServicePIPNames :: "Service option \<Rightarrow> string list" where
  "getServicePIPNames service = map (getServicePIPName service) [False, True]"

definition getServicePIPPrefixID :: "Service option \<Rightarrow> bool \<Rightarrow> string" where
  "getServicePIPPrefixID service0 isIPv6 =
     (case service0 of
        None \<Rightarrow> []
      | Some service \<Rightarrow>
          if \<not> isServiceDualStack service
          then deref (map_of (svc_Annotations service) (ServiceAnnotationPIPPrefixIDDualStack False)) []
          else deref (map_of (svc_Annotations service) (ServiceAnnotationPIPPrefixIDDualStack isIPv6)) [])"

definition getServiceIPFamily :: "Service \<Rightarrow> string" where
  "getServiceIPFamily service =
     (if 1 < length (svc_IPFamilies service) then ''DualStack''
      else if \<exists>ipFamily \<in> set (svc_IPFamilies service). ipFamily = ''IPv6'' then ''IPv6'' else ''IPv4'')"

definition isLocalService :: "Service \<Rightarrow> bool" where
  "isLocalService service = (svc_ExternalTrafficPolicy service = ''Local'')"

section \<open>Lists\<close>

text \<open>\<open>map1\<close> counts with a default of 0, as reading a Go map does; \<open>ok\<close> is whether the key is present.\<close>

definition count_up :: "string \<Rightarrow> (string \<rightharpoonup> int) \<Rightarrow> (string \<rightharpoonup> int)" where
  "count_up s map1 = map1(s \<mapsto> deref (map1 s) 0 + 1)"

fun count_down :: "string list \<Rightarrow> (string \<rightharpoonup> int) \<Rightarrow> bool" where
  "count_down [] map1 = True"
| "count_down (s # ss) map1 =
     (case map1 s of
        None \<Rightarrow> False
      | Some v \<Rightarrow> if v \<le> 0 then False else count_down ss (map1(s \<mapsto> v - 1)))"

definition sameContentInSlices :: "string list \<Rightarrow> string list \<Rightarrow> bool" where
  "sameContentInSlices s1 s2 =
     (if length s1 \<noteq> length s2 then False else count_down s2 (fold count_up s1 Map.empty))"

text \<open>The loop of \<open>removeDuplicatedSecurityRules\<close> from index \<open>i - 1\<close> down; the second result is a panic.\<close>

fun dedup_rules :: "nat \<Rightarrow> string set \<Rightarrow> SecurityRule list \<Rightarrow> (panic, SecurityRule list) result" where
  "dedup_rules 0 ruleNames rules = Inr rules"
| "dedup_rules (Suc i) ruleNames rules =
     (if i < length rules
      then let rules' = (if sr_Name (rules ! i) \<in> ruleNames then take i rules @ drop (Suc i) rules else rules)
           in if i < length rules' then dedup_rules i (insert (sr_Name (rules' ! i)) ruleNames) rules'
              else Inl IndexOutOfRange
      else Inl IndexOutOfRange)"

definition removeDuplicatedSecurityRules :: "SecurityRule list \<Rightarrow> (panic, SecurityRule list) result" where
  "removeDuplicatedSecurityRules rules = dedup_rules (length rules) {} rules"

definition StringInSlice :: "string \<Rightarrow> string list \<Rightarrow> bool" where
  "StringInSlice s xs = (\<exists>item \<in> set xs. item = s)"

definition IntInSlice :: "int \<Rightarrow> int list \<Rightarrow> bool" where
  "IntInSlice i xs = (\<exists>item \<in> set xs. item = i)"

section \<open>Names\<close>

definition getVMSSVMCacheKey :: "string \<Rightarrow> string \<Rightarrow> string" where
  "getVMSSVMCacheKey resourceGroup vmssName = ToLower (resourceGroup @ ''/'' @ vmssName)"

definition getResourceByIPFamily :: "string \<Rightarrow> bool \<Rightarrow> bool \<Rightarrow> string" where
  "getResourceByIPFamily resource isDualStack isIPv6 = (if isDualStack \<and> isIPv6 then resource @ ''-IPv6'' else resource)"

definition managedResourceHasIPv6Suffix :: "string \<Rightarrow> bool" where
  "managedResourceHasIPv6Suffix name = HasSuffix (ToLower name) ''-ipv6''"

definition isFIPIPv6 :: "Service \<Rightarrow> string \<Rightarrow> bool" where
  "isFIPIPv6 service fipName =
     (if \<not> isServiceDualStack service
      then (case svc_IPFamilies service of [] \<Rightarrow> False | f # _ \<Rightarrow> f = ''IPv6'')
      else managedResourceHasIPv6Suffix fipName)"

definition getResourceIDPrefix :: "string \<Rightarrow> string" where
  "getResourceIDPrefix i =
     (if CHR ''/'' \<notin> set i then i else rev (tl (dropWhile (\<lambda>c. c \<noteq> CHR ''/'') (rev i))))"

definition InternalLoadBalancerNameSuffix :: string where
  "InternalLoadBalancerNameSuffix = ''-internal''"

definition isInternalLoadBalancer :: "string \<Rightarrow> bool" where
  "isInternalLoadBalancer lbName = HasSuffix (ToLower lbName) InternalLoadBalancerNameSuffix"

definition trimSuffixIgnoreCase :: "string \<Rightarrow> string \<Rightarrow> string" where
  "trimSuffixIgnoreCase str0 suf0 =
     (let str = ToLower str0; suf = ToLower suf0
      in if HasSuffix str suf then take (length str - length suf) str else str)"

definition strToExtendedLocationType :: "(string \<times> string) list" where
  "strToExtendedLocationType = [(''edgezone'', ''EdgeZone'')]"

definition getExtendedLocationTypeFromString :: "string \<Rightarrow> string" where
  "getExtendedLocationTypeFromString extendedLocationType =
     (case map_of strToExtendedLocationType (ToLower extendedLocationType) of Some val \<Rightarrow> val | None \<Rightarrow> ''EdgeZone'')"

end
