(* ===== verification/ReconcileSecurityGroup.thy ===== *)
theory ReconcileSecurityGroup
  imports AccessControl AzureUtils
begin

text \<open>
  \<open>reconcileSecurityGroup\<close> and \<open>ensureSecurityGroupTagged\<close> of \<open>pkg/provider/azure_loadbalancer.go\<close>: the security group of
  the cluster is read, cleaned of the addresses of one service, patched for that service and written back. What the
  repository, the load balancer and the backend pool return is a record of results; the request that writes the group is a
  function on the state \<open>'w\<close> of the world.
\<close>

record Config =
  cfg_Tags :: string
  cfg_TagsMap :: "(string \<times> string) list"
  cfg_SystemTags :: string

record 'w rsg_env =
  env_GetSecurityGroup :: "(string, SecurityGroup) result"
  env_getAzureLoadBalancer :: "(string, bool) result"
  env_GetBackendPrivateIPs :: "string list \<times> string list"
  env_services :: "Service list option"
  env_CreateOrUpdateSecurityGroup :: "'w \<Rightarrow> SecurityGroup \<Rightarrow> 'w \<times> string option"

datatype rsg_error =
    NoLoadBalancerIP string
  | AdditionalPublicIPsError ErrAnnotationValue
  | RepoError string
  | AccessControlError ac_error
  | LoadBalancerError string
  | UnableToGetLb
  | UnableToApply sg_error

definition ensureSecurityGroupTagged :: "Config \<Rightarrow> SecurityGroup \<Rightarrow> SecurityGroup \<times> bool" where
  "ensureSecurityGroupTagged az sg =
     (if cfg_Tags az = [] \<and> cfg_TagsMap az = [] then (sg, False)
      else let tags = parseTags (cfg_Tags az) (cfg_TagsMap az);
               (tags', changed) = reconcileTags (cfg_SystemTags az) (deref (sg_Tags sg) []) tags
           in (sg\<lparr>sg_Tags := Some tags'\<rparr>, changed))"

text \<open>Errors of \<open>ParseAddresses\<close> are dropped together with all addresses of the list.\<close>

definition parsed :: "string list \<Rightarrow> Addr list" where
  "parsed ips = (case ParseAddresses ips of Inl _ \<Rightarrow> [] | Inr as \<Rightarrow> as)"

definition destinations :: "'w rsg_env \<Rightarrow> Service \<Rightarrow> Addr list \<Rightarrow> string list \<Rightarrow> bool \<Rightarrow> Addr list \<times> Addr list" where
  "destinations env service additionalIPs lbIPs lbFound =
     (let (lb4, lb6) = GroupAddressesByFamily (parsed lbIPs);
          (add4, add6) = GroupAddressesByFamily additionalIPs;
          (list4, list6) = (if lbFound then env_GetBackendPrivateIPs env else ([], []))
      in if IsK8sServiceDisableLoadBalancerFloatingIP service then (add4 @ parsed list4, add6 @ parsed list6)
         else (add4 @ lb4, add6 @ lb6))"

text \<open>The part after the destinations are known: clean, patch, collect, tag and write.\<close>

definition apply_access ::
  "Config \<Rightarrow> (string \<Rightarrow> string) \<Rightarrow> visits \<Rightarrow> 'w rsg_env \<Rightarrow> AccessControl \<Rightarrow> (string \<times> int list) list \<Rightarrow> Addr list \<Rightarrow> Addr list \<Rightarrow>
   bool \<Rightarrow> 'w \<Rightarrow> 'w \<times> (rsg_error, SecurityGroup) result" where
  "apply_access az md5hex visit env ac retain dst4 dst6 wantLb w =
     (case CleanSecurityGroup md5hex visit ac dst4 dst6 retain of
        (ac1, Inl e) \<Rightarrow> (w, Inl (AccessControlError e))
      | (ac1, Inr _) \<Rightarrow>
          (case (if wantLb then PatchSecurityGroup md5hex ac1 dst4 dst6 else (ac1, Inr ())) of
             (ac2, Inl e) \<Rightarrow> (w, Inl (AccessControlError e))
           | (ac2, Inr _) \<Rightarrow>
               (case ac_SecurityGroup ac2 (visit 6 (rh_rules (ac_sgHelper ac2))) of
                  Inl e \<Rightarrow> (w, Inl (UnableToApply e))
                | Inr (rv0, updated0) \<Rightarrow>
                    let (rv, tagged) = ensureSecurityGroupTagged az rv0; updated = (updated0 \<or> tagged)
                    in if updated
                       then (case env_CreateOrUpdateSecurityGroup env w rv of
                               (w', Some e) \<Rightarrow> (w', Inl (RepoError e))
                             | (w', None) \<Rightarrow> (w', Inr rv))
                       else (w, Inr rv))))"

text \<open>The event emitter is passed on only when the load balancer is being deleted; otherwise the events are dropped.\<close>

definition reconcileSecurityGroup ::
  "Config \<Rightarrow> (string \<Rightarrow> string) \<Rightarrow> visits \<Rightarrow> 'w rsg_env \<Rightarrow> Service \<Rightarrow> string list \<Rightarrow> bool \<Rightarrow> 'w \<Rightarrow>
   'w \<times> ac_event list \<times> (rsg_error, SecurityGroup) result" where
  "reconcileSecurityGroup az md5hex visit env service lbIPs wantLb w =
     (if wantLb \<and> lbIPs = [] then (w, [], Inl (NoLoadBalancerIP (svc_Name service)))
      else
        (case (wantLb, AdditionalPublicIPs service) of
           (True, Inl e) \<Rightarrow> (w, [], Inl (AdditionalPublicIPsError e))
         | (_, additional) \<Rightarrow>
             let additionalIPs = (case additional of Inl _ \<Rightarrow> [] | Inr ips \<Rightarrow> ips)
             in (case env_GetSecurityGroup env of
                   Inl e \<Rightarrow> (w, [], Inl (RepoError e))
                 | Inr sg \<Rightarrow>
                     let (emitted, r) = NewAccessControl service (Some sg); events = (if wantLb then [] else emitted)
                     in (case r of
                           Inl e \<Rightarrow> (w, events, Inl (AccessControlError e))
                         | Inr ac \<Rightarrow>
                             (case env_getAzureLoadBalancer env of
                                Inl e \<Rightarrow> (w, events, Inl (LoadBalancerError e))
                              | Inr lbFound \<Rightarrow>
                                  if wantLb \<and> \<not> lbFound then (w, events, Inl UnableToGetLb)
                                  else
                                    let (dst4, dst6) = destinations env service additionalIPs lbIPs lbFound
                                    in (case listSharedIPPortMapping (env_services env) service (dst4 @ dst6) of
                                          Inl e \<Rightarrow> (w, events, Inl (AccessControlError e))
                                        | Inr retain \<Rightarrow>
                                            (case apply_access az md5hex visit env ac retain dst4 dst6 wantLb w of
                                               (w', res) \<Rightarrow> (w', events, res))))))))"

end
