(* ===== verification/SecurityGroupProperties.thy ===== *)
theory SecurityGroupProperties
  imports SecurityGroup "HOL-Library.Multiset"
begin

text \<open>
  Properties of the security group helper: which priority a new rule gets, what a rule allows after it was added, that
  removing a destination closes every port that is not retained and touches no other destination, and when the result is
  reported as changed.
\<close>

section \<open>Priorities\<close>

definition free_priority :: "RuleHelper \<Rightarrow> int \<Rightarrow> bool" where
  "free_priority helper p \<longleftrightarrow>
     LoadBalancerMinimumPriority \<le> p \<and> p < LoadBalancerMaximumPriority \<and> map_of (rh_priorities helper) p = None"

lemma next_priority_up:
  assumes "p \<le> e"
  shows "next_priority found p e 1 = None \<Longrightarrow> p \<le> q \<Longrightarrow> q < e \<Longrightarrow> found q"
    "next_priority found p e 1 = Some r \<Longrightarrow> p \<le> r \<and> r < e \<and> \<not> found r \<and> (\<forall>q. p \<le> q \<and> q < r \<longrightarrow> found q)"
proof -
  have "(next_priority found p e 1 = None \<longrightarrow> (\<forall>q. p \<le> q \<and> q < e \<longrightarrow> found q)) \<and>
    (next_priority found p e 1 = Some r \<longrightarrow> p \<le> r \<and> r < e \<and> \<not> found r \<and> (\<forall>q. p \<le> q \<and> q < r \<longrightarrow> found q))"
    using assms
  proof (induction "nat (e - p)" arbitrary: p)
    case 0
    then show ?case by (auto simp: next_priority.simps[of found p])
  next
    case (Suc n)
    have IH: "(next_priority found (p + 1) e 1 = None \<longrightarrow> (\<forall>q. p + 1 \<le> q \<and> q < e \<longrightarrow> found q)) \<and>
        (next_priority found (p + 1) e 1 = Some r \<longrightarrow>
          p + 1 \<le> r \<and> r < e \<and> \<not> found r \<and> (\<forall>q. p + 1 \<le> q \<and> q < r \<longrightarrow> found q))"
      by (rule Suc.hyps(1)) (use Suc.hyps(2) in auto)
    have "p < e" using Suc.hyps(2) by simp
    then have "next_priority found p e 1 = (if found p then next_priority found (p + 1) e 1 else Some p)"
      by (simp add: next_priority.simps[of found p])
    moreover have "p + 1 \<le> q \<or> q = p" if "p \<le> q" for q using that by linarith
    ultimately show ?case using IH \<open>p < e\<close> by (auto split: if_splits)
  qed
  then show "next_priority found p e 1 = None \<Longrightarrow> p \<le> q \<Longrightarrow> q < e \<Longrightarrow> found q"
    "next_priority found p e 1 = Some r \<Longrightarrow> p \<le> r \<and> r < e \<and> \<not> found r \<and> (\<forall>q. p \<le> q \<and> q < r \<longrightarrow> found q)" by blast+
qed

text \<open>Downwards the loop is the mirror image.\<close>

lemma next_priority_mirror:
  "next_priority found p e (- 1) = map_option uminus (next_priority (\<lambda>q. found (- q)) (- p) (- e) 1)"
proof (induction "nat (p - e)" arbitrary: p)
  case 0
  then show ?case by (simp add: next_priority.simps[of found p] next_priority.simps[of _ "- p"])
next
  case (Suc n)
  then have IH: "next_priority found (p - 1) e (- 1) = map_option uminus (next_priority (\<lambda>q. found (- q)) (- (p - 1)) (- e) 1)"
    by (intro Suc.hyps(1)) auto
  have "e < p" using Suc.hyps(2) by simp
  then show ?case
    using IH by (simp add: next_priority.simps[of found p] next_priority.simps[of _ "- p"] algebra_simps)
qed

text \<open>C22. The priority of a new rule. \<open>nextRulePriority\<close> returns a free priority in the range of the provider, the
  smallest one for allow rules and the largest one for deny rules, and fails only when no priority is free.\<close>

theorem nextRulePriority_spec:
  "(case nextRulePriority helper pref of
      Inr p \<Rightarrow> free_priority helper p \<and>
        (\<forall>q. free_priority helper q \<longrightarrow> (if pref = rulePriorityPreferFromStart then p \<le> q else q \<le> p))
    | Inl e \<Rightarrow> e = ErrSecurityRulePriorityExhausted \<and> (\<forall>q. \<not> free_priority helper q))"
proof (cases pref)
  case rulePriorityPreferFromStart
  let ?f = "\<lambda>p. map_of (rh_priorities helper) p \<noteq> None" and ?l = LoadBalancerMinimumPriority and ?u = LoadBalancerMaximumPriority
  have "?l \<le> ?u" by (simp add: LoadBalancerMinimumPriority_def LoadBalancerMaximumPriority_def)
  note N = next_priority_up[OF this, of ?f]
  show ?thesis
  proof (cases "next_priority ?f ?l ?u 1")
    case None
    then show ?thesis using N(1) rulePriorityPreferFromStart
      by (auto simp: nextRulePriority_def free_priority_def)
  next
    case (Some p)
    from N(2)[OF this] show ?thesis
      using Some rulePriorityPreferFromStart by (auto simp: nextRulePriority_def free_priority_def)
  qed
next
  case rulePriorityPreferFromEnd
  let ?f = "\<lambda>p. map_of (rh_priorities helper) p \<noteq> None" and ?l = LoadBalancerMinimumPriority and ?u = LoadBalancerMaximumPriority
  have lu: "- (?u - 1) \<le> - (?l - 1)" by (simp add: LoadBalancerMinimumPriority_def LoadBalancerMaximumPriority_def)
  note N = next_priority_up[OF lu, of "\<lambda>q. ?f (- q)"]
  note M = next_priority_mirror[of ?f "?u - 1" "?l - 1"]
  show ?thesis
  proof (cases "next_priority (\<lambda>q. ?f (- q)) (- (?u - 1)) (- (?l - 1)) 1")
    case None
    have "\<not> free_priority helper q" for q
      using N(1)[OF None, of "- q"] by (auto simp: free_priority_def)
    then show ?thesis using M None rulePriorityPreferFromEnd by (simp add: nextRulePriority_def)
  next
    case (Some r)
    note R = N(2)[OF Some]
    have "q \<le> - r" if "free_priority helper q" for q
    proof (rule ccontr)
      assume "\<not> q \<le> - r"
      then have "- (?u - 1) \<le> - q \<and> - q < r" using that by (auto simp: free_priority_def)
      then have "?f (- (- q))" using R by blast
      then show False using that by (simp add: free_priority_def)
    qed
    moreover have "free_priority helper (- r)" using R by (auto simp: free_priority_def)
    ultimately show ?thesis using M Some rulePriorityPreferFromEnd by (simp add: nextRulePriority_def)
  qed
qed

section \<open>Adding rules\<close>

definition rule_or_new :: "RuleHelper \<Rightarrow> string \<Rightarrow> rulePriorityPrefer \<Rightarrow> SecurityRule \<Rightarrow> bool" where
  "rule_or_new helper name pref rule \<longleftrightarrow>
     map_of (rh_rules helper) name = Some rule \<or>
     map_of (rh_rules helper) name = None \<and> (\<exists>p. nextRulePriority helper pref = Inr p \<and> rule = new_rule name p)"

lemma getOrCreateRule_effect:
  assumes "getOrCreateRule helper name pref = (helper', res)"
  shows "res = Inl e \<Longrightarrow> helper' = helper"
    "res = Inr rule \<Longrightarrow> rule_or_new helper name pref rule \<and> map_of (rh_rules helper') = (map_of (rh_rules helper))(name \<mapsto> rule)"
  using assms
  by (auto simp: getOrCreateRule_def rule_or_new_def Let_def fun_upd_idem split: option.splits sum.splits)

definition allow_name :: "(string \<Rightarrow> string) \<Rightarrow> string \<Rightarrow> Family \<Rightarrow> string list \<Rightarrow> int list \<Rightarrow> string" where
  "allow_name md5hex protocol family src ports = snd (GenerateAllowSecurityRuleName md5hex protocol family src ports)"

lemma addAllowRule_effect:
  assumes "addAllowRule md5hex helper protocol family src dst ports = (helper', res)"
  shows "res = Inl e \<Longrightarrow> helper' = helper"
    "res = Inr () \<Longrightarrow> \<exists>rule rule'. rule_or_new helper (allow_name md5hex protocol family src ports) rulePriorityPreferFromStart rule \<and>
       map_of (rh_rules helper') = (map_of (rh_rules helper))(allow_name md5hex protocol family src ports \<mapsto> rule') \<and>
       set (ListDestinationPrefixes rule') = set (ListDestinationPrefixes rule) \<union> set dst \<and>
       sr_DestinationPortRanges rule' = Some (sort (port_strings ports)) \<and>
       sr_DestinationPortRange rule' = sr_DestinationPortRange rule \<and> sr_Access rule' = Some ''Allow'' \<and>
       sr_Protocol rule' = Some protocol \<and> sr_Priority rule' = sr_Priority rule \<and>
       set src \<subseteq> set (ListSourcePrefixes rule') \<and> set (ListSourcePrefixes rule') \<subseteq> set (ListSourcePrefixes rule) \<union> set src"
proof -
  let ?n = "allow_name md5hex protocol family src ports"
  obtain h1 r1 where g: "getOrCreateRule helper ?n rulePriorityPreferFromStart = (h1, r1)" by fastforce
  have n: "GenerateAllowSecurityRuleName md5hex protocol family src ports = (sort src, ?n)"
    by (simp add: allow_name_def GenerateAllowSecurityRuleName_def Let_def)
  note G = getOrCreateRule_effect[OF g]
  show "helper' = helper" if "res = Inl e"
    using assms that G(1) by (cases r1) (auto simp: addAllowRule_def n g Let_def)
  assume ok: "res = Inr ()"
  then obtain rule where r1: "r1 = Inr rule" using assms by (cases r1) (auto simp: addAllowRule_def n g)
  have one: "sort src = [hd src]" if "length src = 1" using that by (cases src) auto
  define r2 where "r2 = (if length (sort src) = 1
      then rule\<lparr>sr_Protocol := Some protocol, sr_Access := Some ''Allow'', sr_Direction := Some ''Inbound'',
             sr_SourceAddressPrefix := Some (hd (sort src))\<rparr>
      else rule\<lparr>sr_Protocol := Some protocol, sr_Access := Some ''Allow'', sr_Direction := Some ''Inbound'',
             sr_SourceAddressPrefixes := Some (sort src)\<rparr>)\<lparr>sr_SourcePortRange := Some ''*''\<rparr>"
  define r3 where "r3 = (SetDestinationPrefixes r2 (ListDestinationPrefixes r2 @ dst))
      \<lparr>sr_DestinationPortRanges := Some (sort (port_strings ports))\<rparr>"
  have h: "helper' = set_rule h1 ?n r3"
    using assms ok by (auto simp: addAllowRule_def n g r1 Let_def r2_def r3_def)
  have r2: "ListDestinationPrefixes r2 = ListDestinationPrefixes rule" "sr_DestinationPortRange r2 = sr_DestinationPortRange rule"
      "sr_Access r2 = Some ''Allow''" "sr_Protocol r2 = Some protocol" "sr_Priority r2 = sr_Priority rule"
    by (auto simp: r2_def ListDestinationPrefixes_def)
  have "set (if length src = 1 then [hd src] else src) = set src" by (cases src) auto
  then have src: "set src \<subseteq> set (ListSourcePrefixes r2) \<and> set (ListSourcePrefixes r2) \<subseteq> set (ListSourcePrefixes rule) \<union> set src"
    using one by (auto simp: r2_def ListSourcePrefixes_def)
  have "set (ListDestinationPrefixes r3) = set (ListDestinationPrefixes rule) \<union> set dst"
    by (simp add: r3_def Dest_SetDestinationPrefixes r2(1))
  moreover have "map_of (rh_rules helper') = (map_of (rh_rules helper))(?n \<mapsto> r3)"
    using G(2)[OF r1] h by (simp add: set_rule_def)
  ultimately show "\<exists>rule rule'. rule_or_new helper ?n rulePriorityPreferFromStart rule \<and>
       map_of (rh_rules helper') = (map_of (rh_rules helper))(?n \<mapsto> rule') \<and>
       set (ListDestinationPrefixes rule') = set (ListDestinationPrefixes rule) \<union> set dst \<and>
       sr_DestinationPortRanges rule' = Some (sort (port_strings ports)) \<and>
       sr_DestinationPortRange rule' = sr_DestinationPortRange rule \<and> sr_Access rule' = Some ''Allow'' \<and>
       sr_Protocol rule' = Some protocol \<and> sr_Priority rule' = sr_Priority rule \<and>
       set src \<subseteq> set (ListSourcePrefixes rule') \<and> set (ListSourcePrefixes rule') \<subseteq> set (ListSourcePrefixes rule) \<union> set src"
    using G(2)[OF r1] r2 src by (intro exI[of _ rule] exI[of _ r3]) (simp add: r3_def ListSourcePrefixes_def)
qed

text \<open>What a rule allows: a destination and a port, for one protocol.\<close>

definition rule_allows :: "SecurityRule \<Rightarrow> string \<Rightarrow> string \<Rightarrow> int \<Rightarrow> bool" where
  "rule_allows r protocol d port \<longleftrightarrow>
     sr_Access r = Some ''Allow'' \<and> sr_Protocol r = Some protocol \<and> d \<in> set (ListDestinationPrefixes r) \<and>
     (\<exists>ports. ListDestinationPortRanges r = Inr ports \<and> port \<in> set ports)"

lemma set_port_strings: "set (sort (port_strings ports)) = FormatInt ` set ports"
  by (simp add: port_strings_def Map_eq)

definition ports_ok :: "int list \<Rightarrow> bool" where
  "ports_ok ports \<longleftrightarrow> (\<forall>p \<in> set ports. - (2 ^ 31) \<le> p \<and> p < 2 ^ 31)"

lemma parse_ports_sorted:
  assumes "ports_ok ports"
  shows "\<exists>ps. parse_ports (sort (port_strings ports)) = Inr ps \<and> set ps = set ports"
proof -
  have "\<forall>y \<in> set (sort (port_strings ports)). \<exists>x. y = FormatInt x" unfolding set_port_strings by auto
  then obtain ps where ps: "sort (port_strings ports) = map FormatInt ps" unfolding ex_map_conv[symmetric] by blast
  have "FormatInt ` set ps = FormatInt ` set ports" using set_port_strings[of ports] unfolding ps by simp
  moreover have "inj FormatInt" by (rule injI) (simp add: FormatInt_inj)
  ultimately have s: "set ps = set ports" by (simp only: inj_image_eq_iff)
  then have "parse_ports (map FormatInt ps) = Inr ps"
    using assms by (intro parse_ports_FormatInt) (simp add: ports_ok_def)
  then show ?thesis using ps s by auto
qed

text \<open>Rules whose names the provider generates list their ports in \<open>DestinationPortRanges\<close> only.\<close>

definition generated_ok :: "(string \<Rightarrow> string) \<Rightarrow> RuleHelper \<Rightarrow> bool" where
  "generated_ok md5hex helper \<longleftrightarrow>
     (\<forall>protocol family src ports rule.
        map_of (rh_rules helper) (allow_name md5hex protocol family src ports) = Some rule \<longrightarrow> sr_DestinationPortRange rule = None)"

lemma rule_or_new_generated:
  assumes "generated_ok md5hex helper" "rule_or_new helper (allow_name md5hex protocol family src ports) pref rule"
  shows "sr_DestinationPortRange rule = None"
  using assms by (auto simp: generated_ok_def rule_or_new_def new_rule_def)

lemma allow_rule_ports:
  assumes "sr_DestinationPortRange rule = None" "sr_DestinationPortRanges rule = Some (sort (port_strings ports))" "ports_ok ports"
  shows "\<exists>ps. ListDestinationPortRanges rule = Inr ps \<and> set ps = set ports"
  using assms parse_ports_sorted by (simp add: ListDestinationPortRanges_def)

text \<open>C21. What an added rule allows. After \<open>AddRuleForAllowedIPRanges\<close> succeeds there is a rule that allows every
  destination address on every port for the protocol, from at least the given ranges, and no other rule changed.\<close>

theorem AddRuleForAllowedIPRanges_allows:
  assumes "AddRuleForAllowedIPRanges md5hex helper ranges protocol dsts ports = (helper', Inr ())"
    "generated_ok md5hex helper" "ports_ok ports"
  shows "\<exists>name rule. map_of (rh_rules helper') = (map_of (rh_rules helper))(name \<mapsto> rule) \<and>
    (\<forall>a \<in> set dsts. \<forall>port \<in> set ports. rule_allows rule protocol (addr_String a) port) \<and>
    (\<forall>p \<in> set ranges. prefix_String p \<in> set (ListSourcePrefixes rule))"
proof -
  obtain p ps where r: "ranges = p # ps" using assms(1)
    by (cases ranges) (auto simp: AddRuleForAllowedIPRanges_def split: if_splits list.splits)
  let ?src = "map prefix_String ranges"
  have "addAllowRule md5hex helper protocol (FamilyOfAddr (pAddr p)) ?src (map addr_String dsts) ports = (helper', Inr ())"
    using assms(1) r by (auto simp: AddRuleForAllowedIPRanges_def split: if_splits list.splits)
  from addAllowRule_effect(2)[OF this refl] obtain rule rule' where
      E: "rule_or_new helper (allow_name md5hex protocol (FamilyOfAddr (pAddr p)) ?src ports) rulePriorityPreferFromStart rule"
      "map_of (rh_rules helper') = (map_of (rh_rules helper))(allow_name md5hex protocol (FamilyOfAddr (pAddr p)) ?src ports \<mapsto> rule')"
      "set (ListDestinationPrefixes rule') = set (ListDestinationPrefixes rule) \<union> set (map addr_String dsts)"
      "sr_DestinationPortRanges rule' = Some (sort (port_strings ports))"
      "sr_DestinationPortRange rule' = sr_DestinationPortRange rule" "sr_Access rule' = Some ''Allow''"
      "sr_Protocol rule' = Some protocol"
      "set ?src \<subseteq> set (ListSourcePrefixes rule')"
    by blast
  obtain qs where "ListDestinationPortRanges rule' = Inr qs" "set qs = set ports"
    using allow_rule_ports[OF _ E(4) assms(3)] rule_or_new_generated[OF assms(2) E(1)] E(5) by auto
  then have "\<forall>a \<in> set dsts. \<forall>port \<in> set ports. rule_allows rule' protocol (addr_String a) port"
    using E(3,6,7) by (auto simp: rule_allows_def)
  moreover have "\<forall>q \<in> set ranges. prefix_String q \<in> set (ListSourcePrefixes rule')"
    using E(8) by auto
  ultimately show ?thesis using E(2) by blast
qed

section \<open>Removing destinations\<close>

definition managed :: "SecurityRule \<Rightarrow> bool" where
  "managed rule \<longleftrightarrow> (\<exists>p. sr_Priority rule = Some p \<and> LoadBalancerMinimumPriority \<le> p \<and> p \<le> LoadBalancerMaximumPriority)"

definition closed :: "string \<Rightarrow> string list \<Rightarrow> int list \<Rightarrow> SecurityRule \<Rightarrow> bool" where
  "closed protocol prefixes retain rule \<longleftrightarrow>
     (\<forall>d \<in> set prefixes. \<forall>port. rule_allows rule protocol d port \<longrightarrow> port \<in> set retain)"

definition keeps_others :: "string list \<Rightarrow> RuleHelper \<Rightarrow> RuleHelper \<Rightarrow> bool" where
  "keeps_others prefixes helper helper' \<longleftrightarrow>
     (\<forall>n rule. map_of (rh_rules helper) n = Some rule \<longrightarrow>
        (\<exists>rule'. map_of (rh_rules helper') n = Some rule' \<and> sr_Priority rule' = sr_Priority rule \<and>
           set (ListDestinationPrefixes rule') - set prefixes = set (ListDestinationPrefixes rule) - set prefixes))"

text \<open>The effect of one turn: every rule is closed, unchanged and not the visited one, or not managed.\<close>

definition closes :: "string \<Rightarrow> string list \<Rightarrow> int list \<Rightarrow> string \<Rightarrow> RuleHelper \<Rightarrow> RuleHelper \<Rightarrow> bool" where
  "closes protocol prefixes retain name helper helper' \<longleftrightarrow>
     (\<forall>n rule'. map_of (rh_rules helper') n = Some rule' \<longrightarrow>
        closed protocol prefixes retain rule' \<or> map_of (rh_rules helper) n = Some rule' \<and> (n = name \<longrightarrow> \<not> managed rule'))"

text \<open>Removing never opens anything but retained ports of its own protocol.\<close>

definition narrows :: "string \<Rightarrow> int list \<Rightarrow> RuleHelper \<Rightarrow> RuleHelper \<Rightarrow> bool" where
  "narrows protocol retain helper helper' \<longleftrightarrow>
     (\<forall>n rule'. map_of (rh_rules helper') n = Some rule' \<longrightarrow>
        (\<forall>P d port. rule_allows rule' P d port \<longrightarrow> P = protocol \<and> port \<in> set retain) \<or>
        (\<exists>rule. map_of (rh_rules helper) n = Some rule \<and> sr_Priority rule' = sr_Priority rule \<and>
           (\<forall>P d port. rule_allows rule' P d port \<longrightarrow> rule_allows rule P d port)))"

lemma narrows_refl: "narrows protocol retain helper helper"
  by (auto simp: narrows_def)

lemma narrows_trans:
  assumes "narrows protocol retain a b" "narrows protocol retain b c"
  shows "narrows protocol retain a c"
  unfolding narrows_def
proof (intro allI impI)
  fix n r assume "map_of (rh_rules c) n = Some r"
  from assms(2)[unfolded narrows_def, rule_format, OF this]
  show "(\<forall>P d port. rule_allows r P d port \<longrightarrow> P = protocol \<and> port \<in> set retain) \<or>
      (\<exists>rule. map_of (rh_rules a) n = Some rule \<and> sr_Priority r = sr_Priority rule \<and>
         (\<forall>P d port. rule_allows r P d port \<longrightarrow> rule_allows rule P d port))"
  proof
    assume "\<exists>rule. map_of (rh_rules b) n = Some rule \<and> sr_Priority r = sr_Priority rule \<and>
         (\<forall>P d port. rule_allows r P d port \<longrightarrow> rule_allows rule P d port)"
    then obtain q where q: "map_of (rh_rules b) n = Some q" "sr_Priority r = sr_Priority q"
        "\<forall>P d port. rule_allows r P d port \<longrightarrow> rule_allows q P d port" by blast
    from assms(1)[unfolded narrows_def, rule_format, OF q(1)] q(2,3) show ?thesis by fastforce
  qed blast
qed

lemma narrows_closed:
  assumes "narrows protocol retain helper helper'" "P = protocol \<longrightarrow> set retain \<subseteq> set R"
    "\<forall>n rule. map_of (rh_rules helper) n = Some rule \<longrightarrow> managed rule \<longrightarrow> closed P prefixes R rule"
    "map_of (rh_rules helper') n = Some rule'" "managed rule'"
  shows "closed P prefixes R rule'"
  using assms(1)[unfolded narrows_def, rule_format, OF assms(4)]
proof
  assume "\<exists>rule. map_of (rh_rules helper) n = Some rule \<and> sr_Priority rule' = sr_Priority rule \<and>
     (\<forall>P d port. rule_allows rule' P d port \<longrightarrow> rule_allows rule P d port)"
  then obtain rule where r: "map_of (rh_rules helper) n = Some rule" "sr_Priority rule' = sr_Priority rule"
      "\<forall>P d port. rule_allows rule' P d port \<longrightarrow> rule_allows rule P d port" by blast
  then have "managed rule" using assms(5) by (simp add: managed_def)
  then show ?thesis using assms(3) r by (auto simp: closed_def)
qed (use assms(2) in \<open>auto simp: closed_def\<close>)

lemma keeps_others_refl: "keeps_others prefixes helper helper"
  by (simp add: keeps_others_def)

lemma keeps_others_trans: "keeps_others ps a b \<Longrightarrow> keeps_others ps b c \<Longrightarrow> keeps_others ps a c"
  unfolding keeps_others_def by metis

lemma same_length_retained:
  assumes "distinct retain" "length current = length (Intersection current retain)"
  shows "set current \<subseteq> set retain"
proof -
  have d: "distinct (Intersection current retain)" using assms(1) by (simp add: Intersection_eq)
  have "set (Intersection current retain) = set current"
  proof (rule card_subset_eq)
    show "card (set (Intersection current retain)) = card (set current)"
      using distinct_card[OF d] card_length[of current] card_mono[of "set current" "set (Intersection current retain)"] assms(2)
      by (simp add: card_mono)
  qed auto
  then show ?thesis by auto
qed

text \<open>Taking the prefixes out of a rule, and adding a rule for retained ports.\<close>

lemma set_rule_closes:
  assumes "map_of (rh_rules helper) name = Some rule"
    "rule' = SetDestinationPrefixes rule (SubtractedBy (IndexSet prefixes) (ListDestinationPrefixes rule))"
  shows "closed protocol prefixes retain rule'" "keeps_others prefixes helper (set_rule helper name rule')"
    "map_of (rh_rules (set_rule helper name rule')) = (map_of (rh_rules helper))(name \<mapsto> rule')"
    "generated_ok md5hex helper \<Longrightarrow> generated_ok md5hex (set_rule helper name rule')"
    "narrows protocol retain helper (set_rule helper name rule')"
proof -
  have d: "set (ListDestinationPrefixes rule') = set (ListDestinationPrefixes rule) - set prefixes"
    using assms(2) by (auto simp: Dest_SetDestinationPrefixes SubtractedBy_IndexSet)
  show "closed protocol prefixes retain rule'" using d by (auto simp: closed_def rule_allows_def)
  show m: "map_of (rh_rules (set_rule helper name rule')) = (map_of (rh_rules helper))(name \<mapsto> rule')"
    by (simp add: set_rule_def)
  show "keeps_others prefixes helper (set_rule helper name rule')"
    using assms d by (auto simp: keeps_others_def set_rule_def)
  have "rule_allows rule' P a port \<Longrightarrow> rule_allows rule P a port" for P a port
    using assms(2) d by (auto simp: rule_allows_def ListDestinationPortRanges_def)
  then show "narrows protocol retain helper (set_rule helper name rule')"
    using assms by (auto simp: narrows_def set_rule_def)
  show "generated_ok md5hex (set_rule helper name rule')" if "generated_ok md5hex helper"
    using that assms by (auto simp: generated_ok_def set_rule_def)
qed

lemma addAllowRule_closes:
  assumes "addAllowRule md5hex helper protocol family src prefixes ports = (helper', res)" "generated_ok md5hex helper"
    "set ports \<subseteq> set retain" "ports_ok retain"
  shows "generated_ok md5hex helper'" "keeps_others prefixes helper helper'" "narrows protocol retain helper helper'"
    "map_of (rh_rules helper') n = Some rule' \<Longrightarrow> closed protocol prefixes retain rule' \<or> map_of (rh_rules helper) n = Some rule'"
proof -
  let ?n = "allow_name md5hex protocol family src ports"
  have "generated_ok md5hex helper' \<and> keeps_others prefixes helper helper' \<and> narrows protocol retain helper helper' \<and>
     (\<forall>n rule'. map_of (rh_rules helper') n = Some rule' \<longrightarrow>
        closed protocol prefixes retain rule' \<or> map_of (rh_rules helper) n = Some rule')"
  proof (cases res)
    case (Inl e)
    then show ?thesis using addAllowRule_effect(1)[OF assms(1)] assms(2) by (simp add: keeps_others_refl narrows_refl)
  next
    case (Inr u)
    from addAllowRule_effect(2)[OF assms(1)] Inr obtain rule rule' where
      E: "rule_or_new helper ?n rulePriorityPreferFromStart rule" "map_of (rh_rules helper') = (map_of (rh_rules helper))(?n \<mapsto> rule')"
      "set (ListDestinationPrefixes rule') = set (ListDestinationPrefixes rule) \<union> set prefixes"
      "sr_DestinationPortRanges rule' = Some (sort (port_strings ports))"
      "sr_DestinationPortRange rule' = sr_DestinationPortRange rule" "sr_Priority rule' = sr_Priority rule"
      "sr_Protocol rule' = Some protocol" by auto
    have none: "sr_DestinationPortRange rule' = None" using rule_or_new_generated[OF assms(2) E(1)] E(5) by simp
    have "ports_ok ports" using assms(3,4) by (auto simp: ports_ok_def)
    from allow_rule_ports[OF none E(4) this] obtain ps where "ListDestinationPortRanges rule' = Inr ps" "set ps = set ports" by blast
    then have al: "\<forall>P d port. rule_allows rule' P d port \<longrightarrow> P = protocol \<and> port \<in> set retain"
      using assms(3) E(7) by (auto simp: rule_allows_def)
    then have cl: "closed protocol prefixes retain rule'" by (auto simp: closed_def)
    have "narrows protocol retain helper helper'" unfolding narrows_def E(2) using al by auto
    moreover
    have "generated_ok md5hex helper'"
      using assms(2) none unfolding generated_ok_def E(2) fun_upd_apply by (metis option.inject)
    moreover have "keeps_others prefixes helper helper'"
      unfolding keeps_others_def
    proof (intro allI impI)
      fix n rl assume m: "map_of (rh_rules helper) n = Some rl"
      show "\<exists>rl'. map_of (rh_rules helper') n = Some rl' \<and> sr_Priority rl' = sr_Priority rl \<and>
           set (ListDestinationPrefixes rl') - set prefixes = set (ListDestinationPrefixes rl) - set prefixes"
      proof (cases "n = ?n")
        case True
        then have "rl = rule" using E(1) m by (auto simp: rule_or_new_def)
        then show ?thesis using E(3,6) True unfolding E(2) by (intro exI[of _ rule']) auto
      qed (use m in \<open>simp add: E(2)\<close>)
    qed
    ultimately show ?thesis using cl unfolding E(2) fun_upd_apply by (metis option.inject)
  qed
  then show "generated_ok md5hex helper'" "keeps_others prefixes helper helper'" "narrows protocol retain helper helper'"
    "map_of (rh_rules helper') n = Some rule' \<Longrightarrow> closed protocol prefixes retain rule' \<or> map_of (rh_rules helper) n = Some rule'"
    by blast+
qed

lemma removeDestinationFromRule_closes:
  assumes rule: "map_of (rh_rules helper) name = Some rule" and p: "sr_Protocol rule = Some protocol"
    and gen: "generated_ok md5hex helper" and ret: "distinct retain" "ports_ok retain"
    and step: "removeDestinationFromRule md5hex helper name rule prefixes retain = (helper', res)" and np: "\<not> is_panic res"
  shows "generated_ok md5hex helper'" "keeps_others prefixes helper helper'" "closes protocol prefixes retain name helper helper'"
    "narrows protocol retain helper helper'"
proof -
  let ?cur = "ListDestinationPrefixes rule"
  define rule' where "rule' = SetDestinationPrefixes rule (SubtractedBy (IndexSet prefixes) ?cur)"
  note S = set_rule_closes[OF rule rule'_def]
  obtain access where a: "sr_Access rule = Some access"
    using step np by (cases "sr_Access rule") (auto simp: removeDestinationFromRule_def Let_def is_panic_def)
  have set: "generated_ok md5hex h \<and> keeps_others prefixes helper h \<and> closes protocol prefixes retain name helper h \<and> narrows protocol retain helper h"
    if "h = set_rule helper name rule'" for h
    using that S(1)[of protocol retain] S(2,3) S(4)[OF gen] S(5)[of protocol retain] by (auto simp: closes_def split: if_splits)
  have same: "generated_ok md5hex helper \<and> keeps_others prefixes helper helper \<and> closes protocol prefixes retain name helper helper \<and>
      narrows protocol retain helper helper"
    if "closed protocol prefixes retain rule" using that gen rule by (auto simp: keeps_others_refl closes_def narrows_refl)
  have "generated_ok md5hex helper' \<and> keeps_others prefixes helper helper' \<and> closes protocol prefixes retain name helper helper' \<and>
      narrows protocol retain helper helper'"
  proof (cases "access = ''Deny'' \<and> retain = []")
    case True
    then show ?thesis using set step a p by (simp add: removeDestinationFromRule_def rule'_def)
  next
    case False
    show ?thesis
    proof (cases "ListDestinationPortRanges rule")
      case (Inl e)
      then have "helper' = helper" using step a p False by (auto simp: removeDestinationFromRule_def Let_def split: if_splits)
      then show ?thesis using same Inl by (simp add: closed_def rule_allows_def)
    next
      case (Inr current)
      let ?exp = "Intersection current retain"
      consider "Intersection ?cur prefixes = [] \<or> length current = length ?exp" "helper' = helper"
        | "?exp = []" "helper' = set_rule helper name rule'"
        | "\<exists>x. res = Inl x" "helper' = set_rule helper name rule'"
        | family where "addAllowRule md5hex (set_rule helper name rule') protocol family (ListSourcePrefixes rule') prefixes ?exp = (helper', res)"
        using step a p False Inr unfolding removeDestinationFromRule_def Let_def
        by (simp only: option.case sum.case prod.case rule'_def[symmetric] if_False)
          (auto split: if_splits list.splits option.splits)
      then show ?thesis
      proof cases
        case 1
        have "closed protocol prefixes retain rule"
          using 1(1)
        proof
          assume "Intersection ?cur prefixes = []"
          then have "set ?cur \<inter> set prefixes = {}" by (metis set_Intersection list.set(1))
          then show ?thesis by (auto simp: closed_def rule_allows_def)
        next
          assume "length current = length ?exp"
          then show ?thesis using same_length_retained[OF ret(1)] Inr by (auto simp: closed_def rule_allows_def)
        qed
        then show ?thesis using same 1(2) by simp
      next
        case 2
        then show ?thesis using set by simp
      next
        case 3
        then show ?thesis using set by simp
      next
        case (4 family)
        note A = addAllowRule_closes[OF 4 S(4)[OF gen] _ ret(2)]
        have "set ?exp \<subseteq> set retain" by auto
        note A' = A[OF this]
        have "closes protocol prefixes retain name helper helper'"
          unfolding closes_def
        proof (intro allI impI)
          fix n rl assume m: "map_of (rh_rules helper') n = Some rl"
          from A'(4)[OF m] S(1)[of protocol retain]
          show "closed protocol prefixes retain rl \<or> map_of (rh_rules helper) n = Some rl \<and> (n = name \<longrightarrow> \<not> managed rl)"
            unfolding S(3) by (cases "n = name") auto
        qed
        then show ?thesis using A'(1) keeps_others_trans[OF S(2) A'(2)] narrows_trans[OF S(5) A'(3)] by simp
      qed
    qed
  qed
  then show "generated_ok md5hex helper'" "keeps_others prefixes helper helper'" "closes protocol prefixes retain name helper helper'"
    "narrows protocol retain helper helper'"
    by blast+
qed

lemma remove_from_rule_closes:
  assumes "remove_from_rule md5hex protocol prefixes retain helper name = (helper', res)" "\<not> is_panic res"
    "generated_ok md5hex helper" "distinct retain" "ports_ok retain"
  shows "generated_ok md5hex helper' \<and> keeps_others prefixes helper helper' \<and> closes protocol prefixes retain name helper helper' \<and>
    narrows protocol retain helper helper'"
proof (cases "map_of (rh_rules helper) name")
  case None
  then have "helper' = helper" using assms(1) by (simp add: remove_from_rule_def)
  then show ?thesis using assms(3) None by (auto simp: keeps_others_refl closes_def narrows_refl)
next
  case (Some rule)
  have same: ?thesis if "helper' = helper" "\<not> managed rule \<or> closed protocol prefixes retain rule"
    using that assms(3) Some by (auto simp: keeps_others_refl closes_def narrows_refl)
  consider "helper' = helper" "\<not> managed rule" | "helper' = helper" "sr_Protocol rule \<noteq> Some protocol"
    | "sr_Protocol rule = Some protocol" "removeDestinationFromRule md5hex helper name rule prefixes retain = (helper', res)"
    using assms(1,2) Some
    by (auto simp: remove_from_rule_def managed_def is_panic_def split: option.splits if_splits)
  then show ?thesis
  proof cases
    case 2
    then have "closed protocol prefixes retain rule" by (simp add: closed_def rule_allows_def)
    then show ?thesis using same 2(1) by blast
  next
    case 3
    then show ?thesis using removeDestinationFromRule_closes[OF Some 3(1) assms(3-5) 3(2) assms(2)] by blast
  qed (use same in blast)
qed

lemma remove_visits_closes:
  assumes "RemoveDestinationFromRules md5hex visit helper protocol prefixes retain = (helper', Inr ())"
    "generated_ok md5hex helper" "distinct retain" "ports_ok retain"
    "\<forall>n rule. map_of (rh_rules helper) n = Some rule \<longrightarrow> managed rule \<longrightarrow> n \<in> set visit \<or> closed protocol prefixes retain rule"
  shows "(\<forall>n rule. map_of (rh_rules helper') n = Some rule \<longrightarrow> managed rule \<longrightarrow> closed protocol prefixes retain rule) \<and>
    keeps_others prefixes helper helper' \<and> narrows protocol retain helper helper' \<and> generated_ok md5hex helper'"
  using assms(1,2,5)
proof (induction visit arbitrary: helper)
  case Nil
  then show ?case by (simp add: keeps_others_refl narrows_refl)
next
  case (Cons name visit)
  obtain h r where step: "remove_from_rule md5hex protocol prefixes retain helper name = (h, r)" by fastforce
  then have np: "\<not> is_panic r" using Cons.prems(1) by (auto simp: is_panic_def split: if_splits)
  note C = remove_from_rule_closes[OF step np Cons.prems(2) assms(3,4)]
  have "RemoveDestinationFromRules md5hex visit h protocol prefixes retain = (helper', Inr ())"
    using Cons.prems(1) step np by simp
  moreover have "\<forall>n rule. map_of (rh_rules h) n = Some rule \<longrightarrow> managed rule \<longrightarrow> n \<in> set visit \<or> closed protocol prefixes retain rule"
    using C Cons.prems(3) by (auto simp: closes_def)
  ultimately show ?case using Cons.IH[of h] C keeps_others_trans narrows_trans by blast
qed

lemma visit_all:
  assumes "fst ` set (rh_rules helper) \<subseteq> set visit"
  shows "\<forall>n rule. map_of (rh_rules helper) n = Some rule \<longrightarrow> managed rule \<longrightarrow>
      n \<in> set visit \<or> closed protocol prefixes retain rule"
  using assms by (force dest: map_of_SomeD)


section \<open>An example group\<close>

text \<open>One rule that allows two destinations on two ports.\<close>

definition ex_rule :: "string \<Rightarrow> int \<Rightarrow> SecurityRule" where
  "ex_rule name priority =
     \<lparr>sr_Name = name, sr_Priority = Some priority, sr_Protocol = Some ''Tcp'', sr_Access = Some ''Allow'',
      sr_Direction = Some ''Inbound'', sr_SourceAddressPrefix = Some ''Internet'', sr_SourceAddressPrefixes = None,
      sr_SourcePortRange = Some ''*'', sr_DestinationAddressPrefix = None,
      sr_DestinationAddressPrefixes = Some [''10.0.0.1'', ''10.0.0.2''], sr_DestinationPortRange = None,
      sr_DestinationPortRanges = Some [''22'', ''80''], sr_DestinationASGs = []\<rparr>"

definition ex_helper :: RuleHelper where
  "ex_helper = \<lparr>rh_sg = \<lparr>sg_Name = Some ''nsg'', sg_SecurityRules = Some [ex_rule ''r'' 500], sg_Tags = None\<rparr>, rh_snapshot = [ex_rule ''r'' 500],
     rh_rules = [(''r'', ex_rule ''r'' 500)], rh_priorities = [(500, ''r'')]\<rparr>"

lemma ex_helper_generated: "generated_ok md5hex ex_helper"
  by (auto simp: generated_ok_def ex_helper_def ex_rule_def)

theorem nextRulePriority_spec_witness:
  "nextRulePriority ex_helper rulePriorityPreferFromStart = Inr 501 \<and> free_priority ex_helper 501 \<and>
   free_priority ex_helper 700 \<and> 501 \<le> (700 :: int)"
proof -
  have e: "nextRulePriority ex_helper rulePriorityPreferFromStart = Inr 501" by code_simp
  have f: "free_priority ex_helper 700"
    by (simp add: free_priority_def ex_helper_def LoadBalancerMinimumPriority_def LoadBalancerMaximumPriority_def)
  then show ?thesis using nextRulePriority_spec[of ex_helper rulePriorityPreferFromStart] e by simp
qed

theorem AddRuleForAllowedIPRanges_allows_witness:
  "\<exists>helper' name rule. AddRuleForAllowedIPRanges (\<lambda>s. s) ex_helper [\<lparr>pAddr = Addr4 0x0b000000, pBits = 8\<rparr>] ''Tcp'' [Addr4 0x0a000009] [81]
      = (helper', Inr ()) \<and> map_of (rh_rules helper') name = Some rule \<and> rule_allows rule ''Tcp'' (addr_String (Addr4 0x0a000009)) 81"
proof -
  let ?a = "AddRuleForAllowedIPRanges (\<lambda>s. s) ex_helper [\<lparr>pAddr = Addr4 0x0b000000, pBits = 8\<rparr>] ''Tcp'' [Addr4 0x0a000009] [81]"
  have "snd ?a = Inr ()" by code_simp
  then obtain helper' where a: "?a = (helper', Inr ())" by (cases ?a) auto
  have "ports_ok [81]" by (simp add: ports_ok_def)
  from AddRuleForAllowedIPRanges_allows[OF a ex_helper_generated this] a show ?thesis by fastforce
qed


section \<open>Reporting changes\<close>

definition has_destination :: "SecurityRule \<Rightarrow> bool" where
  "has_destination r \<longleftrightarrow> ListDestinationPrefixes r \<noteq> [] \<or> sr_DestinationASGs r \<noteq> []"

lemma helper_rules:
  assumes "NewSecurityGroupHelper (Some sg) = Inr helper" "sg_SecurityRules sg = Some rules" "distinct (map sr_Name rules)"
  shows "rh_rules helper = map (\<lambda>r. (sr_Name r, r)) rules" "rh_snapshot helper = makeSecurityGroupSnapshot rules"
  using assms fold_put[OF assms(3), of "[]" "\<lambda>r. r"]
  by (auto simp: NewSecurityGroupHelper_def split: option.splits if_splits)

lemma visited_rules:
  assumes "distinct (map sr_Name rules)" "mset visit = mset (map sr_Name rules)"
  shows "mset (List.map_filter (map_of (map (\<lambda>r. (sr_Name r, r)) rules)) visit) = mset rules"
proof -
  let ?F = "map_of (map (\<lambda>r. (sr_Name r, r)) rules)"
  have "?F (sr_Name r) = Some r" if "r \<in> set rules" for r
    using that assms(1) by (simp add: map_of_is_SomeI comp_def image_iff)
  moreover have "List.map_filter F (map sr_Name rs) = rs" if "\<And>r. r \<in> set rs \<Longrightarrow> F (sr_Name r) = Some r" for F rs
    using that by (induction rs) (simp_all add: map_filter_simps)
  ultimately have all: "List.map_filter ?F (map sr_Name rules) = rules" by blast
  have image: "mset (List.map_filter ?F xs) = image_mset (the \<circ> ?F) (filter_mset (\<lambda>x. ?F x \<noteq> None) (mset xs))" for xs
    by (simp add: List.map_filter_def)
  show ?thesis unfolding image assms(2) unfolding image[symmetric] all ..
qed

lemma makeSecurityGroupSnapshot_mset:
  assumes "mset xs = mset ys" "distinct (map sr_Priority ys)" "\<forall>r \<in> set ys. sr_Priority r \<noteq> None"
  shows "makeSecurityGroupSnapshot xs = makeSecurityGroupSnapshot ys"
proof -
  have "inj_on (\<lambda>r. deref (sr_Priority r) 0) (set ys)"
    using assms(2,3) by (auto simp: distinct_map inj_on_def) (metis deref_simps(2))
  then show ?thesis
    unfolding makeSecurityGroupSnapshot_def
    using assms(1) by (intro sort_key_inj_key_eq) (auto dest: mset_eq_setD)
qed

text \<open>C23. Nothing changed, nothing reported. When the rules of the group have distinct names and priorities and every rule
  has a destination, building the helper and asking it for the group in any visiting order returns the rules it was built
  from and reports no update.\<close>

theorem SecurityGroup_unchanged:
  assumes "NewSecurityGroupHelper (Some sg) = Inr helper" "sg_SecurityRules sg = Some rules"
    "distinct (map sr_Name rules)" "distinct (map sr_Priority rules)" "\<forall>r \<in> set rules. has_destination r"
    "mset visit = mset (map sr_Name rules)" "helper_SecurityGroup helper visit = Inr (sg', updated)"
  shows "\<not> updated \<and> sg_SecurityRules sg' = Some (makeSecurityGroupSnapshot rules)"
proof -
  note H = helper_rules[OF assms(1-3)]
  let ?v = "List.map_filter (map_of (rh_rules helper)) visit"
  have v: "mset ?v = mset rules" using visited_rules[OF assms(3,6)] H(1) by simp
  have p: "\<forall>r \<in> set rules. sr_Priority r \<noteq> None"
    using assms(1,2) by (auto simp: NewSecurityGroupHelper_def split: option.splits if_splits)
  have "filter (\<lambda>r. \<not> (ListDestinationPrefixes r = [] \<and> sr_DestinationASGs r = [])) ?v = ?v"
    using assms(5) mset_eq_setD[OF v] by (auto simp: has_destination_def intro!: filter_True)
  moreover have "makeSecurityGroupSnapshot ?v = makeSecurityGroupSnapshot rules"
    by (rule makeSecurityGroupSnapshot_mset[OF v assms(4) p])
  ultimately show ?thesis
    using assms(7) H(2) by (auto simp: helper_SecurityGroup_def Let_def split: if_splits)
qed

text \<open>A spurious update. Azure numbers the priorities of inbound and outbound rules separately. With two rules of the same
  priority and a map that is visited in the other order, an unchanged group is reported as updated.\<close>

theorem SecurityGroup_spurious_update:
  assumes "NewSecurityGroupHelper (Some sg) = Inr helper" "sg_SecurityRules sg = Some [r1, r2]"
    "sr_Name r1 \<noteq> sr_Name r2" "sr_Priority r1 = sr_Priority r2" "has_destination r1" "has_destination r2"
    "helper_SecurityGroup helper [sr_Name r2, sr_Name r1] = Inr (sg', updated)"
  shows "updated"
proof -
  have H: "rh_rules helper = [(sr_Name r1, r1), (sr_Name r2, r2)]" "rh_snapshot helper = [r1, r2]"
    using helper_rules[OF assms(1,2)] assms(3,4) by (simp_all add: makeSecurityGroupSnapshot_def)
  have "List.map_filter (map_of (rh_rules helper)) [sr_Name r2, sr_Name r1] = [r2, r1]"
    using H(1) assms(3) by (simp add: List.map_filter_def)
  then have "updated = ([r1, r2] \<noteq> makeSecurityGroupSnapshot [r2, r1])"
    using assms(5-7) H(2) by (auto simp: helper_SecurityGroup_def has_destination_def Let_def split: if_splits)
  then show ?thesis using assms(3,4) by (auto simp: makeSecurityGroupSnapshot_def)
qed

definition ex_group :: "SecurityRule list \<Rightarrow> SecurityGroup" where
  "ex_group rules = \<lparr>sg_Name = Some ''nsg'', sg_SecurityRules = Some rules, sg_Tags = None\<rparr>"

definition ex_out :: SecurityRule where
  "ex_out = (ex_rule ''out'' 500)\<lparr>sr_Direction := Some ''Outbound''\<rparr>"

lemma ex_new:
  assumes "\<forall>r \<in> set rules. sr_Priority r \<noteq> None"
  shows "\<exists>helper. NewSecurityGroupHelper (Some (ex_group rules)) = Inr helper"
  using assms by (simp add: NewSecurityGroupHelper_def ex_group_def)

lemma ex_new_prio: "sr_Priority (ex_rule n p) = Some p" "sr_Name (ex_rule n p) = n" "has_destination (ex_rule n p)"
  "sr_Priority ex_out = Some 500" "sr_Name ex_out = ''out''" "has_destination ex_out"
  by (simp_all add: ex_rule_def ex_out_def has_destination_def ListDestinationPrefixes_def)

theorem SecurityGroup_unchanged_witness:
  "\<exists>helper sg'. NewSecurityGroupHelper (Some (ex_group [ex_rule ''b'' 501, ex_rule ''a'' 500])) = Inr helper \<and>
     helper_SecurityGroup helper [''a'', ''b''] = Inr (sg', False)"
proof -
  let ?h = "NewSecurityGroupHelper (Some (ex_group [ex_rule ''b'' 501, ex_rule ''a'' 500]))"
  obtain helper where h: "?h = Inr helper" using ex_new[of "[ex_rule ''b'' 501, ex_rule ''a'' 500]"] by (auto simp: ex_new_prio)
  have "isl (helper_SecurityGroup (projr ?h) [''a'', ''b'']) = False" by code_simp
  then obtain sg' updated where g: "helper_SecurityGroup helper [''a'', ''b''] = Inr (sg', updated)"
    by (cases "helper_SecurityGroup helper [''a'', ''b'']") (auto simp: h)
  have "\<not> updated" using SecurityGroup_unchanged[OF h _ _ _ _ _ g] by (simp add: ex_group_def ex_new_prio)
  then show ?thesis using h g by auto
qed

theorem SecurityGroup_spurious_update_witness:
  "\<exists>helper sg'. NewSecurityGroupHelper (Some (ex_group [ex_rule ''in'' 500, ex_out])) = Inr helper \<and>
     helper_SecurityGroup helper [''out'', ''in''] = Inr (sg', True)"
proof -
  let ?h = "NewSecurityGroupHelper (Some (ex_group [ex_rule ''in'' 500, ex_out]))"
  obtain helper where h: "?h = Inr helper" using ex_new[of "[ex_rule ''in'' 500, ex_out]"] by (auto simp: ex_new_prio)
  have "isl (helper_SecurityGroup (projr ?h) [''out'', ''in'']) = False" by code_simp
  then obtain sg' updated where g: "helper_SecurityGroup helper [sr_Name ex_out, sr_Name (ex_rule ''in'' 500)] = Inr (sg', updated)"
    by (cases "helper_SecurityGroup helper [''out'', ''in'']") (auto simp: h ex_new_prio)
  have "updated" using SecurityGroup_spurious_update[OF h _ _ _ _ _ g] by (simp add: ex_group_def ex_new_prio)
  then show ?thesis using h g by (auto simp: ex_new_prio)
qed

end
