(* ===== verification/PrefixAggregation.thy ===== *)
theory PrefixAggregation
  imports IPUtil PrefixPaths
begin

unbundle bit_operations_syntax

text \<open>
  Correctness of \<open>AggregatePrefixes\<close>: the bit operations of \<open>bits.go\<close> on bit strings, the merge
  of adjacent prefixes as the merge of sibling paths, and the loop of
  \<open>aggregatePrefixesForSingleIPFamily\<close> as the stack algorithm of the theory \<open>BitPath\<close>.
\<close>

section \<open>bits.go on bit strings\<close>

lemma bitAt_bits: "i < 8 * length bs \<Longrightarrow> bitAt bs i = Some (of_bool (bytes_bits bs ! i))"
proof -
  assume i: "i < 8 * length bs"
  then have "i div 8 < length bs" by (simp add: less_mult_imp_div_less mult.commute)
  moreover have "drop_bit k (b :: byte) AND 1 = of_bool (bit b k)" for b k
    by (simp add: and_one_eq bit_iff_odd_drop_bit odd_iff_mod_2_eq_one)
  ultimately show ?thesis using i by (simp add: bitAt_def nth_bytes_bits)
qed

lemma setBitAt_bits:
  assumes "i < 8 * length bs"
  obtains bs' where "setBitAt bs i 1 = Some bs'" "bytes_bits bs' = (bytes_bits bs)[i := True]"
proof -
  let ?bs' = "bs[i div 8 := bs ! (i div 8) OR push_bit (7 - i mod 8) 1]"
  have d: "i div 8 < length bs" using assms by (simp add: less_mult_imp_div_less mult.commute)
  have "bytes_bits ?bs' = (bytes_bits bs)[i := True]"
  proof (rule nth_equalityI)
    fix j assume "j < length (bytes_bits ?bs')"
    then have j: "j < 8 * length bs" by simp
    show "bytes_bits ?bs' ! j = (bytes_bits bs)[i := True] ! j"
    proof (cases "j div 8 = i div 8")
      case True
      have "j mod 8 < 8" "i mod 8 < 8" by simp_all
      then have "7 - j mod 8 = 7 - i mod 8 \<longleftrightarrow> j mod 8 = i mod 8" by linarith
      moreover have "j mod 8 = i mod 8 \<longleftrightarrow> j = i" using True by (metis div_mult_mod_eq)
      ultimately have same: "7 - j mod 8 = 7 - i mod 8 \<longleftrightarrow> j = i" by blast
      have or: "bit (x OR push_bit (7 - i mod 8) 1) (7 - j mod 8) \<longleftrightarrow> bit x (7 - j mod 8) \<or> j = i"
        for x :: byte
        unfolding same[symmetric] by (auto simp: bit_or_iff bit_exp_iff)
      have "bytes_bits ?bs' ! j = bit (bs ! (i div 8) OR push_bit (7 - i mod 8) 1) (7 - j mod 8)"
        using True j d by (simp add: nth_bytes_bits)
      also have "\<dots> \<longleftrightarrow> bytes_bits bs ! j \<or> j = i"
        unfolding or nth_bytes_bits[OF j] True ..
      also have "\<dots> \<longleftrightarrow> (bytes_bits bs)[i := True] ! j"
        using assms by (auto simp: nth_list_update)
      finally show ?thesis .
    next
      case False
      with j show ?thesis by (auto simp: nth_bytes_bits nth_list_update)
    qed
  qed simp
  then show thesis using that[of ?bs'] d by (simp add: setBitAt_def)
qed

section \<open>Merging siblings\<close>

lemma list_update_last: "xs \<noteq> [] \<Longrightarrow> xs[length xs - 1 := y] = butlast xs @ [y]"
  by (metis list_update_length append_butlast_last_id length_butlast)

lemma siblings_iff:
  "siblings p q \<longleftrightarrow> p \<noteq> [] \<and> \<not> last p \<and> q = butlast p @ [True]"
  unfolding siblings_def by (metis append_butlast_last_id butlast_snoc last_snoc snoc_eq_iff_butlast)

lemma merge_siblings:
  assumes ok: "prefix_ok p" "prefix_ok q" and fam: "same_family p q"
    and left: "left_of (path_of p) (path_of q)"
  shows "if siblings (path_of p) (path_of q)
         then \<exists>r. mergeAdjacentPrefixes p q = Inr (Some r) \<and> prefix_ok r \<and> same_family r p \<and>
                path_of r = butlast (path_of p)
         else mergeAdjacentPrefixes p q = Inr None"
proof (cases "pBits p \<noteq> pBits q \<or> pBits p = 0")
  case True
  then have "\<not> siblings (path_of p) (path_of q)"
    using ok prefix_okD(2) by (metis siblings_def length_append_singleton nat.distinct(1))
  with True show ?thesis by (simp add: mergeAdjacentPrefixes_def)
next
  case False
  let ?b = "pBits p" and ?P = "path_of p" and ?Q = "path_of q"
  let ?W = "BitLen (pAddr p)"
  have W: "BitLen (pAddr q) = ?W" using same_family_BitLen[OF fam] by simp
  have b: "0 < ?b" "?b \<le> ?W" "pBits q = ?b" using False prefix_okD(1)[OF ok(1)] by auto
  have lens: "length ?P = ?b" "length ?Q = ?b"
    using prefix_okD(2)[OF ok(1)] prefix_okD(2)[OF ok(2)] b by auto
  have bits: "addr_bits (pAddr p) = ?P @ replicate (?W - ?b) False"
    "addr_bits (pAddr q) = ?Q @ replicate (?W - ?b) False"
    using prefix_ok_bits[OF ok(1)] prefix_ok_bits[OF ok(2)] W b by simp_all
  have ne: "?P \<noteq> []" "?Q \<noteq> []" using lens b by auto
  have idx: "?b - 1 < 8 * length (AsSlice (pAddr p))" "?b - 1 < 8 * length (AsSlice (pAddr q))"
    using b W by (simp_all only: length_AsSlice)
  have lastP: "addr_bits (pAddr p) ! (?b - 1) = last ?P"
    using lens ne b by (simp add: bits nth_append last_conv_nth)
  have bat: "bitAt (AsSlice (pAddr p)) (?b - 1) = Some (of_bool (last ?P))"
    using bitAt_bits[OF idx(1)] lastP by simp
  obtain b1 where b1: "setBitAt (AsSlice (pAddr p)) (?b - 1) 1 = Some b1"
    "bytes_bits b1 = (addr_bits (pAddr p))[?b - 1 := True]"
    using setBitAt_bits[OF idx(1)] by (metis bytes_bits_AsSlice)
  obtain b2 where b2: "setBitAt (AsSlice (pAddr q)) (?b - 1) 1 = Some b2"
    "bytes_bits b2 = (addr_bits (pAddr q))[?b - 1 := True]"
    using setBitAt_bits[OF idx(2)] by (metis bytes_bits_AsSlice)
  have upd: "(?P @ z)[?b - 1 := True] = butlast ?P @ [True] @ z"
    "(?Q @ z)[?b - 1 := True] = butlast ?Q @ [True] @ z" for z
    using lens ne b list_update_last[of ?P True] list_update_last[of ?Q True]
    by (simp_all add: list_update_append)
  have e1: "b1 = AsSlice (pAddr q) \<longleftrightarrow> butlast ?P @ [True] = ?Q"
    using b1(2) upd lens by (simp add: bytes_bits_inj[symmetric] bits)
  have e2: "AsSlice (pAddr p) = b2 \<longleftrightarrow> ?P = butlast ?Q @ [True]"
    using b2(2) upd lens by (simp add: bytes_bits_inj[symmetric] bits)
  have no: "?P \<noteq> butlast ?Q @ [True]"
  proof
    assume eq: "?P = butlast ?Q @ [True]"
    have "?Q = butlast ?Q @ [last ?Q]" using ne by simp
    then have "?Q = ?P \<or> left_of ?Q ?P" using eq by (cases "last ?Q") (auto simp: left_of_def)
    with left show False using left_of_irrefl left_of_trans by metis
  qed
  obtain r where r: "addr_Prefix (pAddr p) (?b - 1) = Some r" "prefix_ok r" "same_family r p"
    "path_of r = take (?b - 1) (addr_bits (pAddr p))"
    using addr_Prefix_ok[OF ok(1), of "?b - 1"] b by (metis diff_le_self le_trans)
  have rp: "path_of r = butlast ?P" using r(4) lens by (simp add: bits butlast_conv_take)
  show ?thesis
    using False bat b1(1) b2(1) e1 e2 no r rp ne
    by (cases "last ?P") (auto simp: mergeAdjacentPrefixes_def siblings_iff Let_def)
qed

section \<open>The loops\<close>

text \<open>Well-formed prefixes of one family.\<close>

definition fam_ok :: "bool \<Rightarrow> Prefix list \<Rightarrow> bool" where
  "fam_ok v ps \<longleftrightarrow> (\<forall>p \<in> set ps. prefix_ok p \<and> Is4 (pAddr p) = v)"

lemma fam_ok_simps [simp]:
  "fam_ok v []" "fam_ok v (p # ps) \<longleftrightarrow> prefix_ok p \<and> Is4 (pAddr p) = v \<and> fam_ok v ps"
  "fam_ok v (ps @ qs) \<longleftrightarrow> fam_ok v ps \<and> fam_ok v qs"
  by (auto simp: fam_ok_def)

lemma fam_ok_set: "fam_ok v ps \<Longrightarrow> set qs \<subseteq> set ps \<Longrightarrow> fam_ok v qs"
  by (auto simp: fam_ok_def)

lemma fam_ok_path_length: "fam_ok v ps \<Longrightarrow> p \<in> set ps \<Longrightarrow> length (path_of p) \<le> fam_width v"
  using prefix_okD[of p] BitLen_fam_width[of "pAddr p"] by (simp add: fam_ok_def)

lemma fam_ok_inj:
  assumes "fam_ok v ps" "fam_ok v qs"
  shows "inj_on path_of (set ps \<union> set qs)"
proof (rule inj_onI)
  fix p q assume "p \<in> set ps \<union> set qs" "q \<in> set ps \<union> set qs" "path_of p = path_of q"
  with assms show "p = q" by (intro path_of_inj) (auto simp: fam_ok_def same_family_def)
qed

lemma merge_tail_snoc2:
  "merge_tail (xs @ [a, b]) =
     (case mergeAdjacentPrefixes a b of
        Inl e \<Rightarrow> Inl e
      | Inr None \<Rightarrow> Inr (xs @ [a, b])
      | Inr (Some p) \<Rightarrow> merge_tail (xs @ [p]))"
  by (subst merge_tail.simps) (simp add: nth_append split: sum.split option.split)

lemma list_snoc2_cases:
  obtains "length xs < 2" | ys a b where "xs = ys @ [a, b]"
proof (cases "length xs < 2")
  case False
  then obtain zs b where zs: "xs = zs @ [b]" by (cases xs rule: rev_cases) auto
  with False obtain ys a where "zs = ys @ [a]" by (cases zs rule: rev_cases) auto
  with zs that(2) show ?thesis by simp
qed (use that in blast)

lemma merge_tail_collapse:
  assumes "fam_ok v rv" "sorted_wrt (\<lambda>q p. left_of p q) (rev (map path_of rv))"
  shows "\<exists>rv'. merge_tail rv = Inr rv' \<and> fam_ok v rv' \<and> map path_of rv' = rev (collapse (rev (map path_of rv)))"
  using assms
proof (induction rv rule: merge_tail.induct)
  case (1 rv)
  show ?case
  proof (cases rv rule: list_snoc2_cases)
    case 1
    then have "collapse (rev (map path_of rv)) = rev (map path_of rv)"
      by (cases rv) auto
    with 1 "1.prems" show ?thesis by (subst merge_tail.simps) simp
  next
    case (2 ys a b)
    have ab: "prefix_ok a" "prefix_ok b" "same_family a b" "left_of (path_of a) (path_of b)"
      and va: "Is4 (pAddr a) = v"
      using "1.prems" 2 by (auto simp: same_family_def)
    show ?thesis
    proof (cases "siblings (path_of a) (path_of b)")
      case True
      then obtain r where r: "mergeAdjacentPrefixes a b = Inr (Some r)" "prefix_ok r"
          "same_family r a" "path_of r = butlast (path_of a)"
        using merge_siblings[OF ab] by auto
      have "\<forall>s \<in> set ys. left_of (path_of s) (path_of r)"
        using "1.prems"(2) 2 True r(4) left_of_snoc_False by (auto simp: siblings_def)
      moreover have "fam_ok v (ys @ [r])"
        using "1.prems"(1) 2 r va by (simp add: same_family_def)
      moreover have "mergeAdjacentPrefixes (rv ! (length rv - 2)) (rv ! (length rv - 1)) = Inr (Some r)"
        "take (length rv - 2) rv @ [r] = ys @ [r]" "\<not> length rv < 2"
        using 2 r(1) by (simp_all add: nth_append)
      ultimately obtain rv' where "merge_tail (ys @ [r]) = Inr rv'" "fam_ok v rv'"
          "map path_of rv' = rev (collapse (rev (map path_of (ys @ [r]))))"
        using "1.IH"[of "Some r" r] "1.prems"(2) 2 by auto
      then show ?thesis
        using 2 r True by (auto simp: merge_tail_snoc2)
    next
      case False
      then have "mergeAdjacentPrefixes a b = Inr None"
        using merge_siblings[OF ab] by simp
      with False "1.prems" 2 show ?thesis by (auto simp: merge_tail_snoc2)
    qed
  qed
qed

lemma ContainsPrefix_iff:
  assumes "prefix_ok p" "prefix_ok q" "same_family p q"
  shows "ContainsPrefix p q \<longleftrightarrow> prefix (path_of p) (path_of q)"
proof (cases "pBits p \<le> pBits q")
  case True
  then show ?thesis using Overlaps_iff[OF assms] by (simp add: ContainsPrefix_def)
next
  case False
  then have "\<not> prefix (path_of p) (path_of q)"
    using prefix_okD(2)[OF assms(1)] prefix_okD(2)[OF assms(2)] prefix_length_le by force
  with False show ?thesis by (simp add: ContainsPrefix_def)
qed

lemma aggregate_loop_agg:
  assumes "fam_ok v rv" "rv \<noteq> []" "fam_ok v ps" "sorted (map path_of ps)"
    "stack_ok (fam_width v) (rev (map path_of rv))" "\<forall>p \<in> set ps. path_of (last rv) \<le> path_of p"
  shows "\<exists>rv'. aggregate_loop rv ps = Inr rv' \<and> fam_ok v rv' \<and>
           map path_of rv' = rev (agg (rev (map path_of rv)) (map path_of ps))"
  using assms
proof (induction ps arbitrary: rv)
  case (Cons p ps)
  obtain xs l where rv: "rv = xs @ [l]" using Cons.prems(2) by (cases rv rule: rev_cases) auto
  let ?st = "rev (map path_of xs)"
  have l: "rv ! (length rv - 1) = l" "rev (map path_of rv) = path_of l # ?st" using rv by auto
  have lp: "ContainsPrefix l p \<longleftrightarrow> prefix (path_of l) (path_of p)"
    using Cons.prems rv by (intro ContainsPrefix_iff) (auto simp: same_family_def)
  show ?case
  proof (cases "ContainsPrefix l p")
    case True
    with Cons.IH[of rv] Cons.prems l lp show ?thesis by auto
  next
    case False
    have st: "stack_ok (fam_width v) (path_of l # ?st)" and len: "length (path_of p) \<le> fam_width v"
      and le: "path_of l \<le> path_of p"
      using Cons.prems l rv fam_ok_path_length[OF Cons.prems(3)] by auto
    have np: "\<not> prefix (path_of l) (path_of p)" using False lp by simp
    note push = push_ok[OF st len le np]
    obtain rv1 where rv1: "merge_tail (rv @ [p]) = Inr rv1" "fam_ok v rv1"
        "map path_of rv1 = rev (collapse (path_of p # path_of l # ?st))"
      using merge_tail_collapse[of v "rv @ [p]"] push(4) Cons.prems l by auto
    have ne: "rv1 \<noteq> []" using rv1(3) collapse_ne[of "path_of p # path_of l # ?st"] by auto
    have rev1: "rev (map path_of rv1) = collapse (path_of p # path_of l # ?st)"
      using rv1(3) by simp
    have "path_of (last rv1) = hd (collapse (path_of p # path_of l # ?st))"
      unfolding rev1[symmetric] using ne by (simp add: hd_rev last_map)
    then have "\<forall>r \<in> set ps. path_of (last rv1) \<le> path_of r"
      using push(2) Cons.prems(4) by (auto intro: order_trans)
    then obtain rv' where "aggregate_loop rv1 ps = Inr rv'" "fam_ok v rv'"
        "map path_of rv' = rev (agg (collapse (path_of p # path_of l # ?st)) (map path_of ps))"
      using Cons.IH[of rv1] rv1(2) ne Cons.prems push(1) rev1 by auto
    then show ?thesis using False rv1 l np by auto
  qed
qed auto

lemma sort_key_paths:
  assumes "fam_ok v ps"
  shows "sorted (map path_of (sort_key prefix_key ps))"
proof -
  let ?qs = "sort_key prefix_key ps"
  have fam: "fam_ok v ?qs" using assms by (rule fam_ok_set) simp
  have "sorted (map prefix_key ?qs)" by simp
  then show ?thesis
    unfolding sorted_wrt_map
  proof (rule sorted_wrt_mono_rel[rotated])
    fix p q assume "p \<in> set ?qs" "q \<in> set ?qs" "prefix_key p \<le> prefix_key q"
    then show "path_of p \<le> path_of q"
      using fam key_le_iff_path_le[of p q] by (auto simp: fam_ok_def same_family_def prefix_key_def)
  qed
qed

text \<open>What one family's aggregation returns: the ascending list of the canonical paths.\<close>

lemma aggregate_family:
  assumes "fam_ok v ps"
  shows "\<exists>rv. aggregatePrefixesForSingleIPFamily ps = Inr rv \<and> fam_ok v rv \<and>
           stack_ok (fam_width v) (rev (map path_of rv)) \<and>
           cover (fam_width v) (path_of ` set rv) = cover (fam_width v) (path_of ` set ps)"
proof (cases "length ps \<le> 1")
  case True
  then show ?thesis
    using assms fam_ok_path_length[OF assms]
    by (cases rule: length_le_1_cases)
      (auto simp: aggregatePrefixesForSingleIPFamily_def stack_ok_def)
next
  case False
  let ?W = "fam_width v"
  obtain q qs where qs: "sort_key prefix_key ps = q # qs"
    using False by (cases "sort_key prefix_key ps") (auto dest: arg_cong[of _ _ length])
  have set_qs: "set ps = set (q # qs)" using qs by (metis set_sort)
  have fam: "fam_ok v (q # qs)" using assms by (rule fam_ok_set) (simp add: set_qs)
  have sorted: "sorted (map path_of (q # qs))" using sort_key_paths[OF assms] qs by simp
  have st: "stack_ok ?W [path_of q]"
    using fam_ok_path_length[OF fam, of q] by (simp add: stack_ok_def)
  have le: "\<forall>p \<in> set qs. path_of q \<le> path_of p" using sorted by auto
  obtain rv where rv: "aggregate_loop [q] qs = Inr rv" "fam_ok v rv"
      "map path_of rv = rev (agg [path_of q] (map path_of qs))"
    using aggregate_loop_agg[of v "[q]" qs] fam sorted st le by auto
  have "\<forall>p \<in> set (map path_of qs). length p \<le> ?W" using fam_ok_path_length[OF fam] by auto
  then have agg: "stack_ok ?W (agg [path_of q] (map path_of qs))"
    "cover ?W (set (agg [path_of q] (map path_of qs))) = cover ?W (set [path_of q]) \<union> cover ?W (set (map path_of qs))"
    using agg_correct[of "map path_of qs" ?W "[path_of q]"] sorted st le by auto
  have "path_of ` set rv = set (agg [path_of q] (map path_of qs))"
    using rv(3) by (metis set_map set_rev)
  then have "cover ?W (path_of ` set rv) = cover ?W (path_of ` set ps)"
    using agg(2) set_qs by simp
  moreover have "rev (map path_of rv) = agg [path_of q] (map path_of qs)" using rv(3) by simp
  ultimately show ?thesis
    using False rv agg(1) qs by (auto simp: aggregatePrefixesForSingleIPFamily_def)
qed

end
