(* ===== verification/PrefixTree.thy ===== *)
theory PrefixTree
  imports PrefixAggregation
begin

unbundle bit_operations_syntax

text \<open>
  The prefix tree of \<open>pkg/util/iputil/prefix_tree.go\<close> and
  \<open>AggregatePrefixesWithPrefixTree\<close> of \<open>prefix.go\<close>. The Go nodes carry parent pointers; here a
  position in the tree is a node together with the list of its ancestors (a zipper), which
  \<open>Add\<close> builds on its way down and \<open>pruneToRoot\<close> consumes on its way up.
\<close>

section \<open>Nodes and positions\<close>

datatype prefixTreeNode =
  Node (masked: bool) (nprefix: Prefix) (lchild: "prefixTreeNode option") (rchild: "prefixTreeNode option")

text \<open>An ancestor seen from its left or right child: its mark, its prefix and its other child.\<close>

datatype ancestor = AtLeft bool Prefix "prefixTreeNode option" | AtRight bool Prefix "prefixTreeNode option"

record prefixTree =
  maxBits :: nat
  root :: prefixTreeNode

definition newPrefixTreeForIPv4 :: prefixTree where
  "newPrefixTreeForIPv4 =
     \<lparr>maxBits = 32, root = Node False \<lparr>pAddr = Addr4 0, pBits = 0\<rparr> None None\<rparr>"

definition newPrefixTreeForIPv6 :: prefixTree where
  "newPrefixTreeForIPv6 =
     \<lparr>maxBits = 128, root = Node False \<lparr>pAddr = Addr6 0 [], pBits = 0\<rparr> None None\<rparr>"

definition nil_or_unmasked :: "prefixTreeNode option \<Rightarrow> bool" where
  "nil_or_unmasked t = (case t of None \<Rightarrow> True | Some n \<Rightarrow> \<not> masked n)"

fun pruneToRoot :: "prefixTreeNode \<Rightarrow> ancestor list \<Rightarrow> prefixTreeNode \<times> ancestor list" where
  "pruneToRoot node [] = (node, [])"
| "pruneToRoot node (AtLeft m pf r # up) =
     (if nil_or_unmasked (Some node) then (node, AtLeft m pf r # up)
      else if nil_or_unmasked r then (node, AtLeft m pf r # up)
      else pruneToRoot (Node True pf None None) up)"
| "pruneToRoot node (AtRight m pf l # up) =
     (if nil_or_unmasked l then (node, AtRight m pf l # up)
      else if nil_or_unmasked (Some node) then (node, AtRight m pf l # up)
      else pruneToRoot (Node True pf None None) up)"

text \<open>The whole tree around a position.\<close>

fun plug :: "prefixTreeNode \<Rightarrow> ancestor list \<Rightarrow> prefixTreeNode" where
  "plug n [] = n"
| "plug n (AtLeft m pf r # up) = plug (Node m pf (Some n) r) up"
| "plug n (AtRight m pf l # up) = plug (Node m pf l (Some n)) up"

section \<open>Add and List\<close>

text \<open>The loop of \<open>Add\<close> from bit \<open>i\<close> on; a missing child is created.\<close>

definition child_or_new ::
  "prefixTreeNode option \<Rightarrow> Prefix \<Rightarrow> nat \<Rightarrow> (panic, prefixTreeNode) result" where
  "child_or_new c pre i =
     (case c of
        Some n \<Rightarrow> Inr n
      | None \<Rightarrow>
          (case addr_Prefix (pAddr pre) (i + 1) of
             None \<Rightarrow> Inl (ExplicitPanic ''unreachable: invalid prefix'')
           | Some next \<Rightarrow> Inr (Node False next None None)))"

function add_descend ::
  "Prefix \<Rightarrow> nat \<Rightarrow> prefixTreeNode \<Rightarrow> ancestor list \<Rightarrow> (panic, prefixTreeNode \<times> ancestor list) result" where
  "add_descend pre i n up =
     (if i < pBits pre then
        if masked n then Inr (n, up)
        else case bitAt (AsSlice (pAddr pre)) i of
               None \<Rightarrow> Inl IndexOutOfRange
             | Some b \<Rightarrow>
                 if b = 0 then
                   (case child_or_new (lchild n) pre i of
                      Inl e \<Rightarrow> Inl e
                    | Inr c \<Rightarrow> add_descend pre (i + 1) c (AtLeft (masked n) (nprefix n) (rchild n) # up))
                 else if b = 1 then
                   (case child_or_new (rchild n) pre i of
                      Inl e \<Rightarrow> Inl e
                    | Inr c \<Rightarrow> add_descend pre (i + 1) c (AtRight (masked n) (nprefix n) (lchild n) # up))
                 else Inl (ExplicitPanic ''unreachable: unexpected bit'')
      else Inr (n, up))"
  by pat_completeness auto
termination
  by (relation "measure (\<lambda>(pre, i, n, up). pBits pre - i)") auto

declare add_descend.simps [simp del]

definition tree_Add :: "prefixTree \<Rightarrow> Prefix \<Rightarrow> (panic, prefixTree) result" where
  "tree_Add t pre =
     (case add_descend pre 0 (root t) [] of
        Inl e \<Rightarrow> Inl e
      | Inr (n, up) \<Rightarrow>
          (let (n', up') = pruneToRoot (Node True (nprefix n) None None) up
           in Inr (t\<lparr>root := plug n' up'\<rparr>)))"

text \<open>\<open>List\<close> is a depth-first walk with an explicit stack \<open>q\<close>, whose top is the last element.\<close>

function list_loop :: "Prefix list \<Rightarrow> prefixTreeNode list \<Rightarrow> Prefix list" where
  "list_loop rv q =
     (if q = [] then rv
      else let n = last q; q' = butlast q
           in if masked n then list_loop (rv @ [nprefix n]) q'
              else list_loop rv (q' @ opt_list (lchild n) @ opt_list (rchild n)))"
  by pat_completeness auto
termination
proof (relation "measure (\<lambda>(rv, q). sum_list (map size q))")
  fix rv :: "Prefix list" and q q' :: "prefixTreeNode list" and n
  assume q: "q \<noteq> []" "n = last q" "q' = butlast q"
  then have sum: "sum_list (map size q) = sum_list (map size q') + size n"
    by (cases q rule: rev_cases) auto
  have n: "0 < size n" "size_option size (lchild n) + size_option size (rchild n) < size n"
    by (cases n; simp)+
  show "((rv @ [nprefix n], q'), rv, q) \<in> measure (\<lambda>(rv, q). sum_list (map size q))"
    using sum n(1) by simp
  have opt: "sum_list (map size (opt_list x)) \<le> size_option size x" for x :: "prefixTreeNode option"
    by (cases x) auto
  from add_mono[OF opt[of "lchild n"] opt[of "rchild n"]] n(2)
  show "((rv, q' @ opt_list (lchild n) @ opt_list (rchild n)), rv, q)
      \<in> measure (\<lambda>(rv, q). sum_list (map size q))"
    using sum by simp
qed auto

declare list_loop.simps [simp del]

definition tree_List :: "prefixTree \<Rightarrow> Prefix list" where
  "tree_List t = list_loop [] [root t]"

fun tree_Add_all :: "prefixTree \<Rightarrow> Prefix list \<Rightarrow> (panic, prefixTree) result" where
  "tree_Add_all t [] = Inr t"
| "tree_Add_all t (p # ps) =
     (case tree_Add t p of Inl e \<Rightarrow> Inl e | Inr t' \<Rightarrow> tree_Add_all t' ps)"

definition AggregatePrefixesWithPrefixTree :: "Prefix list \<Rightarrow> (panic, Prefix list) result" where
  "AggregatePrefixesWithPrefixTree pfs =
     (let (v4, v6) = GroupPrefixesByFamily pfs
      in case tree_Add_all newPrefixTreeForIPv4 v4 of
           Inl e \<Rightarrow> Inl e
         | Inr t4 \<Rightarrow>
             (case tree_Add_all newPrefixTreeForIPv6 v6 of
                Inl e \<Rightarrow> Inl e
              | Inr t6 \<Rightarrow> Inr (tree_List t4 @ tree_List t6)))"

section \<open>The paths a tree stands for\<close>

fun tpaths :: "prefixTreeNode \<Rightarrow> path set" where
  "tpaths (Node m pf l r) =
     (if m then {[]}
      else (case l of None \<Rightarrow> {} | Some n \<Rightarrow> Cons False ` tpaths n) \<union>
           (case r of None \<Rightarrow> {} | Some n \<Rightarrow> Cons True ` tpaths n))"

definition opt_paths :: "bool \<Rightarrow> prefixTreeNode option \<Rightarrow> path set" where
  "opt_paths b c = (case c of None \<Rightarrow> {} | Some n \<Rightarrow> Cons b ` tpaths n)"

lemma tpaths_Node [simp]:
  "tpaths (Node True pf l r) = {[]}"
  "tpaths (Node False pf l r) = opt_paths False l \<union> opt_paths True r"
  by (simp_all add: opt_paths_def)

declare tpaths.simps [simp del]

lemma opt_paths_simps [simp]: "opt_paths b None = {}" "opt_paths b (Some n) = Cons b ` tpaths n"
  by (simp_all add: opt_paths_def)

text \<open>Position of a zipper, and the paths that its siblings contribute.\<close>

fun pos :: "ancestor list \<Rightarrow> path" where
  "pos [] = []"
| "pos (AtLeft _ _ _ # up) = pos up @ [False]"
| "pos (AtRight _ _ _ # up) = pos up @ [True]"

fun others :: "ancestor list \<Rightarrow> path set" where
  "others [] = {}"
| "others (AtLeft _ _ r # up) = (@) (pos up) ` opt_paths True r \<union> others up"
| "others (AtRight _ _ l # up) = (@) (pos up) ` opt_paths False l \<union> others up"

fun unmarked :: "ancestor \<Rightarrow> bool" where
  "unmarked (AtLeft m _ _) = (\<not> m)"
| "unmarked (AtRight m _ _) = (\<not> m)"

lemma tpaths_plug:
  "list_all unmarked up \<Longrightarrow> tpaths (plug n up) = (@) (pos up) ` tpaths n \<union> others up"
proof (induction n up rule: plug.induct)
  case (1 n)
  then show ?case by simp
next
  case (2 n m pf r up)
  then show ?case by (simp add: image_Un image_image Un_ac)
next
  case (3 n m pf l up)
  then show ?case by (simp add: image_Un image_image Un_ac)
qed

text \<open>Every node carries the prefix of its position, a masked node has no children, and
  no node has two masked children.\<close>

fun node_ok :: "bool \<Rightarrow> path \<Rightarrow> prefixTreeNode \<Rightarrow> bool" where
  "node_ok v ps (Node m pf l r) \<longleftrightarrow>
     prefix_ok pf \<and> Is4 (pAddr pf) = v \<and> path_of pf = ps \<and>
     (m \<longrightarrow> l = None \<and> r = None) \<and> (nil_or_unmasked l \<or> nil_or_unmasked r) \<and>
     (case l of None \<Rightarrow> True | Some n \<Rightarrow> node_ok v (ps @ [False]) n) \<and>
     (case r of None \<Rightarrow> True | Some n \<Rightarrow> node_ok v (ps @ [True]) n)"

definition child_ok :: "bool \<Rightarrow> path \<Rightarrow> prefixTreeNode option \<Rightarrow> bool" where
  "child_ok v ps c \<longleftrightarrow> (case c of None \<Rightarrow> True | Some n \<Rightarrow> node_ok v ps n)"

lemma child_ok_simps [simp]: "child_ok v ps None" "child_ok v ps (Some n) = node_ok v ps n"
  by (simp_all add: child_ok_def)

lemma node_ok_Node:
  "node_ok v ps (Node m pf l r) \<longleftrightarrow>
     prefix_ok pf \<and> Is4 (pAddr pf) = v \<and> path_of pf = ps \<and>
     (m \<longrightarrow> l = None \<and> r = None) \<and> (nil_or_unmasked l \<or> nil_or_unmasked r) \<and>
     child_ok v (ps @ [False]) l \<and> child_ok v (ps @ [True]) r"
  by (simp add: child_ok_def)

declare node_ok.simps [simp del]

lemma nil_or_unmasked_simps [simp]:
  "nil_or_unmasked None" "nil_or_unmasked (Some n) \<longleftrightarrow> \<not> masked n"
  by (simp_all add: nil_or_unmasked_def)

fun up_ok :: "bool \<Rightarrow> ancestor list \<Rightarrow> bool" where
  "up_ok v [] = True"
| "up_ok v (AtLeft m pf r # up) \<longleftrightarrow>
     \<not> m \<and> prefix_ok pf \<and> Is4 (pAddr pf) = v \<and> path_of pf = pos up \<and>
     child_ok v (pos up @ [True]) r \<and> up_ok v up"
| "up_ok v (AtRight m pf l # up) \<longleftrightarrow>
     \<not> m \<and> prefix_ok pf \<and> Is4 (pAddr pf) = v \<and> path_of pf = pos up \<and>
     child_ok v (pos up @ [False]) l \<and> up_ok v up"

fun sibling :: "ancestor list \<Rightarrow> prefixTreeNode option" where
  "sibling [] = None"
| "sibling (AtLeft _ _ r # up) = r"
| "sibling (AtRight _ _ l # up) = l"

lemma up_ok_unmarked: "up_ok v up \<Longrightarrow> list_all unmarked up"
  by (induction v up rule: up_ok.induct) auto

lemma plug_ok:
  "up_ok v up \<Longrightarrow> node_ok v (pos up) n \<Longrightarrow> \<not> masked n \<or> nil_or_unmasked (sibling up) \<Longrightarrow>
     node_ok v [] (plug n up)"
  by (induction n up rule: plug.induct) (auto simp: node_ok_Node)

lemma node_ok_masked: "node_ok v ps n \<Longrightarrow> masked n \<Longrightarrow> tpaths n = {[]}"
  by (cases n) (auto simp: node_ok_Node)

lemma child_ok_masked: "child_ok v ps c \<Longrightarrow> \<not> nil_or_unmasked c \<Longrightarrow> opt_paths b c = {[b]}"
  by (cases c) (auto simp: node_ok_masked)

section \<open>Pruning\<close>

lemma prune_correct:
  assumes "up_ok v up" "node_ok v (pos up) n" "masked n" "length (pos up) \<le> fam_width v"
    "pruneToRoot n up = (n', up')"
  shows "node_ok v [] (plug n' up') \<and>
     cover (fam_width v) (tpaths (plug n' up')) =
       leaves (fam_width v) (pos up) \<union> cover (fam_width v) (others up)"
  using assms
proof (induction n up rule: pruneToRoot.induct)
  case (1 n)
  then show ?case by (auto simp: node_ok_masked)
next
  case (2 n m pf r up)
  show ?case
  proof (cases "nil_or_unmasked r")
    case True
    then have "n' = n" "up' = AtLeft m pf r # up" using "2.prems" by auto
    moreover from "2.prems" have "tpaths (plug n (AtLeft m pf r # up)) =
        (@) (pos (AtLeft m pf r # up)) ` tpaths n \<union> others (AtLeft m pf r # up)"
      using up_ok_unmarked tpaths_plug by blast
    ultimately show ?thesis
      using "2.prems" True plug_ok[of v "AtLeft m pf r # up" n] by (simp add: node_ok_masked)
  next
    case False
    have r: "opt_paths True r = {[True]}"
      using False "2.prems"(1) child_ok_masked by fastforce
    have "node_ok v (pos up) (Node True pf None None)"
      using "2.prems"(1) by (simp add: node_ok_Node)
    then show ?thesis
      using "2.IH" "2.prems" False r leaves_split[of "pos up" "fam_width v"]
      by (simp add: Un_ac)
  qed
next
  case (3 n m pf l up)
  show ?case
  proof (cases "nil_or_unmasked l")
    case True
    then have "n' = n" "up' = AtRight m pf l # up" using "3.prems" by auto
    moreover from "3.prems" have "tpaths (plug n (AtRight m pf l # up)) =
        (@) (pos (AtRight m pf l # up)) ` tpaths n \<union> others (AtRight m pf l # up)"
      using up_ok_unmarked tpaths_plug by blast
    ultimately show ?thesis
      using "3.prems" True plug_ok[of v "AtRight m pf l # up" n] by (simp add: node_ok_masked)
  next
    case False
    have l: "opt_paths False l = {[False]}"
      using False "3.prems"(1) child_ok_masked by fastforce
    have "node_ok v (pos up) (Node True pf None None)"
      using "3.prems"(1) by (simp add: node_ok_Node)
    then show ?thesis
      using "3.IH" "3.prems" False l leaves_split[of "pos up" "fam_width v"]
      by (simp add: Un_ac)
  qed
qed

section \<open>The descent\<close>

lemma child_or_new_ok:
  assumes "prefix_ok pre" "Is4 (pAddr pre) = v" "i < pBits pre" "child_ok v (take (Suc i) (path_of pre)) c"
  obtains n where "child_or_new c pre i = Inr n" "node_ok v (take (Suc i) (path_of pre)) n"
    "opt_paths b (Some n) = opt_paths b c"
proof (cases c)
  case None
  have "i + 1 \<le> BitLen (pAddr pre)" using assms(3) prefix_okD(1)[OF assms(1)] by simp
  then obtain q where q: "addr_Prefix (pAddr pre) (i + 1) = Some q" "prefix_ok q" "same_family q pre"
      "path_of q = take (i + 1) (addr_bits (pAddr pre))"
    using addr_Prefix_ok[OF assms(1)] by blast
  have "path_of q = take (Suc i) (path_of pre)"
    using q(4) assms(3) by (simp add: path_of_def min_def)
  then show thesis
    using that[of "Node False q None None"] None q assms(2)
    by (simp add: child_or_new_def node_ok_Node same_family_def)
next
  case (Some n)
  then show thesis using that[of n] assms(4) by (simp add: child_or_new_def)
qed

lemma add_descend_correct:
  assumes "prefix_ok pre" "Is4 (pAddr pre) = v"
    "up_ok v up" "node_ok v (pos up) n" "pos up = take i (path_of pre)" "i \<le> pBits pre"
  shows "\<exists>n' up'. add_descend pre i n up = Inr (n', up') \<and> up_ok v up' \<and> node_ok v (pos up') n' \<and>
           tpaths (plug n' up') = tpaths (plug n up) \<and> prefix (pos up') (path_of pre) \<and>
           (pos up' = path_of pre \<or> masked n')"
  using assms
proof (induction pre i n up rule: add_descend.induct)
  case (1 pre i n up)
  have len: "length (path_of pre) = pBits pre" by (rule prefix_okD(2)[OF "1.prems"(1)])
  show ?case
  proof (cases "i < pBits pre \<and> \<not> masked n")
    case False
    then show ?thesis
      using "1.prems" len by (subst add_descend.simps) (auto simp: take_is_prefix)
  next
    case True
    obtain pf l r where n: "n = Node False pf l r" using True by (cases n) auto
    have i8: "i < 8 * length (AsSlice (pAddr pre))"
      using True prefix_okD(1)[OF "1.prems"(1)] by (simp add: length_AsSlice)
    have nth: "addr_bits (pAddr pre) ! i = path_of pre ! i"
      using True by (simp add: path_of_def)
    have bit: "bitAt (AsSlice (pAddr pre)) i = Some (of_bool (path_of pre ! i))"
      using bitAt_bits[OF i8] nth by simp
    have snoc: "take (Suc i) (path_of pre) = pos up @ [path_of pre ! i]"
      using "1.prems"(5) True len by (simp add: take_Suc_conv_app_nth)
    have ok: "prefix_ok pf" "Is4 (pAddr pf) = v" "path_of pf = pos up"
      "child_ok v (pos up @ [False]) l" "child_ok v (pos up @ [True]) r"
      using "1.prems"(4) n by (auto simp: node_ok_Node)
    note un = up_ok_unmarked[OF "1.prems"(3)]
    show ?thesis
    proof (cases "path_of pre ! i")
      case False
      then have "child_ok v (take (Suc i) (path_of pre)) l" using snoc ok by simp
      then obtain c where c: "child_or_new l pre i = Inr c" "node_ok v (take (Suc i) (path_of pre)) c"
          "opt_paths False (Some c) = opt_paths False l"
        using child_or_new_ok[OF "1.prems"(1,2)] True by metis
      let ?up = "AtLeft False pf r # up"
      have up: "up_ok v ?up" "pos ?up = take (i + 1) (path_of pre)"
        using "1.prems"(3) ok snoc False by auto
      have same: "tpaths (plug c ?up) = tpaths (plug n up)"
        using un c(3) n by (simp add: tpaths_plug image_Un)
      have step: "add_descend pre i n up = add_descend pre (i + 1) c ?up"
        using True bit False c(1) n by (subst add_descend.simps) simp
      show ?thesis
        unfolding step same[symmetric]
        using "1.IH"(1)[of 0 c] "1.prems"(1,2,6) True bit False c n up by auto
    next
      case True': True
      then have "child_ok v (take (Suc i) (path_of pre)) r" using snoc ok by simp
      then obtain c where c: "child_or_new r pre i = Inr c" "node_ok v (take (Suc i) (path_of pre)) c"
          "opt_paths True (Some c) = opt_paths True r"
        using child_or_new_ok[OF "1.prems"(1,2)] True by metis
      let ?up = "AtRight False pf l # up"
      have up: "up_ok v ?up" "pos ?up = take (i + 1) (path_of pre)"
        using "1.prems"(3) ok snoc True' by auto
      have same: "tpaths (plug c ?up) = tpaths (plug n up)"
        using un c(3) n by (simp add: tpaths_plug image_Un)
      have step: "add_descend pre i n up = add_descend pre (i + 1) c ?up"
        using True bit True' c(1) n by (subst add_descend.simps) simp
      show ?thesis
        unfolding step same[symmetric]
        using "1.IH"(2)[of 1 c] "1.prems"(1,2,6) True bit True' c n up by auto
    qed
  qed
qed

section \<open>Add\<close>

text \<open>The tree of a family: every node is well formed, and its width is the family's.\<close>

definition tree_ok :: "bool \<Rightarrow> prefixTree \<Rightarrow> bool" where
  "tree_ok v t \<longleftrightarrow> node_ok v [] (root t)"

lemma tree_ok_new: "tree_ok True newPrefixTreeForIPv4" "tree_ok False newPrefixTreeForIPv6"
  by (simp_all add: tree_ok_def newPrefixTreeForIPv4_def newPrefixTreeForIPv6_def node_ok_Node
      prefix_ok_def prefix_IsValid_def Masked_def path_of_def)

lemma tree_Add_correct:
  assumes "tree_ok v t" "prefix_ok p" "Is4 (pAddr p) = v"
  shows "\<exists>t'. tree_Add t p = Inr t' \<and> tree_ok v t' \<and>
     cover (fam_width v) (tpaths (root t')) =
       leaves (fam_width v) (path_of p) \<union> cover (fam_width v) (tpaths (root t))"
proof -
  let ?W = "fam_width v"
  obtain n up where d: "add_descend p 0 (root t) [] = Inr (n, up)" "up_ok v up" "node_ok v (pos up) n"
      "tpaths (plug n up) = tpaths (root t)" "prefix (pos up) (path_of p)"
      "pos up = path_of p \<or> masked n"
    using add_descend_correct[OF assms(2,3), of "[]" "root t" 0] assms(1)
    by (auto simp: tree_ok_def)
  let ?m = "Node True (nprefix n) None None"
  obtain n' up' where pr: "pruneToRoot ?m up = (n', up')" by fastforce
  have m: "node_ok v (pos up) ?m" using d(3) by (cases n) (simp add: node_ok_Node)
  have len: "length (path_of p) \<le> ?W"
    using fam_ok_path_length[of v "[p]" p] assms by simp
  then have "length (pos up) \<le> ?W" using d(5) prefix_length_le le_trans by blast
  then have res: "node_ok v [] (plug n' up')"
    "cover ?W (tpaths (plug n' up')) = leaves ?W (pos up) \<union> cover ?W (others up)"
    using prune_correct[OF d(2) m _ _ pr] by simp_all
  have old: "cover ?W (tpaths (root t)) = cover ?W ((@) (pos up) ` tpaths n) \<union> cover ?W (others up)"
    unfolding d(4)[symmetric] tpaths_plug[OF up_ok_unmarked[OF d(2)]] by simp
  have "leaves ?W (pos up) = leaves ?W (path_of p) \<union> cover ?W ((@) (pos up) ` tpaths n)"
  proof (cases "masked n")
    case True
    then have "tpaths n = {[]}" using d(3) node_ok_masked by blast
    then show ?thesis using leaves_mono[OF d(5), of ?W] by auto
  next
    case False
    then have "pos up = path_of p" using d(6) by simp
    moreover have "cover ?W ((@) (pos up) ` tpaths n) \<subseteq> leaves ?W (pos up)"
      by (auto simp: cover_def leaves_def dest: append_prefixD)
    ultimately show ?thesis by auto
  qed
  then show ?thesis
    using res old d(1) pr by (auto simp: tree_Add_def tree_ok_def)
qed

lemma tree_Add_all_correct:
  assumes "tree_ok v t" "fam_ok v ps"
  shows "\<exists>t'. tree_Add_all t ps = Inr t' \<and> tree_ok v t' \<and>
     cover (fam_width v) (tpaths (root t')) =
       cover (fam_width v) (tpaths (root t)) \<union> cover (fam_width v) (path_of ` set ps)"
  using assms
proof (induction ps arbitrary: t)
  case (Cons p ps)
  then obtain t1 where t1: "tree_Add t p = Inr t1" "tree_ok v t1"
      "cover (fam_width v) (tpaths (root t1)) =
         leaves (fam_width v) (path_of p) \<union> cover (fam_width v) (tpaths (root t))"
    using tree_Add_correct[of v t p] by auto
  with Cons show ?case by (fastforce simp: Un_ac)
qed simp

section \<open>List\<close>

text \<open>The walk visits the right subtree first.\<close>

fun tlist :: "prefixTreeNode \<Rightarrow> Prefix list" where
  "tlist (Node m pf l r) =
     (if m then [pf]
      else (case r of None \<Rightarrow> [] | Some n \<Rightarrow> tlist n) @ (case l of None \<Rightarrow> [] | Some n \<Rightarrow> tlist n))"

lemma tlist_unmasked:
  "\<not> masked n \<Longrightarrow> tlist n = concat (map tlist (opt_list (rchild n))) @ concat (map tlist (opt_list (lchild n)))"
  by (cases n) (auto split: option.splits)

lemma tlist_masked: "masked n \<Longrightarrow> tlist n = [nprefix n]"
  by (cases n) auto

lemma list_loop_eq: "list_loop rv q = rv @ concat (map tlist (rev q))"
proof (induction rv q rule: list_loop.induct)
  case (1 rv q)
  show ?case
  proof (cases q rule: rev_cases)
    case Nil
    then show ?thesis by (simp add: list_loop.simps)
  next
    case (snoc q' n)
    have flip: "rev (opt_list x) = opt_list x" for x :: "prefixTreeNode option" by (cases x) auto
    show ?thesis
    proof (cases "masked n")
      case True
      have "list_loop rv q = list_loop (rv @ [nprefix n]) q'"
        using snoc True by (subst list_loop.simps) simp
      also have "\<dots> = (rv @ [nprefix n]) @ concat (map tlist (rev q'))"
        by (rule 1(1)[of n q']) (use snoc True in auto)
      also have "\<dots> = rv @ concat (map tlist (rev q))"
        using snoc True by (simp add: tlist_masked)
      finally show ?thesis .
    next
      case False
      have "list_loop rv q = list_loop rv (q' @ opt_list (lchild n) @ opt_list (rchild n))"
        using snoc False by (subst list_loop.simps) simp
      also have "\<dots> = rv @ concat (map tlist (rev (q' @ opt_list (lchild n) @ opt_list (rchild n))))"
        by (rule 1(2)[of n q']) (use snoc False in auto)
      also have "\<dots> = rv @ concat (map tlist (rev q))"
        using snoc False by (simp add: tlist_unmasked flip)
      finally show ?thesis .
    qed
  qed
qed

lemma tree_List_eq: "tree_List t = tlist (root t)"
  by (simp add: tree_List_def list_loop_eq)

lemma tlist_ok:
  "node_ok v ps n \<Longrightarrow> fam_ok v (tlist n) \<and> path_of ` set (tlist n) = (@) ps ` tpaths n \<and>
     sorted_wrt (\<lambda>q p. left_of p q) (map path_of (tlist n))"
proof (induction n arbitrary: ps rule: tlist.induct)
  case (1 m pf l r)
  let ?L = "case l of None \<Rightarrow> [] | Some n \<Rightarrow> tlist n" and ?R = "case r of None \<Rightarrow> [] | Some n \<Rightarrow> tlist n"
  show ?case
  proof (cases m)
    case True
    then show ?thesis using "1.prems" by (auto simp: node_ok_Node)
  next
    case False
    have R: "fam_ok v ?R \<and> path_of ` set ?R = (@) ps ` opt_paths True r \<and>
        sorted_wrt (\<lambda>q p. left_of p q) (map path_of ?R)"
      using "1.IH"(1)[OF False, of _ "ps @ [True]"] "1.prems"
      by (cases r) (simp_all add: node_ok_Node image_image)
    have L: "fam_ok v ?L \<and> path_of ` set ?L = (@) ps ` opt_paths False l \<and>
        sorted_wrt (\<lambda>q p. left_of p q) (map path_of ?L)"
      using "1.IH"(2)[OF False, of _ "ps @ [False]"] "1.prems"
      by (cases l) (simp_all add: node_ok_Node image_image)
    have "left_of (ps @ False # x) (ps @ True # y)" for x y
      by (auto simp: left_of_def)
    then have "\<forall>q \<in> (@) ps ` opt_paths True r. \<forall>p \<in> (@) ps ` opt_paths False l. left_of p q"
      by (auto simp: opt_paths_def split: option.splits)
    then show ?thesis
      using L R False by (simp add: sorted_wrt_append image_Un Un_commute)
  qed
qed

lemma tpaths_no_siblings: "node_ok v ps n \<Longrightarrow> \<not> (c @ [False] \<in> tpaths n \<and> c @ [True] \<in> tpaths n)"
proof (induction n arbitrary: ps c rule: tlist.induct)
  case (1 m pf l r)
  have root: "[] \<in> tpaths n \<longleftrightarrow> masked n" for n
    by (cases n; cases "masked n") (auto simp: opt_paths_def split: option.splits)
  show ?case
  proof (cases m)
    case True
    then show ?thesis by simp
  next
    case False
    show ?thesis
    proof (cases c)
      case Nil
      then show ?thesis
        using "1.prems" False root by (cases l; cases r) (auto simp: node_ok_Node)
    next
      case (Cons b c')
      then show ?thesis
        using "1.IH"(1)[OF False, of _ "ps @ [True]" c'] "1.IH"(2)[OF False, of _ "ps @ [False]" c']
          "1.prems" False
        by (cases b; cases l; cases r) (auto simp: node_ok_Node)
    qed
  qed
qed

lemma tree_List_ok:
  assumes "tree_ok v t"
  shows "fam_ok v (tree_List t) \<and> path_of ` set (tree_List t) = tpaths (root t) \<and>
     stack_ok (fam_width v) (map path_of (tree_List t))"
proof -
  let ?l = "tlist (root t)"
  have ok: "fam_ok v ?l" "path_of ` set ?l = tpaths (root t)"
      "sorted_wrt (\<lambda>q p. left_of p q) (map path_of ?l)"
    using tlist_ok[of v "[]" "root t"] assms by (auto simp: tree_ok_def)
  have "\<not> siblings p q" if "q \<in> set (map path_of ?l)" "p \<in> set (map path_of ?l)" for p q
    using that tpaths_no_siblings[of v "[]" "root t"] assms ok(2)
    by (auto simp: siblings_def tree_ok_def)
  then have "successively (\<lambda>q p. \<not> siblings p q) (map path_of ?l)"
    by (metis (no_types, lifting) successively_if_sorted_wrt sorted_wrt_iff_nth_less nth_mem order_less_trans)
  moreover have "\<forall>p \<in> set (map path_of ?l). length p \<le> fam_width v"
    using fam_ok_path_length[OF ok(1)] by auto
  ultimately show ?thesis using ok by (simp add: stack_ok_def tree_List_eq)
qed

text \<open>One family through the tree: the aggregation's result in descending order.\<close>

lemma tree_family:
  assumes "tree_ok v t" "tpaths (root t) = {}" "fam_ok v ps" "aggregatePrefixesForSingleIPFamily ps = Inr rv"
  shows "\<exists>t'. tree_Add_all t ps = Inr t' \<and> tree_List t' = rev rv"
proof -
  let ?W = "fam_width v"
  obtain t' where t': "tree_Add_all t ps = Inr t'" "tree_ok v t'"
      "cover ?W (tpaths (root t')) = cover ?W (path_of ` set ps)"
    using tree_Add_all_correct[OF assms(1,3)] assms(2) by auto
  have rv: "fam_ok v rv" "stack_ok ?W (rev (map path_of rv))"
      "cover ?W (path_of ` set rv) = cover ?W (path_of ` set ps)"
    using aggregate_family[OF assms(3)] assms(4) by auto
  have l: "fam_ok v (tree_List t')" "path_of ` set (tree_List t') = tpaths (root t')"
      "stack_ok ?W (map path_of (tree_List t'))"
    using tree_List_ok[OF t'(2)] by auto
  have "canonical ?W (tpaths (root t'))" "canonical ?W (path_of ` set rv)"
    using stack_ok_canonical[OF l(3)] stack_ok_canonical[OF rv(2)] l(2) by auto
  then have "tpaths (root t') = path_of ` set rv"
    using canonical_unique t'(3) rv(3) by simp
  then have eq: "map path_of (tree_List t') = map path_of (rev rv)"
    using stack_ok_unique[OF l(3) rv(2)] l(2) by (simp add: rev_map)
  have "inj_on path_of (set (tree_List t') \<union> set (rev rv))"
    using fam_ok_inj[OF l(1) rv(1)] by simp
  then have "tree_List t' = rev rv" using eq map_inj_on by blast
  then show ?thesis using t'(1) by blast
qed

end
