(* ===== verification/PrefixAggregator.thy ===== *)
theory PrefixAggregator
  imports PrefixTree
begin

unbundle bit_operations_syntax

text \<open>
  What the two aggregation routines of \<open>pkg/util/iputil\<close> promise, in terms of the addresses that
  a list of prefixes matches. The contract is the locale \<open>prefix_aggregator\<close>; its consequences
  (minimality, no overlap, independence of order and presentation) are proved once from the
  contract, and both \<open>AggregatePrefixes\<close> and \<open>AggregatePrefixesWithPrefixTree\<close> are instances.
\<close>

section \<open>The addresses of a list of prefixes\<close>

definition addrs :: "Prefix list \<Rightarrow> Addr set" where
  "addrs ps = {a. \<exists>p \<in> set ps. prefix_Contains p a}"

definition all_ok :: "Prefix list \<Rightarrow> bool" where
  "all_ok ps \<longleftrightarrow> (\<forall>p \<in> set ps. prefix_ok p)"

lemma bval_inj: "length xs = length ys \<Longrightarrow> bval xs = bval ys \<Longrightarrow> xs = ys"
  using bval_le_iff[of xs ys] bval_le_iff[of ys xs] by simp

lemma word_bits_surj:
  assumes "length x = LENGTH('a::len)"
  obtains w :: "'a::len word" where "word_bits w = x"
proof
  let ?w = "of_nat (bval x) :: 'a word"
  have "bval (word_bits ?w) = bval x"
    using bval_less[of x] assms by (simp add: bval_word_bits unat_of_nat)
  then show "word_bits ?w = x" using assms by (intro bval_inj) simp_all
qed

lemma top_bits_eq:
  assumes "k \<le> LENGTH('a::len)"
  shows "drop_bit (LENGTH('a) - k) (v XOR w :: 'a::len word) = 0 \<longleftrightarrow> take k (word_bits v) = take k (word_bits w)"
proof -
  have "drop_bit (LENGTH('a) - k) (v XOR w) = 0 \<longleftrightarrow> (\<forall>n < k. bit v (LENGTH('a) - k + n) = bit w (LENGTH('a) - k + n))"
  proof
    assume "drop_bit (LENGTH('a) - k) (v XOR w) = 0"
    then have "\<not> bit (drop_bit (LENGTH('a) - k) (v XOR w)) n" for n by simp
    then show "\<forall>n < k. bit v (LENGTH('a) - k + n) = bit w (LENGTH('a) - k + n)"
      by (auto simp: bit_simps)
  next
    assume eq: "\<forall>n < k. bit v (LENGTH('a) - k + n) = bit w (LENGTH('a) - k + n)"
    show "drop_bit (LENGTH('a) - k) (v XOR w) = 0"
    proof (rule bit_word_eqI)
      fix n assume "n < LENGTH('a)"
      show "bit (drop_bit (LENGTH('a) - k) (v XOR w)) n = bit (0 :: 'a word) n"
      proof (cases "n < k")
        case True
        then show ?thesis using eq by (auto simp: bit_simps)
      next
        case False
        then have "LENGTH('a) \<le> LENGTH('a) - k + n" using assms by simp
        then show ?thesis by (auto simp: bit_simps dest: bit_imp_le_length)
      qed
    qed
  qed
  also have "\<dots> \<longleftrightarrow> (\<forall>i < k. word_bits v ! i = word_bits w ! i)"
  proof -
    have "(\<forall>n < k. P (LENGTH('a) - k + n)) \<longleftrightarrow> (\<forall>i < k. P (LENGTH('a) - 1 - i))" for P
    proof (intro iffI allI impI)
      fix i assume "\<forall>n < k. P (LENGTH('a) - k + n)" "i < k"
      from spec[OF this(1), of "k - 1 - i"] this(2) assms show "P (LENGTH('a) - 1 - i)"
        by (simp add: algebra_simps)
    next
      fix n assume "\<forall>i < k. P (LENGTH('a) - 1 - i)" "n < k"
      from spec[OF this(1), of "k - 1 - n"] this(2) assms show "P (LENGTH('a) - k + n)"
        by (simp add: algebra_simps)
    qed
    with assms show ?thesis by (simp add: nth_word_bits)
  qed
  also have "\<dots> \<longleftrightarrow> take k (word_bits v) = take k (word_bits w)"
    using assms by (auto simp: list_eq_iff_nth_eq)
  finally show ?thesis .
qed

lemma prefix_Contains_iff:
  assumes "prefix_ok p"
  shows "prefix_Contains p a \<longleftrightarrow>
     Is4 a = Is4 (pAddr p) \<and> (\<forall>w z. a = Addr6 w z \<longrightarrow> z = []) \<and> addr_bits a \<in> leaves (fam_width (Is4 a)) (path_of p)"
proof -
  have valid: "prefix_IsValid p" and le: "pBits p \<le> BitLen (pAddr p)"
    using assms prefix_okD(1)[OF assms] by (simp_all add: prefix_ok_def)
  have pre: "prefix (take k xs) ys \<longleftrightarrow> take k xs = take k ys" if "length xs = length ys" for k and xs ys :: path
    using that by (metis append_take_drop_id length_take prefix_def take_is_prefix prefix_length_prefix
        prefix_order.eq_iff order_refl)
  show ?thesis
    using valid le top_bits_eq[where 'a = 32] top_bits_eq[where 'a = 128]
    by (cases "pAddr p"; cases a)
      (simp_all add: prefix_Contains_def leaves_def path_of_def pre fam_width_def)
qed

text \<open>Prefixes of one family, as bit paths.\<close>

definition fam :: "bool \<Rightarrow> Prefix list \<Rightarrow> Prefix list" where
  "fam v ps = filter (\<lambda>p. Is4 (pAddr p) = v) ps"

lemma fam_ok_fam: "all_ok ps \<Longrightarrow> fam_ok v (fam v ps)"
  by (simp add: all_ok_def fam_ok_def fam_def)

lemma addrs_cover:
  assumes "all_ok ps"
  shows "cover (fam_width v) (path_of ` set (fam v ps)) =
     addr_bits ` {a \<in> addrs ps. Is4 a = v}" (is "?C = ?A")
proof
  show "?A \<subseteq> ?C"
    using assms by (auto simp: addrs_def cover_def all_ok_def prefix_Contains_iff fam_def)
  show "?C \<subseteq> ?A"
  proof
    fix x assume "x \<in> ?C"
    then obtain p where p: "p \<in> set ps" "Is4 (pAddr p) = v" "x \<in> leaves (fam_width v) (path_of p)"
      by (auto simp: cover_def fam_def)
    then have len: "length x = fam_width v" by (simp add: leaves_def)
    obtain a where a: "addr_bits a = x" "Is4 a = v" "\<forall>w z. a = Addr6 w z \<longrightarrow> z = []"
    proof (cases v)
      case True
      then have "length x = LENGTH(32)" using len by (simp add: fam_width_def)
      then obtain w :: "32 word" where "word_bits w = x" by (rule word_bits_surj)
      then show thesis using that[of "Addr4 w"] True by simp
    next
      case False
      then have "length x = LENGTH(128)" using len by (simp add: fam_width_def)
      then obtain w :: "128 word" where "word_bits w = x" by (rule word_bits_surj)
      then show thesis using that[of "Addr6 w []"] False by simp
    qed
    then have "prefix_Contains p a"
      using p assms by (simp add: prefix_Contains_iff all_ok_def)
    then show "x \<in> ?A" using a p(1) by (auto simp: addrs_def)
  qed
qed

lemma addrs_eq_iff:
  assumes "all_ok ps" "all_ok qs"
  shows "addrs ps = addrs qs \<longleftrightarrow>
     (\<forall>v. cover (fam_width v) (path_of ` set (fam v ps)) = cover (fam_width v) (path_of ` set (fam v qs)))"
    (is "_ = ?C")
proof
  assume C: ?C
  have in_iff: "a \<in> addrs rs \<longleftrightarrow> (\<forall>w z. a = Addr6 w z \<longrightarrow> z = []) \<and>
      addr_bits a \<in> cover (fam_width (Is4 a)) (path_of ` set (fam (Is4 a) rs))" if "all_ok rs" for rs a
    using that by (auto simp: addrs_def cover_def all_ok_def prefix_Contains_iff fam_def)
  show "addrs ps = addrs qs"
    by (rule set_eqI) (simp only: in_iff[OF assms(1)] in_iff[OF assms(2)] C)
next
  assume "addrs ps = addrs qs"
  then show ?C unfolding addrs_cover[OF assms(1)] addrs_cover[OF assms(2)] by simp
qed

lemma fam_split: "length ps = length (fam True ps) + length (fam False ps)"
  by (induction ps) (auto simp: fam_def)

lemma Overlaps_sym: "Overlaps p q = Overlaps q p"
  by (auto simp: Overlaps_def min.commute Let_def split: option.splits)

lemma Overlaps_comparable:
  assumes "prefix_ok p" "prefix_ok q" "Overlaps p q"
  shows "same_family p q \<and> (prefix (path_of p) (path_of q) \<or> prefix (path_of q) (path_of p))"
proof -
  have fam: "same_family p q" "same_family q p"
    using assms(3) by (auto simp: Overlaps_def same_family_def split: if_splits)
  then show ?thesis
    using assms Overlaps_iff[of p q] Overlaps_iff[of q p] Overlaps_sym[of p q]
    by (cases "pBits p \<le> pBits q") auto
qed

section \<open>The contract\<close>

definition ps_canonical :: "Prefix list \<Rightarrow> bool" where
  "ps_canonical ps \<longleftrightarrow> distinct ps \<and> (\<forall>v. canonical (fam_width v) (path_of ` set (fam v ps)))"

locale prefix_aggregator =
  fixes aggregate :: "Prefix list \<Rightarrow> (panic, Prefix list) result"
  assumes returns: "all_ok ps \<Longrightarrow> \<exists>rv. aggregate ps = Inr rv"
    and keeps: "all_ok ps \<Longrightarrow> aggregate ps = Inr rv \<Longrightarrow> all_ok rv \<and> addrs rv = addrs ps"
    and canonises: "all_ok ps \<Longrightarrow> aggregate ps = Inr rv \<Longrightarrow> ps_canonical rv"
begin

lemma fam_unique:
  assumes "all_ok ps" "aggregate ps = Inr rv" "all_ok qs" "aggregate qs = Inr sv" "addrs ps = addrs qs"
  shows "set rv = set sv"
proof -
  have ok: "all_ok rv" "all_ok sv" "addrs rv = addrs sv"
    using keeps[OF assms(1,2)] keeps[OF assms(3,4)] assms(5) by auto
  have "set (fam v rv) = set (fam v sv)" for v
  proof -
    have "path_of ` set (fam v rv) = path_of ` set (fam v sv)"
    proof (rule canonical_unique)
      show "canonical (fam_width v) (path_of ` set (fam v rv))"
        using canonises[OF assms(1,2)] by (simp add: ps_canonical_def)
      show "canonical (fam_width v) (path_of ` set (fam v sv))"
        using canonises[OF assms(3,4)] by (simp add: ps_canonical_def)
      show "cover (fam_width v) (path_of ` set (fam v rv)) = cover (fam_width v) (path_of ` set (fam v sv))"
        using addrs_eq_iff[OF ok(1,2)] ok(3) by blast
    qed
    moreover have "inj_on path_of (set (fam v rv) \<union> set (fam v sv))"
      using fam_ok_fam[OF ok(1)] fam_ok_fam[OF ok(2)] by (rule fam_ok_inj)
    ultimately show ?thesis
      by (metis inj_on_image_eq_iff Un_upper1 Un_upper2)
  qed
  then have "x \<in> set rv \<longleftrightarrow> x \<in> set sv" for x
    by (auto simp: fam_def set_eq_iff)
  then show ?thesis by blast
qed

lemma shortest:
  assumes "all_ok ps" "aggregate ps = Inr rv" "all_ok qs" "addrs qs = addrs ps"
  shows "length rv \<le> length qs"
proof -
  have ok: "all_ok rv" "addrs rv = addrs qs" "ps_canonical rv"
    using keeps[OF assms(1,2)] canonises[OF assms(1,2)] assms(4) by auto
  have "length (fam v rv) \<le> length (fam v qs)" for v
  proof -
    let ?W = "fam_width v"
    have "card (path_of ` set (fam v rv)) \<le> card (path_of ` set (fam v qs))"
      using canonical_minimal[of ?W "path_of ` set (fam v rv)" "path_of ` set (fam v qs)"]
        ok addrs_eq_iff[OF ok(1) assms(3)] fam_ok_path_length[OF fam_ok_fam[OF assms(3)]]
      by (auto simp: ps_canonical_def)
    also have "\<dots> \<le> length (fam v qs)"
      by (metis card_length length_map set_map)
    finally have "card (path_of ` set (fam v rv)) \<le> length (fam v qs)" .
    moreover have "inj_on path_of (set (fam v rv))"
      using fam_ok_inj[of v "fam v rv" "fam v rv"] fam_ok_fam[OF ok(1)] by simp
    moreover have "distinct (fam v rv)" using ok(3) by (simp add: ps_canonical_def fam_def)
    ultimately show ?thesis by (simp add: card_image distinct_card)
  qed
  then show ?thesis using fam_split[of rv] fam_split[of qs] add_mono by metis
qed

lemma no_overlap:
  assumes "all_ok ps" "aggregate ps = Inr rv" "p \<in> set rv" "q \<in> set rv" "Overlaps p q"
  shows "p = q"
proof -
  have ok: "all_ok rv" "ps_canonical rv"
    using keeps[OF assms(1,2)] canonises[OF assms(1,2)] by auto
  have pq: "prefix_ok p" "prefix_ok q" using assms(3,4) ok(1) by (auto simp: all_ok_def)
  note cmp = Overlaps_comparable[OF pq assms(5)]
  have mem: "path_of p \<in> path_of ` set (fam (Is4 (pAddr p)) rv)"
    "path_of q \<in> path_of ` set (fam (Is4 (pAddr p)) rv)"
    using assms(3,4) cmp by (auto simp: fam_def same_family_def)
  have can: "canonical (fam_width (Is4 (pAddr p))) (path_of ` set (fam (Is4 (pAddr p)) rv))"
    using ok(2) by (simp add: ps_canonical_def)
  have "path_of p = path_of q"
    using canonicalD(2)[OF can mem] canonicalD(2)[OF can mem(2,1)] cmp by auto
  then show ?thesis using path_of_inj[OF pq] cmp by blast
qed

lemma idempotent:
  assumes "all_ok ps" "aggregate ps = Inr rv" "aggregate rv = Inr sv"
  shows "set sv = set rv"
  using fam_unique[OF _ assms(3) assms(1,2)] keeps[OF assms(1,2)] by simp

end

section \<open>AggregatePrefixes and AggregatePrefixesWithPrefixTree\<close>

lemma GroupPrefixesByFamily_fam: "GroupPrefixesByFamily ps = (fam True ps, fam False ps)"
  by (simp add: GroupPrefixesByFamily_eq fam_def)

lemma AggregatePrefixes_fam:
  "AggregatePrefixes ps =
     (case aggregatePrefixesForSingleIPFamily (fam True ps) of
        Inl e \<Rightarrow> Inl e
      | Inr a4 \<Rightarrow>
          (case aggregatePrefixesForSingleIPFamily (fam False ps) of
             Inl e \<Rightarrow> Inl e | Inr a6 \<Rightarrow> Inr (a4 @ a6)))"
  by (simp add: AggregatePrefixes_def GroupPrefixesByFamily_fam)

lemma fam_fam_ok: "fam_ok v ps \<Longrightarrow> fam v' ps = (if v' = v then ps else [])"
  by (auto simp: fam_def fam_ok_def filter_id_conv filter_empty_conv)

lemma fam_append: "fam v (ps @ qs) = fam v ps @ fam v qs"
  by (simp add: fam_def)

lemma fam_ok_all_ok: "fam_ok v ps \<Longrightarrow> all_ok ps"
  by (simp add: fam_ok_def all_ok_def)

text \<open>The common shape of both results: the canonical list of each family, one after the other.\<close>

lemma families_contract:
  assumes "all_ok ps"
    and "fam_ok True a4" "canonical 32 (path_of ` set a4)" "distinct a4"
      "cover 32 (path_of ` set a4) = cover 32 (path_of ` set (fam True ps))"
    and "fam_ok False a6" "canonical 128 (path_of ` set a6)" "distinct a6"
      "cover 128 (path_of ` set a6) = cover 128 (path_of ` set (fam False ps))"
  shows "all_ok (a4 @ a6)" "addrs (a4 @ a6) = addrs ps" "ps_canonical (a4 @ a6)"
proof -
  have fams: "fam v (a4 @ a6) = (if v then a4 else a6)" for v
    using fam_fam_ok[OF assms(2)] fam_fam_ok[OF assms(6)] by (simp add: fam_append)
  show ok: "all_ok (a4 @ a6)"
    using fam_ok_all_ok[OF assms(2)] fam_ok_all_ok[OF assms(6)] by (auto simp: all_ok_def)
  show "addrs (a4 @ a6) = addrs ps"
    unfolding addrs_eq_iff[OF ok assms(1)] fams using assms by (simp add: fam_width_def)
  have "set a4 \<inter> set a6 = {}"
    using assms(2,6) by (auto simp: fam_ok_def)
  then show "ps_canonical (a4 @ a6)"
    unfolding ps_canonical_def fams using assms by (simp add: fam_width_def)
qed

lemma stack_distinct: "stack_ok W (map path_of ps) \<Longrightarrow> distinct ps"
  using stack_ok_sorted distinct_map by blast

lemma stack_distinct_rev: "stack_ok W (rev (map path_of ps)) \<Longrightarrow> distinct ps"
  using stack_distinct[of W "rev ps"] by (simp add: rev_map)

lemma AggregatePrefixes_contract:
  assumes "all_ok ps"
  shows "\<exists>rv. AggregatePrefixes ps = Inr rv \<and> all_ok rv \<and> addrs rv = addrs ps \<and> ps_canonical rv"
proof -
  obtain a4 where a4: "aggregatePrefixesForSingleIPFamily (fam True ps) = Inr a4" "fam_ok True a4"
      "stack_ok 32 (rev (map path_of a4))"
      "cover 32 (path_of ` set a4) = cover 32 (path_of ` set (fam True ps))"
    using aggregate_family[OF fam_ok_fam[OF assms], of True] by (auto simp: fam_width_def)
  obtain a6 where a6: "aggregatePrefixesForSingleIPFamily (fam False ps) = Inr a6" "fam_ok False a6"
      "stack_ok 128 (rev (map path_of a6))"
      "cover 128 (path_of ` set a6) = cover 128 (path_of ` set (fam False ps))"
    using aggregate_family[OF fam_ok_fam[OF assms], of False] by (auto simp: fam_width_def)
  have "canonical 32 (path_of ` set a4)" "canonical 128 (path_of ` set a6)"
    using stack_ok_canonical[OF a4(3)] stack_ok_canonical[OF a6(3)] by simp_all
  note c = families_contract[OF assms a4(2) this(1) stack_distinct_rev[OF a4(3)] a4(4)
      a6(2) this(2) stack_distinct_rev[OF a6(3)] a6(4)]
  show ?thesis using a4(1) a6(1) c by (simp add: AggregatePrefixes_fam)
qed

interpretation agg: prefix_aggregator AggregatePrefixes
  by unfold_locales (use AggregatePrefixes_contract in fastforce)+

lemma tpaths_new: "tpaths (root newPrefixTreeForIPv4) = {}" "tpaths (root newPrefixTreeForIPv6) = {}"
  by (simp_all add: newPrefixTreeForIPv4_def newPrefixTreeForIPv6_def)

lemma prefix_tree_reverses:
  assumes "all_ok ps"
  shows "\<exists>a4 a6. AggregatePrefixes ps = Inr (a4 @ a6) \<and> fam_ok True a4 \<and> fam_ok False a6 \<and>
     AggregatePrefixesWithPrefixTree ps = Inr (rev a4 @ rev a6)"
proof -
  obtain a4 where a4: "aggregatePrefixesForSingleIPFamily (fam True ps) = Inr a4" "fam_ok True a4"
    using aggregate_family[OF fam_ok_fam[OF assms], of True] by auto
  obtain a6 where a6: "aggregatePrefixesForSingleIPFamily (fam False ps) = Inr a6" "fam_ok False a6"
    using aggregate_family[OF fam_ok_fam[OF assms], of False] by auto
  obtain t4 where t4: "tree_Add_all newPrefixTreeForIPv4 (fam True ps) = Inr t4" "tree_List t4 = rev a4"
    using tree_family[OF tree_ok_new(1) tpaths_new(1) fam_ok_fam[OF assms] a4(1)] by blast
  obtain t6 where t6: "tree_Add_all newPrefixTreeForIPv6 (fam False ps) = Inr t6" "tree_List t6 = rev a6"
    using tree_family[OF tree_ok_new(2) tpaths_new(2) fam_ok_fam[OF assms] a6(1)] by blast
  have "AggregatePrefixesWithPrefixTree ps = Inr (rev a4 @ rev a6)"
    using t4 t6 by (simp add: AggregatePrefixesWithPrefixTree_def GroupPrefixesByFamily_fam)
  moreover have "AggregatePrefixes ps = Inr (a4 @ a6)"
    using a4(1) a6(1) by (simp add: AggregatePrefixes_fam)
  ultimately show ?thesis using a4(2) a6(2) by blast
qed

lemma contract_set:
  assumes "set qs = set ps" "distinct qs" "all_ok ps" "ps_canonical ps"
  shows "all_ok qs" "addrs qs = addrs ps" "ps_canonical qs"
  using assms by (auto simp: all_ok_def addrs_def ps_canonical_def fam_def)

lemma prefix_tree_contract:
  assumes "all_ok ps"
  shows "\<exists>rv. AggregatePrefixesWithPrefixTree ps = Inr rv \<and> all_ok rv \<and> addrs rv = addrs ps \<and> ps_canonical rv"
proof -
  obtain a4 a6 where a: "AggregatePrefixes ps = Inr (a4 @ a6)"
      "AggregatePrefixesWithPrefixTree ps = Inr (rev a4 @ rev a6)"
    using prefix_tree_reverses[OF assms] by blast
  have c: "all_ok (a4 @ a6)" "addrs (a4 @ a6) = addrs ps" "ps_canonical (a4 @ a6)"
    using AggregatePrefixes_contract[OF assms] a(1) by auto
  have "distinct (rev a4 @ rev a6)" using c(3) by (simp add: ps_canonical_def)
  then show ?thesis using contract_set[of "rev a4 @ rev a6" "a4 @ a6"] c a(2) by simp
qed

interpretation tree: prefix_aggregator AggregatePrefixesWithPrefixTree
  by unfold_locales (use prefix_tree_contract in fastforce)+

section \<open>Extensionality\<close>

text \<open>The result of one family's aggregation depends on the addresses only.\<close>

lemma aggregate_family_cong:
  assumes "fam_ok v ps" "fam_ok v qs"
    "cover (fam_width v) (path_of ` set ps) = cover (fam_width v) (path_of ` set qs)"
  shows "aggregatePrefixesForSingleIPFamily ps = aggregatePrefixesForSingleIPFamily qs"
proof -
  let ?W = "fam_width v"
  obtain rv where rv: "aggregatePrefixesForSingleIPFamily ps = Inr rv" "fam_ok v rv"
      "stack_ok ?W (rev (map path_of rv))" "cover ?W (path_of ` set rv) = cover ?W (path_of ` set ps)"
    using aggregate_family[OF assms(1)] by blast
  obtain sv where sv: "aggregatePrefixesForSingleIPFamily qs = Inr sv" "fam_ok v sv"
      "stack_ok ?W (rev (map path_of sv))" "cover ?W (path_of ` set sv) = cover ?W (path_of ` set qs)"
    using aggregate_family[OF assms(2)] by blast
  have "path_of ` set rv = path_of ` set sv"
    using canonical_unique[OF stack_ok_canonical[OF rv(3)] stack_ok_canonical[OF sv(3)]]
      rv(4) sv(4) assms(3) by simp
  then have "map path_of rv = map path_of sv"
    using stack_ok_unique[OF rv(3) sv(3)] by simp
  then have "rv = sv" using map_inj_on[OF _ fam_ok_inj[OF rv(2) sv(2)]] by blast
  then show ?thesis using rv(1) sv(1) by simp
qed

lemma ParsePrefix_ok:
  assumes "ParsePrefix s = Inr p"
  shows "prefix_ok p"
proof -
  obtain m where p: "netip_ParsePrefix s = Some p" "Masked p = Some m" "addr_key (pAddr p) = addr_key (pAddr m)"
    using assms by (auto simp: ParsePrefix_def split: option.splits if_splits)
  have valid: "prefix_IsValid p"
    using p(1) by (auto simp: netip_ParsePrefix_def Let_def prefix_IsValid_def
        split: option.splits if_splits Addr.splits)
  have "m = p"
    using p(2,3) by (cases p; cases "pAddr p") (auto simp: Masked_def word_unat_eq_iff split: if_splits)
  then show ?thesis using p(2) valid by (simp add: prefix_ok_def)
qed

section \<open>Properties\<close>

text \<open>C1. \<open>AggregatePrefixes\<close>, called with prefixes that \<open>ParsePrefix\<close> accepts, never panics, returns
  well-formed prefixes again, and its result matches exactly the same addresses as its argument.\<close>

theorem AggregatePrefixes_same_addresses:
  assumes "\<forall>p \<in> set ps. prefix_ok p"
  shows "\<exists>rv. AggregatePrefixes ps = Inr rv \<and> (\<forall>p \<in> set rv. prefix_ok p) \<and>
     (\<forall>a. (\<exists>p \<in> set rv. prefix_Contains p a) \<longleftrightarrow> (\<exists>p \<in> set ps. prefix_Contains p a))"
proof -
  have ok: "all_ok ps" using assms by (simp add: all_ok_def)
  then obtain rv where rv: "AggregatePrefixes ps = Inr rv" using agg.returns by blast
  show ?thesis
    using rv agg.keeps[OF ok rv] by (auto simp: all_ok_def addrs_def set_eq_iff)
qed

theorem AggregatePrefixes_same_addresses_witness:
  "\<exists>rv. AggregatePrefixes [\<lparr>pAddr = Addr4 0x0A000000, pBits = 9\<rparr>, \<lparr>pAddr = Addr4 0x0A800000, pBits = 9\<rparr>] = Inr rv \<and>
     (\<exists>p \<in> set rv. prefix_Contains p (Addr4 0x0AFFFFFF))"
proof -
  let ?ps = "[\<lparr>pAddr = Addr4 0x0A000000, pBits = 9\<rparr>, \<lparr>pAddr = Addr4 0x0A800000, pBits = 9\<rparr>] :: Prefix list"
  have "\<forall>p \<in> set ?ps. prefix_ok p" "\<exists>p \<in> set ?ps. prefix_Contains p (Addr4 0x0AFFFFFF)" by code_simp+
  then show ?thesis using AggregatePrefixes_same_addresses[of ?ps] by blast
qed

text \<open>C2. No list of well-formed prefixes that matches the same addresses is shorter than the result of
  \<open>AggregatePrefixes\<close>, and no two different prefixes of the result overlap.\<close>

theorem AggregatePrefixes_shortest:
  assumes "\<forall>p \<in> set ps. prefix_ok p" "AggregatePrefixes ps = Inr rv"
  shows "(\<forall>qs. (\<forall>q \<in> set qs. prefix_ok q) \<longrightarrow>
       (\<forall>a. (\<exists>q \<in> set qs. prefix_Contains q a) \<longleftrightarrow> (\<exists>p \<in> set ps. prefix_Contains p a)) \<longrightarrow> length rv \<le> length qs) \<and>
     (\<forall>p \<in> set rv. \<forall>q \<in> set rv. Overlaps p q \<longrightarrow> p = q) \<and> distinct rv"
proof (intro conjI allI impI ballI)
  have ok: "all_ok ps" using assms(1) by (simp add: all_ok_def)
  fix qs assume "\<forall>q \<in> set qs. prefix_ok q"
    "\<forall>a. (\<exists>q \<in> set qs. prefix_Contains q a) \<longleftrightarrow> (\<exists>p \<in> set ps. prefix_Contains p a)"
  then show "length rv \<le> length qs"
    using agg.shortest[OF ok assms(2), of qs] by (simp add: all_ok_def addrs_def)
next
  have ok: "all_ok ps" using assms(1) by (simp add: all_ok_def)
  show "p = q" if "p \<in> set rv" "q \<in> set rv" "Overlaps p q" for p q
    using agg.no_overlap[OF ok assms(2) that] .
  show "distinct rv" using agg.canonises[OF ok assms(2)] by (simp add: ps_canonical_def)
qed

theorem AggregatePrefixes_shortest_witness:
  "AggregatePrefixes [\<lparr>pAddr = Addr4 4, pBits = 32\<rparr>, \<lparr>pAddr = Addr4 5, pBits = 32\<rparr>] = Inr [\<lparr>pAddr = Addr4 4, pBits = 31\<rparr>] \<and>
   distinct [\<lparr>pAddr = Addr4 4, pBits = 31\<rparr> :: Prefix]"
proof -
  let ?ps = "[\<lparr>pAddr = Addr4 4, pBits = 32\<rparr>, \<lparr>pAddr = Addr4 5, pBits = 32\<rparr>] :: Prefix list"
  have "\<forall>p \<in> set ?ps. prefix_ok p" "AggregatePrefixes ?ps = Inr [\<lparr>pAddr = Addr4 4, pBits = 31\<rparr>]"
    by code_simp+
  then show ?thesis using AggregatePrefixes_shortest[of ?ps] by blast
qed

text \<open>C3. The optimised routine agrees with the tree: \<open>AggregatePrefixesWithPrefixTree\<close> returns the IPv4
  part and the IPv6 part of \<open>AggregatePrefixes\<close>, each in the reverse order.\<close>

theorem AggregatePrefixesWithPrefixTree_equiv:
  assumes "\<forall>p \<in> set ps. prefix_ok p"
  shows "\<exists>a4 a6. AggregatePrefixes ps = Inr (a4 @ a6) \<and>
     AggregatePrefixesWithPrefixTree ps = Inr (rev a4 @ rev a6) \<and>
     (\<forall>p \<in> set a4. Is4 (pAddr p)) \<and> (\<forall>p \<in> set a6. \<not> Is4 (pAddr p))"
proof -
  have "all_ok ps" using assms by (simp add: all_ok_def)
  from prefix_tree_reverses[OF this] show ?thesis by (fastforce simp: fam_ok_def)
qed

theorem AggregatePrefixesWithPrefixTree_equiv_witness:
  "\<exists>a4 a6. AggregatePrefixes [\<lparr>pAddr = Addr4 0x0A000000, pBits = 9\<rparr>, \<lparr>pAddr = Addr6 0 [], pBits = 1\<rparr>] = Inr (a4 @ a6) \<and>
     AggregatePrefixesWithPrefixTree [\<lparr>pAddr = Addr4 0x0A000000, pBits = 9\<rparr>, \<lparr>pAddr = Addr6 0 [], pBits = 1\<rparr>] = Inr (rev a4 @ rev a6)"
proof -
  let ?ps = "[\<lparr>pAddr = Addr4 0x0A000000, pBits = 9\<rparr>, \<lparr>pAddr = Addr6 0 [], pBits = 1\<rparr>] :: Prefix list"
  have "\<forall>p \<in> set ?ps. prefix_ok p" by code_simp
  then show ?thesis using AggregatePrefixesWithPrefixTree_equiv[of ?ps] by blast
qed

text \<open>C4. \<open>AggregatePrefixes\<close> is a normal form: on the prefixes parsed from two lists of CIDRs it returns the same
  list if and only if the two lists match the same addresses, whatever their order and repetitions.\<close>

theorem AggregatePrefixes_normal_form:
  assumes "map ParsePrefix xs = map Inr ps" "map ParsePrefix ys = map Inr qs"
  shows "AggregatePrefixes ps = AggregatePrefixes qs \<longleftrightarrow>
     (\<forall>a. (\<exists>p \<in> set ps. prefix_Contains p a) \<longleftrightarrow> (\<exists>q \<in> set qs. prefix_Contains q a))"
proof -
  have parsed: "all_ok rs" if "map ParsePrefix zs = map Inr rs" for zs rs
    unfolding all_ok_def
  proof
    fix p assume "p \<in> set rs"
    then have "Inr p \<in> set (map ParsePrefix zs)" unfolding that by simp
    then obtain s where "ParsePrefix s = Inr p" by auto
    then show "prefix_ok p" by (rule ParsePrefix_ok)
  qed
  have ok: "all_ok ps" "all_ok qs" using parsed assms by blast+
  have "AggregatePrefixes ps = AggregatePrefixes qs \<longleftrightarrow> addrs ps = addrs qs"
  proof
    assume eq: "AggregatePrefixes ps = AggregatePrefixes qs"
    obtain rv where "AggregatePrefixes ps = Inr rv" using agg.returns[OF ok(1)] by blast
    then show "addrs ps = addrs qs" using agg.keeps[OF ok(1)] agg.keeps[OF ok(2)] eq by auto
  next
    assume "addrs ps = addrs qs"
    then have "aggregatePrefixesForSingleIPFamily (fam v ps) = aggregatePrefixesForSingleIPFamily (fam v qs)" for v
      using addrs_eq_iff[OF ok] fam_ok_fam[OF ok(1)] fam_ok_fam[OF ok(2)] aggregate_family_cong by blast
    then show "AggregatePrefixes ps = AggregatePrefixes qs" by (simp add: AggregatePrefixes_fam split: sum.split)
  qed
  then show ?thesis by (simp add: addrs_def set_eq_iff)
qed

theorem AggregatePrefixes_normal_form_witness:
  "AggregatePrefixes [\<lparr>pAddr = Addr4 0, pBits = 9\<rparr>] \<noteq> AggregatePrefixes [\<lparr>pAddr = Addr4 0, pBits = 8\<rparr>]"
proof -
  let ?p = "\<lparr>pAddr = Addr4 0, pBits = 9\<rparr> :: Prefix" and ?q = "\<lparr>pAddr = Addr4 0, pBits = 8\<rparr> :: Prefix"
  have "map ParsePrefix [''0.0.0.0/9''] = map Inr [?p]" "map ParsePrefix [''0.0.0.0/8''] = map Inr [?q]"
    "\<not> prefix_Contains ?p (Addr4 0x00800000)" "prefix_Contains ?q (Addr4 0x00800000)"
    by code_simp+
  then show ?thesis
    using AggregatePrefixes_normal_form[of "[''0.0.0.0/9'']" "[?p]" "[''0.0.0.0/8'']" "[?q]"] by auto
qed

end
