(* ===== verification/AccessControlProperties.thy ===== *)
theory AccessControlProperties
  imports AccessControl SecurityGroupProperties PrefixAggregator
begin

text \<open>
  Access control of a service: what a patched security group lets through compared with what the service asks for, what
  happens to invalid ranges, and what remains open after cleaning.
\<close>

section \<open>What a group lets through\<close>

definition lets :: "SecurityRule \<Rightarrow> string \<Rightarrow> string \<Rightarrow> int \<Rightarrow> string \<Rightarrow> bool" where
  "lets rule protocol d port s \<longleftrightarrow>
     managed rule \<and> rule_allows rule protocol d port \<and> s \<in> set (ListSourcePrefixes rule)"

definition opened :: "RuleHelper \<Rightarrow> string \<Rightarrow> string \<Rightarrow> int \<Rightarrow> string \<Rightarrow> bool" where
  "opened helper protocol d port s \<longleftrightarrow>
     (\<exists>n rule. map_of (rh_rules helper) n = Some rule \<and> lets rule protocol d port s)"

text \<open>A rule is determined by protocol, family, sources and ports. Two keys are apart when equal names mean equal rules, which
  a collision of the digest would break; a rule found under the name of a key has to be the rule of that key.\<close>

type_synonym rule_key = "string \<times> Family \<times> string list \<times> int list"

definition keys_apart :: "(string \<Rightarrow> string) \<Rightarrow> rule_key set \<Rightarrow> bool" where
  "keys_apart md5hex U \<longleftrightarrow>
     (\<forall>(P, f, src, ports) \<in> U. \<forall>(P', f', src', ports') \<in> U.
        allow_name md5hex P f src ports = allow_name md5hex P' f' src' ports' \<longrightarrow>
        P = P' \<and> set src = set src' \<and> sort (port_strings ports) = sort (port_strings ports'))"

definition rule_of_key :: "rule_key \<Rightarrow> SecurityRule \<Rightarrow> bool" where
  "rule_of_key k rule \<longleftrightarrow>
     (case k of (P, f, src, ports) \<Rightarrow>
        managed rule \<and> sr_Access rule = Some ''Allow'' \<and> sr_Protocol rule = Some P \<and> set (ListSourcePrefixes rule) = set src \<and>
        sr_DestinationPortRange rule = None \<and> sr_DestinationPortRanges rule = Some (sort (port_strings ports)))"

text \<open>The rules that deny everything never allow anything, and have other names.\<close>

definition deny_ok :: "RuleHelper \<Rightarrow> bool" where
  "deny_ok helper \<longleftrightarrow> (\<forall>f rule. map_of (rh_rules helper) (GenerateDenyAllSecurityRuleName f) = Some rule \<longrightarrow> sr_Access rule \<noteq> Some ''Allow'')"

lemma deny_name_ne: "GenerateDenyAllSecurityRuleName f \<noteq> allow_name md5hex P f' src ports"
  by (cases f; cases f')
    (simp_all add: GenerateDenyAllSecurityRuleName_def allow_name_def GenerateAllowSecurityRuleName_def Let_def
      SecurityRuleNamePrefix_def SecurityRuleNameSep_def)

definition keys_ok :: "(string \<Rightarrow> string) \<Rightarrow> rule_key set \<Rightarrow> RuleHelper \<Rightarrow> bool" where
  "keys_ok md5hex U helper \<longleftrightarrow> deny_ok helper \<and>
     (\<forall>k \<in> U. case k of (P, f, src, ports) \<Rightarrow>
        \<forall>rule. map_of (rh_rules helper) (allow_name md5hex P f src ports) = Some rule \<longrightarrow> rule_of_key k rule)"

lemma keys_okD:
  "keys_ok md5hex U helper \<Longrightarrow> (P, f, src, ports) \<in> U \<Longrightarrow>
   map_of (rh_rules helper) (allow_name md5hex P f src ports) = Some rule \<Longrightarrow> rule_of_key (P, f, src, ports) rule"
  by (fastforce simp: keys_ok_def)

lemma keys_apartD:
  assumes "keys_apart md5hex U" "(P, f, src, ports) \<in> U" "(P', f', src', ports') \<in> U"
    "allow_name md5hex P f src ports = allow_name md5hex P' f' src' ports'" "rule_of_key (P, f, src, ports) rule"
  shows "rule_of_key (P', f', src', ports') rule"
  using assms unfolding keys_apart_def by (fastforce simp: rule_of_key_def)

lemma rule_of_key_allows:
  assumes "rule_of_key (P, f, src, ports) rule" "ports_ok ports"
  shows "rule_allows rule P' d port \<longleftrightarrow> P' = P \<and> d \<in> set (ListDestinationPrefixes rule) \<and> port \<in> set ports"
proof -
  obtain ps where "ListDestinationPortRanges rule = Inr ps" "set ps = set ports"
    using allow_rule_ports[of rule ports] assms by (auto simp: rule_of_key_def)
  then show ?thesis using assms(1) by (auto simp: rule_allows_def rule_of_key_def)
qed

lemma rule_of_key_lets:
  assumes "rule_of_key (P, f, src, ports) rule" "ports_ok ports"
  shows "lets rule P' d port s \<longleftrightarrow> P' = P \<and> d \<in> set (ListDestinationPrefixes rule) \<and> port \<in> set ports \<and> s \<in> set src"
  using assms rule_of_key_allows[OF assms] by (auto simp: lets_def rule_of_key_def)

lemma opened_upd:
  assumes "map_of (rh_rules helper') = (map_of (rh_rules helper))(n \<mapsto> rule')"
  shows "opened helper' P d port s \<longleftrightarrow>
    lets rule' P d port s \<or> (\<exists>m rule. m \<noteq> n \<and> map_of (rh_rules helper) m = Some rule \<and> lets rule P d port s)"
  unfolding opened_def assms by auto

lemma opened_split:
  "opened helper P d port s \<longleftrightarrow>
    (\<exists>rule. map_of (rh_rules helper) n = Some rule \<and> lets rule P d port s) \<or>
    (\<exists>m rule. m \<noteq> n \<and> map_of (rh_rules helper) m = Some rule \<and> lets rule P d port s)"
  unfolding opened_def by auto

lemma nextRulePriority_range:
  assumes "nextRulePriority helper pref = Inr p"
  shows "LoadBalancerMinimumPriority \<le> p \<and> p < LoadBalancerMaximumPriority"
proof (cases pref)
  case rulePriorityPreferFromStart
  then show ?thesis
    using assms next_priority_up(2)[of LoadBalancerMinimumPriority LoadBalancerMaximumPriority]
    by (auto simp: nextRulePriority_def LoadBalancerMinimumPriority_def LoadBalancerMaximumPriority_def split: option.splits)
next
  case rulePriorityPreferFromEnd
  then obtain r where r: "next_priority (\<lambda>q. map_of (rh_priorities helper) (- q) \<noteq> None)
      (- (LoadBalancerMaximumPriority - 1)) (- (LoadBalancerMinimumPriority - 1)) 1 = Some r" "p = - r"
    using assms by (auto simp: nextRulePriority_def next_priority_mirror split: option.splits)
  have "- (LoadBalancerMaximumPriority - 1) \<le> - (LoadBalancerMinimumPriority - 1)"
    by (simp add: LoadBalancerMinimumPriority_def LoadBalancerMaximumPriority_def)
  from next_priority_up(2)[OF this r(1)] r(2) show ?thesis by linarith
qed

lemma new_rule_managed: "nextRulePriority helper pref = Inr p \<Longrightarrow> managed (new_rule name p)"
  using nextRulePriority_range by (fastforce simp: managed_def new_rule_def)

lemma addAllowRule_opens:
  assumes add: "addAllowRule md5hex helper P f src dst ports = (helper', Inr ())"
    and U: "keys_apart md5hex U" "keys_ok md5hex U helper" "(P, f, src, ports) \<in> U" and ports: "ports_ok ports"
  shows "keys_ok md5hex U helper'"
    "opened helper' Q d port s \<longleftrightarrow> opened helper Q d port s \<or> Q = P \<and> d \<in> set dst \<and> port \<in> set ports \<and> s \<in> set src"
proof -
  let ?n = "allow_name md5hex P f src ports" and ?k = "(P, f, src, ports)"
  from addAllowRule_effect(2)[OF add refl] obtain rule rule' where
      E: "rule_or_new helper ?n rulePriorityPreferFromStart rule" "map_of (rh_rules helper') = (map_of (rh_rules helper))(?n \<mapsto> rule')"
      "set (ListDestinationPrefixes rule') = set (ListDestinationPrefixes rule) \<union> set dst"
      "sr_DestinationPortRanges rule' = Some (sort (port_strings ports))"
      "sr_DestinationPortRange rule' = sr_DestinationPortRange rule" "sr_Access rule' = Some ''Allow''" "sr_Protocol rule' = Some P"
      "set src \<subseteq> set (ListSourcePrefixes rule')" "set (ListSourcePrefixes rule') \<subseteq> set (ListSourcePrefixes rule) \<union> set src"
      "sr_Priority rule' = sr_Priority rule"
    by blast
  have old: "map_of (rh_rules helper) ?n = Some rule \<and> rule_of_key ?k rule \<or>
      map_of (rh_rules helper) ?n = None \<and> ListDestinationPrefixes rule = [] \<and> ListSourcePrefixes rule = [] \<and>
      sr_DestinationPortRange rule = None \<and> managed rule"
    using E(1) keys_okD[OF U(2,3)] new_rule_managed
    by (auto simp: rule_or_new_def new_rule_def ListDestinationPrefixes_def ListSourcePrefixes_def)
  moreover have "managed rule' \<longleftrightarrow> managed rule" using E(10) by (simp add: managed_def)
  ultimately have k: "rule_of_key ?k rule'" using E(4-9) by (auto simp: rule_of_key_def)
  have "deny_ok helper'" using U(2) unfolding keys_ok_def deny_ok_def E(2) by (simp add: deny_name_ne)
  then show "keys_ok md5hex U helper'"
    unfolding keys_ok_def E(2) using keys_okD[OF U(2)] keys_apartD[OF U(1,3) _ _ k]
    by (auto simp: fun_upd_apply split: if_splits prod.splits)
  show "opened helper' Q d port s \<longleftrightarrow> opened helper Q d port s \<or> Q = P \<and> d \<in> set dst \<and> port \<in> set ports \<and> s \<in> set src"
    unfolding opened_upd[OF E(2)] opened_split[of helper _ _ _ _ ?n] rule_of_key_lets[OF k ports] E(3)
    using old
  proof
    assume "map_of (rh_rules helper) ?n = Some rule \<and> rule_of_key ?k rule"
    then have "map_of (rh_rules helper) ?n = Some rule"
        "lets rule Q d port s \<longleftrightarrow> Q = P \<and> d \<in> set (ListDestinationPrefixes rule) \<and> port \<in> set ports \<and> s \<in> set src"
      using rule_of_key_lets[OF _ ports] by blast+
    then show "Q = P \<and> d \<in> set (ListDestinationPrefixes rule) \<union> set dst \<and> port \<in> set ports \<and> s \<in> set src \<or>
        (\<exists>m rl. m \<noteq> ?n \<and> map_of (rh_rules helper) m = Some rl \<and> lets rl Q d port s) \<longleftrightarrow>
        ((\<exists>rl. map_of (rh_rules helper) ?n = Some rl \<and> lets rl Q d port s) \<or>
         (\<exists>m rl. m \<noteq> ?n \<and> map_of (rh_rules helper) m = Some rl \<and> lets rl Q d port s)) \<or>
        Q = P \<and> d \<in> set dst \<and> port \<in> set ports \<and> s \<in> set src"
      by auto
  qed auto
qed

section \<open>PatchSecurityGroup\<close>

definition opens :: "RuleHelper \<Rightarrow> RuleHelper \<Rightarrow> (string \<Rightarrow> string \<Rightarrow> int \<Rightarrow> string \<Rightarrow> bool) \<Rightarrow> bool" where
  "opens helper helper' new \<longleftrightarrow> (\<forall>P d port s. opened helper' P d port s \<longleftrightarrow> opened helper P d port s \<or> new P d port s)"

lemma opens_refl: "opens helper helper (\<lambda>P d port s. False)"
  by (simp add: opens_def)

lemma opens_trans: "opens a b f \<Longrightarrow> opens b c g \<Longrightarrow> opens a c (\<lambda>P d port s. f P d port s \<or> g P d port s)"
  by (auto simp: opens_def)

lemma opens_cong: "opens a b f \<Longrightarrow> (\<And>P d port s. f P d port s \<longleftrightarrow> g P d port s) \<Longrightarrow> opens a b g"
  by (simp add: opens_def)

lemma AddRuleForAllowedServiceTag_opens:
  assumes "AddRuleForAllowedServiceTag md5hex helper tag P dst ports = (helper', Inr ())"
    "keys_apart md5hex U" "keys_ok md5hex U helper" "\<forall>f. (P, f, [tag], ports) \<in> U" "ports_ok ports"
  shows "keys_ok md5hex U helper' \<and>
    opens helper helper' (\<lambda>Q d port s. Q = P \<and> d \<in> addr_String ` set dst \<and> port \<in> set ports \<and> s = tag)"
proof -
  obtain f where "addAllowRule md5hex helper P f [tag] (map addr_String dst) ports = (helper', Inr ())"
    using assms(1) by (auto simp: AddRuleForAllowedServiceTag_def Map_eq split: if_splits list.splits)
  from addAllowRule_opens[OF this assms(2,3) assms(4)[rule_format] assms(5)] show ?thesis by (auto simp: opens_def)
qed

lemma AddRuleForAllowedIPRanges_opens:
  assumes "AddRuleForAllowedIPRanges md5hex helper ranges P dst ports = (helper', Inr ())"
    "keys_apart md5hex U" "keys_ok md5hex U helper" "\<forall>f. (P, f, map prefix_String ranges, ports) \<in> U" "ports_ok ports"
  shows "keys_ok md5hex U helper' \<and>
    opens helper helper' (\<lambda>Q d port s. Q = P \<and> d \<in> addr_String ` set dst \<and> port \<in> set ports \<and> s \<in> prefix_String ` set ranges)"
proof -
  obtain f where "addAllowRule md5hex helper P f (map prefix_String ranges) (map addr_String dst) ports = (helper', Inr ())"
    using assms(1) by (auto simp: AddRuleForAllowedIPRanges_def Map_eq split: if_splits list.splits)
  from addAllowRule_opens[OF this assms(2,3) assms(4)[rule_format] assms(5)] show ?thesis by (auto simp: opens_def)
qed

lemma add_tags_opens:
  assumes "add_tags md5hex helper tags P dst ports = (helper', Inr ())"
    "keys_apart md5hex U" "keys_ok md5hex U helper" "\<forall>tag \<in> set tags. \<forall>f. (P, f, [tag], ports) \<in> U" "ports_ok ports"
  shows "keys_ok md5hex U helper' \<and>
    opens helper helper' (\<lambda>Q d port s. Q = P \<and> d \<in> addr_String ` set dst \<and> port \<in> set ports \<and> s \<in> set tags)"
  using assms(1,3,4)
proof (induction tags arbitrary: helper)
  case Nil
  then show ?case by (simp add: opens_def)
next
  case (Cons tag tags)
  obtain h1 where h1: "AddRuleForAllowedServiceTag md5hex helper tag P dst ports = (h1, Inr ())"
      "add_tags md5hex h1 tags P dst ports = (helper', Inr ())"
    using Cons.prems(1) by (auto split: prod.splits sum.splits)
  have "\<forall>f. (P, f, [tag], ports) \<in> U" using Cons.prems(3) by simp
  note A = AddRuleForAllowedServiceTag_opens[OF h1(1) assms(2) Cons.prems(2) this assms(5)]
  note B = Cons.IH[OF h1(2) conjunct1[OF A]]
  show ?case using opens_trans[OF conjunct2[OF A]] B Cons.prems(3) by (auto intro: opens_cong)
qed

lemma patch_family_opens:
  assumes "patch_family md5hex ta ra helper tags ranges P dst ports = (helper', Inr ())"
    "keys_apart md5hex U" "keys_ok md5hex U helper" "\<forall>tag \<in> set tags. \<forall>f. (P, f, [tag], ports) \<in> U"
    "ranges \<noteq> [] \<longrightarrow> (\<forall>f. (P, f, map prefix_String ranges, ports) \<in> U)" "ports_ok ports"
  shows "keys_ok md5hex U helper' \<and>
    opens helper helper' (\<lambda>Q d port s. Q = P \<and> d \<in> addr_String ` set dst \<and> port \<in> set ports \<and>
      (s \<in> set tags \<or> s \<in> prefix_String ` set ranges))"
proof (cases "dst = []")
  case True
  then show ?thesis using assms(1,3) by (simp add: patch_family_def opens_def)
next
  case False
  then obtain h1 where h1: "add_tags md5hex helper tags P dst ports = (h1, Inr ())"
      "ranges = [] \<and> helper' = h1 \<or> ranges \<noteq> [] \<and> AddRuleForAllowedIPRanges md5hex h1 ranges P dst ports = (helper', Inr ())"
    using assms(1) by (auto simp: patch_family_def split: prod.splits sum.splits if_splits)
  note A = add_tags_opens[OF h1(1) assms(2-4,6)]
  from h1(2) show ?thesis
  proof
    assume "ranges = [] \<and> helper' = h1"
    then show ?thesis using A by simp
  next
    assume r: "ranges \<noteq> [] \<and> AddRuleForAllowedIPRanges md5hex h1 ranges P dst ports = (helper', Inr ())"
    with assms(5) have "\<forall>f. (P, f, map prefix_String ranges, ports) \<in> U" by simp
    note B = AddRuleForAllowedIPRanges_opens[OF conjunct2[OF r] assms(2) conjunct1[OF A] this assms(6)]
    show ?thesis using B opens_trans[OF conjunct2[OF A] conjunct2[OF B]] by (auto elim!: opens_cong)
  qed
qed

text \<open>The keys of the rules a service needs.\<close>

definition patch_keys :: "(string \<times> int list) list \<Rightarrow> string list \<Rightarrow> Prefix list \<Rightarrow> Prefix list \<Rightarrow> rule_key set" where
  "patch_keys portmap tags v4 v6 =
     {(P, f, src, ports). P \<in> set protocols \<and> map_of portmap P = Some ports \<and>
        ((\<exists>tag \<in> set tags. src = [tag]) \<or> v4 \<noteq> [] \<and> src = map prefix_String v4 \<or> v6 \<noteq> [] \<and> src = map prefix_String v6)}"

lemma patch_protocols_opens:
  assumes "patch_protocols md5hex portmap helper tags v4 v6 dst4 dst6 ps = (helper', Inr ())"
    "keys_apart md5hex U" "keys_ok md5hex U helper" "patch_keys portmap tags v4 v6 \<subseteq> U" "set ps \<subseteq> set protocols"
    "\<forall>P ports. map_of portmap P = Some ports \<longrightarrow> ports_ok ports"
  shows "keys_ok md5hex U helper' \<and>
    opens helper helper' (\<lambda>P d port s. P \<in> set ps \<and> port \<in> set (ports_of portmap P) \<and>
      (d \<in> addr_String ` set dst4 \<and> (s \<in> set tags \<or> s \<in> prefix_String ` set v4) \<or>
       d \<in> addr_String ` set dst6 \<and> (s \<in> set tags \<or> s \<in> prefix_String ` set v6)))"
  using assms(1,3,5)
proof (induction ps arbitrary: helper)
  case Nil
  then show ?case by (simp add: opens_def)
next
  case (Cons P ps)
  show ?case
  proof (cases "map_of portmap P")
    case None
    then have "ports_of portmap P = []" by (simp add: ports_of_def)
    then show ?thesis using Cons.IH[of helper] Cons.prems None by (auto elim!: opens_cong)
  next
    case (Some ports)
    obtain h1 h2 where h: "patch_family md5hex AddServiceTagIPv4 AddIPRangesIPv4 helper tags v4 P dst4 ports = (h1, Inr ())"
        "patch_family md5hex AddServiceTagIPv6 AddIPRangesIPv6 h1 tags v6 P dst6 ports = (h2, Inr ())"
        "patch_protocols md5hex portmap h2 tags v4 v6 dst4 dst6 ps = (helper', Inr ())"
      using Cons.prems(1) Some by (auto split: prod.splits sum.splits)
    have k: "\<forall>tag \<in> set tags. \<forall>f. (P, f, [tag], ports) \<in> U" "v4 \<noteq> [] \<longrightarrow> (\<forall>f. (P, f, map prefix_String v4, ports) \<in> U)"
        "v6 \<noteq> [] \<longrightarrow> (\<forall>f. (P, f, map prefix_String v6, ports) \<in> U)"
      using assms(4) Some Cons.prems(3) by (auto simp: patch_keys_def)
    have pok: "ports_ok ports" using assms(6) Some by blast
    note A = patch_family_opens[OF h(1) assms(2) Cons.prems(2) k(1,2) pok]
    note B = patch_family_opens[OF h(2) assms(2) conjunct1[OF A] k(1,3) pok]
    have C: "keys_ok md5hex U helper' \<and>
      opens h2 helper' (\<lambda>P d port s. P \<in> set ps \<and> port \<in> set (ports_of portmap P) \<and>
        (d \<in> addr_String ` set dst4 \<and> (s \<in> set tags \<or> s \<in> prefix_String ` set v4) \<or>
         d \<in> addr_String ` set dst6 \<and> (s \<in> set tags \<or> s \<in> prefix_String ` set v6)))"
      using Cons.IH[OF h(3) conjunct1[OF B]] Cons.prems(3) by simp
    have "ports_of portmap P = ports" using Some by (simp add: ports_of_def)
    then show ?thesis
      using C opens_trans[OF opens_trans[OF conjunct2[OF A] conjunct2[OF B]] conjunct2[OF C]] by (auto elim!: opens_cong)
  qed
qed

section \<open>Denying the rest\<close>

definition denied :: "RuleHelper \<Rightarrow> Addr \<Rightarrow> bool" where
  "denied helper a \<longleftrightarrow>
     (\<exists>rule. map_of (rh_rules helper) (GenerateDenyAllSecurityRuleName (FamilyOfAddr a)) = Some rule \<and>
        sr_Access rule = Some ''Deny'' \<and> sr_Protocol rule = Some ''*'' \<and> sr_SourceAddressPrefix rule = Some ''*'' \<and>
        sr_DestinationPortRange rule = Some ''*'' \<and> addr_String a \<in> set (ListDestinationPrefixes rule))"

lemma AddRuleForDenyAll_effect:
  assumes "AddRuleForDenyAll helper dst = (helper', Inr ())"
  shows "\<exists>f rule rule'. (\<forall>a \<in> set dst. FamilyOfAddr a = f) \<and>
    rule_or_new helper (GenerateDenyAllSecurityRuleName f) rulePriorityPreferFromEnd rule \<and>
    map_of (rh_rules helper') = (map_of (rh_rules helper))(GenerateDenyAllSecurityRuleName f \<mapsto> rule') \<and>
    set (ListDestinationPrefixes rule') = set (ListDestinationPrefixes rule) \<union> addr_String ` set dst \<and>
    sr_Access rule' = Some ''Deny'' \<and> sr_Protocol rule' = Some ''*'' \<and> sr_SourceAddressPrefix rule' = Some ''*'' \<and>
    sr_DestinationPortRange rule' = Some ''*''"
proof -
  obtain a as where dst: "dst = a # as" "AreAddressesFromSameFamily dst"
    using assms by (auto simp: AddRuleForDenyAll_def split: if_splits list.splits)
  let ?n = "GenerateDenyAllSecurityRuleName (FamilyOfAddr a)"
  obtain h1 r1 where g: "getOrCreateRule helper ?n rulePriorityPreferFromEnd = (h1, r1)" by fastforce
  obtain rule where r1: "r1 = Inr rule"
    using assms dst g by (cases r1) (auto simp: AddRuleForDenyAll_def)
  note G = getOrCreateRule_effect(2)[OF g r1]
  define r2 where "r2 = rule\<lparr>sr_Protocol := Some ''*'', sr_Access := Some ''Deny'', sr_Direction := Some ''Inbound'',
      sr_SourceAddressPrefix := Some ''*'', sr_SourcePortRange := Some ''*''\<rparr>"
  define r3 where "r3 = (SetDestinationPrefixes r2 (map addr_String dst @ ListDestinationPrefixes r2))
      \<lparr>sr_DestinationPortRange := Some ''*''\<rparr>"
  have h: "helper' = set_rule h1 ?n r3"
    using assms dst g r1 by (auto simp: AddRuleForDenyAll_def Let_def r2_def r3_def Map_eq)
  have "ListDestinationPrefixes r2 = ListDestinationPrefixes rule" by (simp add: r2_def ListDestinationPrefixes_def)
  then have "set (ListDestinationPrefixes r3) = set (ListDestinationPrefixes rule) \<union> addr_String ` set dst"
    by (auto simp: r3_def Dest_SetDestinationPrefixes)
  moreover have "map_of (rh_rules helper') = (map_of (rh_rules helper))(?n \<mapsto> r3)" using G h by (simp add: set_rule_def)
  moreover have "\<forall>b \<in> set dst. FamilyOfAddr b = FamilyOfAddr a"
  proof
    fix b assume b: "b \<in> set dst"
    have "a \<in> set dst" by (simp add: dst(1))
    with b have "Is4 b = Is4 a" using dst(2) unfolding AreAddressesFromSameFamily_iff by blast
    then show "FamilyOfAddr b = FamilyOfAddr a" by (simp add: FamilyOfAddr_def)
  qed
  ultimately show ?thesis
    using G by (intro exI[of _ "FamilyOfAddr a"] exI[of _ rule] exI[of _ r3]) (simp add: r3_def r2_def)
qed

lemma deny_family_denies:
  assumes "deny_family wrap helper dst = (helper', Inr ())"
  shows "a \<in> set dst \<Longrightarrow> denied helper' a" "denied helper a \<Longrightarrow> denied helper' a"
proof -
  have "(\<forall>a \<in> set dst. denied helper' a) \<and> (\<forall>a. denied helper a \<longrightarrow> denied helper' a)"
  proof (cases "dst = []")
    case True
    then show ?thesis using assms by (simp add: deny_family_def)
  next
    case False
    then have "AddRuleForDenyAll helper dst = (helper', Inr ())"
      using assms(1) by (auto simp: deny_family_def split: prod.splits sum.splits)
    from AddRuleForDenyAll_effect[OF this] obtain f rule rule' where
      E: "\<forall>a \<in> set dst. FamilyOfAddr a = f" "rule_or_new helper (GenerateDenyAllSecurityRuleName f) rulePriorityPreferFromEnd rule"
      "map_of (rh_rules helper') = (map_of (rh_rules helper))(GenerateDenyAllSecurityRuleName f \<mapsto> rule')"
      "set (ListDestinationPrefixes rule') = set (ListDestinationPrefixes rule) \<union> addr_String ` set dst"
      "sr_Access rule' = Some ''Deny''" "sr_Protocol rule' = Some ''*''" "sr_SourceAddressPrefix rule' = Some ''*''"
      "sr_DestinationPortRange rule' = Some ''*''" by blast
    have "\<forall>a \<in> set dst. denied helper' a" using E(1,4-8) unfolding denied_def E(3) by simp
    moreover have "denied helper' a" if "denied helper a" for a
      using that E(2,4-8) unfolding denied_def E(3) by (auto simp: rule_or_new_def)
    ultimately show ?thesis by blast
  qed
  then show "a \<in> set dst \<Longrightarrow> denied helper' a" "denied helper a \<Longrightarrow> denied helper' a" by blast+
qed

lemma deny_family_opens:
  assumes "deny_family wrap helper dst = (helper', Inr ())" "deny_ok helper"
  shows "deny_ok helper' \<and> opens helper helper' (\<lambda>P d port s. False)"
proof (cases "dst = []")
  case True
  then show ?thesis using assms by (simp add: deny_family_def opens_def)
next
  case False
  then have "AddRuleForDenyAll helper dst = (helper', Inr ())"
    using assms(1) by (auto simp: deny_family_def split: prod.splits sum.splits)
  from AddRuleForDenyAll_effect[OF this] obtain f rule' where
      E: "map_of (rh_rules helper') = (map_of (rh_rules helper))(GenerateDenyAllSecurityRuleName f \<mapsto> rule')"
      "sr_Access rule' = Some ''Deny''" by blast
  have "\<not> lets rule' P d port s" for P d port s using E(2) by (simp add: rule_allows_def lets_def)
  moreover have "\<not> lets rl P d port s" if "map_of (rh_rules helper) (GenerateDenyAllSecurityRuleName f) = Some rl" for rl P d port s
    using assms(2) that by (auto simp: deny_ok_def rule_allows_def lets_def)
  ultimately have "opens helper helper' (\<lambda>P d port s. False)"
    unfolding opens_def opened_upd[OF E(1)] opened_split[of helper _ _ _ _ "GenerateDenyAllSecurityRuleName f"] by blast
  moreover have "deny_ok helper'" using assms(2) E(2) unfolding deny_ok_def E(1) by simp
  ultimately show ?thesis by blast
qed

section \<open>CleanSecurityGroup\<close>

definition all_closed :: "string \<Rightarrow> string list \<Rightarrow> int list \<Rightarrow> RuleHelper \<Rightarrow> bool" where
  "all_closed P dsts R helper \<longleftrightarrow>
     (\<forall>n rule. map_of (rh_rules helper) n = Some rule \<longrightarrow> managed rule \<longrightarrow> closed P dsts R rule)"

definition retain_ok :: "(string \<times> int list) list \<Rightarrow> bool" where
  "retain_ok retain \<longleftrightarrow> (\<forall>P \<in> set protocols. distinct (ports_of retain P) \<and> ports_ok (ports_of retain P))"

definition visits_all :: "visits \<Rightarrow> bool" where
  "visits_all visit \<longleftrightarrow> (\<forall>i m. fst ` set m \<subseteq> set (visit i m))"

lemma all_closed_append: "all_closed P (v @ w) R helper \<longleftrightarrow> all_closed P v R helper \<and> all_closed P w R helper"
  by (auto simp: all_closed_def closed_def)

lemma remove_round:
  assumes "RemoveDestinationFromRules md5hex (visit i (rh_rules helper)) helper protocol dsts retain = (helper', Inr ())"
    "generated_ok md5hex helper" "visits_all visit" "distinct retain" "ports_ok retain"
  shows "generated_ok md5hex helper'" "all_closed protocol dsts retain helper'"
    "all_closed P w R helper \<Longrightarrow> P = protocol \<longrightarrow> set retain \<subseteq> set R \<Longrightarrow> all_closed P w R helper'"
proof -
  have "fst ` set (rh_rules helper) \<subseteq> set (visit i (rh_rules helper))" using assms(3) by (simp add: visits_all_def)
  note R = remove_visits_closes[OF assms(1,2,4,5) visit_all[OF this]]
  show "generated_ok md5hex helper'" "all_closed protocol dsts retain helper'" using R by (auto simp: all_closed_def)
  show "all_closed P w R helper'" if "all_closed P w R helper" "P = protocol \<longrightarrow> set retain \<subseteq> set R"
    using narrows_closed[of protocol retain helper helper' P R w] R that by (auto simp: all_closed_def)
qed

lemma clean_protocols_closes:
  assumes "clean_protocols md5hex visit i retain helper v4 v6 ps = (helper', Inr ())"
    "generated_ok md5hex helper" "visits_all visit" "retain_ok retain" "set ps \<subseteq> set protocols"
  shows "(\<forall>P \<in> set ps. all_closed P (v4 @ v6) (ports_of retain P) helper') \<and>
    (\<forall>P w. all_closed P w (ports_of retain P) helper \<longrightarrow> all_closed P w (ports_of retain P) helper')"
  using assms(1,2,5)
proof (induction ps arbitrary: i helper)
  case (Cons Q ps)
  let ?r = "ports_of retain Q"
  obtain h1 h2 where h: "RemoveDestinationFromRules md5hex (visit i (rh_rules helper)) helper Q v4 ?r = (h1, Inr ())"
      "RemoveDestinationFromRules md5hex (visit (i + 1) (rh_rules h1)) h1 Q v6 ?r = (h2, Inr ())"
      "clean_protocols md5hex visit (i + 2) retain h2 v4 v6 ps = (helper', Inr ())"
    using Cons.prems(1) by (auto simp: Let_def split: prod.splits sum.splits)
  have r: "distinct ?r" "ports_ok ?r" using assms(4) Cons.prems(3) by (auto simp: retain_ok_def)
  note A = remove_round[OF h(1) Cons.prems(2) assms(3) r] and B = remove_round[OF h(2) _ assms(3) r]
  note B' = B[OF A(1)]
  have "set ps \<subseteq> set protocols" using Cons.prems(3) by simp
  note C = Cons.IH[OF h(3) B'(1) this]
  have "all_closed Q (v4 @ v6) ?r h2" using A(2) B'(2,3) by (simp add: all_closed_append)
  moreover have "all_closed P w (ports_of retain P) h2" if "all_closed P w (ports_of retain P) helper" for P w
    using B'(3)[OF A(3)[OF that]] by simp
  ultimately show ?case using C by auto
qed simp

lemma CleanSecurityGroup_closes:
  assumes "CleanSecurityGroup md5hex visit ac dst4 dst6 retain = (ac', Inr ())"
    "generated_ok md5hex (ac_sgHelper ac)" "visits_all visit" "retain_ok retain"
  shows "P \<in> set protocols \<Longrightarrow> all_closed P (map addr_String (dst4 @ dst6)) (ports_of retain P) (ac_sgHelper ac')"
    "ac' = ac\<lparr>ac_sgHelper := ac_sgHelper ac'\<rparr>"
proof -
  obtain h where h: "clean_protocols md5hex visit 0 retain (ac_sgHelper ac) (map addr_String dst4) (map addr_String dst6) protocols = (h, Inr ())"
      "ac' = ac\<lparr>ac_sgHelper := h\<rparr>"
    using assms(1) by (auto simp: CleanSecurityGroup_def Map_eq split: prod.splits sum.splits)
  show "ac' = ac\<lparr>ac_sgHelper := ac_sgHelper ac'\<rparr>" using h(2) by simp
  show "all_closed P (map addr_String (dst4 @ dst6)) (ports_of retain P) (ac_sgHelper ac')" if "P \<in> set protocols"
    using clean_protocols_closes[OF h(1) assms(2-4)] that h(2) by auto
qed

lemma all_closed_opened:
  assumes "all_closed P dsts R helper" "d \<in> set dsts" "port \<notin> set R"
  shows "\<not> opened helper P d port s"
  using assms by (fastforce simp: all_closed_def closed_def opened_def lets_def)

section \<open>The whole patch\<close>

definition patch_ranges :: "AccessControl \<Rightarrow> Prefix list" where
  "patch_ranges ac = (case AggregatePrefixes (AllowedIPv4Ranges ac @ AllowedIPv6Ranges ac) of Inr r \<Rightarrow> r | Inl _ \<Rightarrow> [])"

definition service_keys :: "AccessControl \<Rightarrow> rule_key set" where
  "service_keys ac =
     patch_keys (ac_portsByProtocol ac) (patch_tags ac) (fam True (patch_ranges ac)) (fam False (patch_ranges ac))"

text \<open>The sources a service admits: its tags, and the ranges of the family of the destination.\<close>

definition admits :: "AccessControl \<Rightarrow> Addr list \<Rightarrow> Addr list \<Rightarrow> string \<Rightarrow> string \<Rightarrow> bool" where
  "admits ac dst4 dst6 d s \<longleftrightarrow>
     d \<in> addr_String ` set dst4 \<and> (s \<in> set (patch_tags ac) \<or> s \<in> prefix_String ` set (fam True (patch_ranges ac))) \<or>
     d \<in> addr_String ` set dst6 \<and> (s \<in> set (patch_tags ac) \<or> s \<in> prefix_String ` set (fam False (patch_ranges ac)))"

lemma PatchSecurityGroup_steps:
  assumes "PatchSecurityGroup md5hex ac dst4 dst6 = (ac', Inr ())"
  obtains h1 where
    "patch_protocols md5hex (ac_portsByProtocol ac) (ac_sgHelper ac) (patch_tags ac)
       (fam True (patch_ranges ac)) (fam False (patch_ranges ac)) dst4 dst6 protocols = (h1, Inr ())"
    "\<not> DenyAllExceptSourceRanges ac \<Longrightarrow> ac_sgHelper ac' = h1"
    "DenyAllExceptSourceRanges ac \<Longrightarrow>
       \<exists>h2. deny_family AddDenyAllIPv4 h1 dst4 = (h2, Inr ()) \<and> deny_family AddDenyAllIPv6 h2 dst6 = (ac_sgHelper ac', Inr ())"
proof -
  let ?h = "ac_sgHelper ac'"
  have p: "patch_helper md5hex ac dst4 dst6 = (?h, Inr ())"
    using assms(1) by (auto simp: PatchSecurityGroup_def split: prod.splits)
  then obtain ranges where r: "AggregatePrefixes (AllowedIPv4Ranges ac @ AllowedIPv6Ranges ac) = Inr ranges"
    by (auto simp: patch_helper_def split: sum.splits)
  then have pr: "patch_ranges ac = ranges" by (simp add: patch_ranges_def)
  have g: "GroupPrefixesByFamily ranges = (fam True ranges, fam False ranges)"
    by (simp add: GroupPrefixesByFamily_eq fam_def)
  obtain h1 r1 where h0: "patch_protocols md5hex (ac_portsByProtocol ac) (ac_sgHelper ac) (patch_tags ac)
        (fam True ranges) (fam False ranges) dst4 dst6 protocols = (h1, r1)" by fastforce
  have r1: "r1 = Inr ()" using p by (cases r1) (simp_all add: patch_helper_def r g h0)
  have d: "(if DenyAllExceptSourceRanges ac
        then (case deny_family AddDenyAllIPv4 h1 dst4 of (h2, Inl e) \<Rightarrow> (h2, Inl e) | (h2, Inr _) \<Rightarrow> deny_family AddDenyAllIPv6 h2 dst6)
        else (h1, Inr ())) = (?h, Inr ())"
    using p h0 r1 by (simp add: patch_helper_def r g)
  obtain h2 r2 where h2: "deny_family AddDenyAllIPv4 h1 dst4 = (h2, r2)" by fastforce
  show ?thesis
  proof (rule that[of h1])
    show "patch_protocols md5hex (ac_portsByProtocol ac) (ac_sgHelper ac) (patch_tags ac)
       (fam True (patch_ranges ac)) (fam False (patch_ranges ac)) dst4 dst6 protocols = (h1, Inr ())"
      using h0 r1 pr by simp
    show "ac_sgHelper ac' = h1" if "\<not> DenyAllExceptSourceRanges ac" using d that by simp
    show "\<exists>h2. deny_family AddDenyAllIPv4 h1 dst4 = (h2, Inr ()) \<and> deny_family AddDenyAllIPv6 h2 dst6 = (?h, Inr ())"
      if "DenyAllExceptSourceRanges ac" using d that h2 by (cases r2) simp_all
  qed
qed

lemma PatchSecurityGroup_denies:
  assumes "PatchSecurityGroup md5hex ac dst4 dst6 = (ac', Inr ())" "DenyAllExceptSourceRanges ac" "a \<in> set (dst4 @ dst6)"
  shows "denied (ac_sgHelper ac') a"
proof -
  obtain h1 h2 where "deny_family AddDenyAllIPv4 h1 dst4 = (h2, Inr ())"
      "deny_family AddDenyAllIPv6 h2 dst6 = (ac_sgHelper ac', Inr ())"
    using PatchSecurityGroup_steps[OF assms(1)] assms(2) by metis
  then show ?thesis using deny_family_denies assms(3) by (metis Un_iff set_append)
qed

lemma PatchSecurityGroup_opens:
  assumes "PatchSecurityGroup md5hex ac dst4 dst6 = (ac', Inr ())"
    "keys_apart md5hex (service_keys ac)" "keys_ok md5hex (service_keys ac) (ac_sgHelper ac)"
    "\<forall>P ports. map_of (ac_portsByProtocol ac) P = Some ports \<longrightarrow> ports_ok ports"
  shows "opens (ac_sgHelper ac) (ac_sgHelper ac')
      (\<lambda>P d port s. P \<in> set protocols \<and> port \<in> set (ports_of (ac_portsByProtocol ac) P) \<and> admits ac dst4 dst6 d s)"
proof -
  obtain h1 where h1: "patch_protocols md5hex (ac_portsByProtocol ac) (ac_sgHelper ac) (patch_tags ac)
       (fam True (patch_ranges ac)) (fam False (patch_ranges ac)) dst4 dst6 protocols = (h1, Inr ())"
    "\<not> DenyAllExceptSourceRanges ac \<Longrightarrow> ac_sgHelper ac' = h1"
    "DenyAllExceptSourceRanges ac \<Longrightarrow>
       \<exists>h2. deny_family AddDenyAllIPv4 h1 dst4 = (h2, Inr ()) \<and> deny_family AddDenyAllIPv6 h2 dst6 = (ac_sgHelper ac', Inr ())"
    using PatchSecurityGroup_steps[OF assms(1)] by blast
  have A: "keys_ok md5hex (service_keys ac) h1 \<and> opens (ac_sgHelper ac) h1
      (\<lambda>P d port s. P \<in> set protocols \<and> port \<in> set (ports_of (ac_portsByProtocol ac) P) \<and> admits ac dst4 dst6 d s)"
    using patch_protocols_opens[OF h1(1) assms(2,3) _ _ assms(4)] by (simp add: service_keys_def admits_def)
  then have ok: "deny_ok h1" by (simp add: keys_ok_def)
  have "opens h1 (ac_sgHelper ac') (\<lambda>P d port s. False)"
  proof (cases "DenyAllExceptSourceRanges ac")
    case True
    then obtain h2 where h2: "deny_family AddDenyAllIPv4 h1 dst4 = (h2, Inr ())"
        "deny_family AddDenyAllIPv6 h2 dst6 = (ac_sgHelper ac', Inr ())" using h1(3) by blast
    note D = deny_family_opens[OF h2(1) ok]
    show ?thesis using D deny_family_opens[OF h2(2) conjunct1[OF D]] by (auto simp: opens_def)
  qed (use h1(2) in \<open>simp add: opens_def\<close>)
  then show ?thesis using A by (auto simp: opens_def)
qed

end
