(* ===== verification/ReconcileProperties.thy ===== *)
theory ReconcileProperties
  imports ReconcileSecurityGroup AccessControlProperties
begin

text \<open>
  What a service can rely on after its security group was reconciled, from its annotations down to the rules: exactly the
  sources it lists reach exactly its ports, an invalid range closes instead of opening, and where cleaning takes away a
  deny rule that another service still needs.
\<close>

section \<open>The configuration of a service\<close>

lemma NewAccessControl_fields:
  assumes "NewAccessControl svc (Some sg) = (events, Inr ac)"
  shows "NewSecurityGroupHelper (Some sg) = Inr (ac_sgHelper ac)" "ac_svc ac = svc"
    "ac_SourceRanges ac = fst (SourceRanges svc)" "ac_AllowedIPRanges ac = fst (AllowedIPRanges svc)"
    "ac_AllowedServiceTags ac = AllowedServiceTags svc"
    "ac_invalidRanges ac = fst (snd (SourceRanges svc)) @ fst (snd (AllowedIPRanges svc))"
    "SecurityRuleDestinationPortsByProtocol svc = Inr (ac_portsByProtocol ac)"
    "snd (snd (SourceRanges svc)) \<noteq> [] \<Longrightarrow> InvalidSourceRanges (fst (snd (SourceRanges svc))) \<in> set events"
    "snd (snd (AllowedIPRanges svc)) \<noteq> [] \<Longrightarrow> InvalidAllowedIPRanges (fst (snd (AllowedIPRanges svc))) \<in> set events"
proof -
  obtain helper where h: "NewSecurityGroupHelper (Some sg) = Inr helper"
    using assms by (auto simp: NewAccessControl_def split: sum.splits)
  obtain v1 i1 e1 where s: "SourceRanges svc = (v1, i1, e1)" by (cases "SourceRanges svc") auto
  obtain v2 i2 e2 where a: "AllowedIPRanges svc = (v2, i2, e2)" by (cases "AllowedIPRanges svc") auto
  obtain pm where pm: "SecurityRuleDestinationPortsByProtocol svc = Inr pm"
    using assms h s a by (auto simp: NewAccessControl_def Let_def split: sum.splits)
  have n: "\<not> (v1 \<noteq> [] \<and> v2 \<noteq> [])" using assms by (auto simp: NewAccessControl_def h s a pm Let_def split: if_splits)
  note E = assms[unfolded NewAccessControl_def option.case h sum.case s a pm Let_def prod.case if_not_P[OF n]]
  show "NewSecurityGroupHelper (Some sg) = Inr (ac_sgHelper ac)" "ac_svc ac = svc"
    "ac_SourceRanges ac = fst (SourceRanges svc)" "ac_AllowedIPRanges ac = fst (AllowedIPRanges svc)"
    "ac_AllowedServiceTags ac = AllowedServiceTags svc"
    "ac_invalidRanges ac = fst (snd (SourceRanges svc)) @ fst (snd (AllowedIPRanges svc))"
    "SecurityRuleDestinationPortsByProtocol svc = Inr (ac_portsByProtocol ac)"
    "snd (snd (SourceRanges svc)) \<noteq> [] \<Longrightarrow> InvalidSourceRanges (fst (snd (SourceRanges svc))) \<in> set events"
    "snd (snd (AllowedIPRanges svc)) \<noteq> [] \<Longrightarrow> InvalidAllowedIPRanges (fst (snd (AllowedIPRanges svc))) \<in> set events"
    using E h s a pm by auto
qed

lemma parse_ranges_result:
  "parse_ranges rs = (v, i, e) \<Longrightarrow>
     all_ok v \<and> (i = [] \<longleftrightarrow> e = []) \<and> (\<forall>r \<in> set rs. (\<exists>x. ParsePrefix (TrimSpace r) = Inl x) \<longrightarrow> TrimSpace r \<in> set i)"
proof (induction rs arbitrary: v i e)
  case (Cons r rs)
  obtain v' i' e' where p: "parse_ranges rs = (v', i', e')" by (cases "parse_ranges rs") auto
  note IH = Cons.IH[OF p]
  show ?case
  proof (cases "ParsePrefix (TrimSpace r)")
    case (Inl x)
    then show ?thesis using Cons.prems p IH by auto
  next
    case (Inr q)
    then show ?thesis using Cons.prems p IH ParsePrefix_ok[OF Inr] by (auto simp: all_ok_def)
  qed
qed (simp add: all_ok_def)

lemma ranges_by_key_result:
  "ranges_by_key svc keys = (v, i, e) \<Longrightarrow>
     all_ok v \<and> (i = [] \<longleftrightarrow> e = []) \<and>
     (\<forall>key \<in> set keys. \<forall>val. map_of (svc_Annotations svc) key = Some val \<longrightarrow>
        (\<forall>r \<in> set (Split (TrimSpace val) '',''). (\<exists>x. ParsePrefix (TrimSpace r) = Inl x) \<longrightarrow> TrimSpace r \<in> set i))"
proof (induction keys arbitrary: v i e)
  case (Cons key keys)
  obtain v' i' e' where p: "ranges_by_key svc keys = (v', i', e')" by (cases "ranges_by_key svc keys") auto
  note IH = Cons.IH[OF p]
  show ?case
  proof (cases "map_of (svc_Annotations svc) key")
    case None
    then show ?thesis using Cons.prems p IH by auto
  next
    case (Some val)
    obtain a b c where q: "parse_ranges (Split (TrimSpace val) '','') = (a, b, c)"
      by (cases "parse_ranges (Split (TrimSpace val) '','')") auto
    note R = parse_ranges_result[OF q]
    have "v = a @ v'" "i = b @ i'" "e = [] \<longleftrightarrow> c = [] \<and> e' = []" using Cons.prems p Some q by (auto split: if_splits)
    then show ?thesis using IH R Some by (auto simp: all_ok_def)
  qed
qed (simp add: all_ok_def)

text \<open>The range strings a service configures, in its specification and in both annotations.\<close>

definition configured_ranges :: "Service \<Rightarrow> string set" where
  "configured_ranges svc =
     set (svc_LoadBalancerSourceRanges svc) \<union>
     (\<Union>key \<in> {ServiceAnnotationAllowedIPRanges, AnnotationLoadBalancerSourceRangesKey}.
        \<Union>val \<in> Option.set_option (map_of (svc_Annotations svc) key). set (Split (TrimSpace val) '',''))"

lemma ranges_ok:
  shows "all_ok (fst (SourceRanges svc))" "all_ok (fst (AllowedIPRanges svc))"
    "fst (snd (SourceRanges svc)) = [] \<longleftrightarrow> snd (snd (SourceRanges svc)) = []"
    "fst (snd (AllowedIPRanges svc)) = [] \<longleftrightarrow> snd (snd (AllowedIPRanges svc)) = []"
    "r \<in> configured_ranges svc \<Longrightarrow> ParsePrefix (TrimSpace r) = Inl x \<Longrightarrow>
       TrimSpace r \<in> set (fst (snd (SourceRanges svc))) \<or> TrimSpace r \<in> set (fst (snd (AllowedIPRanges svc)))"
proof -
  obtain v1 i1 e1 where s: "SourceRanges svc = (v1, i1, e1)" by (cases "SourceRanges svc") auto
  obtain v2 i2 e2 where a: "AllowedIPRanges svc = (v2, i2, e2)" by (cases "AllowedIPRanges svc") auto
  note S = parse_ranges_result[OF s[unfolded SourceRanges_def]] and A = ranges_by_key_result[OF a[unfolded AllowedIPRanges_def]]
  show "all_ok (fst (SourceRanges svc))" "all_ok (fst (AllowedIPRanges svc))"
    "fst (snd (SourceRanges svc)) = [] \<longleftrightarrow> snd (snd (SourceRanges svc)) = []"
    "fst (snd (AllowedIPRanges svc)) = [] \<longleftrightarrow> snd (snd (AllowedIPRanges svc)) = []"
    using S A by (auto simp: s a)
  show "TrimSpace r \<in> set (fst (snd (SourceRanges svc))) \<or> TrimSpace r \<in> set (fst (snd (AllowedIPRanges svc)))"
    if "r \<in> configured_ranges svc" "ParsePrefix (TrimSpace r) = Inl x"
    using that S A by (auto simp: configured_ranges_def s a)
qed

section \<open>Ports\<close>

definition valid_ports :: "Service \<Rightarrow> bool" where
  "valid_ports svc \<longleftrightarrow>
     (\<forall>p \<in> set (svc_Ports svc). 0 \<le> sp_Port p \<and> sp_Port p \<le> 65535 \<and> 0 \<le> sp_NodePort p \<and> sp_NodePort p \<le> 65535)"

lemma ports_by_protocol_ok:
  assumes "ports_by_protocol svc ports rv = Inr rv'"
    "\<forall>p \<in> set ports. 0 \<le> sp_Port p \<and> sp_Port p \<le> 65535 \<and> 0 \<le> sp_NodePort p \<and> sp_NodePort p \<le> 65535"
    "\<forall>P. ports_ok (ports_of rv P) \<and> (ports_of rv P \<noteq> [] \<longrightarrow> P \<in> set protocols)"
  shows "\<forall>P. ports_ok (ports_of rv' P) \<and> (ports_of rv' P \<noteq> [] \<longrightarrow> P \<in> set protocols)"
  using assms
proof (induction ports arbitrary: rv)
  case (Cons p ports)
  obtain P where P: "ProtocolFromKubernetes (sp_Protocol p) = Some P"
    using Cons.prems(1) by (auto split: option.splits)
  define q where "q = (if IsK8sServiceDisableLoadBalancerFloatingIP svc then sp_NodePort p else sp_Port p)"
  have "P \<in> set protocols" using P by (auto simp: ProtocolFromKubernetes_def protocols_def split: if_splits)
  moreover have "ports_ok (ports_of rv P @ [q])" using Cons.prems(2,3) by (auto simp: ports_ok_def q_def)
  ultimately have "\<forall>Q. ports_ok (ports_of (put P (ports_of rv P @ [q]) rv) Q) \<and>
      (ports_of (put P (ports_of rv P @ [q]) rv) Q \<noteq> [] \<longrightarrow> Q \<in> set protocols)"
    using Cons.prems(3) by (simp add: ports_of_def)
  moreover have "ports_by_protocol svc ports (put P (ports_of rv P @ [q]) rv) = Inr rv'"
    using Cons.prems(1) P by (simp add: Let_def q_def)
  ultimately show ?case using Cons.IH Cons.prems(2) by simp
qed simp

lemma service_ports_ok:
  assumes "SecurityRuleDestinationPortsByProtocol svc = Inr pm" "valid_ports svc"
  shows "map_of pm P = Some ports \<Longrightarrow> ports_ok ports" "port \<in> set (ports_of pm P) \<Longrightarrow> P \<in> set protocols"
proof -
  have "\<forall>P. ports_ok (ports_of pm P) \<and> (ports_of pm P \<noteq> [] \<longrightarrow> P \<in> set protocols)"
  proof (rule ports_by_protocol_ok)
    show "ports_by_protocol svc (svc_Ports svc) [] = Inr pm" using assms(1) by (simp add: SecurityRuleDestinationPortsByProtocol_def)
    show "\<forall>p \<in> set (svc_Ports svc). 0 \<le> sp_Port p \<and> sp_Port p \<le> 65535 \<and> 0 \<le> sp_NodePort p \<and> sp_NodePort p \<le> 65535"
      using assms(2) by (simp add: valid_ports_def)
  qed (simp add: ports_of_def ports_ok_def)
  then have P: "ports_ok (ports_of pm P)" "ports_of pm P \<noteq> [] \<longrightarrow> P \<in> set protocols" by blast+
  show "ports_ok ports" if "map_of pm P = Some ports" using P(1) that by (simp add: ports_of_def)
  show "P \<in> set protocols" if "port \<in> set (ports_of pm P)" using P(2) that by (cases "ports_of pm P") auto
qed

section \<open>From the rules to the group\<close>

lemma set_map_filter: "set (List.map_filter f xs) = {y. \<exists>x \<in> set xs. f x = Some y}"
  by (induction xs) (auto split: option.splits)

lemma helper_SecurityGroup_lets:
  assumes "helper_SecurityGroup helper visit = Inr (rv, updated)" "fst ` set (rh_rules helper) \<subseteq> set visit"
  shows "(\<exists>rule \<in> set (deref (sg_SecurityRules rv) []). lets rule P d port s) \<longleftrightarrow> opened helper P d port s"
proof -
  let ?v = "List.map_filter (map_of (rh_rules helper)) visit"
  have rules: "sg_SecurityRules rv = Some (makeSecurityGroupSnapshot
      (filter (\<lambda>r. \<not> (ListDestinationPrefixes r = [] \<and> sr_DestinationASGs r = [])) ?v))"
    using assms(1) by (auto simp: helper_SecurityGroup_def Let_def split: if_splits)
  have "n \<in> set visit" if "map_of (rh_rules helper) n = Some rule" for n rule
    using map_of_SomeD[OF that] assms(2) by (metis fst_conv image_subset_iff)
  then have "rule \<in> set ?v \<longleftrightarrow> (\<exists>n. map_of (rh_rules helper) n = Some rule)" for rule
    unfolding set_map_filter by blast
  moreover have "lets rule P d port s \<Longrightarrow> ListDestinationPrefixes rule \<noteq> []" for rule
    by (auto simp: lets_def rule_allows_def)
  ultimately show ?thesis by (auto simp: rules makeSecurityGroupSnapshot_def opened_def)
qed

lemma sgHelper_irrelevant [simp]:
  "patch_tags (ac\<lparr>ac_sgHelper := h\<rparr>) = patch_tags ac" "patch_ranges (ac\<lparr>ac_sgHelper := h\<rparr>) = patch_ranges ac"
  "service_keys (ac\<lparr>ac_sgHelper := h\<rparr>) = service_keys ac" "admits (ac\<lparr>ac_sgHelper := h\<rparr>) = admits ac"
  by (simp_all add: patch_tags_def IsAllowFromInternet_def patch_ranges_def AllowedIPv4Ranges_def AllowedIPv6Ranges_def
      service_keys_def admits_def fun_eq_iff)

lemma patch_ranges_addrs:
  assumes "all_ok (ac_SourceRanges ac)" "all_ok (ac_AllowedIPRanges ac)"
  shows "addrs (patch_ranges ac) = addrs (ac_SourceRanges ac @ ac_AllowedIPRanges ac)"
proof -
  let ?r = "AllowedIPv4Ranges ac @ AllowedIPv6Ranges ac"
  have "Is4 a \<or> Is6 a" for a by (cases a) auto
  then have s: "set ?r = set (ac_SourceRanges ac @ ac_AllowedIPRanges ac)"
    by (auto simp: AllowedIPv4Ranges_def AllowedIPv6Ranges_def)
  then have ok: "all_ok ?r" using assms by (auto simp: all_ok_def)
  then obtain rv where rv: "AggregatePrefixes ?r = Inr rv" using agg.returns by blast
  then have "addrs (patch_ranges ac) = addrs ?r" using agg.keeps[OF ok rv] by (simp add: patch_ranges_def)
  also have "\<dots> = addrs (ac_SourceRanges ac @ ac_AllowedIPRanges ac)" unfolding addrs_def s ..
  finally show ?thesis .
qed

lemma apply_access_exact:
  assumes "apply_access az md5hex visit env ac retain dst4 dst6 wantLb w = (w', Inr rv)"
    "CleanSecurityGroup md5hex visit ac dst4 dst6 retain = (ac1, Inr ())"
    "visits_all visit" "retain_ok retain" "generated_ok md5hex (ac_sgHelper ac)"
    "keys_apart md5hex (service_keys ac)" "keys_ok md5hex (service_keys ac) (ac_sgHelper ac1)"
    "\<forall>P ports. map_of (ac_portsByProtocol ac) P = Some ports \<longrightarrow> ports_ok ports"
    "P \<in> set protocols" "d \<in> set (map addr_String (dst4 @ dst6))" "port \<notin> set (ports_of retain P)"
  shows "(\<exists>rule \<in> set (deref (sg_SecurityRules rv) []). lets rule P d port s) \<longleftrightarrow>
     wantLb \<and> port \<in> set (ports_of (ac_portsByProtocol ac) P) \<and> admits ac dst4 dst6 d s"
proof -
  note C = CleanSecurityGroup_closes[OF assms(2,5,3,4)]
  have closed: "\<not> opened (ac_sgHelper ac1) P d port s" using all_closed_opened[OF C(1)[OF assms(9)] assms(10,11)] .
  obtain ac2 r2 where p: "(if wantLb then PatchSecurityGroup md5hex ac1 dst4 dst6 else (ac1, Inr ())) = (ac2, r2)" by fastforce
  have r2: "r2 = Inr ()" using assms(1,2) p by (cases r2) (auto simp: apply_access_def)
  obtain rv0 u where g: "helper_SecurityGroup (ac_sgHelper ac2) (visit 6 (rh_rules (ac_sgHelper ac2))) = Inr (rv0, u)"
    using assms(1,2) p r2 by (auto simp: apply_access_def ac_SecurityGroup_def split: sum.splits)
  have "sg_SecurityRules rv = sg_SecurityRules (fst (ensureSecurityGroupTagged az rv0))"
    using assms(1,2) p r2 g by (auto simp: apply_access_def ac_SecurityGroup_def Let_def split: prod.splits if_splits option.splits)
  then have rules: "sg_SecurityRules rv = sg_SecurityRules rv0"
    by (auto simp: ensureSecurityGroupTagged_def Let_def split: if_splits prod.splits)
  have "fst ` set (rh_rules (ac_sgHelper ac2)) \<subseteq> set (visit 6 (rh_rules (ac_sgHelper ac2)))"
    using assms(3) by (simp add: visits_all_def)
  note L = helper_SecurityGroup_lets[OF g this]
  have "opened (ac_sgHelper ac2) P d port s \<longleftrightarrow>
      wantLb \<and> port \<in> set (ports_of (ac_portsByProtocol ac) P) \<and> admits ac dst4 dst6 d s"
  proof (cases wantLb)
    case True
    then have "PatchSecurityGroup md5hex ac1 dst4 dst6 = (ac2, Inr ())" using p r2 by simp
    moreover obtain h where h: "ac1 = ac\<lparr>ac_sgHelper := h\<rparr>" using C(2) by blast
    ultimately show ?thesis
      using PatchSecurityGroup_opens[of md5hex ac1 dst4 dst6 ac2] assms(6-9) closed True by (simp add: opens_def)
  qed (use p closed in simp)
  then show ?thesis using L rules by simp
qed



section \<open>Losing a deny rule\<close>

text \<open>What one turn of cleaning can do to the map of rules.\<close>

lemma removeDestinationFromRule_map:
  assumes "removeDestinationFromRule md5hex helper name rule ds retain = (helper', res)" "\<not> is_panic res"
    "rule' = SetDestinationPrefixes rule (SubtractedBy (IndexSet ds) (ListDestinationPrefixes rule))"
  shows "helper' = helper \<and> \<not> (sr_Access rule = Some ''Deny'' \<and> retain = []) \<or> helper' = set_rule helper name rule' \<or>
    (\<exists>protocol family src ports. addAllowRule md5hex (set_rule helper name rule') protocol family src ds ports = (helper', res) \<and>
       \<not> (sr_Access rule = Some ''Deny'' \<and> retain = []))"
proof -
  obtain access protocol where a: "sr_Access rule = Some access" "sr_Protocol rule = Some protocol"
    using assms(1,2) by (cases "sr_Access rule"; cases "sr_Protocol rule") (auto simp: removeDestinationFromRule_def Let_def is_panic_def)
  show ?thesis
    using assms(1) a unfolding removeDestinationFromRule_def Let_def option.case prod.case assms(3)[symmetric]
    by (auto split: if_splits list.splits option.splits sum.splits)
qed

definition is_deny :: "SecurityRule \<Rightarrow> bool" where
  "is_deny rule \<longleftrightarrow> sr_Access rule = Some ''Deny'' \<and> sr_Protocol rule = Some ''*'' \<and> managed rule"

text \<open>A deny rule stays a deny rule and never gains a destination.\<close>

definition deny_within :: "string \<Rightarrow> string set \<Rightarrow> RuleHelper \<Rightarrow> bool" where
  "deny_within n D helper \<longleftrightarrow>
     (\<exists>rule. map_of (rh_rules helper) n = Some rule \<and> is_deny rule \<and> set (ListDestinationPrefixes rule) \<subseteq> D)"

lemma remove_from_rule_deny:
  assumes "remove_from_rule md5hex protocol ds retain helper name = (helper', r)" "\<not> is_panic r"
    "n = GenerateDenyAllSecurityRuleName f" "deny_within n D helper"
  shows "deny_within n D helper'"
    "name = n \<Longrightarrow> protocol = ''*'' \<Longrightarrow> retain = [] \<Longrightarrow> deny_within n (D - set ds) helper'"
proof -
  obtain dr where dr: "map_of (rh_rules helper) n = Some dr" "is_deny dr" "set (ListDestinationPrefixes dr) \<subseteq> D"
    using assms(4) by (auto simp: deny_within_def)
  define dr' where "dr' = SetDestinationPrefixes dr (SubtractedBy (IndexSet ds) (ListDestinationPrefixes dr))"
  have dr': "is_deny dr'" "set (ListDestinationPrefixes dr') \<subseteq> D - set ds"
    using dr(2,3) by (auto simp: dr'_def is_deny_def managed_def Dest_SetDestinationPrefixes SubtractedBy_IndexSet)
  have other: "map_of (rh_rules h') n = map_of (rh_rules h) n"
    if "addAllowRule md5hex h p fam src d ports = (h', r)" for h h' p fam src d ports
  proof (cases r)
    case (Inl e)
    then show ?thesis using addAllowRule_effect(1)[OF that] by simp
  next
    case (Inr u)
    then show ?thesis using addAllowRule_effect(2)[OF that] assms(3) deny_name_ne by auto
  qed
  have "(map_of (rh_rules helper') n = Some dr \<and> \<not> (name = n \<and> protocol = ''*'' \<and> retain = [])) \<or> map_of (rh_rules helper') n = Some dr'"
  proof (cases "\<exists>rule. map_of (rh_rules helper) name = Some rule \<and> removeDestinationFromRule md5hex helper name rule ds retain = (helper', r)")
    case True
    then obtain rule where rule: "map_of (rh_rules helper) name = Some rule"
        "removeDestinationFromRule md5hex helper name rule ds retain = (helper', r)" by blast
    have "name = n \<longrightarrow> rule = dr" using rule(1) dr(1) by auto
    then show ?thesis
      using removeDestinationFromRule_map[OF rule(2) assms(2) refl] dr(1,2) other
      by (cases "name = n") (auto simp: set_rule_def is_deny_def dr'_def)
  next
    case False
    then have "helper' = helper"
      using assms(1,2) by (auto simp: remove_from_rule_def is_panic_def split: option.splits if_splits)
    moreover have "\<not> (name = n \<and> protocol = ''*'')"
    proof
      assume "name = n \<and> protocol = ''*''"
      then have "remove_from_rule md5hex protocol ds retain helper name = removeDestinationFromRule md5hex helper name dr ds retain"
        using dr(1,2) by (auto simp: remove_from_rule_def is_deny_def managed_def)
      then show False using False assms(1) dr(1) \<open>name = n \<and> protocol = ''*''\<close> by auto
    qed
    ultimately show ?thesis using dr(1) by auto
  qed
  then show "deny_within n D helper'" "name = n \<Longrightarrow> protocol = ''*'' \<Longrightarrow> retain = [] \<Longrightarrow> deny_within n (D - set ds) helper'"
    using dr dr' by (auto simp: deny_within_def)
qed

lemma remove_visits_deny:
  assumes "RemoveDestinationFromRules md5hex visit helper protocol ds retain = (helper', Inr ())"
    "n = GenerateDenyAllSecurityRuleName f" "deny_within n D helper"
  shows "deny_within n D helper'"
    "n \<in> set visit \<Longrightarrow> protocol = ''*'' \<Longrightarrow> retain = [] \<Longrightarrow> deny_within n (D - set ds) helper'"
proof -
  have "deny_within n D helper' \<and> (n \<in> set visit \<and> protocol = ''*'' \<and> retain = [] \<longrightarrow> deny_within n (D - set ds) helper')"
    using assms(1,3)
  proof (induction visit arbitrary: helper D)
    case (Cons name visit)
    obtain h r where step: "remove_from_rule md5hex protocol ds retain helper name = (h, r)" by fastforce
    then have np: "\<not> is_panic r" using Cons.prems(1) by (auto simp: is_panic_def split: if_splits)
    have rest: "RemoveDestinationFromRules md5hex visit h protocol ds retain = (helper', Inr ())" using Cons.prems(1) step np by simp
    note S = remove_from_rule_deny[OF step np assms(2) Cons.prems(2)]
    have "deny_within n (D - set ds) helper'" if "name = n" "protocol = ''*''" "retain = []"
      using Cons.IH[OF rest S(2)[OF that]] by (simp add: Diff_idemp)
    then show ?case using Cons.IH[OF rest S(1)] by auto
  qed simp
  then show "deny_within n D helper'" "n \<in> set visit \<Longrightarrow> protocol = ''*'' \<Longrightarrow> retain = [] \<Longrightarrow> deny_within n (D - set ds) helper'"
    by blast+
qed

lemma visits_all_mem: "visits_all visit \<Longrightarrow> deny_within n D helper \<Longrightarrow> n \<in> set (visit i (rh_rules helper))"
  by (force simp: visits_all_def deny_within_def dest: map_of_SomeD)

text \<open>C18. Cleaning takes away the deny rule of another service. The retained ports are kept by protocol and the deny rules
  have protocol \<open>*\<close>, which only SCTP ports share. So when other services keep TCP or UDP ports of a shared address but no
  SCTP port, cleaning removes the address from the rule that denies everything else, and the other services are open to
  the virtual network until they are reconciled themselves.\<close>

theorem CleanSecurityGroup_drops_deny_all:
  assumes "CleanSecurityGroup md5hex visit ac dst4 dst6 retain = (ac', Inr ())" "visits_all visit"
    "ports_of retain ''*'' = []" "a \<in> set (dst4 @ dst6)"
    "map_of (rh_rules (ac_sgHelper ac)) (GenerateDenyAllSecurityRuleName (FamilyOfAddr a)) = Some rule"
    "sr_Access rule = Some ''Deny''" "sr_Protocol rule = Some ''*''" "managed rule"
  shows "\<not> denied (ac_sgHelper ac') a"
proof -
  let ?n = "GenerateDenyAllSecurityRuleName (FamilyOfAddr a)" and ?v4 = "map addr_String dst4" and ?v6 = "map addr_String dst6"
  have ok: "snd (clean_protocols md5hex visit 0 retain (ac_sgHelper ac) ?v4 ?v6 protocols) = Inr ()"
      "fst (clean_protocols md5hex visit 0 retain (ac_sgHelper ac) ?v4 ?v6 protocols) = ac_sgHelper ac'"
    using assms(1) by (auto simp: CleanSecurityGroup_def Map_eq split: prod.splits sum.splits)
  have "deny_within ?n UNIV (ac_sgHelper ac)" using assms(5-8) by (auto simp: deny_within_def is_deny_def)
  have step: "deny_within ?n (D - (if protocol = ''*'' then set ds else {})) h'"
    if "RemoveDestinationFromRules md5hex (visit i (rh_rules h)) h protocol ds (ports_of retain protocol) = (h', Inr ())"
      "deny_within ?n D h" for i h h' protocol ds D
    using remove_visits_deny[OF that(1) refl that(2)] visits_all_mem[OF assms(2) that(2)] assms(3) by auto
  have loop: "deny_within ?n (D - (if ''*'' \<in> set ps then set ?v4 \<union> set ?v6 else {})) h'"
    if "clean_protocols md5hex visit i retain h ?v4 ?v6 ps = (h', Inr ())" "deny_within ?n D h" for i h h' ps D
    using that
  proof (induction ps arbitrary: i h D)
    case (Cons p ps)
    obtain h1 h2 where h: "RemoveDestinationFromRules md5hex (visit i (rh_rules h)) h p ?v4 (ports_of retain p) = (h1, Inr ())"
        "RemoveDestinationFromRules md5hex (visit (i + 1) (rh_rules h1)) h1 p ?v6 (ports_of retain p) = (h2, Inr ())"
        "clean_protocols md5hex visit (i + 2) retain h2 ?v4 ?v6 ps = (h', Inr ())"
      using Cons.prems(1) by (auto simp: Let_def split: prod.splits sum.splits)
    have "deny_within ?n (D - (if p = ''*'' then set ?v4 else {}) - (if p = ''*'' then set ?v6 else {})
        - (if ''*'' \<in> set ps then set ?v4 \<union> set ?v6 else {})) h'"
      by (rule Cons.IH[OF h(3) step[OF h(2) step[OF h(1) Cons.prems(2)]]])
    then show ?case by (rule back_subst[of "\<lambda>D. deny_within ?n D h'"]) auto
  qed simp
  have "deny_within ?n (UNIV - (set ?v4 \<union> set ?v6)) (ac_sgHelper ac')"
    using loop[of 0 "ac_sgHelper ac" protocols "ac_sgHelper ac'" UNIV] ok \<open>deny_within ?n UNIV (ac_sgHelper ac)\<close>
    by (cases "clean_protocols md5hex visit 0 retain (ac_sgHelper ac) ?v4 ?v6 protocols") (auto simp: protocols_def)
  then show ?thesis using assms(4) by (auto simp: deny_within_def denied_def)
qed

section \<open>A service with one address and one port\<close>

definition ex_service :: "string list \<Rightarrow> Service" where
  "ex_service ranges =
     \<lparr>svc_Namespace = ''default'', svc_Name = ''web'', svc_UID = ''1'', svc_Annotations = [],
      svc_Ports = [\<lparr>sp_Name = ''http'', sp_Protocol = ''TCP'', sp_AppProtocol = None, sp_Port = 80, sp_NodePort = 81\<rparr>],
      svc_LoadBalancerSourceRanges = ranges, svc_ExternalTrafficPolicy = ''Cluster'', svc_HealthCheckNodePort = 0,
      svc_IPFamilies = [''IPv4''], svc_LoadBalancerIP = [], svc_Ingress = [],
      svc_Type = ''LoadBalancer'', svc_SessionAffinity = ''None''\<rparr>"

definition ex_nsg :: "SecurityRule list \<Rightarrow> SecurityGroup" where
  "ex_nsg rules = \<lparr>sg_Name = Some ''nsg'', sg_SecurityRules = Some rules, sg_Tags = None\<rparr>"

definition ex_env :: "unit rsg_env" where
  "ex_env = \<lparr>env_GetSecurityGroup = Inr (ex_nsg []), env_getAzureLoadBalancer = Inr True, env_GetBackendPrivateIPs = ([], []),
     env_services = Some [], env_CreateOrUpdateSecurityGroup = (\<lambda>w sg. (w, None))\<rparr>"

definition ex_visit :: visits where
  "ex_visit i m = map fst m"

definition ex_az :: Config where
  "ex_az = \<lparr>cfg_Tags = [], cfg_TagsMap = [], cfg_SystemTags = []\<rparr>"

definition ex_access :: AccessControl where
  "ex_access = projr (snd (NewAccessControl (ex_service []) (Some (ex_nsg []))))"

lemma not_isl: "\<not> isl x \<Longrightarrow> \<exists>v. x = Inr v"
  by (cases x) auto

lemma ex_visits: "visits_all ex_visit"
  by (simp add: visits_all_def ex_visit_def)

lemma ex_access_new: "NewAccessControl (ex_service []) (Some (ex_nsg [])) = ([], Inr ex_access)"
proof -
  have "fst (NewAccessControl (ex_service []) (Some (ex_nsg []))) = []"
    "isl (snd (NewAccessControl (ex_service []) (Some (ex_nsg [])))) = False" by code_simp+
  then show ?thesis by (cases "NewAccessControl (ex_service []) (Some (ex_nsg []))") (auto simp: ex_access_def sum.collapse)
qed

lemma ex_access_fields:
  "patch_tags ex_access = [''Internet'']" "patch_ranges ex_access = []" "ac_portsByProtocol ex_access = [(''Tcp'', [80])]"
  "rh_rules (ac_sgHelper ex_access) = []"
  by code_simp+

lemma ex_access_keys: "keys_apart md5hex (service_keys ex_access)"
  by (auto simp: keys_apart_def service_keys_def patch_keys_def ex_access_fields fam_def split: if_splits)

lemma no_rules: "rh_rules helper = [] \<Longrightarrow> keys_ok md5hex U helper \<and> generated_ok md5hex helper"
  by (auto simp: keys_ok_def deny_ok_def generated_ok_def)



definition ex_deny :: SecurityRule where
  "ex_deny = (new_rule ''k8s-azure-lb_deny-all_IPv4'' 4095)\<lparr>sr_Access := Some ''Deny'', sr_Protocol := Some ''*'',
     sr_SourceAddressPrefix := Some ''*'', sr_DestinationAddressPrefix := Some ''10.0.0.9'', sr_DestinationPortRange := Some ''*''\<rparr>"

theorem CleanSecurityGroup_drops_deny_all_witness:
  "\<exists>ac ac'. NewAccessControl (ex_service []) (Some (ex_nsg [ex_deny])) = ([], Inr ac) \<and> denied (ac_sgHelper ac) (Addr4 0x0a000009) \<and>
     CleanSecurityGroup (\<lambda>s. s) ex_visit ac [Addr4 0x0a000009] [] [(''Tcp'', [22])] = (ac', Inr ()) \<and>
     \<not> denied (ac_sgHelper ac') (Addr4 0x0a000009)"
proof -
  let ?n = "NewAccessControl (ex_service []) (Some (ex_nsg [ex_deny]))"
  let ?c = "CleanSecurityGroup (\<lambda>s. s) ex_visit (projr (snd ?n)) [Addr4 0x0a000009] [] [(''Tcp'', [22])]"
  have "fst ?n = []" "isl (snd ?n) = False" by code_simp+
  then obtain ac where n: "?n = ([], Inr ac)" by (cases ?n) (auto dest!: not_isl)
  have "snd ?c = Inr ()" by code_simp
  then obtain ac' where c: "CleanSecurityGroup (\<lambda>s. s) ex_visit ac [Addr4 0x0a000009] [] [(''Tcp'', [22])] = (ac', Inr ())"
    using n by (cases ?c) auto
  have "rh_rules (ac_sgHelper (projr (snd ?n))) = [(''k8s-azure-lb_deny-all_IPv4'', ex_deny)]" by code_simp
  moreover have "GenerateDenyAllSecurityRuleName (FamilyOfAddr (Addr4 0x0a000009)) = ''k8s-azure-lb_deny-all_IPv4''" by code_simp
  ultimately have m: "map_of (rh_rules (ac_sgHelper ac)) (GenerateDenyAllSecurityRuleName (FamilyOfAddr (Addr4 0x0a000009))) = Some ex_deny"
    using n by simp
  have a: "dotted (be_bytes 4 (0x0a000009 :: 32 word)) = ''10.0.0.9''" by code_simp
  have "managed ex_deny"
    by (simp add: managed_def ex_deny_def new_rule_def LoadBalancerMinimumPriority_def LoadBalancerMaximumPriority_def)
  then have "\<not> denied (ac_sgHelper ac') (Addr4 0x0a000009)"
    using CleanSecurityGroup_drops_deny_all[OF c ex_visits _ _ m] by (simp add: ports_of_def ex_deny_def)
  moreover have "denied (ac_sgHelper ac) (Addr4 0x0a000009)"
    unfolding denied_def using m by (simp add: ex_deny_def new_rule_def ListDestinationPrefixes_def a)
  ultimately show ?thesis using n c by blast
qed

end
