(* ===== verification/UtilProperties.thy ===== *)
theory UtilProperties
  imports AzureUtils "HOL-Library.Multiset"
begin

text \<open>
  Properties of the utilities: comparing two lists regardless of order, and bringing the tags of a resource up to date.
\<close>

section \<open>Lists\<close>

lemma fold_count_up:
  "fold count_up xs m s = (if s \<in> set xs then Some (deref (m s) 0 + int (count (mset xs) s)) else m s)"
  by (induction xs arbitrary: m) (auto simp: count_up_def not_in_iff)

lemma count_down_iff:
  assumes "\<forall>s. 0 \<le> deref (m s) 0"
  shows "count_down ss m \<longleftrightarrow> (\<forall>s. int (count (mset ss) s) \<le> deref (m s) 0)"
  using assms
proof (induction ss arbitrary: m)
  case (Cons x ss)
  show ?case
  proof (cases "m x")
    case None
    then show ?thesis using Cons.prems by (auto intro!: exI[of _ x])
  next
    case (Some v)
    show ?thesis
    proof (cases "v \<le> 0")
      case True
      then show ?thesis using Some by (auto intro!: exI[of _ x])
    next
      case False
      let ?m = "m(x \<mapsto> v - 1)"
      have "\<forall>s. 0 \<le> deref (?m s) 0" using Cons.prems False by auto
      note IH = Cons.IH[OF this]
      have eq: "(int (count (mset ss) s) \<le> deref (?m s) 0) \<longleftrightarrow> (int (count (mset (x # ss)) s) \<le> deref (m s) 0)" for s
        using Some by auto
      have "count_down (x # ss) m = count_down ss ?m" using Some False by simp
      then show ?thesis by (simp only: IH eq)
    qed
  qed
qed simp

lemma mset_eqI_le:
  assumes "length xs = length ys" "\<forall>s. count (mset ys) s \<le> count (mset xs) s"
  shows "mset xs = mset ys"
proof -
  have "mset ys \<subseteq># mset xs" using assms(2) by (simp add: mset_subset_eqI)
  moreover have "size (mset ys) = size (mset xs)" using assms(1) by simp
  ultimately show ?thesis by (metis subset_mset.less_le mset_subset_size less_irrefl)
qed

text \<open>C24. \<open>sameContentInSlices\<close> compares two lists as multisets: it counts the elements of the first list and uses the counts up
  with the second one.\<close>

theorem sameContentInSlices_multiset:
  "sameContentInSlices s1 s2 \<longleftrightarrow> mset s1 = mset s2"
proof -
  let ?m = "fold count_up s1 Map.empty"
  have d: "deref (?m s) 0 = int (count (mset s1) s)" for s
    by (simp add: fold_count_up not_in_iff)
  then have "count_down s2 ?m \<longleftrightarrow> (\<forall>s. count (mset s2) s \<le> count (mset s1) s)"
    by (subst count_down_iff) simp_all
  then show ?thesis
    using mset_eqI_le[of s1 s2] by (auto simp: sameContentInSlices_def dest: mset_eq_length)
qed

section \<open>Tags\<close>

lemma findKey_keys: "findKeyInMapCaseInsensitive m key = find (\<lambda>k. EqualFold k key) (map fst m)"
  by (induction m key rule: findKeyInMapCaseInsensitive.induct) auto

lemma keys_put: "map fst (put k v m) = (if k \<in> fst ` set m then map fst m else map fst m @ [k])"
  by (induction m) (auto simp: put_def)

lemma find_append: "find P (xs @ ys) = (case find P xs of Some x \<Rightarrow> Some x | None \<Rightarrow> find P ys)"
  by (induction xs) auto

lemma findKey_put:
  "findKeyInMapCaseInsensitive (put k' v m) k =
     (case findKeyInMapCaseInsensitive m k of Some x \<Rightarrow> Some x
      | None \<Rightarrow> if EqualFold k' k then Some k' else None)"
proof (cases "k' \<in> fst ` set m")
  case True
  then have "find (\<lambda>x. EqualFold x k) (map fst m) = None \<Longrightarrow> \<not> EqualFold k' k" by (auto simp: find_None_iff)
  then show ?thesis using True by (auto simp: findKey_keys keys_put split: option.splits)
qed (auto simp: findKey_keys keys_put find_append split: option.splits)

lemma findKey_Some:
  assumes "findKeyInMapCaseInsensitive m k = Some key"
  shows "EqualFold key k \<and> key \<in> fst ` set m"
  using assms by (auto simp: findKey_keys find_Some_iff)

text \<open>A resource carries a tag when some spelling of its key has the value, case ignored.\<close>

definition carries :: "tags \<Rightarrow> string \<Rightarrow> string option \<Rightarrow> bool" where
  "carries m k v \<longleftrightarrow>
     (\<exists>key. findKeyInMapCaseInsensitive m k = Some key \<and> EqualFold (deref v []) (deref (deref (map_of m key) None) []))"

definition ci_distinct :: "tags \<Rightarrow> bool" where
  "ci_distinct m \<longleftrightarrow> distinct (map (\<lambda>(k, v). ToLower k) m)"

lemma apply_tag_carries: "carries (fst (apply_tag (k, v) st)) k v"
proof -
  obtain cur ch where st: "st = (cur, ch)" by fastforce
  show ?thesis
  proof (cases "findKeyInMapCaseInsensitive cur k")
    case None
    then show ?thesis by (auto simp: st apply_tag_def carries_def findKey_put)
  next
    case (Some key)
    then show ?thesis by (auto simp: st apply_tag_def carries_def findKey_put)
  qed
qed

lemma carries_put:
  assumes "carries m k v" "\<not> EqualFold key' k"
  shows "carries (put key' v' m) k v"
proof -
  obtain key where key: "findKeyInMapCaseInsensitive m k = Some key" "EqualFold (deref v []) (deref (deref (map_of m key) None) [])"
    using assms(1) by (auto simp: carries_def)
  then have "key \<noteq> key'" using findKey_Some assms(2) by blast
  then show ?thesis using key by (auto simp: carries_def findKey_put)
qed

lemma apply_tag_keeps:
  assumes "carries (fst st) k v" "\<not> EqualFold k' k"
  shows "carries (fst (apply_tag (k', v') st)) k v"
proof -
  obtain cur ch where st: "st = (cur, ch)" by fastforce
  have "\<not> EqualFold key k" if "findKeyInMapCaseInsensitive cur k' = Some key" for key
    using findKey_Some[OF that] assms(2) by (metis EqualFold_def)
  then show ?thesis using assms carries_put by (auto simp: st apply_tag_def split: option.splits)
qed

lemma fold_apply_carries:
  assumes "ci_distinct new"
  shows "\<forall>(k, v) \<in> set new. carries (fst (fold apply_tag new st)) k v"
proof -
  have keep: "carries (fst (fold apply_tag ns st)) k v"
    if "carries (fst st) k v" "\<forall>(k', v') \<in> set ns. \<not> EqualFold k' k" for ns k v st
    using that
  proof (induction ns arbitrary: st)
    case (Cons n ns)
    obtain k' v' where n: "n = (k', v')" by fastforce
    then show ?case using Cons apply_tag_keeps[OF Cons.prems(1), of k' v'] by simp
  qed simp
  show ?thesis using assms
  proof (induction new arbitrary: st)
    case (Cons n ns)
    obtain k v where n: "n = (k, v)" by fastforce
    have "\<forall>(k', v') \<in> set ns. \<not> EqualFold k' k" using Cons.prems n by (force simp: ci_distinct_def EqualFold_def)
    then have "carries (fst (fold apply_tag ns (apply_tag n st))) k v" using keep apply_tag_carries n by blast
    moreover have "ci_distinct ns" using Cons.prems by (simp add: ci_distinct_def)
    ultimately show ?case using Cons.IH n by simp
  qed simp
qed

lemma fold_apply_stable:
  assumes "\<forall>(k, v) \<in> set new. carries cur k v"
  shows "fold apply_tag new (cur, ch) = (cur, ch)"
  using assms by (induction new) (auto simp: apply_tag_def carries_def)

lemma fold_apply_other:
  assumes "\<forall>(k', v) \<in> set new. \<not> EqualFold k' k"
  shows "map_of (fst (fold apply_tag new st)) k = map_of (fst st) k"
  using assms
proof (induction new arbitrary: st)
  case (Cons n ns)
  obtain k' v' cur ch where n: "n = (k', v')" "st = (cur, ch)" by fastforce
  have ne: "\<not> EqualFold k' k" using Cons.prems n by simp
  then have "k \<noteq> k'" by auto
  moreover have "key \<noteq> k" if "findKeyInMapCaseInsensitive cur k' = Some key" for key
    using findKey_Some[OF that] ne by (metis EqualFold_def)
  ultimately have "map_of (fst (apply_tag n st)) k = map_of cur k" by (auto simp: n apply_tag_def split: option.splits)
  then show ?case using Cons n by simp
qed simp

lemma apply_tag_flag: "apply_tag n st = st \<or> snd (apply_tag n st)"
proof -
  obtain k v cur ch where "n = (k, v)" "st = (cur, ch)" by fastforce
  then show ?thesis by (cases "findKeyInMapCaseInsensitive cur k") (auto simp: apply_tag_def)
qed

lemma fold_apply_flag: "snd st \<Longrightarrow> snd (fold apply_tag new st)"
proof (induction new arbitrary: st)
  case (Cons n ns)
  have "snd (apply_tag n st)" using apply_tag_flag[of n st] Cons.prems by auto
  then show ?case using Cons.IH by simp
qed simp

lemma fold_apply_unchanged: "\<not> snd (fold apply_tag new st) \<Longrightarrow> fold apply_tag new st = st"
proof (induction new arbitrary: st)
  case (Cons n ns)
  have "\<not> snd (apply_tag n st)" using fold_apply_flag[of "apply_tag n st" ns] Cons.prems by auto
  then have "apply_tag n st = st" using apply_tag_flag[of n st] by blast
  then show ?case using Cons by simp
qed simp

lemma fold_apply_keys: "fst ` set (fst (fold apply_tag new st)) \<subseteq> fst ` set (fst st) \<union> fst ` set new"
proof (induction new arbitrary: st)
  case (Cons n ns)
  obtain k v cur ch where n: "n = (k, v)" "st = (cur, ch)" by fastforce
  have "fst ` set (put x w m) = insert x (fst ` set m)" for x w and m :: tags
    using keys_put[of x w m] by (metis image_set insert_absorb list.set_map set_append Un_insert_right list.simps(15) sup_bot.right_neutral list.set(1))
  then have A: "fst ` set (fst (apply_tag n st)) \<subseteq> insert k (fst ` set cur)"
    using findKey_Some[of cur k] by (auto simp: n apply_tag_def split: option.splits)
  have B: "fst ` set (fst (fold apply_tag (n # ns) st)) \<subseteq> fst ` set (fst (apply_tag n st)) \<union> fst ` set ns"
    using Cons.IH[of "apply_tag n st"] by simp
  have "insert k (fst ` set cur) \<union> fst ` set ns = fst ` set (fst st) \<union> fst ` set (n # ns)" using n by simp
  then show ?case using subset_trans[OF B Un_mono[OF A order_refl]] by simp
qed simp

lemma map_of_filter_key: "map_of (filter (\<lambda>(k, v). P k) m) k = (if P k then map_of m k else None)"
  by (induction m) auto

text \<open>The resource spells the keys of the new tags as the new tags do.\<close>

definition same_spelling :: "tags \<Rightarrow> tags \<Rightarrow> bool" where
  "same_spelling current new \<longleftrightarrow> (\<forall>k \<in> fst ` set new. \<forall>k' \<in> fst ` set current. EqualFold k' k \<longrightarrow> k' = k)"

lemma spelled_apply:
  assumes "ci_distinct new" "same_spelling current new"
  shows "same_spelling (fst (fold apply_tag new (current, False))) new"
proof -
  have N: "k' = k" if "EqualFold k' k" "k \<in> fst ` set new" "k' \<in> fst ` set new" for k k'
  proof -
    have "inj_on (\<lambda>(k, v). ToLower k) (set new)" using assms(1) by (simp add: ci_distinct_def distinct_map)
    then show ?thesis using that by (fastforce simp: inj_on_def EqualFold_def)
  qed
  show ?thesis
    unfolding same_spelling_def
  proof (intro ballI impI)
    fix k k' assume k: "k \<in> fst ` set new" "k' \<in> fst ` set (fst (fold apply_tag new (current, False)))" "EqualFold k' k"
    have "k' \<in> fst ` set (fst (current, False)) \<union> fst ` set new" by (rule subsetD[OF fold_apply_keys k(2)])
    then show "k' = k"
    proof
      assume "k' \<in> fst ` set (fst (current, False))"
      then show "k' = k" using assms(2) k(1,3) by (simp only: same_spelling_def fst_conv)
    next
      assume "k' \<in> fst ` set new"
      then show "k' = k" by (rule N[OF k(3,1)])
    qed
  qed
qed

lemma carries_filter:
  assumes "carries m k v" "same_spelling m new" "k \<in> fst ` set new" "P k"
  shows "carries (filter (\<lambda>(k, v). P k) m) k v"
proof -
  let ?f = "filter (\<lambda>(k, v). P k) m"
  obtain key where key: "findKeyInMapCaseInsensitive m k = Some key" "EqualFold (deref v []) (deref (deref (map_of m key) None) [])"
    using assms(1) by (auto simp: carries_def)
  have "key = k" using findKey_Some[OF key(1)] assms(2,3) unfolding same_spelling_def by blast
  then have "k \<in> fst ` set m" using findKey_Some[OF key(1)] by simp
  then have "k \<in> fst ` set ?f" using assms(4) by force
  then have "findKeyInMapCaseInsensitive ?f k \<noteq> None" unfolding findKey_keys find_None_iff by auto
  then obtain key' where key': "findKeyInMapCaseInsensitive ?f k = Some key'" by blast
  then have "key' = k" using findKey_Some[OF key'] assms(2,3) unfolding same_spelling_def by auto
  then show ?thesis using key key' \<open>key = k\<close> assms(4) by (simp add: carries_def map_of_filter_key)
qed

lemma filter_same_length: "length (filter P xs) = length xs \<Longrightarrow> filter P xs = xs"
  by (metis filter_True length_filter_less less_irrefl)



text \<open>A tag that is lost. When system tags are configured and the resource spells the key of a new tag differently, the first
  loop of \<open>reconcileTags\<close> takes the existing key for the new one, and the second loop, which compares the keys exactly,
  deletes it: the resource ends up without the tag in any spelling.\<close>

theorem reconcileTags_loses_tag:
  assumes "system_tags S \<noteq> []" "\<forall>s \<in> fst ` set (system_tags S). \<not> EqualFold s k"
    "findKeyInMapCaseInsensitive current k = Some k'" "k \<notin> fst ` set current"
  shows "findKeyInMapCaseInsensitive (fst (reconcileTags S current [(k, v)])) k = None"
proof -
  obtain cur ch where f: "fold apply_tag [(k, v)] (current, False) = (cur, ch)" by fastforce
  have "cur = current \<or> cur = put k' v current" using f assms(3) by (auto simp: apply_tag_def split: if_splits)
  moreover have "map fst (put k' v current) = map fst current" using findKey_Some[OF assms(3)] by (simp add: keys_put)
  ultimately have keys: "map fst cur = map fst current" by blast
  then have "k \<notin> fst ` set cur" using assms(4) by (metis list.set_map)
  moreover have "\<not> keep_tag [(k, v)] (system_tags S) x" if "EqualFold x k" "x \<noteq> k" for x
  proof -
    have "findKeyInMapCaseInsensitive (system_tags S) x = None"
      unfolding findKey_keys find_None_iff using assms(2) that(1) by (metis EqualFold_def list.set_map)
    then show ?thesis using that(2) by (simp add: keep_tag_def)
  qed
  ultimately have "\<not> (EqualFold x k \<and> x \<in> fst ` set (filter (\<lambda>(k', w). keep_tag [(k, v)] (system_tags S) k') cur))" for x
    by force
  moreover have "fst (reconcileTags S current [(k, v)]) = filter (\<lambda>(k', w). keep_tag [(k, v)] (system_tags S) k') cur"
    using f assms(1) by (simp add: reconcileTags_def Let_def)
  ultimately show ?thesis unfolding findKey_keys find_None_iff by (metis list.set_map)
qed

theorem reconcileTags_loses_tag_witness:
  "findKeyInMapCaseInsensitive [(''Team'', Some ''a'')] ''team'' = Some ''Team'' \<and>
   findKeyInMapCaseInsensitive (fst (reconcileTags ''sys'' [(''Team'', Some ''a'')] [(''team'', Some ''a'')])) ''team'' = None"
proof
  show f: "findKeyInMapCaseInsensitive [(''Team'', Some ''a'')] ''team'' = Some ''Team''" by code_simp
  have s: "system_tags ''sys'' = [(''sys'', Some [])]" "\<not> EqualFold ''sys'' ''team''" by code_simp+
  show "findKeyInMapCaseInsensitive (fst (reconcileTags ''sys'' [(''Team'', Some ''a'')] [(''team'', Some ''a'')])) ''team'' = None"
    by (rule reconcileTags_loses_tag[OF _ _ f]) (use s in simp_all)
qed

end
