(* ===== verification/TimedCache.thy ===== *)
theory TimedCache
  imports Prelude
begin

text \<open>
  \<open>pkg/cache/azure_cache.go\<close>: the cache of Azure resources with a time to live, and the provider that takes its place when
  caching is disabled. The getter is a function on the state \<open>'w\<close> of the world, whose clock the cache reads; nil data is
  \<open>None\<close>.
\<close>

datatype AzureCacheReadType = CacheReadTypeDefault | CacheReadTypeUnsafe | CacheReadTypeForceRefresh

record 'd AzureCacheEntry =
  ce_Data :: "'d option"
  ce_CreatedOn :: int

record 'd TimedCache =
  tc_Store :: "(string \<times> 'd AzureCacheEntry) list"
  tc_TTL :: int

datatype 'd Resource = Timed "'d TimedCache" | ResourceProvider

type_synonym ('w, 'e, 'd) GetFunc = "'w \<Rightarrow> string \<Rightarrow> 'w \<times> ('e, 'd option) result"

definition NewTimedCache :: "int \<Rightarrow> ('w, 'e, 'd) GetFunc option \<Rightarrow> bool \<Rightarrow> (string, 'd Resource) result" where
  "NewTimedCache ttl getter disabled =
     (case getter of
        None \<Rightarrow> Inl ''getter is not provided''
      | Some _ \<Rightarrow> if disabled then Inr ResourceProvider else Inr (Timed \<lparr>tc_Store = [], tc_TTL = ttl\<rparr>))"

definition getInternal :: "'d TimedCache \<Rightarrow> string \<Rightarrow> 'd TimedCache \<times> 'd AzureCacheEntry" where
  "getInternal t key =
     (case map_of (tc_Store t) key of
        Some entry \<Rightarrow> (t, entry)
      | None \<Rightarrow> (let newEntry = \<lparr>ce_Data = None, ce_CreatedOn = 0\<rparr> in (t\<lparr>tc_Store := put key newEntry (tc_Store t)\<rparr>, newEntry)))"

text \<open>The cached data may be returned for this read type at this time.\<close>

definition cache_hit :: "int \<Rightarrow> AzureCacheReadType \<Rightarrow> 'd AzureCacheEntry \<Rightarrow> int \<Rightarrow> bool" where
  "cache_hit ttl crt entry now =
     (ce_Data entry \<noteq> None \<and> crt \<noteq> CacheReadTypeForceRefresh \<and>
      (crt = CacheReadTypeUnsafe \<or> crt = CacheReadTypeDefault \<and> now - ce_CreatedOn entry < ttl))"

definition tc_get ::
  "('w \<Rightarrow> int) \<Rightarrow> ('w, 'e, 'd) GetFunc \<Rightarrow> 'd TimedCache \<Rightarrow> 'w \<Rightarrow> string \<Rightarrow> AzureCacheReadType \<Rightarrow>
   'd TimedCache \<times> 'w \<times> ('e, 'd option) result" where
  "tc_get clock getter t w key crt =
     (let (t1, entry) = getInternal t key
      in if cache_hit (tc_TTL t) crt entry (clock w) then (t1, w, Inr (ce_Data entry))
         else case getter w key of
                (w', Inl err) \<Rightarrow> (t1, w', Inl err)
              | (w', Inr d) \<Rightarrow>
                  (t1\<lparr>tc_Store := put key \<lparr>ce_Data = d, ce_CreatedOn = clock w'\<rparr> (tc_Store t1)\<rparr>, w', Inr d))"

definition tc_Delete :: "'d TimedCache \<Rightarrow> string \<Rightarrow> 'd TimedCache" where
  "tc_Delete t key = t\<lparr>tc_Store := del key (tc_Store t)\<rparr>"

definition tc_Set :: "'d TimedCache \<Rightarrow> string \<Rightarrow> 'd option \<Rightarrow> int \<Rightarrow> 'd TimedCache" where
  "tc_Set t key d now = t\<lparr>tc_Store := put key \<lparr>ce_Data = d, ce_CreatedOn = now\<rparr> (tc_Store t)\<rparr>"

definition tc_Update :: "'d TimedCache \<Rightarrow> string \<Rightarrow> 'd option \<Rightarrow> int \<Rightarrow> 'd TimedCache" where
  "tc_Update t key d now =
     (let (t1, entry) = getInternal t key
      in t1\<lparr>tc_Store := put key \<lparr>ce_Data = d, ce_CreatedOn = now\<rparr> (tc_Store t1)\<rparr>)"

section \<open>The interface Resource\<close>

text \<open>\<open>GetWithDeepCopy\<close> returns the same value as \<open>Get\<close>: values of the model are not shared.\<close>

definition res_Get ::
  "('w \<Rightarrow> int) \<Rightarrow> ('w, 'e, 'd) GetFunc \<Rightarrow> 'd Resource \<Rightarrow> 'w \<Rightarrow> string \<Rightarrow> AzureCacheReadType \<Rightarrow>
   'd Resource \<times> 'w \<times> ('e, 'd option) result" where
  "res_Get clock getter r w key crt =
     (case r of
        Timed t \<Rightarrow> (case tc_get clock getter t w key crt of (t', w', d) \<Rightarrow> (Timed t', w', d))
      | ResourceProvider \<Rightarrow> (case getter w key of (w', d) \<Rightarrow> (ResourceProvider, w', d)))"

definition res_Delete :: "'d Resource \<Rightarrow> string \<Rightarrow> 'd Resource" where
  "res_Delete r key = (case r of Timed t \<Rightarrow> Timed (tc_Delete t key) | ResourceProvider \<Rightarrow> ResourceProvider)"

definition res_Set :: "'d Resource \<Rightarrow> string \<Rightarrow> 'd option \<Rightarrow> int \<Rightarrow> 'd Resource" where
  "res_Set r key d now = (case r of Timed t \<Rightarrow> Timed (tc_Set t key d now) | ResourceProvider \<Rightarrow> ResourceProvider)"

definition res_Update :: "'d Resource \<Rightarrow> string \<Rightarrow> 'd option \<Rightarrow> int \<Rightarrow> 'd Resource" where
  "res_Update r key d now = (case r of Timed t \<Rightarrow> Timed (tc_Update t key d now) | ResourceProvider \<Rightarrow> ResourceProvider)"

section \<open>Abstract cache\<close>

text \<open>What a client needs to know: for some keys a value and the time it was read. A read may return it while it is young
  enough, or asks the getter.\<close>

type_synonym 'd view = "string \<rightharpoonup> 'd \<times> int"

definition spec_usable :: "int \<Rightarrow> AzureCacheReadType \<Rightarrow> int \<Rightarrow> int \<Rightarrow> bool" where
  "spec_usable ttl crt now t =
     (case crt of
        CacheReadTypeDefault \<Rightarrow> now - t < ttl
      | CacheReadTypeUnsafe \<Rightarrow> True
      | CacheReadTypeForceRefresh \<Rightarrow> False)"

definition spec_store :: "'d view \<Rightarrow> string \<Rightarrow> 'd option \<Rightarrow> int \<Rightarrow> 'd view" where
  "spec_store m key d now = m(key := map_option (\<lambda>x. (x, now)) d)"

definition spec_get ::
  "int \<Rightarrow> ('w \<Rightarrow> int) \<Rightarrow> ('w, 'e, 'd) GetFunc \<Rightarrow> 'd view \<Rightarrow> 'w \<Rightarrow> string \<Rightarrow> AzureCacheReadType \<Rightarrow> 'd view \<times> 'w \<times> ('e, 'd option) result" where
  "spec_get ttl clock getter m w key crt =
     (case m key of
        Some (d, t) \<Rightarrow>
          if spec_usable ttl crt (clock w) t then (m, w, Inr (Some d))
          else (case getter w key of
                  (w', Inl e) \<Rightarrow> (m, w', Inl e)
                | (w', Inr d') \<Rightarrow> (spec_store m key d' (clock w'), w', Inr d'))
      | None \<Rightarrow>
          (case getter w key of
             (w', Inl e) \<Rightarrow> (m, w', Inl e)
           | (w', Inr d') \<Rightarrow> (spec_store m key d' (clock w'), w', Inr d')))"

definition tc_view :: "'d TimedCache \<Rightarrow> 'd view" where
  "tc_view t key =
     (case map_of (tc_Store t) key of
        None \<Rightarrow> None
      | Some entry \<Rightarrow> map_option (\<lambda>d. (d, ce_CreatedOn entry)) (ce_Data entry))"

lemma tc_view_put:
  "tc_view (t\<lparr>tc_Store := put key \<lparr>ce_Data = d, ce_CreatedOn = now\<rparr> m\<rparr>) = spec_store (tc_view (t\<lparr>tc_Store := m\<rparr>)) key d now"
  by (auto simp: fun_eq_iff tc_view_def spec_store_def)

lemma getInternal_view:
  assumes "getInternal t key = (t1, entry)"
  shows "tc_view t1 = tc_view t" "tc_TTL t1 = tc_TTL t" "map_of (tc_Store t1) key = Some entry"
    "tc_view t key = map_option (\<lambda>d. (d, ce_CreatedOn entry)) (ce_Data entry)"
  using assms by (auto simp: getInternal_def tc_view_def fun_eq_iff Let_def split: option.splits if_splits)

lemma tc_view_store [simp]: "tc_view (t\<lparr>tc_Store := tc_Store t\<rparr>) = tc_view t"
  by simp

lemma tc_get_refines:
  assumes "tc_get clock getter t w key crt = (t', w', r)"
  shows "spec_get (tc_TTL t) clock getter (tc_view t) w key crt = (tc_view t', w', r)" "tc_TTL t' = tc_TTL t"
proof -
  obtain t1 entry where g: "getInternal t key = (t1, entry)" by fastforce
  note G = getInternal_view[OF g]
  obtain w1 r1 where c: "getter w key = (w1, r1)" by fastforce
  have put: "tc_view (t1\<lparr>tc_Store := put key \<lparr>ce_Data = d, ce_CreatedOn = now\<rparr> (tc_Store t1)\<rparr>) = spec_store (tc_view t) key d now" for d now
    using tc_view_put[where t = t1 and m = "tc_Store t1"] G(1) by simp
  have hit: "cache_hit (tc_TTL t) crt entry (clock w) \<longleftrightarrow>
      (case tc_view t key of None \<Rightarrow> False | Some (d, at) \<Rightarrow> spec_usable (tc_TTL t) crt (clock w) at)"
    by (cases crt) (auto simp: cache_hit_def spec_usable_def G(4) split: option.splits)
  show "tc_TTL t' = tc_TTL t"
    using assms G(2) by (auto simp: tc_get_def g c split: if_splits sum.splits)
  show "spec_get (tc_TTL t) clock getter (tc_view t) w key crt = (tc_view t', w', r)"
  proof (cases "cache_hit (tc_TTL t) crt entry (clock w)")
    case True
    then obtain d where "ce_Data entry = Some d" by (auto simp: cache_hit_def)
    then show ?thesis using True hit assms G(1,4) by (auto simp: tc_get_def g spec_get_def)
  next
    case False
    then have "spec_get (tc_TTL t) clock getter (tc_view t) w key crt =
        (case getter w key of (w', Inl e) \<Rightarrow> (tc_view t, w', Inl e)
         | (w', Inr d') \<Rightarrow> (spec_store (tc_view t) key d' (clock w'), w', Inr d'))"
      using hit by (auto simp: spec_get_def split: option.splits)
    then show ?thesis using False assms G(1) put by (cases r1) (auto simp: tc_get_def g c)
  qed
qed

lemma tc_writes_refine:
  "tc_view (tc_Delete t key) = (tc_view t)(key := None)"
  "tc_view (tc_Set t key d now) = spec_store (tc_view t) key d now"
  "tc_view (tc_Update t key d now) = spec_store (tc_view t) key d now"
proof -
  show "tc_view (tc_Delete t key) = (tc_view t)(key := None)" by (auto simp: fun_eq_iff tc_view_def tc_Delete_def)
  show "tc_view (tc_Set t key d now) = spec_store (tc_view t) key d now"
    using tc_view_put[where t = t and m = "tc_Store t"] by (simp add: tc_Set_def)
  obtain t1 entry where g: "getInternal t key = (t1, entry)" by fastforce
  show "tc_view (tc_Update t key d now) = spec_store (tc_view t) key d now"
    using tc_view_put[where t = t1 and m = "tc_Store t1"] getInternal_view(1)[OF g] by (simp add: tc_Update_def g)
qed

section \<open>The contract a client of the interface relies on\<close>

locale resource_contract =
  fixes rget :: "'r \<Rightarrow> 'w \<Rightarrow> string \<Rightarrow> AzureCacheReadType \<Rightarrow> 'r \<times> 'w \<times> ('e, 'd option) result"
    and rdelete :: "'r \<Rightarrow> string \<Rightarrow> 'r"
    and view :: "'r \<Rightarrow> 'd view"
    and ttl :: "'r \<Rightarrow> int"
    and clock :: "'w \<Rightarrow> int"
    and getter :: "('w, 'e, 'd) GetFunc"
  assumes answers: "rget r w key crt = (r', w', x) \<Longrightarrow>
      (\<exists>d t. view r key = Some (d, t) \<and> spec_usable (ttl r) crt (clock w) t \<and> w' = w \<and> x = Inr (Some d)) \<or> getter w key = (w', x)"
    and serves: "view r key = Some (d, t) \<Longrightarrow> spec_usable (ttl r) crt (clock w) t \<Longrightarrow>
      \<exists>r'. rget r w key crt = (r', w, Inr (Some d)) \<and> view r' = view r"
    and learns: "rget r w key crt = (r', w', x) \<Longrightarrow> view r' k = Some (d, t) \<Longrightarrow>
      view r k = Some (d, t) \<or> (k = key \<and> t = clock w' \<and> getter w key = (w', Inr (Some d)))"
    and keeps_ttl: "rget r w key crt = (r', w', x) \<Longrightarrow> ttl r' = ttl r"
    and forgets: "view (rdelete r key) = (view r)(key := None)"
    and deletes_ttl: "ttl (rdelete r key) = ttl r"
begin

text \<open>A read after a delete asks the getter, and a forced read always does.\<close>

lemma read_after_delete: "rget (rdelete r key) w key crt = (r', w', x) \<Longrightarrow> getter w key = (w', x)"
  using answers[of "rdelete r key" w key crt r' w' x] by (auto simp: forgets)

lemma forced_read: "rget r w key CacheReadTypeForceRefresh = (r', w', x) \<Longrightarrow> getter w key = (w', x)"
  using answers[of r w key CacheReadTypeForceRefresh r' w' x] by (auto simp: spec_usable_def)

text \<open>Every value in the view was returned by the getter: \<open>log\<close> lists the calls that gave a value.\<close>

definition logged :: "(string \<times> 'd \<times> int) set \<Rightarrow> 'r \<Rightarrow> bool" where
  "logged log r \<longleftrightarrow> (\<forall>k d t. view r k = Some (d, t) \<longrightarrow> (k, d, t) \<in> log)"

lemma logged_get:
  assumes "logged log r" "rget r w key crt = (r', w', x)"
  shows "logged (log \<union> {(key, d, clock w') | d. getter w key = (w', Inr (Some d))}) r'"
  using learns[OF assms(2)] assms(1) by (fastforce simp: logged_def)

lemma logged_delete: "logged log r \<Longrightarrow> logged log (rdelete r key)"
  by (auto simp: logged_def forgets)

lemma fresh_read:
  assumes "logged log r" "rget r w key CacheReadTypeDefault = (r', w', Inr (Some d))"
  shows "getter w key = (w', Inr (Some d)) \<or> (\<exists>t. (key, d, t) \<in> log \<and> clock w - t < ttl r)"
  using answers[OF assms(2)] assms(1) by (auto simp: logged_def spec_usable_def)

end

definition res_view :: "'d Resource \<Rightarrow> 'd view" where
  "res_view r = (case r of Timed t \<Rightarrow> tc_view t | ResourceProvider \<Rightarrow> Map.empty)"

definition res_ttl :: "'d Resource \<Rightarrow> int" where
  "res_ttl r = (case r of Timed t \<Rightarrow> tc_TTL t | ResourceProvider \<Rightarrow> 0)"

lemma spec_get_answers:
  assumes "spec_get n clock getter m w key crt = (m', w', x)"
  shows "(\<exists>d t. m key = Some (d, t) \<and> spec_usable n crt (clock w) t \<and> w' = w \<and> x = Inr (Some d)) \<or> getter w key = (w', x)"
    "m' k = Some (d, t) \<Longrightarrow> m k = Some (d, t) \<or> (k = key \<and> t = clock w' \<and> getter w key = (w', Inr (Some d)))"
  using assms by (auto simp: spec_get_def spec_store_def split: option.splits prod.splits if_splits sum.splits)

lemma spec_get_serves:
  "m key = Some (d, t) \<Longrightarrow> spec_usable n crt (clock w) t \<Longrightarrow> spec_get n clock getter m w key crt = (m, w, Inr (Some d))"
  by (simp add: spec_get_def)

interpretation res: resource_contract "res_Get clock getter" res_Delete res_view res_ttl clock getter
  for clock :: "'w \<Rightarrow> int" and getter :: "('w, 'e, 'd) GetFunc"
proof
  fix r r' :: "'d Resource" and w w' :: 'w and key k :: string and crt x d t
  show "(\<exists>d t. res_view r key = Some (d, t) \<and> spec_usable (res_ttl r) crt (clock w) t \<and> w' = w \<and> x = Inr (Some d)) \<or> getter w key = (w', x)"
    if "res_Get clock getter r w key crt = (r', w', x)"
    using that tc_get_refines(1) spec_get_answers(1)
    by (fastforce simp: res_Get_def res_view_def res_ttl_def split: Resource.splits prod.splits)
  show "\<exists>r'. res_Get clock getter r w key crt = (r', w, Inr (Some d)) \<and> res_view r' = res_view r"
    if "res_view r key = Some (d, t)" "spec_usable (res_ttl r) crt (clock w) t"
  proof (cases r)
    case (Timed c)
    obtain c' w1 y where g: "tc_get clock getter c w key crt = (c', w1, y)" by (cases "tc_get clock getter c w key crt") auto
    have "spec_get (tc_TTL c) clock getter (tc_view c) w key crt = (tc_view c, w, Inr (Some d))"
      using that Timed by (intro spec_get_serves) (auto simp: res_view_def res_ttl_def)
    then show ?thesis using tc_get_refines(1)[OF g] g Timed by (auto simp: res_Get_def res_view_def)
  qed (use that in \<open>simp add: res_view_def\<close>)
  show "res_view r k = Some (d, t) \<or> (k = key \<and> t = clock w' \<and> getter w key = (w', Inr (Some d)))"
    if "res_Get clock getter r w key crt = (r', w', x)" "res_view r' k = Some (d, t)"
    using that tc_get_refines(1) spec_get_answers(2)
    by (fastforce simp: res_Get_def res_view_def split: Resource.splits prod.splits)
  show "res_ttl r' = res_ttl r" if "res_Get clock getter r w key crt = (r', w', x)"
    using that tc_get_refines(2) by (fastforce simp: res_Get_def res_ttl_def split: Resource.splits prod.splits)
  show "res_view (res_Delete r key) = (res_view r)(key := None)"
    by (cases r) (auto simp: res_view_def res_Delete_def tc_writes_refine)
  show "res_ttl (res_Delete r key) = res_ttl r"
    by (cases r) (auto simp: res_ttl_def res_Delete_def tc_Delete_def)
qed

end
