(* ===== verification/NsgRepo.thy ===== *)
theory NsgRepo
  imports TimedCache SecurityGroup
begin

text \<open>
  \<open>pkg/provider/securitygroup/azure_securitygroup_repo.go\<close> and \<open>pkg/util/errutils/err.go\<close>: the repository of the security
  group of the cluster, a client of the cache. The client of the Azure API is a pair of functions on the state \<open>'w\<close> of the
  world; \<open>azerr\<close> tells errors with a response of the API in their chain from all others.
\<close>

datatype azerr =
    ResponseError (re_StatusCode: int) (re_Error: string)
  | OtherError string

definition StatusNotFound :: int where "StatusNotFound = 404"
definition StatusPreconditionFailed :: int where "StatusPreconditionFailed = 412"

definition CheckResourceExistsFromAzcoreError :: "azerr option \<Rightarrow> bool \<times> azerr option" where
  "CheckResourceExistsFromAzcoreError err =
     (case err of
        None \<Rightarrow> (True, None)
      | Some (ResponseError c msg) \<Rightarrow> if c = StatusNotFound then (False, None) else (False, err)
      | Some (OtherError _) \<Rightarrow> (False, err))"

definition OperationCanceledErrorMessage :: string where
  "OperationCanceledErrorMessage = ''canceledandsupersededduetoanotheroperation''"

record 'w nsg_client =
  sgc_Get :: "'w \<Rightarrow> string \<Rightarrow> string \<Rightarrow> 'w \<times> (azerr, SecurityGroup) result"
  sgc_CreateOrUpdate :: "'w \<Rightarrow> string \<Rightarrow> string \<Rightarrow> SecurityGroup \<Rightarrow> 'w \<times> azerr option"

definition nsg_getter :: "'w nsg_client \<Rightarrow> string \<Rightarrow> ('w, azerr, SecurityGroup) GetFunc" where
  "nsg_getter client rg w key =
     (case sgc_Get client w rg key of
        (w', Inr nsg) \<Rightarrow>
          (case CheckResourceExistsFromAzcoreError None of
             (_, Some e) \<Rightarrow> (w', Inl e)
           | (exists, None) \<Rightarrow> (w', Inr (if exists then Some nsg else None)))
      | (w', Inl err) \<Rightarrow>
          (case CheckResourceExistsFromAzcoreError (Some err) of
             (_, Some _) \<Rightarrow> (w', Inl err)
           | (exists, None) \<Rightarrow> (w', Inr None)))"

record securityGroupRepo =
  sgr_ResourceGroup :: string
  sgr_Name :: string
  sgr_CacheTTLInSeconds :: int
  sgr_Cache :: "SecurityGroup Resource"

definition nsgCacheTTLDefaultInSeconds :: int where
  "nsgCacheTTLDefaultInSeconds = 120"

text \<open>Times are nanoseconds. The field for the time to live always holds the default; the cache has the configured one.\<close>

definition NewSecurityGroupRepo :: "string \<Rightarrow> string \<Rightarrow> int \<Rightarrow> bool \<Rightarrow> 'w nsg_client \<Rightarrow> (string, securityGroupRepo) result" where
  "NewSecurityGroupRepo rg name ttl disableAPICallCache client =
     (let ttl' = (if ttl = 0 then nsgCacheTTLDefaultInSeconds else ttl)
      in case NewTimedCache (ttl' * 1000000000) (Some (nsg_getter client rg)) disableAPICallCache of
           Inl e \<Rightarrow> Inl e
         | Inr cache \<Rightarrow>
             Inr \<lparr>sgr_ResourceGroup = rg, sgr_Name = name, sgr_CacheTTLInSeconds = nsgCacheTTLDefaultInSeconds,
                  sgr_Cache = cache\<rparr>)"

datatype repo_error =
    RepoPanic
  | RepoClientError azerr
  | NameNotConfigured
  | NsgNotFound string

definition invalidate :: "securityGroupRepo \<Rightarrow> string \<Rightarrow> securityGroupRepo" where
  "invalidate az name = az\<lparr>sgr_Cache := res_Delete (sgr_Cache az) name\<rparr>"

definition CreateOrUpdateSecurityGroup ::
  "'w nsg_client \<Rightarrow> securityGroupRepo \<Rightarrow> 'w \<Rightarrow> SecurityGroup \<Rightarrow> securityGroupRepo \<times> 'w \<times> repo_error option" where
  "CreateOrUpdateSecurityGroup client az w sg =
     (case sg_Name sg of
        None \<Rightarrow> (az, w, Some RepoPanic)
      | Some name \<Rightarrow>
          (case sgc_CreateOrUpdate client w (sgr_ResourceGroup az) name sg of
             (w', None) \<Rightarrow> (invalidate az name, w', None)
           | (w', Some (ResponseError c msg)) \<Rightarrow>
               (let az1 = (if c = StatusPreconditionFailed then invalidate az name else az);
                    az2 = (if Contains (ToLower msg) OperationCanceledErrorMessage then invalidate az1 name else az1)
                in (az2, w', Some (RepoClientError (ResponseError c msg))))
           | (w', Some e) \<Rightarrow> (az, w', Some (RepoClientError e))))"

definition GetSecurityGroup ::
  "('w \<Rightarrow> int) \<Rightarrow> 'w nsg_client \<Rightarrow> securityGroupRepo \<Rightarrow> 'w \<Rightarrow> securityGroupRepo \<times> 'w \<times> (repo_error, SecurityGroup) result" where
  "GetSecurityGroup clock client az w =
     (if sgr_Name az = [] then (az, w, Inl NameNotConfigured)
      else case res_Get clock (nsg_getter client (sgr_ResourceGroup az)) (sgr_Cache az) w (sgr_Name az) CacheReadTypeDefault of
             (c', w', r) \<Rightarrow>
               (az\<lparr>sgr_Cache := c'\<rparr>, w',
                (case r of
                   Inl e \<Rightarrow> Inl (RepoClientError e)
                 | Inr None \<Rightarrow> Inl (NsgNotFound (sgr_Name az))
                 | Inr (Some g) \<Rightarrow> Inr g)))"

section \<open>Reads after writes\<close>

text \<open>What a read that goes to the API returns.\<close>

definition api_read :: "'w nsg_client \<Rightarrow> securityGroupRepo \<Rightarrow> 'w \<Rightarrow> 'w \<times> (repo_error, SecurityGroup) result" where
  "api_read client az w =
     (case sgc_Get client w (sgr_ResourceGroup az) (sgr_Name az) of
        (w', Inr g) \<Rightarrow> (w', Inr g)
      | (w', Inl (ResponseError c msg)) \<Rightarrow>
          (w', Inl (if c = StatusNotFound then NsgNotFound (sgr_Name az) else RepoClientError (ResponseError c msg)))
      | (w', Inl e) \<Rightarrow> (w', Inl (RepoClientError e)))"

lemma read_getter:
  assumes "sgr_Name az \<noteq> []"
    and "res_Get clock (nsg_getter client (sgr_ResourceGroup az)) (sgr_Cache az) w (sgr_Name az) CacheReadTypeDefault = (c', w', r)"
    and "nsg_getter client (sgr_ResourceGroup az) w (sgr_Name az) = (w', r)"
  shows "snd (GetSecurityGroup clock client az w) = api_read client az w"
  using assms
  by (auto simp: GetSecurityGroup_def api_read_def nsg_getter_def CheckResourceExistsFromAzcoreError_def
      split: sum.splits prod.splits azerr.splits if_splits)

lemma read_invalidated:
  assumes "sgr_Name az \<noteq> []"
  shows "snd (GetSecurityGroup clock client (invalidate az (sgr_Name az)) w) = api_read client az w"
proof -
  let ?g = "nsg_getter client (sgr_ResourceGroup az)"
  obtain c' w' r where g: "res_Get clock ?g (res_Delete (sgr_Cache az) (sgr_Name az)) w (sgr_Name az) CacheReadTypeDefault = (c', w', r)"
    by (metis prod_cases3)
  have "snd (GetSecurityGroup clock client (invalidate az (sgr_Name az)) w) = api_read client (invalidate az (sgr_Name az)) w"
    by (rule read_getter) (use assms g res.read_after_delete[OF g] in \<open>auto simp: invalidate_def\<close>)
  moreover have "api_read client (invalidate az (sgr_Name az)) w = api_read client az w"
    by (simp add: api_read_def invalidate_def split: prod.split sum.split azerr.split)
  ultimately show ?thesis by simp
qed

lemma invalidate_twice [simp]: "invalidate (invalidate az n) n = invalidate az n"
  by (cases "sgr_Cache az") (auto simp: invalidate_def res_Delete_def tc_Delete_def del_def AList.delete_idem)

text \<open>The outcomes of a write that leave an old value in the cache.\<close>

definition keeps_cache :: "repo_error option \<Rightarrow> bool" where
  "keeps_cache r =
     (case r of
        None \<Rightarrow> False
      | Some (RepoClientError (ResponseError c msg)) \<Rightarrow>
          c \<noteq> StatusPreconditionFailed \<and> \<not> Contains (ToLower msg) OperationCanceledErrorMessage
      | Some _ \<Rightarrow> True)"

lemma write_repo:
  assumes "CreateOrUpdateSecurityGroup client az w sg = (az', w', r)" "sg_Name sg = Some n"
  shows "az' = (if keeps_cache r then az else invalidate az n)"
  using assms
  by (auto simp: CreateOrUpdateSecurityGroup_def keeps_cache_def Let_def split: prod.splits option.splits azerr.splits if_splits)

lemma read_elsewhere:
  assumes "sgr_Name az \<noteq> []" "n \<noteq> sgr_Name az" "res_view (sgr_Cache az) (sgr_Name az) = Some (old, t)"
    and "clock w - t < res_ttl (sgr_Cache az)"
  shows "snd (GetSecurityGroup clock client (invalidate az n) w) = (w, Inr old)"
proof -
  let ?g = "nsg_getter client (sgr_ResourceGroup az)"
  have "\<exists>c'. res_Get clock ?g (res_Delete (sgr_Cache az) n) w (sgr_Name az) CacheReadTypeDefault = (c', w, Inr (Some old)) \<and>
      res_view c' = res_view (res_Delete (sgr_Cache az) n)"
    by (rule res.serves) (use assms in \<open>auto simp: res.forgets res.deletes_ttl spec_usable_def\<close>)
  then show ?thesis using assms(1) by (auto simp: GetSecurityGroup_def invalidate_def)
qed

end
