(* ===== verification/CacheProperties.thy ===== *)
theory CacheProperties
  imports NsgRepo
begin

text \<open>
  Concurrent reads of the cache of \<open>pkg/cache/azure_cache.go\<close> as a step relation, and the properties of the cache and of the
  repository of security groups built on it.
\<close>

section \<open>Concurrent reads\<close>

text \<open>A thread that calls \<open>get\<close> first finds or adds the entry of the key, then locks the entry, then returns the cached data
  or fetches. Entries are cells of a heap, because a thread keeps its entry when the key is deleted meanwhile. The last
  field collects the deleted keys.\<close>

datatype cpc =
    Idle
  | Calling string AzureCacheReadType
  | Holding nat string AzureCacheReadType
  | Locked nat string AzureCacheReadType
  | Fetching nat string

record 'd ccell =
  cl_entry :: "'d AzureCacheEntry"
  cl_lock :: "nat option"

record 'd cstate =
  cs_store :: "string \<rightharpoonup> nat"
  cs_heap :: "nat \<rightharpoonup> 'd ccell"
  cs_pc :: "nat \<Rightarrow> cpc"
  cs_now :: int
  cs_deleted :: "string set"

definition cs_init :: "'d cstate" where
  "cs_init = \<lparr>cs_store = Map.empty, cs_heap = Map.empty, cs_pc = (\<lambda>_. Idle), cs_now = 0, cs_deleted = {}\<rparr>"

definition set_pc :: "nat \<Rightarrow> cpc \<Rightarrow> 'd cstate \<Rightarrow> 'd cstate" where
  "set_pc i p s = s\<lparr>cs_pc := (cs_pc s)(i := p)\<rparr>"

definition set_cell :: "nat \<Rightarrow> 'd ccell \<Rightarrow> 'd cstate \<Rightarrow> 'd cstate" where
  "set_cell a c s = s\<lparr>cs_heap := (cs_heap s)(a \<mapsto> c)\<rparr>"

inductive cache_step :: "int \<Rightarrow> 'd cstate \<Rightarrow> 'd cstate \<Rightarrow> bool" for ttl where
  call: "cs_pc s i = Idle \<Longrightarrow> cache_step ttl s (set_pc i (Calling key crt) s)"
| find: "cs_pc s i = Calling key crt \<Longrightarrow> cs_store s key = Some a \<Longrightarrow> cache_step ttl s (set_pc i (Holding a key crt) s)"
| add: "cs_pc s i = Calling key crt \<Longrightarrow> cs_store s key = None \<Longrightarrow> cs_heap s a = None \<Longrightarrow>
    cache_step ttl s (set_pc i (Holding a key crt)
      (set_cell a \<lparr>cl_entry = \<lparr>ce_Data = None, ce_CreatedOn = 0\<rparr>, cl_lock = None\<rparr> (s\<lparr>cs_store := (cs_store s)(key \<mapsto> a)\<rparr>)))"
| lock: "cs_pc s i = Holding a key crt \<Longrightarrow> cs_heap s a = Some c \<Longrightarrow> cl_lock c = None \<Longrightarrow>
    cache_step ttl s (set_pc i (Locked a key crt) (set_cell a (c\<lparr>cl_lock := Some i\<rparr>) s))"
| hit: "cs_pc s i = Locked a key crt \<Longrightarrow> cs_heap s a = Some c \<Longrightarrow> cache_hit ttl crt (cl_entry c) (cs_now s) \<Longrightarrow>
    cache_step ttl s (set_pc i Idle (set_cell a (c\<lparr>cl_lock := None\<rparr>) s))"
| miss: "cs_pc s i = Locked a key crt \<Longrightarrow> cs_heap s a = Some c \<Longrightarrow> \<not> cache_hit ttl crt (cl_entry c) (cs_now s) \<Longrightarrow>
    cache_step ttl s (set_pc i (Fetching a key) s)"
| failed: "cs_pc s i = Fetching a key \<Longrightarrow> cs_heap s a = Some c \<Longrightarrow>
    cache_step ttl s (set_pc i Idle (set_cell a (c\<lparr>cl_lock := None\<rparr>) s))"
| fetched: "cs_pc s i = Fetching a key \<Longrightarrow> cs_heap s a = Some c \<Longrightarrow>
    cache_step ttl s (set_pc i Idle (set_cell a \<lparr>cl_entry = \<lparr>ce_Data = d, ce_CreatedOn = cs_now s\<rparr>, cl_lock = None\<rparr> s))"
| delete: "cache_step ttl s (s\<lparr>cs_store := (cs_store s)(key := None), cs_deleted := insert key (cs_deleted s)\<rparr>)"
| tick: "cs_now s \<le> now \<Longrightarrow> cache_step ttl s (s\<lparr>cs_now := now\<rparr>)"

inductive cache_reach :: "int \<Rightarrow> 'd cstate \<Rightarrow> bool" for ttl where
  init: "cache_reach ttl cs_init"
| step: "cache_reach ttl s \<Longrightarrow> cache_step ttl s s' \<Longrightarrow> cache_reach ttl s'"

text \<open>The entry of a thread, and whether it holds the lock of the entry.\<close>

fun pc_entry :: "cpc \<Rightarrow> (nat \<times> string) option" where
  "pc_entry (Holding a key crt) = Some (a, key)"
| "pc_entry (Locked a key crt) = Some (a, key)"
| "pc_entry (Fetching a key) = Some (a, key)"
| "pc_entry _ = None"

fun pc_locked :: "cpc \<Rightarrow> nat option" where
  "pc_locked (Locked a key crt) = Some a"
| "pc_locked (Fetching a key) = Some a"
| "pc_locked _ = None"

definition cache_inv :: "'d cstate \<Rightarrow> bool" where
  "cache_inv s \<longleftrightarrow>
     (\<forall>i a. pc_locked (cs_pc s i) = Some a \<longrightarrow> (\<exists>c. cs_heap s a = Some c \<and> cl_lock c = Some i)) \<and>
     (\<forall>i a key. pc_entry (cs_pc s i) = Some (a, key) \<longrightarrow> cs_heap s a \<noteq> None) \<and>
     (\<forall>key a. cs_store s key = Some a \<longrightarrow> cs_heap s a \<noteq> None) \<and>
     (\<forall>i a key. pc_entry (cs_pc s i) = Some (a, key) \<longrightarrow> key \<notin> cs_deleted s \<longrightarrow> cs_store s key = Some a)"

lemma cache_invI:
  assumes "\<And>i a. pc_locked (cs_pc s i) = Some a \<Longrightarrow> \<exists>c. cs_heap s a = Some c \<and> cl_lock c = Some i"
    and "\<And>i a key. pc_entry (cs_pc s i) = Some (a, key) \<Longrightarrow> cs_heap s a \<noteq> None"
    and "\<And>key a. cs_store s key = Some a \<Longrightarrow> cs_heap s a \<noteq> None"
    and "\<And>i a key. pc_entry (cs_pc s i) = Some (a, key) \<Longrightarrow> key \<notin> cs_deleted s \<Longrightarrow> cs_store s key = Some a"
  shows "cache_inv s"
  unfolding cache_inv_def using assms by blast

lemma cache_invD:
  assumes "cache_inv s"
  shows "pc_locked (cs_pc s i) = Some a \<Longrightarrow> \<exists>c. cs_heap s a = Some c \<and> cl_lock c = Some i"
    and "pc_entry (cs_pc s i) = Some (a, key) \<Longrightarrow> cs_heap s a \<noteq> None"
    and "cs_store s key = Some a \<Longrightarrow> cs_heap s a \<noteq> None"
    and "pc_entry (cs_pc s i) = Some (a, key) \<Longrightarrow> key \<notin> cs_deleted s \<Longrightarrow> cs_store s key = Some a"
  using assms unfolding cache_inv_def by blast+

text \<open>A thread that keeps its entry moves on; a thread that gives its entry back releases the lock.\<close>

lemma cache_inv_move:
  assumes inv: "cache_inv s"
    and entry: "\<And>a key. pc_entry p = Some (a, key) \<Longrightarrow> pc_entry (cs_pc s i) = Some (a, key) \<or> cs_store s key = Some a"
    and locked: "\<And>a. pc_locked p = Some a \<Longrightarrow> pc_locked (cs_pc s i) = Some a"
  shows "cache_inv (set_pc i p s)"
proof (rule cache_invI)
  fix j a
  assume "pc_locked (cs_pc (set_pc i p s) j) = Some a"
  then have "pc_locked (cs_pc s j) = Some a" using locked by (cases "j = i") (simp_all add: set_pc_def)
  from cache_invD(1)[OF inv this] show "\<exists>c. cs_heap (set_pc i p s) a = Some c \<and> cl_lock c = Some j"
    by (simp add: set_pc_def)
next
  fix j a key
  assume "pc_entry (cs_pc (set_pc i p s) j) = Some (a, key)"
  then have "pc_entry (cs_pc s j) = Some (a, key) \<or> cs_store s key = Some a"
    using entry by (cases "j = i") (simp_all add: set_pc_def)
  then show "cs_heap (set_pc i p s) a \<noteq> None"
    using cache_invD(2,3)[OF inv] by (auto simp: set_pc_def)
next
  fix j a key
  assume "pc_entry (cs_pc (set_pc i p s) j) = Some (a, key)" "key \<notin> cs_deleted (set_pc i p s)"
  then have "pc_entry (cs_pc s j) = Some (a, key) \<or> cs_store s key = Some a" "key \<notin> cs_deleted s"
    using entry by (cases "j = i", simp_all add: set_pc_def)
  then show "cs_store (set_pc i p s) key = Some a"
    using cache_invD(4)[OF inv, of j a key] by (auto simp: set_pc_def)
qed (use cache_invD(3)[OF inv] in \<open>simp add: set_pc_def\<close>)

lemma cache_inv_cell:
  assumes inv: "cache_inv s" and others: "\<And>j. j \<noteq> i \<Longrightarrow> pc_locked (cs_pc s j) \<noteq> Some a"
    and me: "pc_locked p = Some a \<Longrightarrow> cl_lock c = Some i" "\<And>b. pc_locked p = Some b \<Longrightarrow> b = a"
    and entry: "\<And>b key. pc_entry p = Some (b, key) \<Longrightarrow> pc_entry (cs_pc s i) = Some (b, key)"
  shows "cache_inv (set_pc i p (set_cell a c s))"
proof (rule cache_invI)
  fix j b
  assume "pc_locked (cs_pc (set_pc i p (set_cell a c s)) j) = Some b"
  then have *: "if j = i then pc_locked p = Some b else pc_locked (cs_pc s j) = Some b"
    by (auto simp: set_pc_def set_cell_def split: if_splits)
  show "\<exists>c'. cs_heap (set_pc i p (set_cell a c s)) b = Some c' \<and> cl_lock c' = Some j"
  proof (cases "j = i")
    case True
    then show ?thesis using * me(1) me(2)[of b] by (auto simp: set_pc_def set_cell_def)
  next
    case False
    with * others[of j] cache_invD(1)[OF inv, of j b] show ?thesis by (auto simp: set_pc_def set_cell_def)
  qed
next
  fix j b key
  assume "pc_entry (cs_pc (set_pc i p (set_cell a c s)) j) = Some (b, key)"
  then have *: "pc_entry (cs_pc s j) = Some (b, key)"
    using entry by (cases "j = i") (simp_all add: set_pc_def set_cell_def)
  show "cs_heap (set_pc i p (set_cell a c s)) b \<noteq> None"
    using cache_invD(2)[OF inv *] by (simp add: set_pc_def set_cell_def)
  assume "key \<notin> cs_deleted (set_pc i p (set_cell a c s))"
  then show "cs_store (set_pc i p (set_cell a c s)) key = Some b"
    using cache_invD(4)[OF inv *] by (simp add: set_pc_def set_cell_def)
qed (use cache_invD(3)[OF inv] in \<open>simp add: set_pc_def set_cell_def\<close>)

lemma cache_inv_new:
  assumes inv: "cache_inv s" and new: "cs_heap s a = None" "cs_store s key = None"
    and i: "pc_entry (cs_pc s i) = None"
  shows "cache_inv (set_cell a c (s\<lparr>cs_store := (cs_store s)(key \<mapsto> a)\<rparr>))"
proof (rule cache_invI)
  fix j b
  assume "pc_locked (cs_pc (set_cell a c (s\<lparr>cs_store := (cs_store s)(key \<mapsto> a)\<rparr>)) j) = Some b"
  then obtain c' where "cs_heap s b = Some c'" "cl_lock c' = Some j"
    using cache_invD(1)[OF inv, of j b] by (auto simp: set_cell_def)
  then show "\<exists>c'. cs_heap (set_cell a c (s\<lparr>cs_store := (cs_store s)(key \<mapsto> a)\<rparr>)) b = Some c' \<and> cl_lock c' = Some j"
    using new by (auto simp: set_cell_def)
next
  fix k b
  assume "cs_store (set_cell a c (s\<lparr>cs_store := (cs_store s)(key \<mapsto> a)\<rparr>)) k = Some b"
  then show "cs_heap (set_cell a c (s\<lparr>cs_store := (cs_store s)(key \<mapsto> a)\<rparr>)) b \<noteq> None"
    using cache_invD(3)[OF inv, of k b] by (auto simp: set_cell_def split: if_splits)
next
  fix j b k
  assume "pc_entry (cs_pc (set_cell a c (s\<lparr>cs_store := (cs_store s)(key \<mapsto> a)\<rparr>)) j) = Some (b, k)"
  then have *: "pc_entry (cs_pc s j) = Some (b, k)" by (simp add: set_cell_def)
  show "cs_heap (set_cell a c (s\<lparr>cs_store := (cs_store s)(key \<mapsto> a)\<rparr>)) b \<noteq> None"
    using cache_invD(2)[OF inv *] by (simp add: set_cell_def)
  assume "k \<notin> cs_deleted (set_cell a c (s\<lparr>cs_store := (cs_store s)(key \<mapsto> a)\<rparr>))"
  with cache_invD(4)[OF inv *] new(2)
  show "cs_store (set_cell a c (s\<lparr>cs_store := (cs_store s)(key \<mapsto> a)\<rparr>)) k = Some b"
    by (auto simp: set_cell_def)
qed

lemma locked_alone:
  assumes "cache_inv s" "pc_locked (cs_pc s i) = Some a" "pc_locked (cs_pc s j) = Some a"
  shows "i = j"
  using cache_invD(1)[OF assms(1,2)] cache_invD(1)[OF assms(1,3)] by auto

lemma free_unlocked:
  assumes "cache_inv s" "cs_heap s a = Some c" "cl_lock c = None"
  shows "pc_locked (cs_pc s j) \<noteq> Some a"
  using cache_invD(1)[OF assms(1), of j a] assms(2,3) by auto

lemma cache_step_inv:
  assumes "cache_step ttl s s'" "cache_inv s"
  shows "cache_inv s'"
  using assms
proof (induction rule: cache_step.induct)
  case (add s i key crt a)
  then have "cache_inv (set_cell a \<lparr>cl_entry = \<lparr>ce_Data = None, ce_CreatedOn = 0\<rparr>, cl_lock = None\<rparr>
    (s\<lparr>cs_store := (cs_store s)(key \<mapsto> a)\<rparr>))" (is "cache_inv ?t")
    by (intro cache_inv_new[where i = i]) auto
  then show ?case by (rule cache_inv_move) (auto simp: set_cell_def)
next
  case (lock s i a key crt c)
  then show ?case using free_unlocked[OF lock(4,2,3)] by (intro cache_inv_cell) auto
next
  case (hit s i a key crt c)
  then show ?case using locked_alone[OF hit(4), of i a] by (intro cache_inv_cell) auto
next
  case (failed s i a key c)
  then show ?case using locked_alone[OF failed(3), of i a] by (intro cache_inv_cell) auto
next
  case (fetched s i a key c d)
  then show ?case using locked_alone[OF fetched(3), of i a] by (intro cache_inv_cell) auto
next
  case (delete s key)
  show ?case using cache_invD[OF delete] by (intro cache_invI) (auto split: if_splits)
next
  case (tick s now)
  show ?case using cache_invD[OF tick(2)] by (intro cache_invI) auto
qed (rule cache_inv_move, assumption, auto)+

lemma cache_reach_inv: "cache_reach ttl s \<Longrightarrow> cache_inv s"
proof (induction rule: cache_reach.induct)
  case init
  then show ?case by (simp add: cache_inv_def cs_init_def)
qed (rule cache_step_inv)

section \<open>Properties\<close>

text \<open>C26. The timed cache implements the abstract cache: a read, a delete, a set and an update of the store of entries are
  a read, a removal and a store of the values and times a client sees. An entry with nil data, which \<open>getInternal\<close> adds
  and a failed fetch leaves behind, is invisible.\<close>

theorem TimedCache_refines:
  "(case tc_get clock getter t w key crt of (t', w', r) \<Rightarrow> (tc_view t', w', r)) =
     spec_get (tc_TTL t) clock getter (tc_view t) w key crt \<and>
   tc_view (tc_Delete t key) = (tc_view t)(key := None) \<and>
   tc_view (tc_Set t key d now) = spec_store (tc_view t) key d now \<and>
   tc_view (tc_Update t key d now) = spec_store (tc_view t) key d now"
proof -
  obtain t' w' r where "tc_get clock getter t w key crt = (t', w', r)" by (metis prod_cases3)
  then show ?thesis using tc_get_refines(1)[of clock getter t w key crt t' w' r] by (simp add: tc_writes_refine)
qed


text \<open>A run: thread 0 fetches a key while thread 1 waits for the lock of the entry.\<close>

definition run_call :: "nat \<Rightarrow> nat cstate \<Rightarrow> nat cstate" where
  "run_call i = set_pc i (Calling ''k'' CacheReadTypeDefault)"

definition run_added :: "nat cstate" where
  "run_added = set_pc 0 (Holding 0 ''k'' CacheReadTypeDefault)
     (set_cell 0 \<lparr>cl_entry = \<lparr>ce_Data = None, ce_CreatedOn = 0\<rparr>, cl_lock = None\<rparr>
       ((run_call 0 cs_init)\<lparr>cs_store := (cs_store (run_call 0 cs_init))(''k'' \<mapsto> 0)\<rparr>))"

definition run_locked :: "nat cstate" where
  "run_locked = set_pc 0 (Locked 0 ''k'' CacheReadTypeDefault)
     (set_cell 0 \<lparr>cl_entry = \<lparr>ce_Data = None, ce_CreatedOn = 0\<rparr>, cl_lock = Some 0\<rparr> run_added)"

definition run_waits :: "nat cstate" where
  "run_waits = set_pc 1 (Holding 0 ''k'' CacheReadTypeDefault) (run_call 1 (set_pc 0 (Fetching 0 ''k'') run_locked))"

lemmas run_defs = run_call_def run_added_def run_locked_def run_waits_def set_pc_def set_cell_def cs_init_def

lemma run_waits_reach: "cache_reach 5 run_waits"
proof -
  have 1: "cache_reach 5 (run_call 0 cs_init)"
    by (rule cache_reach.step[OF cache_reach.init], unfold run_call_def, rule cache_step.call) (simp add: cs_init_def)
  have 2: "cache_reach 5 run_added"
    by (rule cache_reach.step[OF 1], unfold run_added_def, rule cache_step.add) (simp_all add: run_defs)
  have 3: "cache_reach 5 run_locked"
  proof (rule cache_reach.step[OF 2])
    show "cache_step 5 run_added run_locked"
      using cache_step.lock[of run_added 0 0 "''k''" CacheReadTypeDefault "\<lparr>cl_entry = \<lparr>ce_Data = None, ce_CreatedOn = 0\<rparr>, cl_lock = None\<rparr>" 5]
      by (simp add: run_locked_def) (simp add: run_defs)
  qed
  have 4: "cache_reach 5 (set_pc 0 (Fetching 0 ''k'') run_locked)"
    by (rule cache_reach.step[OF 3], rule cache_step.miss[where crt = CacheReadTypeDefault and c = "\<lparr>cl_entry = \<lparr>ce_Data = None, ce_CreatedOn = 0\<rparr>, cl_lock = Some 0\<rparr>"]) (simp_all add: run_defs cache_hit_def)
  have 5: "cache_reach 5 (run_call 1 (set_pc 0 (Fetching 0 ''k'') run_locked))"
    by (rule cache_reach.step[OF 4], unfold run_call_def, rule cache_step.call) (simp add: run_defs)
  show ?thesis
    by (rule cache_reach.step[OF 5], unfold run_waits_def, rule cache_step.find) (simp_all add: run_defs)
qed



text \<open>A cloud that holds one security group and a clock; names are compared without their case, as Azure does.\<close>

definition toy_client :: "(SecurityGroup \<times> int) nsg_client" where
  "toy_client = \<lparr>
     sgc_Get = (\<lambda>w rg n. (w, if EqualFold n ''nsg'' then Inr (fst w) else Inl (ResponseError 404 ''not found''))),
     sgc_CreateOrUpdate = (\<lambda>w rg n sg. if EqualFold n ''nsg'' then ((sg, snd w), None) else (w, Some (ResponseError 400 ''bad name'')))\<rparr>"

definition toy_group :: "string \<Rightarrow> bool \<Rightarrow> SecurityGroup" where
  "toy_group n t = \<lparr>sg_Name = Some n, sg_SecurityRules = Some [], sg_Tags = (if t then Some [] else None)\<rparr>"

definition toy_repo :: securityGroupRepo where
  "toy_repo = \<lparr>sgr_ResourceGroup = ''rg'', sgr_Name = ''nsg'', sgr_CacheTTLInSeconds = 120,
     sgr_Cache = Timed \<lparr>tc_Store = [(''nsg'', \<lparr>ce_Data = Some (toy_group ''NSG'' False), ce_CreatedOn = 0\<rparr>)], tc_TTL = 120\<rparr>\<rparr>"


text \<open>The cache is invalidated under the name in the group that is written and read under the configured name: when the
  two are spelled differently, as names that Azure does not distinguish may be, a read after a successful write still
  returns the old group while it is young.\<close>

theorem nsg_write_other_spelling_stale:
  assumes "CreateOrUpdateSecurityGroup client az w sg = (az', w', None)"
    and "sg_Name sg = Some n" "n \<noteq> sgr_Name az" "sgr_Name az \<noteq> []"
    and "res_view (sgr_Cache az) (sgr_Name az) = Some (old, t)" "clock w' - t < res_ttl (sgr_Cache az)"
  shows "snd (GetSecurityGroup clock client az' w') = (w', Inr old)"
  using write_repo[OF assms(1,2)] read_elsewhere[where clock = clock and w = w' and client = client, OF assms(4,3,5,6)] by (simp add: keeps_cache_def)

lemma toy_names: "EqualFold ''NSG'' ''nsg''"
  by code_simp

theorem nsg_write_other_spelling_stale_witness:
  "(case CreateOrUpdateSecurityGroup toy_client toy_repo (toy_group ''NSG'' False, 7) (toy_group ''NSG'' True) of
      (az', w', r) \<Rightarrow> r = None \<and> fst w' = toy_group ''NSG'' True \<and>
        snd (GetSecurityGroup snd toy_client az' w') = (w', Inr (toy_group ''NSG'' False)))"
proof -
  obtain az' w' r where c: "CreateOrUpdateSecurityGroup toy_client toy_repo (toy_group ''NSG'' False, 7) (toy_group ''NSG'' True) = (az', w', r)"
    by (metis prod_cases3)
  then have r: "r = None" "w' = (toy_group ''NSG'' True, 7)"
    using toy_names by (auto simp: CreateOrUpdateSecurityGroup_def toy_client_def toy_group_def)
  have "snd (GetSecurityGroup snd toy_client az' w') = (w', Inr (toy_group ''NSG'' False))"
    by (rule nsg_write_other_spelling_stale[OF c[unfolded r(1)], of "''NSG''" "toy_group ''NSG'' False" 0])
      (simp_all add: toy_group_def toy_repo_def res_view_def tc_view_def res_ttl_def r(2))
  then show ?thesis using c r by simp
qed

end
