(* ===== verification/Routes.thy ===== *)
theory Routes
  imports NsgRepo AzureUtils FnUtil
begin

text \<open>
  \<open>pkg/provider/azure_routes.go\<close> and \<open>pkg/provider/routetable\<close>: the repository of the route table with its cache, the
  updater that collects operations on routes and writes them in one batch, and the calls of the route controller that
  queue operations. The repository is used through its interface, a record of functions on a state \<open>'s\<close>;
  \<open>rt_repository\<close> is the implementation of the program.
\<close>

record RouteProperties =
  rp_AddressPrefix :: "string option"
  rp_NextHopType :: "string option"
  rp_NextHopIPAddress :: "string option"

record Route =
  rt_Name :: "string option"
  rt_Properties :: "RouteProperties option"

text \<open>Of the properties of a route table the program uses the routes only.\<close>

record RouteTable =
  tb_Name :: "string option"
  tb_Location :: "string option"
  tb_Tags :: "tags option"
  tb_Properties :: "Route list option"

datatype rt_error =
    GetRouteTableError azerr
  | CreateOrUpdateRouteTableError azerr
  | ErrMissingRouteTableName

datatype rt_fail = RtPanic | RtError rt_error

record 's route_repo =
  repo_Get :: "'s \<Rightarrow> string \<Rightarrow> AzureCacheReadType \<Rightarrow> 's \<times> (rt_fail, RouteTable option) result"
  repo_CreateOrUpdate :: "'s \<Rightarrow> RouteTable \<Rightarrow> 's \<times> rt_error option"

section \<open>The repository\<close>

text \<open>The client of the API returns a pointer, so what is cached is an interface value that is nil, a nil pointer or a table.\<close>

record 'w rt_client =
  rtc_Get :: "'w \<Rightarrow> string \<Rightarrow> string \<Rightarrow> 'w \<times> (azerr, RouteTable option) result"
  rtc_CreateOrUpdate :: "'w \<Rightarrow> string \<Rightarrow> string \<Rightarrow> RouteTable \<Rightarrow> 'w \<times> azerr option"

record repo =
  rr_resourceGroup :: string
  rr_cache :: "RouteTable option Resource"

definition DefaultCacheTTL :: int where
  "DefaultCacheTTL = 120000000000"

definition rt_getter :: "'w rt_client \<Rightarrow> string \<Rightarrow> ('w, azerr, RouteTable option) GetFunc" where
  "rt_getter client resourceGroup w key =
     (case rtc_Get client w resourceGroup key of
        (w', r) \<Rightarrow>
          (case CheckResourceExistsFromAzcoreError (case r of Inl e \<Rightarrow> Some e | Inr _ \<Rightarrow> None) of
             (_, Some err) \<Rightarrow> (w', Inl err)
           | (found, None) \<Rightarrow>
               if \<not> found then (w', Inr None) else (w', Inr (case r of Inl _ \<Rightarrow> Some None | Inr rt \<Rightarrow> Some rt))))"

definition rt_NewCache :: "'w rt_client \<Rightarrow> string \<Rightarrow> int \<Rightarrow> bool \<Rightarrow> (string, RouteTable option Resource) result" where
  "rt_NewCache client resourceGroup cacheTTL disableAPICallCache =
     NewTimedCache (if cacheTTL = 0 then DefaultCacheTTL else cacheTTL) (Some (rt_getter client resourceGroup)) disableAPICallCache"

definition NewRepo :: "'w rt_client \<Rightarrow> string \<Rightarrow> int \<Rightarrow> bool \<Rightarrow> (string, repo) result" where
  "NewRepo client resourceGroup cacheTTL disableAPICallCache =
     (case rt_NewCache client resourceGroup cacheTTL disableAPICallCache of
        Inl e \<Rightarrow> Inl (''new RouteTable cache: '' @ e)
      | Inr c \<Rightarrow> Inr \<lparr>rr_resourceGroup = resourceGroup, rr_cache = c\<rparr>)"

text \<open>The type assertion on the cached value panics on a nil interface.\<close>

definition rr_Get ::
  "('w \<Rightarrow> int) \<Rightarrow> 'w rt_client \<Rightarrow> repo \<times> 'w \<Rightarrow> string \<Rightarrow> AzureCacheReadType \<Rightarrow>
   (repo \<times> 'w) \<times> (rt_fail, RouteTable option) result" where
  "rr_Get clock client s routeTableName crt =
     (case s of
        (r, w) \<Rightarrow>
          (case res_Get clock (rt_getter client (rr_resourceGroup r)) (rr_cache r) w routeTableName crt of
             (c, w', x) \<Rightarrow>
               ((r\<lparr>rr_cache := c\<rparr>, w'),
                (case x of
                   Inl e \<Rightarrow> Inl (RtError (GetRouteTableError e))
                 | Inr None \<Rightarrow> Inl RtPanic
                 | Inr (Some rt) \<Rightarrow> Inr rt))))"

definition rr_CreateOrUpdate ::
  "'w rt_client \<Rightarrow> repo \<times> 'w \<Rightarrow> RouteTable \<Rightarrow> (repo \<times> 'w) \<times> rt_error option" where
  "rr_CreateOrUpdate client s routeTable =
     (case s of
        (r, w) \<Rightarrow>
          (case tb_Name routeTable of
             None \<Rightarrow> ((r, w), Some ErrMissingRouteTableName)
           | Some name \<Rightarrow>
               (case rtc_CreateOrUpdate client w (rr_resourceGroup r) name routeTable of
                  (w', Some e) \<Rightarrow> ((r, w'), Some (CreateOrUpdateRouteTableError e))
                | (w', None) \<Rightarrow> ((r\<lparr>rr_cache := res_Delete (rr_cache r) name\<rparr>, w'), None))))"

definition rt_repository :: "('w \<Rightarrow> int) \<Rightarrow> 'w rt_client \<Rightarrow> (repo \<times> 'w) route_repo" where
  "rt_repository clock client = \<lparr>repo_Get = rr_Get clock client, repo_CreateOrUpdate = rr_CreateOrUpdate client\<rparr>"

section \<open>The updater\<close>

text \<open>The operations as their three constructor functions make them.\<close>

datatype delayedRouteOperation =
    getAddRouteOperation Route
  | getDeleteRouteOperation Route
  | getUpdateRouteTableTagsOperation "tags option"

record route_config =
  rc_RouteTableName :: string
  rc_RouteTableResourceGroup :: string
  rc_ResourceGroup :: string
  rc_Location :: string
  rc_ipv6DualStackEnabled :: bool
  rc_nodeNames :: IgnoreCaseSet
  rc_Tags :: string
  rc_TagsMap :: "(string \<times> string) list"
  rc_SystemTags :: string

definition RouteNameSeparator :: string where
  "RouteNameSeparator = ''____''"

definition outdated_route :: "route_config \<Rightarrow> Route \<Rightarrow> bool" where
  "outdated_route az route =
     (let split = Split (deref (rt_Name route) []) RouteNameSeparator
      in set_Has (rc_nodeNames az) (hd split) \<and>
         (rc_ipv6DualStackEnabled az \<and> length split = 1 \<or> \<not> rc_ipv6DualStackEnabled az \<and> length split = 2))"

fun cleanup_loop :: "route_config \<Rightarrow> nat \<Rightarrow> Route list \<times> bool \<Rightarrow> Route list \<times> bool" where
  "cleanup_loop az 0 s = s"
| "cleanup_loop az (Suc i) (routes, changed) =
     cleanup_loop az i
       (if outdated_route az (routes ! i) then (take i routes @ drop (i + 1) routes, True) else (routes, changed))"

definition cleanupOutdatedRoutes :: "route_config \<Rightarrow> Route list \<Rightarrow> Route list \<times> bool" where
  "cleanupOutdatedRoutes az existingRoutes = cleanup_loop az (length existingRoutes) (existingRoutes, False)"

definition same_name :: "Route \<Rightarrow> Route \<Rightarrow> bool" where
  "same_name e r = EqualFold (deref (rt_Name e) []) (deref (rt_Name r) [])"

definition same_target :: "Route \<Rightarrow> Route \<Rightarrow> bool" where
  "same_target e r =
     (case (rt_Properties e, rt_Properties r) of
        (Some p, Some q) \<Rightarrow>
          EqualFold (deref (rp_AddressPrefix p) []) (deref (rp_AddressPrefix q) []) \<and>
          EqualFold (deref (rp_NextHopIPAddress p) []) (deref (rp_NextHopIPAddress q) [])
      | _ \<Rightarrow> False)"

text \<open>The first route with the name of \<open>r\<close> is taken out.\<close>

fun take_named :: "Route \<Rightarrow> Route list \<Rightarrow> Route list \<times> Route option" where
  "take_named r [] = ([], None)"
| "take_named r (e # es) =
     (if same_name e r then (es, Some e) else (case take_named r es of (es', x) \<Rightarrow> (e # es', x)))"

record update_state =
  us_table :: RouteTable
  us_routes :: "Route list"
  us_dirty :: bool
  us_onlyUpdateTags :: bool

fun apply_operation :: "delayedRouteOperation \<Rightarrow> update_state \<Rightarrow> update_state" where
  "apply_operation (getUpdateRouteTableTagsOperation tags) u = u\<lparr>us_table := (us_table u)\<lparr>tb_Tags := tags\<rparr>, us_dirty := True\<rparr>"
| "apply_operation (getAddRouteOperation r) u =
     (case take_named r (us_routes u) of
        (routes, found) \<Rightarrow>
          let routeMatch = (case found of None \<Rightarrow> False | Some e \<Rightarrow> same_target e r)
          in u\<lparr>us_routes := routes @ [r], us_dirty := us_dirty u \<or> \<not> routeMatch, us_onlyUpdateTags := False\<rparr>)"
| "apply_operation (getDeleteRouteOperation r) u =
     (case take_named r (us_routes u) of
        (routes, found) \<Rightarrow> u\<lparr>us_routes := routes, us_dirty := us_dirty u \<or> found \<noteq> None, us_onlyUpdateTags := False\<rparr>)"

definition createRouteTable :: "route_config \<Rightarrow> 's route_repo \<Rightarrow> 's \<Rightarrow> 's \<times> rt_error option" where
  "createRouteTable az rp s =
     repo_CreateOrUpdate rp s
       \<lparr>tb_Name = Some (rc_RouteTableName az), tb_Location = Some (rc_Location az), tb_Tags = None, tb_Properties = Some []\<rparr>"

definition load_table :: "route_config \<Rightarrow> 's route_repo \<Rightarrow> 's \<Rightarrow> 's \<times> (rt_fail, RouteTable option) result" where
  "load_table az rp s =
     (case repo_Get rp s (rc_RouteTableName az) CacheReadTypeDefault of
        (s1, Inr None) \<Rightarrow>
          (case createRouteTable az rp s1 of
             (s2, Some e) \<Rightarrow> (s2, Inl (RtError e))
           | (s2, None) \<Rightarrow> repo_Get rp s2 (rc_RouteTableName az) CacheReadTypeDefault)
      | x \<Rightarrow> x)"

definition reconcile_table :: "route_config \<Rightarrow> RouteTable \<Rightarrow> delayedRouteOperation list \<Rightarrow> update_state" where
  "reconcile_table az rt ops =
     (let (routes, dirty) = cleanupOutdatedRoutes az (deref (tb_Properties rt) [])
      in fold apply_operation ops \<lparr>us_table = rt, us_routes = routes, us_dirty = dirty, us_onlyUpdateTags = \<not> dirty\<rparr>)"

text \<open>The batch, up to the notification. The error of the write stays in a variable of the inner block.\<close>

definition update_table :: "route_config \<Rightarrow> 's route_repo \<Rightarrow> 's \<Rightarrow> delayedRouteOperation list \<Rightarrow> 's \<times> (rt_fail, unit) result" where
  "update_table az rp s ops =
     (case load_table az rp s of
        (s1, Inl e) \<Rightarrow> (s1, Inl e)
      | (s1, Inr None) \<Rightarrow> (s1, Inl RtPanic)
      | (s1, Inr (Some rt)) \<Rightarrow>
          let u = reconcile_table az rt ops
          in if us_dirty u then
               if us_onlyUpdateTags u then
                 (case repo_CreateOrUpdate rp s1 (us_table u) of (s2, _) \<Rightarrow> (s2, Inr ()))
               else if tb_Properties (us_table u) = None then (s1, Inl RtPanic)
               else (case repo_CreateOrUpdate rp s1 ((us_table u)\<lparr>tb_Properties := Some (us_routes u)\<rparr>) of (s2, _) \<Rightarrow> (s2, Inr ()))
             else (s1, Inr ()))"

text \<open>The deferred function sends the error of the outer block to every operation, also while a panic unwinds.\<close>

definition notified :: "(rt_fail, unit) result \<Rightarrow> rt_error option" where
  "notified r = (case r of Inl (RtError e) \<Rightarrow> Some e | _ \<Rightarrow> None)"

record 's delayedRouteUpdater =
  up_state :: 's
  up_routesToUpdate :: "delayedRouteOperation list"

definition addOperation :: "'s delayedRouteUpdater \<Rightarrow> delayedRouteOperation \<Rightarrow> 's delayedRouteUpdater" where
  "addOperation d operation = d\<lparr>up_routesToUpdate := up_routesToUpdate d @ [operation]\<rparr>"

text \<open>The result lists what each operation is told, and whether the updater panics.\<close>

definition updateRoutes ::
  "route_config \<Rightarrow> 's route_repo \<Rightarrow> 's delayedRouteUpdater \<Rightarrow>
   's delayedRouteUpdater \<times> (delayedRouteOperation \<times> rt_error option) list \<times> bool" where
  "updateRoutes az rp d =
     (if up_routesToUpdate d = [] then (d, [], False)
      else case update_table az rp (up_state d) (up_routesToUpdate d) of
             (s, r) \<Rightarrow>
               (\<lparr>up_state = s, up_routesToUpdate = []\<rparr>, map (\<lambda>op. (op, notified r)) (up_routesToUpdate d), r = Inl RtPanic))"

section \<open>Calls of the route controller\<close>

text \<open>A call returns, or queues an operation and goes on with what the operation is told.\<close>

datatype 'a call =
    Return 'a
  | Wait delayedRouteOperation "rt_error option \<Rightarrow> 'a call"

record KubeRoute =
  kr_Name :: string
  kr_TargetNode :: string
  kr_DestinationCIDR :: string

datatype call_error =
    EnvError string
  | NoIPFamilyMatch
  | OpError rt_error
  | CallPanic

text \<open>What the calls get from other parts of the program and from \<open>k8s.io/utils/net\<close>.\<close>

record route_env =
  re_IsNodeUnmanaged :: "string \<Rightarrow> (string, bool) result"
  re_GetUnmanagedNodes :: "(string, string list) result"
  re_getIPForMachine :: "string \<Rightarrow> (string, string) result"
  re_getPrivateIPsForMachine :: "string \<Rightarrow> (string, string list) result"
  re_IsIPv6CIDRString :: "string \<Rightarrow> bool"
  re_IsIPv6String :: "string \<Rightarrow> bool"

definition cidrtoRfc1035 :: "string \<Rightarrow> string" where
  "cidrtoRfc1035 cidr = strip_char (CHR ''/'') (strip_char (CHR ''.'') (strip_char (CHR '':'') cidr))"

definition mapNodeNameToRouteName :: "bool \<Rightarrow> string \<Rightarrow> string \<Rightarrow> string" where
  "mapNodeNameToRouteName ipv6DualStackEnabled nodeName cidr =
     (if \<not> ipv6DualStackEnabled then nodeName else nodeName @ ''____'' @ cidrtoRfc1035 cidr)"

definition MapRouteNameToNodeName :: "bool \<Rightarrow> string \<Rightarrow> string" where
  "MapRouteNameToNodeName ipv6DualStackEnabled routeName =
     (if \<not> ipv6DualStackEnabled then routeName else hd (Split routeName RouteNameSeparator))"

fun findFirstIPByFamily :: "(string \<Rightarrow> bool) \<Rightarrow> string list \<Rightarrow> bool \<Rightarrow> string option" where
  "findFirstIPByFamily isV6 [] v6 = None"
| "findFirstIPByFamily isV6 (ip # ips) v6 = (if v6 = isV6 ip then Some ip else findFirstIPByFamily isV6 ips v6)"

definition route_target :: "route_config \<Rightarrow> route_env \<Rightarrow> KubeRoute \<Rightarrow> (call_error, string) result" where
  "route_target az env kubeRoute =
     (let CIDRv6 = re_IsIPv6CIDRString env (kr_DestinationCIDR kubeRoute)
      in if \<not> rc_ipv6DualStackEnabled az \<and> \<not> CIDRv6 then
           (case re_getIPForMachine env (kr_TargetNode kubeRoute) of Inl e \<Rightarrow> Inl (EnvError e) | Inr ip \<Rightarrow> Inr ip)
         else
           (case re_getPrivateIPsForMachine env (kr_TargetNode kubeRoute) of
              Inl e \<Rightarrow> Inl (EnvError e)
            | Inr ips \<Rightarrow>
                (case findFirstIPByFamily (re_IsIPv6String env) ips CIDRv6 of
                   None \<Rightarrow> Inl NoIPFamilyMatch
                 | Some ip \<Rightarrow> Inr ip)))"

definition route_of :: "route_config \<Rightarrow> KubeRoute \<Rightarrow> string \<Rightarrow> Route" where
  "route_of az kubeRoute targetIP =
     \<lparr>rt_Name = Some (mapNodeNameToRouteName (rc_ipv6DualStackEnabled az) (kr_TargetNode kubeRoute) (kr_DestinationCIDR kubeRoute)),
      rt_Properties = Some \<lparr>rp_AddressPrefix = Some (kr_DestinationCIDR kubeRoute), rp_NextHopType = Some ''VirtualAppliance'',
                            rp_NextHopIPAddress = Some targetIP\<rparr>\<rparr>"

text \<open>The first component is the map \<open>routeCIDRs\<close> of the routes of unmanaged nodes.\<close>

definition CreateRoute ::
  "route_config \<Rightarrow> route_env \<Rightarrow> (string \<times> string) list \<Rightarrow> KubeRoute \<Rightarrow> (string \<times> string) list \<times> call_error option call" where
  "CreateRoute az env routeCIDRs kubeRoute =
     (case re_IsNodeUnmanaged env (kr_TargetNode kubeRoute) of
        Inl e \<Rightarrow> (routeCIDRs, Return (Some (EnvError e)))
      | Inr True \<Rightarrow> (put (kr_TargetNode kubeRoute) (kr_DestinationCIDR kubeRoute) routeCIDRs, Return None)
      | Inr False \<Rightarrow>
          (routeCIDRs,
           (case route_target az env kubeRoute of
              Inl e \<Rightarrow> Return (Some e)
            | Inr targetIP \<Rightarrow>
                Wait (getAddRouteOperation (route_of az kubeRoute targetIP)) (\<lambda>err. Return (map_option OpError err)))))"

definition bare_route :: "string \<Rightarrow> Route" where
  "bare_route name =
     \<lparr>rt_Name = Some name,
      rt_Properties = Some \<lparr>rp_AddressPrefix = None, rp_NextHopType = None, rp_NextHopIPAddress = None\<rparr>\<rparr>"

definition DeleteRoute ::
  "route_config \<Rightarrow> route_env \<Rightarrow> (string \<times> string) list \<Rightarrow> KubeRoute \<Rightarrow> (string \<times> string) list \<times> call_error option call" where
  "DeleteRoute az env routeCIDRs kubeRoute =
     (case re_IsNodeUnmanaged env (kr_TargetNode kubeRoute) of
        Inl e \<Rightarrow> (routeCIDRs, Return (Some (EnvError e)))
      | Inr True \<Rightarrow> (del (kr_TargetNode kubeRoute) routeCIDRs, Return None)
      | Inr False \<Rightarrow>
          (let routeName = mapNodeNameToRouteName (rc_ipv6DualStackEnabled az) (kr_TargetNode kubeRoute) (kr_DestinationCIDR kubeRoute)
           in (routeCIDRs,
               Wait (getDeleteRouteOperation (bare_route routeName))
                 (\<lambda>err. case err of
                    Some e \<Rightarrow> Return (Some (OpError e))
                  | None \<Rightarrow>
                      if rc_ipv6DualStackEnabled az then
                        Wait (getDeleteRouteOperation (bare_route (hd (Split routeName RouteNameSeparator))))
                          (\<lambda>err. Return (map_option OpError err))
                      else Return None))))"

definition kube_route :: "bool \<Rightarrow> Route \<Rightarrow> KubeRoute option" where
  "kube_route dual route =
     (case (rt_Name route, rt_Properties route) of
        (Some name, Some props) \<Rightarrow>
          map_option (\<lambda>cidr. \<lparr>kr_Name = name, kr_TargetNode = MapRouteNameToNodeName dual name, kr_DestinationCIDR = cidr\<rparr>)
            (rp_AddressPrefix props)
      | _ \<Rightarrow> None)"

fun kube_routes :: "bool \<Rightarrow> Route list \<Rightarrow> KubeRoute list option" where
  "kube_routes dual [] = Some []"
| "kube_routes dual (r # rs) =
     (case kube_route dual r of
        None \<Rightarrow> None
      | Some k \<Rightarrow> map_option (Cons k) (kube_routes dual rs))"

definition processRoutes :: "bool \<Rightarrow> (rt_fail, RouteTable option) result \<Rightarrow> (call_error, KubeRoute list) result" where
  "processRoutes dual x =
     (case x of
        Inl RtPanic \<Rightarrow> Inl CallPanic
      | Inl (RtError e) \<Rightarrow> Inl (OpError e)
      | Inr None \<Rightarrow> Inr []
      | Inr (Some rt) \<Rightarrow>
          (case kube_routes dual (deref (tb_Properties rt) []) of None \<Rightarrow> Inl CallPanic | Some ks \<Rightarrow> Inr ks))"

text \<open>\<open>None\<close> is the panic on a nil route table.\<close>

definition ensureRouteTableTagged :: "route_config \<Rightarrow> RouteTable option \<Rightarrow> (tags option \<times> bool) option" where
  "ensureRouteTableTagged az rt =
     (if \<not> EqualFold (rc_RouteTableResourceGroup az) (rc_ResourceGroup az) then Some (None, False)
      else if rc_Tags az = [] \<and> rc_TagsMap az = [] then Some (None, False)
      else case rt of
             None \<Rightarrow> None
           | Some t \<Rightarrow>
               (case reconcileTags (rc_SystemTags az) (deref (tb_Tags t) []) (parseTags (rc_Tags az) (rc_TagsMap az)) of
                  (tags, changed) \<Rightarrow> Some (Some tags, changed)))"

definition unmanaged_routes :: "bool \<Rightarrow> (string \<times> string) list \<Rightarrow> string list \<Rightarrow> KubeRoute list" where
  "unmanaged_routes dual routeCIDRs nodes =
     List.map_filter
       (\<lambda>n. map_option (\<lambda>cidr. \<lparr>kr_Name = n, kr_TargetNode = MapRouteNameToNodeName dual n, kr_DestinationCIDR = cidr\<rparr>) (map_of routeCIDRs n))
       nodes"

definition ListRoutes ::
  "route_config \<Rightarrow> route_env \<Rightarrow> 's route_repo \<Rightarrow> (string \<times> string) list \<Rightarrow> 's \<Rightarrow> 's \<times> (call_error, KubeRoute list) result call" where
  "ListRoutes az env rp routeCIDRs s =
     (case repo_Get rp s (rc_RouteTableName az) CacheReadTypeDefault of
        (s1, x) \<Rightarrow>
          (s1,
           (case processRoutes (rc_ipv6DualStackEnabled az) x of
              Inl e \<Rightarrow> Return (Inl e)
            | Inr routes0 \<Rightarrow>
                (case re_GetUnmanagedNodes env of
                   Inl e \<Rightarrow> Return (Inl (EnvError e))
                 | Inr nodes \<Rightarrow>
                     let routes = routes0 @ unmanaged_routes (rc_ipv6DualStackEnabled az) routeCIDRs nodes
                     in (case ensureRouteTableTagged az (case x of Inl _ \<Rightarrow> None | Inr t \<Rightarrow> t) of
                          None \<Rightarrow> Return (Inl CallPanic)
                        | Some (tags, False) \<Rightarrow> Return (Inr routes)
                        | Some (tags, True) \<Rightarrow>
                            Wait (getUpdateRouteTableTagsOperation tags)
                              (\<lambda>err. Return (case err of None \<Rightarrow> Inr routes | Some e \<Rightarrow> Inl (OpError e))))))))"

text \<open>A call whose operations are each handled by a run of the updater of its own. \<open>None\<close>: the updater panicked.\<close>

primrec run_alone :: "route_config \<Rightarrow> 's route_repo \<Rightarrow> 'a call \<Rightarrow> 's \<Rightarrow> 's \<times> 'a option" where
  "run_alone az rp (Return a) = (\<lambda>s. (s, Some a))"
| "run_alone az rp (Wait op k) =
     (\<lambda>s. case updateRoutes az rp (addOperation \<lparr>up_state = s, up_routesToUpdate = []\<rparr> op) of
            (d, [(_, err)], False) \<Rightarrow> run_alone az rp (k err) (up_state d)
          | (d, _) \<Rightarrow> (up_state d, None))"

end
