(* ===== verification/RouteFacts.thy ===== *)
theory RouteFacts
  imports Routes
begin

text \<open>
  What a batch of route operations does to the table: the updater refines operations on a map from names to routes, whether
  or not it writes. Then the calls of the route controller on top of it, and the ways in which a failure gets lost.
\<close>

section \<open>The table as a map\<close>

definition route_key :: "Route \<Rightarrow> string" where
  "route_key r = ToLower (deref (rt_Name r) [])"

definition routes_view :: "Route list \<Rightarrow> (string \<rightharpoonup> Route)" where
  "routes_view rs = map_of (map (\<lambda>r. (route_key r, r)) rs)"

definition distinct_names :: "Route list \<Rightarrow> bool" where
  "distinct_names rs = distinct (map route_key rs)"

fun route_spec :: "delayedRouteOperation \<Rightarrow> (string \<rightharpoonup> Route) \<Rightarrow> (string \<rightharpoonup> Route)" where
  "route_spec (getAddRouteOperation r) m = m(route_key r \<mapsto> r)"
| "route_spec (getDeleteRouteOperation r) m = m(route_key r := None)"
| "route_spec (getUpdateRouteTableTagsOperation _) m = m"

fun tag_spec :: "delayedRouteOperation \<Rightarrow> tags option \<Rightarrow> tags option" where
  "tag_spec (getUpdateRouteTableTagsOperation tags) _ = tags"
| "tag_spec _ t = t"

text \<open>Two tables that route the same traffic under the same names.\<close>

definition similar :: "Route \<Rightarrow> Route \<Rightarrow> bool" where
  "similar e r = (e = r \<or> same_target e r)"

definition agree :: "(string \<rightharpoonup> Route) \<Rightarrow> (string \<rightharpoonup> Route) \<Rightarrow> bool" where
  "agree m m' = (\<forall>n. rel_option similar (m n) (m' n))"

lemma same_name_key: "same_name e r \<longleftrightarrow> route_key e = route_key r"
  by (simp add: same_name_def route_key_def EqualFold_def)

lemma same_target_trans: "same_target a b \<Longrightarrow> same_target b c \<Longrightarrow> same_target a c"
  by (auto simp: same_target_def EqualFold_def split: option.splits)

lemma agree_refl [simp]: "agree m m"
  by (auto simp: agree_def similar_def intro: option.rel_refl)

lemma agree_trans:
  assumes "agree l m" "agree m n"
  shows "agree l n"
proof -
  have T: "similar a b \<Longrightarrow> similar b c \<Longrightarrow> similar a c" for a b c
    using same_target_trans[of a b c] by (auto simp: similar_def)
  have "rel_option similar (l k) (n k)" for k
  proof -
    have "rel_option similar (l k) (m k)" "rel_option similar (m k) (n k)" using assms by (simp_all add: agree_def)
    then show ?thesis by (cases "l k"; cases "m k"; cases "n k") (auto intro: T)
  qed
  then show ?thesis by (simp add: agree_def)
qed

section \<open>Cleaning\<close>

lemma cleanup_loop_filter:
  "i \<le> length rs \<Longrightarrow> cleanup_loop az i (rs, c) =
     (filter (\<lambda>r. \<not> outdated_route az r) (take i rs) @ drop i rs, c \<or> list_ex (outdated_route az) (take i rs))"
proof (induction i arbitrary: rs c)
  case (Suc i)
  then show ?case by (auto simp: take_Suc_conv_app_nth Suc_leD simp flip: Cons_nth_drop_Suc)
qed simp

lemma cleanupOutdatedRoutes_filter:
  "cleanupOutdatedRoutes az rs = (filter (\<lambda>r. \<not> outdated_route az r) rs, list_ex (outdated_route az) rs)"
  by (simp add: cleanupOutdatedRoutes_def cleanup_loop_filter)

lemma not_cleaned: "\<not> list_ex (outdated_route az) rs \<Longrightarrow> filter (\<lambda>r. \<not> outdated_route az r) rs = rs"
  by (induction rs) auto

section \<open>Operations\<close>

lemma routes_view_None: "routes_view rs n = None \<longleftrightarrow> n \<notin> route_key ` set rs"
  by (auto simp: routes_view_def map_of_eq_None_iff image_image)

lemma routes_view_Nil [simp]: "routes_view [] = Map.empty"
  by (simp add: routes_view_def)

lemma routes_view_Cons [simp]: "routes_view (r # rs) = (routes_view rs)(route_key r \<mapsto> r)"
  by (simp add: routes_view_def)

lemma routes_view_snoc:
  "routes_view rs (route_key r) = None \<Longrightarrow> routes_view (rs @ [r]) = (routes_view rs)(route_key r \<mapsto> r)"
  by (induction rs) (auto simp: fun_upd_twist split: if_splits)

lemma take_named_view:
  assumes "take_named r rs = (rs', x)" "distinct_names rs"
  shows "x = routes_view rs (route_key r)" "routes_view rs' = (routes_view rs)(route_key r := None)" "distinct_names rs'"
    "set rs' \<subseteq> set rs"
  using assms
proof (induction rs arbitrary: rs')
  case (Cons e es)
  {
    case 1
    with Cons show ?case by (auto simp: same_name_key distinct_names_def split: if_splits prod.splits)
  next
    case 2
    show ?case
    proof (cases "same_name e r")
      case True
      then have "routes_view es (route_key r) = None"
        using 2 by (auto simp: routes_view_None same_name_key distinct_names_def)
      then show ?thesis using True 2 by (auto simp: same_name_key fun_eq_iff)
    next
      case False
      then show ?thesis
        using Cons(2)[of "tl rs'"] 2 by (auto simp: same_name_key distinct_names_def fun_upd_twist split: prod.splits)
    qed
  next
    case 3
    show ?case
    proof (cases "same_name e r")
      case False
      then obtain es' where es': "take_named r es = (es', x)" "rs' = e # es'" using 3 by (auto split: prod.splits)
      then have "set es' \<subseteq> set es" "distinct_names es'"
        using Cons(3,4)[of es'] 3(2) by (auto simp: distinct_names_def)
      then show ?thesis using 3(2) es'(2) by (auto simp: distinct_names_def)
    qed (use 3 in \<open>auto simp: distinct_names_def\<close>)
  next
    case 4
    with Cons(4) show ?case by (fastforce simp: distinct_names_def split: if_splits prod.splits)
  }
qed (auto simp: distinct_names_def)

lemma distinct_names_snoc:
  "distinct_names rs \<Longrightarrow> routes_view rs (route_key r) = None \<Longrightarrow> distinct_names (rs @ [r])"
  by (auto simp: distinct_names_def routes_view_None)

text \<open>One operation of the batch: the map changes as specified, and a table that stays clean keeps its meaning.\<close>

lemma apply_operation_view:
  fixes op :: delayedRouteOperation
  assumes "distinct_names (us_routes u)"
  defines "u' \<equiv> apply_operation op u"
  shows "routes_view (us_routes u') = route_spec op (routes_view (us_routes u))" "distinct_names (us_routes u')"
    "\<not> us_dirty u' \<Longrightarrow> \<not> us_dirty u \<and> agree (routes_view (us_routes u)) (routes_view (us_routes u'))"
    "us_onlyUpdateTags u' \<Longrightarrow> us_onlyUpdateTags u \<and> us_routes u' = us_routes u"
    "us_table u' = (us_table u)\<lparr>tb_Tags := tag_spec op (tb_Tags (us_table u))\<rparr>"
proof -
  note V = take_named_view[OF _ assms(1)]
  have view: "routes_view (us_routes u') = route_spec op (routes_view (us_routes u)) \<and> distinct_names (us_routes u')"
    by (cases op) (auto simp: u'_def assms(1) V routes_view_snoc distinct_names_snoc split: prod.splits)
  then show "routes_view (us_routes u') = route_spec op (routes_view (us_routes u))" "distinct_names (us_routes u')" by auto
  show "us_onlyUpdateTags u' \<Longrightarrow> us_onlyUpdateTags u \<and> us_routes u' = us_routes u"
    by (cases op) (auto simp: u'_def split: prod.splits)
  show "us_table u' = (us_table u)\<lparr>tb_Tags := tag_spec op (tb_Tags (us_table u))\<rparr>"
    by (cases op) (auto simp: u'_def split: prod.splits)
  assume clean: "\<not> us_dirty u'"
  have "agree (routes_view (us_routes u)) (route_spec op (routes_view (us_routes u)))"
  proof (cases op)
    case (getAddRouteOperation r)
    then obtain e where "routes_view (us_routes u) (route_key r) = Some e" "same_target e r"
      using clean V(1)[of r] by (auto simp: u'_def split: prod.splits option.splits)
    then show ?thesis using getAddRouteOperation
      by (auto simp: agree_def similar_def intro: option.rel_refl)
  next
    case (getDeleteRouteOperation r)
    then have "routes_view (us_routes u) (route_key r) = None"
      using clean V(1)[of r] by (auto simp: u'_def split: prod.splits)
    then have "(routes_view (us_routes u))(route_key r := None) = routes_view (us_routes u)" by (simp add: fun_upd_idem)
    then show ?thesis using getDeleteRouteOperation by simp
  qed simp
  moreover have "\<not> us_dirty u" using clean by (cases op) (auto simp: u'_def split: prod.splits)
  ultimately show "\<not> us_dirty u \<and> agree (routes_view (us_routes u)) (routes_view (us_routes u'))" using view by simp
qed

lemma apply_operations_view:
  assumes "distinct_names (us_routes u)"
  shows "let u' = fold apply_operation ops u in
    routes_view (us_routes u') = fold route_spec ops (routes_view (us_routes u)) \<and> distinct_names (us_routes u') \<and>
    (us_dirty u' \<or> \<not> us_dirty u \<and> agree (routes_view (us_routes u)) (routes_view (us_routes u'))) \<and>
    (us_onlyUpdateTags u' \<longrightarrow> us_onlyUpdateTags u \<and> us_routes u' = us_routes u) \<and>
    us_table u' = (us_table u)\<lparr>tb_Tags := fold tag_spec ops (tb_Tags (us_table u))\<rparr>"
  using assms
proof (induction ops arbitrary: u)
  case (Cons op ops)
  note A = apply_operation_view[OF Cons.prems, of op]
  show ?case using Cons.IH[OF A(2)] A(1,3,4,5) agree_trans by (auto simp: Let_def)
qed simp

section \<open>A batch\<close>

lemma distinct_names_filter: "distinct_names rs \<Longrightarrow> distinct_names (filter P rs)"
  by (simp add: distinct_names_def distinct_map_filter)

text \<open>The table the batch leaves behind: the one it wrote, or the one it found.\<close>

definition final_table :: "route_config \<Rightarrow> RouteTable \<Rightarrow> delayedRouteOperation list \<Rightarrow> RouteTable" where
  "final_table az rt ops =
     (let u = reconcile_table az rt ops
      in if \<not> us_dirty u then rt
         else if us_onlyUpdateTags u then us_table u
         else (us_table u)\<lparr>tb_Properties := Some (us_routes u)\<rparr>)"

lemma reconcile_table_view:
  fixes az :: route_config and ops :: "delayedRouteOperation list"
  assumes "tb_Properties rt = Some rs" "distinct_names rs"
  defines "u \<equiv> reconcile_table az rt ops"
    and "m \<equiv> fold route_spec ops (routes_view (filter (\<lambda>r. \<not> outdated_route az r) rs))"
  shows "routes_view (us_routes u) = m"
    "us_dirty u \<or> agree (routes_view rs) m"
    "us_onlyUpdateTags u \<Longrightarrow> us_routes u = rs"
    "us_table u = rt\<lparr>tb_Tags := fold tag_spec ops (tb_Tags rt)\<rparr>"
proof -
  let ?u0 = "\<lparr>us_table = rt, us_routes = filter (\<lambda>r. \<not> outdated_route az r) rs, us_dirty = list_ex (outdated_route az) rs,
    us_onlyUpdateTags = \<not> list_ex (outdated_route az) rs\<rparr>"
  have u: "u = fold apply_operation ops ?u0"
    by (simp add: u_def reconcile_table_def cleanupOutdatedRoutes_filter assms(1) deref_def)
  have "distinct_names (us_routes ?u0)" using assms(2) by (simp add: distinct_names_filter)
  from apply_operations_view[OF this, of ops, folded u]
  show "routes_view (us_routes u) = m" "us_dirty u \<or> agree (routes_view rs) m" "us_onlyUpdateTags u \<Longrightarrow> us_routes u = rs"
    "us_table u = rt\<lparr>tb_Tags := fold tag_spec ops (tb_Tags rt)\<rparr>"
    by (auto simp: Let_def m_def not_cleaned)
qed

lemma clean_tags:
  assumes "\<not> us_dirty (fold apply_operation ops u)"
  shows "fold tag_spec ops t = t"
proof -
  have keep: "us_dirty u \<Longrightarrow> us_dirty (fold apply_operation ops u)" for ops u
  proof (induction ops arbitrary: u)
    case (Cons op ops)
    have "us_dirty (apply_operation op u)" using Cons.prems by (cases op) (auto split: prod.splits)
    then show ?case using Cons.IH by simp
  qed simp
  show ?thesis using assms
  proof (induction ops arbitrary: u)
    case (Cons op ops)
    then show ?case using keep[of "apply_operation op u" ops] by (cases op) (auto split: prod.splits)
  qed simp
qed

lemma final_table_view:
  fixes az :: route_config and ops :: "delayedRouteOperation list"
  assumes "tb_Properties rt = Some rs" "distinct_names rs"
  defines "T \<equiv> final_table az rt ops"
  shows "agree (routes_view (deref (tb_Properties T) [])) (fold route_spec ops (routes_view (filter (\<lambda>r. \<not> outdated_route az r) rs)))"
    "tb_Name T = tb_Name rt" "tb_Tags T = fold tag_spec ops (tb_Tags rt)" "tb_Location T = tb_Location rt"
proof -
  let ?u = "reconcile_table az rt ops"
  note R = reconcile_table_view[OF assms(1,2), of az ops]
  show "agree (routes_view (deref (tb_Properties T) [])) (fold route_spec ops (routes_view (filter (\<lambda>r. \<not> outdated_route az r) rs)))"
    using R assms(1) by (auto simp: T_def final_table_def Let_def deref_def)
  show "tb_Name T = tb_Name rt" "tb_Location T = tb_Location rt" using R(4) by (simp_all add: T_def final_table_def Let_def)
  have "\<not> us_dirty ?u \<Longrightarrow> fold tag_spec ops (tb_Tags rt) = tb_Tags rt"
    using clean_tags[of ops] by (auto simp: reconcile_table_def split: prod.splits)
  then show "tb_Tags T = fold tag_spec ops (tb_Tags rt)" using R(4) by (simp add: T_def final_table_def Let_def)
qed

lemma final_table_written:
  assumes "tb_Properties rt = Some rs" "distinct_names rs" "us_dirty (reconcile_table az rt ops)"
  shows "routes_view (deref (tb_Properties (final_table az rt ops)) []) =
    fold route_spec ops (routes_view (filter (\<lambda>r. \<not> outdated_route az r) rs))"
  using reconcile_table_view[OF assms(1,2), of az ops] assms(1,3) by (auto simp: final_table_def Let_def deref_def)

lemma update_table_final:
  assumes "load_table az rp s = (s1, Inr (Some rt))" "tb_Properties rt = Some rs" "distinct_names rs"
  shows "update_table az rp s ops =
    ((if us_dirty (reconcile_table az rt ops) then fst (repo_CreateOrUpdate rp s1 (final_table az rt ops)) else s1), Inr ())"
  using assms(1,2) reconcile_table_view(4)[OF assms(2,3), of az ops]
  by (auto simp: update_table_def final_table_def Let_def split: prod.splits)


text \<open>A repository that keeps one table and counts the writes.\<close>

definition toy_rp :: "bool \<Rightarrow> (RouteTable \<times> nat) route_repo" where
  "toy_rp ok = \<lparr>repo_Get = (\<lambda>s _ _. (s, Inr (Some (fst s)))),
     repo_CreateOrUpdate = (\<lambda>s t. if ok then ((t, Suc (snd s)), None) else (s, Some (CreateOrUpdateRouteTableError (OtherError ''down''))))\<rparr>"

definition toy_route :: "string \<Rightarrow> string \<Rightarrow> Route" where
  "toy_route n ip = \<lparr>rt_Name = Some n,
     rt_Properties = Some \<lparr>rp_AddressPrefix = Some ''10.0.0.0/24'', rp_NextHopType = Some ''VirtualAppliance'', rp_NextHopIPAddress = Some ip\<rparr>\<rparr>"

definition toy_table :: "Route list \<Rightarrow> RouteTable" where
  "toy_table rs = \<lparr>tb_Name = Some ''rt'', tb_Location = None, tb_Tags = None, tb_Properties = Some rs\<rparr>"

definition toy_az :: route_config where
  "toy_az = \<lparr>rc_RouteTableName = ''rt'', rc_RouteTableResourceGroup = ''rg'', rc_ResourceGroup = ''rg'', rc_Location = ''l'',
     rc_ipv6DualStackEnabled = False, rc_nodeNames = NewString [''n''], rc_Tags = [], rc_TagsMap = [], rc_SystemTags = []\<rparr>"

lemma toy_load: "load_table az (toy_rp ok) (t, n) = ((t, n), Inr (Some t))"
  by (simp add: load_table_def toy_rp_def)


section \<open>Calls\<close>

lemma run_alone_Wait:
  assumes "load_table az rp s = (s1, Inr (Some rt))" "tb_Properties rt = Some rs" "distinct_names rs"
  shows "run_alone az rp (Wait op k) s =
    run_alone az rp (k None)
      (if us_dirty (reconcile_table az rt [op]) then fst (repo_CreateOrUpdate rp s1 (final_table az rt [op])) else s1)"
  using update_table_final[OF assms, of "[op]"] by (simp add: updateRoutes_def addOperation_def notified_def)

text \<open>The name of a route gives back its node, when the name of the node has no underscore.\<close>

lemma split_acc_first:
  assumes "CHR ''_'' \<notin> set s"
  shows "hd (split_acc ''____'' acc (s @ ''____'' @ t)) = rev acc @ s"
  using assms
proof (induction s arbitrary: acc)
  case Nil
  show ?case by (subst split_acc.simps) (simp add: HasPrefix_def)
next
  case (Cons c s)
  then have "\<not> HasPrefix (c # s @ ''____'' @ t) ''____''" by (auto simp: HasPrefix_def)
  with Cons show ?case by (subst split_acc.simps) simp
qed

lemma MapRouteNameToNodeName_route:
  assumes "CHR ''_'' \<notin> set node"
  shows "MapRouteNameToNodeName dual (mapNodeNameToRouteName dual node cidr) = node"
  using split_acc_first[OF assms, of "[]" "cidrtoRfc1035 cidr"]
  by (simp add: MapRouteNameToNodeName_def mapNodeNameToRouteName_def Split_def RouteNameSeparator_def)

lemma kube_routes_snoc:
  "kube_routes dual rs = Some ks \<Longrightarrow> kube_route dual r = Some k \<Longrightarrow> kube_routes dual (rs @ [r]) = Some (ks @ [k])"
  by (induction rs arbitrary: ks) (auto split: option.splits)

lemma take_named_new: "routes_view rs (route_key r) = None \<Longrightarrow> take_named r rs = (rs, None)"
  by (induction rs) (auto simp: same_name_key split: if_splits)

lemma final_table_new:
  assumes "tb_Properties rt = Some rs"
    and "routes_view (filter (\<lambda>r. \<not> outdated_route az r) rs) (route_key r) = None"
  shows "final_table az rt [getAddRouteOperation r] =
      rt\<lparr>tb_Properties := Some (filter (\<lambda>r. \<not> outdated_route az r) rs @ [r])\<rparr>"
    "us_dirty (reconcile_table az rt [getAddRouteOperation r])"
  using assms(1) take_named_new[OF assms(2)]
  by (simp_all add: final_table_def reconcile_table_def cleanupOutdatedRoutes_filter deref_def)


definition toy_env :: route_env where
  "toy_env = \<lparr>re_IsNodeUnmanaged = (\<lambda>_. Inr False), re_GetUnmanagedNodes = Inr [], re_getIPForMachine = (\<lambda>_. Inr ''8''),
     re_getPrivateIPsForMachine = (\<lambda>_. Inr [''8'']), re_IsIPv6CIDRString = (\<lambda>_. False), re_IsIPv6String = (\<lambda>_. False)\<rparr>"

definition toy_kr :: KubeRoute where
  "toy_kr = \<lparr>kr_Name = ''hint'', kr_TargetNode = ''n'', kr_DestinationCIDR = ''10.0.0.0/24''\<rparr>"

lemma toy_call:
  "re_IsNodeUnmanaged toy_env (kr_TargetNode toy_kr) = Inr False" "route_target toy_az toy_env toy_kr = Inr ''8''"
  "CHR ''_'' \<notin> set (kr_TargetNode toy_kr)" "route_of toy_az toy_kr ''8'' = toy_route ''n'' ''8''"
  by (simp_all add: toy_env_def toy_kr_def route_target_def toy_az_def route_of_def toy_route_def mapNodeNameToRouteName_def)


text \<open>C31. When the table can be read but not written, \<open>CreateRoute\<close> reports success and leaves the table as it was: the error of the
  write is assigned to a variable of the inner block, and the operations are told the outer one.\<close>

theorem CreateRoute_hides_write_error:
  assumes "load_table az rp s = (s1, Inr (Some rt))" "tb_Properties rt = Some rs" "distinct_names rs"
    and "re_IsNodeUnmanaged env (kr_TargetNode kr) = Inr False" "route_target az env kr = Inr ip"
    and "\<And>t. repo_CreateOrUpdate rp s1 t = (s1, Some e)"
  shows "run_alone az rp (snd (CreateRoute az env cidrs kr)) s = (s1, Some None)"
  using assms(4-6) by (simp add: CreateRoute_def run_alone_Wait[OF assms(1-3)] del: run_alone.simps(2))

theorem CreateRoute_hides_write_error_witness:
  "run_alone toy_az (toy_rp False) (snd (CreateRoute toy_az toy_env [] toy_kr)) (toy_table [], 0) = ((toy_table [], 0), Some None)"
  by (rule CreateRoute_hides_write_error[OF toy_load[of toy_az False "toy_table []" 0], where rs = "[]"])
    (simp_all add: toy_call, simp_all add: toy_table_def distinct_names_def toy_rp_def)

text \<open>When the route table does not exist, the updater panics instead of creating it: the repository asserts the type of a nil
  value, so that the branch that creates the table is not reached.\<close>

theorem missing_route_table_panics:
  assumes "rtc_Get client w (rr_resourceGroup r) (rc_RouteTableName az) = (w', Inl (ResponseError 404 msg))"
    and "res_view (rr_cache r) (rc_RouteTableName az) = None" "ops \<noteq> []"
  shows "snd (updateRoutes az (rt_repository clock client) \<lparr>up_state = (r, w), up_routesToUpdate = ops\<rparr>) =
    (map (\<lambda>op. (op, None)) ops, True)"
proof -
  obtain c' w1 x where g: "res_Get clock (rt_getter client (rr_resourceGroup r)) (rr_cache r) w (rc_RouteTableName az) CacheReadTypeDefault = (c', w1, x)"
    by (metis prod_cases3)
  have "rt_getter client (rr_resourceGroup r) w (rc_RouteTableName az) = (w1, x)" using res.answers[OF g] assms(2) by simp
  then have "x = Inr None"
    using assms(1) by (auto simp: rt_getter_def CheckResourceExistsFromAzcoreError_def StatusNotFound_def)
  then show ?thesis
    using g assms(3) by (simp add: updateRoutes_def update_table_def load_table_def rt_repository_def rr_Get_def notified_def)
qed

text \<open>A cloud that does not have the table.\<close>

definition empty_cloud :: "unit rt_client" where
  "empty_cloud = \<lparr>rtc_Get = (\<lambda>w _ _. (w, Inl (ResponseError 404 ''not found''))), rtc_CreateOrUpdate = (\<lambda>w _ _ _. (w, None))\<rparr>"

theorem missing_route_table_panics_witness:
  "snd (updateRoutes toy_az (rt_repository (\<lambda>_. 0) empty_cloud)
     \<lparr>up_state = (\<lparr>rr_resourceGroup = ''rg'', rr_cache = Timed \<lparr>tc_Store = [], tc_TTL = DefaultCacheTTL\<rparr>\<rparr>, ()),
      up_routesToUpdate = [getAddRouteOperation (toy_route ''n'' ''8'')]\<rparr>) =
   ([(getAddRouteOperation (toy_route ''n'' ''8''), None)], True)"
proof -
  have "snd (updateRoutes toy_az (rt_repository (\<lambda>_. 0) empty_cloud)
     \<lparr>up_state = (\<lparr>rr_resourceGroup = ''rg'', rr_cache = Timed \<lparr>tc_Store = [], tc_TTL = DefaultCacheTTL\<rparr>\<rparr>, ()),
      up_routesToUpdate = [getAddRouteOperation (toy_route ''n'' ''8'')]\<rparr>) =
     (map (\<lambda>op. (op, None)) [getAddRouteOperation (toy_route ''n'' ''8'')], True)"
    by (rule missing_route_table_panics[where w' = "()" and msg = "''not found''"])
      (simp_all add: empty_cloud_def res_view_def tc_view_def)
  then show ?thesis by simp
qed

end
