(* ===== verification/LbNames.thy ===== *)
theory LbNames
  imports AzureUtils SecurityGroup
begin

text \<open>
  Names and identifiers of load balancer resources: the naming functions of \<open>pkg/provider/azure_standard.go\<close> and
  \<open>pkg/provider/azure_loadbalancer.go\<close> and the parts of the configuration they read. A slice expression that is out of
  range panics, which is \<open>None\<close>. \<open>DefaultLoadBalancerName\<close> is the function of \<open>k8s.io/cloud-provider\<close>.
\<close>

record lb_config =
  lc_SubscriptionID :: string
  lc_NetworkResourceSubscriptionID :: string
  lc_ResourceGroup :: string
  lc_LoadBalancerResourceGroup :: string
  lc_LoadBalancerSku :: string
  lc_DisableOutboundSNAT :: "bool option"
  lc_HealthProbeMode :: string
  lc_SharedProbePort :: int
  lc_SharedProbePath :: string

definition LoadBalancerSkuStandard :: string where
  "LoadBalancerSkuStandard = ''standard''"

definition LoadBalancerRuleNameMaxLength :: int where
  "LoadBalancerRuleNameMaxLength = 80"

definition PIPPrefixNameMaxLength :: int where
  "PIPPrefixNameMaxLength = 80"

definition IPFamilySuffixLength :: int where
  "IPFamilySuffixLength = 5"

definition SharedProbeName :: string where
  "SharedProbeName = ''cluster-service-shared-health-probe''"

definition ServiceAnnotationLoadBalancerInternalSubnet :: string where
  "ServiceAnnotationLoadBalancerInternalSubnet = ''service.beta.kubernetes.io/azure-load-balancer-internal-subnet''"

definition ServiceAnnotationSharedSecurityRule :: string where
  "ServiceAnnotationSharedSecurityRule = ''service.beta.kubernetes.io/azure-shared-securityrule''"

section \<open>Configuration\<close>

definition UseStandardLoadBalancer :: "lb_config \<Rightarrow> bool" where
  "UseStandardLoadBalancer az = EqualFold (lc_LoadBalancerSku az) LoadBalancerSkuStandard"

definition DisableLoadBalancerOutboundSNAT :: "lb_config \<Rightarrow> bool" where
  "DisableLoadBalancerOutboundSNAT az =
     (if \<not> UseStandardLoadBalancer az then False
      else case lc_DisableOutboundSNAT az of None \<Rightarrow> False | Some b \<Rightarrow> b)"

definition useSharedLoadBalancerHealthProbeMode :: "lb_config \<Rightarrow> bool" where
  "useSharedLoadBalancerHealthProbeMode az = EqualFold (lc_HealthProbeMode az) ''shared''"

definition UsesNetworkResourceInDifferentSubscription :: "lb_config \<Rightarrow> bool" where
  "UsesNetworkResourceInDifferentSubscription az =
     (0 < length (lc_NetworkResourceSubscriptionID az) \<and>
      \<not> EqualFold (lc_NetworkResourceSubscriptionID az) (lc_SubscriptionID az))"

definition getNetworkResourceSubscriptionID :: "lb_config \<Rightarrow> string" where
  "getNetworkResourceSubscriptionID az =
     (if UsesNetworkResourceInDifferentSubscription az then lc_NetworkResourceSubscriptionID az else lc_SubscriptionID az)"

definition getLoadBalancerResourceGroup :: "lb_config \<Rightarrow> string" where
  "getLoadBalancerResourceGroup az =
     (if lc_LoadBalancerResourceGroup az \<noteq> [] then lc_LoadBalancerResourceGroup az else lc_ResourceGroup az)"

section \<open>Identifiers\<close>

definition lb_resource_id :: "string \<Rightarrow> string \<Rightarrow> string \<Rightarrow> string \<Rightarrow> string \<Rightarrow> string" where
  "lb_resource_id kind sub rgName lbName name =
     ''/subscriptions/'' @ sub @ ''/resourceGroups/'' @ rgName @ ''/providers/Microsoft.Network/loadBalancers/'' @ lbName @
     ''/'' @ kind @ ''/'' @ name"

definition getAvailabilitySetID :: "lb_config \<Rightarrow> string \<Rightarrow> string \<Rightarrow> string" where
  "getAvailabilitySetID az resourceGroup availabilitySetName =
     ''/subscriptions/'' @ lc_SubscriptionID az @ ''/resourceGroups/'' @ resourceGroup @
     ''/providers/Microsoft.Compute/availabilitySets/'' @ availabilitySetName"

definition getFrontendIPConfigIDWithRG :: "lb_config \<Rightarrow> string \<Rightarrow> string \<Rightarrow> string \<Rightarrow> string" where
  "getFrontendIPConfigIDWithRG az lbName rgName fipConfigName =
     lb_resource_id ''frontendIPConfigurations'' (getNetworkResourceSubscriptionID az) rgName lbName fipConfigName"

definition getFrontendIPConfigID :: "lb_config \<Rightarrow> string \<Rightarrow> string \<Rightarrow> string" where
  "getFrontendIPConfigID az lbName fipConfigName =
     getFrontendIPConfigIDWithRG az lbName (getLoadBalancerResourceGroup az) fipConfigName"

definition getBackendPoolIDWithRG :: "lb_config \<Rightarrow> string \<Rightarrow> string \<Rightarrow> string \<Rightarrow> string" where
  "getBackendPoolIDWithRG az lbName rgName backendPoolName =
     lb_resource_id ''backendAddressPools'' (getNetworkResourceSubscriptionID az) rgName lbName backendPoolName"

definition getBackendPoolID :: "lb_config \<Rightarrow> string \<Rightarrow> string \<Rightarrow> string" where
  "getBackendPoolID az lbName backendPoolName =
     getBackendPoolIDWithRG az lbName (getLoadBalancerResourceGroup az) backendPoolName"

definition getLoadBalancerProbeIDWithRG :: "lb_config \<Rightarrow> string \<Rightarrow> string \<Rightarrow> string \<Rightarrow> string" where
  "getLoadBalancerProbeIDWithRG az lbName rgName lbRuleName =
     lb_resource_id ''probes'' (getNetworkResourceSubscriptionID az) rgName lbName lbRuleName"

definition getLoadBalancerProbeID :: "lb_config \<Rightarrow> string \<Rightarrow> string \<Rightarrow> string" where
  "getLoadBalancerProbeID az lbName lbRuleName =
     getLoadBalancerProbeIDWithRG az lbName (getLoadBalancerResourceGroup az) lbRuleName"

definition getBackendPoolName :: "string \<Rightarrow> bool \<Rightarrow> string" where
  "getBackendPoolName clusterName isIPv6 = (if isIPv6 then clusterName @ ''-IPv6'' else clusterName)"

definition getBackendPoolNames :: "string \<Rightarrow> bool \<Rightarrow> string" where
  "getBackendPoolNames clusterName = getBackendPoolName clusterName"

definition getBackendPoolIDs :: "lb_config \<Rightarrow> string \<Rightarrow> string \<Rightarrow> bool \<Rightarrow> string" where
  "getBackendPoolIDs az clusterName lbName = (\<lambda>v6. getBackendPoolID az lbName (getBackendPoolName clusterName v6))"

definition isBackendPoolIPv6 :: "string \<Rightarrow> bool" where
  "isBackendPoolIPv6 name = managedResourceHasIPv6Suffix name"

definition getLastSegment :: "string \<Rightarrow> string \<Rightarrow> (string, string) result" where
  "getLastSegment i separator =
     (let name = last (Split i separator)
      in if name = [] then Inl ''resource name was missing from identifier'' else Inr name)"

section \<open>Names\<close>

definition DefaultLoadBalancerName :: "Service \<Rightarrow> string" where
  "DefaultLoadBalancerName service = take 32 (strip_char (CHR ''-'') (''a'' @ svc_UID service))"

definition getRulePrefix :: "Service \<Rightarrow> string" where
  "getRulePrefix service = DefaultLoadBalancerName service"

definition getServiceName :: "Service \<Rightarrow> string" where
  "getServiceName service = svc_Namespace service @ ''/'' @ svc_Name service"

definition requiresInternalLoadBalancer :: "Service \<Rightarrow> bool" where
  "requiresInternalLoadBalancer service =
     (case map_of (svc_Annotations service) ServiceAnnotationLoadBalancerInternal of
        Some l \<Rightarrow> l = TrueAnnotationValue
      | None \<Rightarrow> False)"

definition getInternalSubnet :: "Service \<Rightarrow> string option" where
  "getInternalSubnet service =
     (if requiresInternalLoadBalancer service
      then (case map_of (svc_Annotations service) ServiceAnnotationLoadBalancerInternalSubnet of
              Some l \<Rightarrow> if TrimSpace l \<noteq> [] then Some l else None
            | None \<Rightarrow> None)
      else None)"

definition useSharedSecurityRule :: "Service \<Rightarrow> bool" where
  "useSharedSecurityRule service =
     (case map_of (svc_Annotations service) ServiceAnnotationSharedSecurityRule of
        Some l \<Rightarrow> l = TrueAnnotationValue
      | None \<Rightarrow> False)"

text \<open>\<open>s[:n]\<close>.\<close>

definition slice_to :: "string \<Rightarrow> int \<Rightarrow> string option" where
  "slice_to s n = (if 0 \<le> n \<and> n \<le> int (length s) then Some (take (nat n) s) else None)"

definition getLoadBalancerRuleName :: "Service \<Rightarrow> string \<Rightarrow> int \<Rightarrow> bool \<Rightarrow> string option" where
  "getLoadBalancerRuleName service protocol port isIPv6 =
     (let prefix = getRulePrefix service;
          ruleName = prefix @ ''-'' @ protocol @ ''-'' @ FormatInt port;
          isDualStack = isServiceDualStack service
      in case getInternalSubnet service of
           None \<Rightarrow> Some (getResourceByIPFamily ruleName isDualStack isIPv6)
         | Some subnet \<Rightarrow>
             let maxLength = LoadBalancerRuleNameMaxLength - IPFamilySuffixLength
             in (case (if maxLength < int (length ruleName) + int (length subnet) + 1
                      then slice_to subnet (maxLength - int (length ruleName) - 1) else Some subnet) of
                  None \<Rightarrow> None
                | Some subnetSegment \<Rightarrow>
                    Some (getResourceByIPFamily
                            (prefix @ ''-'' @ subnetSegment @ ''-'' @ protocol @ ''-'' @ FormatInt port) isDualStack isIPv6)))"

definition getloadbalancerHAmodeRuleName :: "Service \<Rightarrow> bool \<Rightarrow> string option" where
  "getloadbalancerHAmodeRuleName service isIPv6 =
     (case svc_Ports service of
        [] \<Rightarrow> None
      | p # _ \<Rightarrow> getLoadBalancerRuleName service (sp_Protocol p) (sp_Port p) isIPv6)"

definition replace_char :: "char \<Rightarrow> char \<Rightarrow> string \<Rightarrow> string" where
  "replace_char a b s = map (\<lambda>c. if c = a then b else c) s"

definition getSecurityRuleName :: "Service \<Rightarrow> ServicePort \<Rightarrow> string \<Rightarrow> bool \<Rightarrow> string" where
  "getSecurityRuleName service port sourceAddrPrefix isIPv6 =
     (let safePrefix = replace_char (CHR '':'') (CHR ''.'') (replace_char (CHR ''/'') (CHR ''_'') sourceAddrPrefix);
          name = (if useSharedSecurityRule service then ''shared'' else getRulePrefix service) @
            ''-'' @ sp_Protocol port @ ''-'' @ FormatInt (sp_Port port) @ ''-'' @ safePrefix
      in getResourceByIPFamily name (isServiceDualStack service) isIPv6)"

definition getPublicIPName :: "string \<Rightarrow> Service \<Rightarrow> bool \<Rightarrow> string" where
  "getPublicIPName clusterName service isIPv6 =
     (let pipName0 = clusterName @ ''-'' @ DefaultLoadBalancerName service;
          prefixID = getServicePIPPrefixID (Some service) isIPv6;
          pipName = (if prefixID \<noteq> [] then (case getLastSegment prefixID ''/'' of
                                            Inr i \<Rightarrow> pipName0 @ ''-'' @ i | Inl _ \<Rightarrow> pipName0) else pipName0);
          maxLength = nat (PIPPrefixNameMaxLength - IPFamilySuffixLength)
      in getResourceByIPFamily (if maxLength < length pipName then take maxLength pipName else pipName)
           (isServiceDualStack service) isIPv6)"

text \<open>\<open>getProtocolsFromKubernetesProtocol\<close>: protocols of the load balancing rule, the security rule and the probe.\<close>

definition getProtocolsFromKubernetesProtocol :: "string \<Rightarrow> (string, string \<times> string \<times> string option) result" where
  "getProtocolsFromKubernetesProtocol protocol =
     (if protocol = ''TCP'' then Inr (''Tcp'', ''Tcp'', Some ''Tcp'')
      else if protocol = ''UDP'' then Inr (''Udp'', ''Udp'', None)
      else if protocol = ''SCTP'' then Inr (''All'', ''*'', None)
      else Inl ''only TCP, UDP and SCTP are supported for Azure LoadBalancers'')"

definition serviceOwnsRule :: "Service \<Rightarrow> string \<Rightarrow> bool" where
  "serviceOwnsRule service rule =
     (if \<not> EqualFold (svc_ExternalTrafficPolicy service) ''Local'' \<and> rule = SharedProbeName then True
      else HasPrefix (ToUpper rule) (ToUpper (getRulePrefix service)))"

definition isControlPlaneNode :: "(string \<times> string) list \<Rightarrow> bool" where
  "isControlPlaneNode labels =
     (if map_of labels ''node-role.kubernetes.io/control-plane'' \<noteq> None then True
      else if map_of labels ''node-role.kubernetes.io/master'' \<noteq> None then True
      else map_of labels ''kubernetes.io/role'' = Some ''master'')"

definition mapLoadBalancerNameToVMSet :: "string \<Rightarrow> string \<Rightarrow> string \<Rightarrow> string" where
  "mapLoadBalancerNameToVMSet primaryVMSetName lbName clusterName =
     (let vmSetName = trimSuffixIgnoreCase lbName InternalLoadBalancerNameSuffix
      in if EqualFold clusterName vmSetName then primaryVMSetName else vmSetName)"

definition mapVMSetNameToLoadBalancerName :: "string \<Rightarrow> string \<Rightarrow> string \<Rightarrow> string" where
  "mapVMSetNameToLoadBalancerName primaryVMSetName vmSetName clusterName =
     (if vmSetName = primaryVMSetName then clusterName else vmSetName)"

text \<open>\<open>getNextAvailablePriority\<close> on the priorities of the rules; a nil priority is \<open>None\<close> and panics when it is read.\<close>

fun priority_taken :: "int option list \<Rightarrow> int \<Rightarrow> bool option" where
  "priority_taken [] p = Some False"
| "priority_taken (r # rs) p = (case r of None \<Rightarrow> None | Some q \<Rightarrow> if q = p then Some True else priority_taken rs p)"

function next_available :: "int option list \<Rightarrow> int \<Rightarrow> (panic, int option) result" where
  "next_available rules smallest =
     (if LoadBalancerMaximumPriority \<le> smallest then Inr None
      else case priority_taken rules smallest of
             None \<Rightarrow> Inl NilDereference
           | Some True \<Rightarrow> next_available rules (smallest + 1)
           | Some False \<Rightarrow> Inr (Some smallest))"
  by pat_completeness auto
termination
  by (relation "measure (\<lambda>(rules, s). nat (LoadBalancerMaximumPriority - s))") auto

declare next_available.simps [simp del]

definition getNextAvailablePriority :: "int option list \<Rightarrow> (panic, int option) result" where
  "getNextAvailablePriority rules = next_available rules LoadBalancerMinimumPriority"

end
