(* ===== verification/HealthProbe.thy ===== *)
theory HealthProbe
  imports LbNames "HOL-Library.Word"
begin

text \<open>
  \<open>pkg/provider/azure_loadbalancer_healthprobe.go\<close>: the health probes of a service. Values of type \<open>int32\<close> are integers in
  that range; the one product of two of them wraps. A field of an embedded pointer that is nil panics, \<open>Inl\<close> of a
  \<open>hp_error\<close> or \<open>None\<close>.
\<close>

type_synonym SubResource = "string option"

record ProbeProperties =
  pp_Protocol :: string
  pp_Port :: "int option"
  pp_RequestPath :: "string option"
  pp_IntervalInSeconds :: "int option"
  pp_ProbeThreshold :: "int option"
  pp_LoadBalancingRules :: "SubResource list option"

record Probe =
  pb_ID :: "string option"
  pb_Name :: "string option"
  pb_Properties :: "ProbeProperties option"

datatype hp_error =
    HpPanic
  | HpAnnotation string string
  | HpAnnotationInt string attr_error
  | TotalProbe

definition HealthProbeDefaultProbeInterval :: int where
  "HealthProbeDefaultProbeInterval = 5"

definition HealthProbeDefaultNumOfProbe :: int where
  "HealthProbeDefaultNumOfProbe = 2"

definition HealthProbeDefaultRequestPath :: string where
  "HealthProbeDefaultRequestPath = ''/''"

definition buildClusterServiceSharedProbe :: "lb_config \<Rightarrow> Probe" where
  "buildClusterServiceSharedProbe az =
     \<lparr>pb_ID = None, pb_Name = Some SharedProbeName,
      pb_Properties = Some \<lparr>pp_Protocol = ''Http'', pp_Port = Some (lc_SharedProbePort az), pp_RequestPath = Some (lc_SharedProbePath az),
        pp_IntervalInSeconds = Some HealthProbeDefaultProbeInterval, pp_ProbeThreshold = Some HealthProbeDefaultNumOfProbe,
        pp_LoadBalancingRules = None\<rparr>\<rparr>"

section \<open>Interval and number of probes\<close>

definition probeIntervalValidator :: "int validator" where
  "probeIntervalValidator = Some (\<lambda>v. if v < 5 then Some ''the minimum value of interval is 5'' else None)"

definition numOfProbeValidator :: "int validator" where
  "numOfProbeValidator = Some (\<lambda>v. if v < 2 then Some ''the minimum value of num-of-probe is 2'' else None)"

text \<open>The value of a port, else the value of the service, else the default.\<close>

definition int_config :: "Service \<Rightarrow> int \<Rightarrow> string \<Rightarrow> string \<Rightarrow> int validator \<Rightarrow> int \<Rightarrow> (hp_error, int) result" where
  "int_config service port key annotation validator dflt =
     (case GetInt32HealthProbeConfigOfPortFromK8sSvcAnnotation (svc_Annotations service) port key [validator] of
        Inl e \<Rightarrow> Inl (HpAnnotationInt (BuildHealthProbeAnnotationKeyForPort port key) e)
      | Inr (Some v) \<Rightarrow> Inr v
      | Inr None \<Rightarrow>
          (case Getint32ValueFromK8sSvcAnnotation (svc_Annotations service) annotation [validator] of
             Inl e \<Rightarrow> Inl (HpAnnotationInt annotation e)
           | Inr (Some v) \<Rightarrow> Inr v
           | Inr None \<Rightarrow> Inr dflt))"

definition getHealthProbeConfigProbeInterval :: "Service \<Rightarrow> int \<Rightarrow> (hp_error, int) result" where
  "getHealthProbeConfigProbeInterval service port =
     int_config service port HealthProbeParamsProbeInterval ServiceAnnotationLoadBalancerHealthProbeInterval
       probeIntervalValidator HealthProbeDefaultProbeInterval"

definition getHealthProbeConfigNumOfProbe :: "Service \<Rightarrow> int \<Rightarrow> (hp_error, int) result" where
  "getHealthProbeConfigNumOfProbe service port =
     int_config service port HealthProbeParamsNumOfProbe ServiceAnnotationLoadBalancerHealthProbeNumOfProbe
       numOfProbeValidator HealthProbeDefaultNumOfProbe"

definition mul_int32 :: "int \<Rightarrow> int \<Rightarrow> int" where
  "mul_int32 a b = sint (word_of_int a * word_of_int b :: 32 word)"

definition getHealthProbeConfigProbeIntervalAndNumOfProbe :: "Service \<Rightarrow> int \<Rightarrow> (hp_error, int \<times> int) result" where
  "getHealthProbeConfigProbeIntervalAndNumOfProbe service port =
     (case getHealthProbeConfigNumOfProbe service port of
        Inl e \<Rightarrow> Inl e
      | Inr numberOfProbes \<Rightarrow>
          (case getHealthProbeConfigProbeInterval service port of
             Inl e \<Rightarrow> Inl e
           | Inr probeInterval \<Rightarrow>
               if 120 \<le> mul_int32 probeInterval numberOfProbes then Inl TotalProbe
               else Inr (probeInterval, numberOfProbes)))"

section \<open>The probe of a port\<close>

definition probe_port_validator :: "Service \<Rightarrow> string validator" where
  "probe_port_validator service =
     Some (\<lambda>s. if \<exists>item \<in> set (svc_Ports service). EqualFold (sp_Name item) s then None
               else case ParseInt 64 s of
                      Inl _ \<Rightarrow> Some (''port '' @ s @ '' not found in service'')
                    | Inr port \<Rightarrow> if port < 0 \<or> 65535 < port then Some (''port '' @ FormatInt port @ '' is out of range'') else None)"

text \<open>The port of the probe when the annotation gives one: a name stands for the node port of the last port of that name,
  a number for the node port of the first port with that number, or for itself.\<close>

definition annotated_port :: "Service \<Rightarrow> string \<Rightarrow> int option" where
  "annotated_port service probePort =
     (case ParseInt 32 probePort of
        Inl _ \<Rightarrow> fold (\<lambda>item p. if EqualFold (sp_Name item) probePort then Some (sp_NodePort item) else p) (svc_Ports service) None
      | Inr port \<Rightarrow>
          (case find (\<lambda>item. sp_Port item = port) (svc_Ports service) of
             Some item \<Rightarrow> Some (sp_NodePort item)
           | None \<Rightarrow> Some port))"

text \<open>Trimming writes through the pointer, so that a protocol taken from \<open>AppProtocol\<close> is trimmed in the service as well;
  trimming it again changes nothing.\<close>

definition probe_protocol :: "lb_config \<Rightarrow> Service \<Rightarrow> ServicePort \<Rightarrow> (hp_error, string) result" where
  "probe_protocol az service port =
     (case GetHealthProbeConfigOfPortFromK8sSvcAnnotation (svc_Annotations service) (sp_Port port) HealthProbeParamsProtocol [] of
        Inl e \<Rightarrow> Inl (HpAnnotation (BuildHealthProbeAnnotationKeyForPort (sp_Port port) HealthProbeParamsProtocol) e)
      | Inr p0 \<Rightarrow>
          (let p1 = (case p0 of None \<Rightarrow> sp_AppProtocol port | Some _ \<Rightarrow> p0)
           in case (case p1 of
                      Some _ \<Rightarrow> Inr p1
                    | None \<Rightarrow> GetAttributeValueInSvcAnnotation (svc_Annotations service)
                               ServiceAnnotationLoadBalancerHealthProbeProtocol []) of
                Inl e \<Rightarrow> Inl (HpAnnotation ServiceAnnotationLoadBalancerHealthProbeProtocol e)
              | Inr p2 \<Rightarrow>
                  let protocol = TrimSpace (deref p2 ''Tcp'')
                  in Inr (if EqualFold protocol ''Tcp'' then ''Tcp''
                          else if EqualFold protocol ''Https'' then (if \<not> UseStandardLoadBalancer az then ''Tcp'' else ''Https'')
                          else if EqualFold protocol ''Http'' then ''Http''
                          else ''Tcp'')))"

definition probe_path :: "Service \<Rightarrow> int \<Rightarrow> (hp_error, string) result" where
  "probe_path service port =
     (case GetHealthProbeConfigOfPortFromK8sSvcAnnotation (svc_Annotations service) port HealthProbeParamsRequestPath [] of
        Inl e \<Rightarrow> Inl (HpAnnotation (BuildHealthProbeAnnotationKeyForPort port HealthProbeParamsRequestPath) e)
      | Inr (Some path) \<Rightarrow> Inr path
      | Inr None \<Rightarrow>
          (case GetAttributeValueInSvcAnnotation (svc_Annotations service) ServiceAnnotationLoadBalancerHealthProbeRequestPath [] of
             Inl e \<Rightarrow> Inl (HpAnnotation ServiceAnnotationLoadBalancerHealthProbeRequestPath e)
           | Inr path \<Rightarrow> Inr (deref path HealthProbeDefaultRequestPath)))"

definition finish_probe :: "lb_config \<Rightarrow> Service \<Rightarrow> ServicePort \<Rightarrow> string \<Rightarrow> int option \<Rightarrow> (hp_error, Probe option) result" where
  "finish_probe az service port lbrule probePort =
     (case probe_protocol az service port of
        Inl e \<Rightarrow> Inl e
      | Inr protocol \<Rightarrow>
          (case (if EqualFold protocol ''Https'' \<or> EqualFold protocol ''Http''
                 then (case probe_path service (sp_Port port) of Inl e \<Rightarrow> Inl e | Inr p \<Rightarrow> Inr (Some p)) else Inr None) of
             Inl e \<Rightarrow> Inl e
           | Inr path \<Rightarrow>
               (case getHealthProbeConfigProbeIntervalAndNumOfProbe service (sp_Port port) of
                  Inl e \<Rightarrow> Inl e
                | Inr (interval, threshold) \<Rightarrow>
                    Inr (Some \<lparr>pb_ID = None, pb_Name = Some lbrule,
                      pb_Properties = Some \<lparr>pp_Protocol = protocol, pp_Port = probePort, pp_RequestPath = path,
                        pp_IntervalInSeconds = Some interval, pp_ProbeThreshold = Some threshold, pp_LoadBalancingRules = None\<rparr>\<rparr>))))"

definition buildHealthProbeRulesForPort ::
  "lb_config \<Rightarrow> Service \<Rightarrow> ServicePort \<Rightarrow> string \<Rightarrow> Probe option \<Rightarrow> bool \<Rightarrow> (hp_error, Probe option) result" where
  "buildHealthProbeRulesForPort az service port lbrule healthCheckNodePortProbe useSharedProbe =
     (if useSharedProbe then Inr None
      else if sp_Protocol port = ''UDP'' \<or> sp_Protocol port = ''SCTP'' then Inr None
      else case GetHealthProbeConfigOfPortFromK8sSvcAnnotation (svc_Annotations service) (sp_Port port) HealthProbeParamsPort
                  [probe_port_validator service] of
             Inl e \<Rightarrow> Inl (HpAnnotation (BuildHealthProbeAnnotationKeyForPort (sp_Port port) HealthProbeParamsPort) e)
           | Inr (Some probePort) \<Rightarrow> finish_probe az service port lbrule (annotated_port service probePort)
           | Inr None \<Rightarrow>
               if healthCheckNodePortProbe \<noteq> None then Inr None
               else finish_probe az service port lbrule (Some (sp_NodePort port)))"

section \<open>Comparing and keeping probes\<close>

definition same_probe :: "ProbeProperties \<Rightarrow> ProbeProperties \<Rightarrow> bool" where
  "same_probe a b =
     (deref (pp_Port a) 0 = deref (pp_Port b) 0 \<and> EqualFold (pp_Protocol a) (pp_Protocol b) \<and>
      EqualFold (deref (pp_RequestPath a) []) (deref (pp_RequestPath b) []) \<and>
      deref (pp_IntervalInSeconds a) 0 = deref (pp_IntervalInSeconds b) 0 \<and>
      deref (pp_ProbeThreshold a) 0 = deref (pp_ProbeThreshold b) 0)"

fun findProbe :: "Probe list \<Rightarrow> Probe \<Rightarrow> bool option" where
  "findProbe [] probe = Some False"
| "findProbe (existingProbe # probes) probe =
     (if EqualFold (deref (pb_Name existingProbe) []) (deref (pb_Name probe) [])
      then (case (pb_Properties existingProbe, pb_Properties probe) of
              (Some a, Some b) \<Rightarrow> if same_probe a b then Some True else findProbe probes probe
            | _ \<Rightarrow> None)
      else findProbe probes probe)"

text \<open>The rules attached to a shared probe, from the first on: an identifier without a name ends the search with an error,
  a rule of another service with the decision to keep the probe. Both log the identifier of the probe.\<close>

fun other_service_rule :: "Service \<Rightarrow> bool \<Rightarrow> string option \<Rightarrow> SubResource list \<Rightarrow> (hp_error, bool) result" where
  "other_service_rule service considerRemove probeID [] = Inr False"
| "other_service_rule service considerRemove probeID (rule # rules) =
     (case rule of
        None \<Rightarrow> Inl HpPanic
      | Some ruleID \<Rightarrow>
          (case getLastSegment ruleID ''/'' of
             Inl e \<Rightarrow> Inl (if probeID = None then HpPanic else HpAnnotation ruleID e)
           | Inr ruleName \<Rightarrow>
               if \<not> serviceOwnsRule service ruleName \<and> considerRemove
               then (if probeID = None then Inl HpPanic else Inr True)
               else other_service_rule service considerRemove probeID rules))"

fun keep_shared_loop :: "lb_config \<Rightarrow> Service \<Rightarrow> bool \<Rightarrow> Probe list \<Rightarrow> (hp_error, bool) result" where
  "keep_shared_loop az service considerRemove [] = Inr False"
| "keep_shared_loop az service considerRemove (probe # probes) =
     (if EqualFold (deref (pb_Name probe) []) SharedProbeName
      then let considerRemove' = (considerRemove \<or> \<not> useSharedLoadBalancerHealthProbeMode az);
               rules = (case pb_Properties probe of None \<Rightarrow> [] | Some p \<Rightarrow> deref (pp_LoadBalancingRules p) [])
           in (case other_service_rule service considerRemove' (pb_ID probe) rules of
                 Inl e \<Rightarrow> Inl e
               | Inr True \<Rightarrow> Inr True
               | Inr False \<Rightarrow> keep_shared_loop az service considerRemove' probes)
      else keep_shared_loop az service considerRemove probes)"

text \<open>On an error the expected probes are gone from the first result; \<open>None\<close> is a panic.\<close>

definition keepSharedProbe ::
  "lb_config \<Rightarrow> Service \<Rightarrow> Probe list option \<Rightarrow> Probe list \<Rightarrow> bool \<Rightarrow> (Probe list \<times> hp_error option) option" where
  "keepSharedProbe az service lbProbes expectedProbes wantLB =
     (case keep_shared_loop az service (\<not> wantLB) (deref lbProbes []) of
        Inl HpPanic \<Rightarrow> None
      | Inl e \<Rightarrow> Some ([], Some e)
      | Inr keep \<Rightarrow> Some (if keep then expectedProbes @ [buildClusterServiceSharedProbe az] else expectedProbes, None))"

end
