(* ===== verification/LbRules.thy ===== *)
theory LbRules
  imports HealthProbe ReconcileSecurityGroup
begin

text \<open>
  The load balancing rules and probes of a service in \<open>pkg/provider/azure_loadbalancer.go\<close>: what the load balancer should
  have (\<open>getExpectedLBRules\<close>), conflicts with what it has (\<open>checkLoadBalancerResourcesConflicts\<close>), and the reconciliation
  of probes, rules and tags in \<open>reconcileLoadBalancer\<close>. The properties of a load balancer are taken to be present.
\<close>

record RuleProperties =
  lp_Protocol :: string
  lp_FrontendPort :: "int option"
  lp_BackendPort :: "int option"
  lp_DisableOutboundSnat :: "bool option"
  lp_EnableFloatingIP :: "bool option"
  lp_LoadDistribution :: string
  lp_FrontendIPConfiguration :: "SubResource option"
  lp_BackendAddressPool :: "SubResource option"
  lp_Probe :: "SubResource option"
  lp_IdleTimeoutInMinutes :: "int option"
  lp_EnableTCPReset :: "bool option"

record LoadBalancingRule =
  lr_Name :: "string option"
  lr_Properties :: "RuleProperties option"

record NatRule =
  ir_Name :: "string option"
  ir_Protocol :: string
  ir_FrontendIPConfiguration :: "SubResource option"
  ir_FrontendPort :: "int option"

record NatPool =
  np_Name :: "string option"
  np_Protocol :: string
  np_FrontendIPConfiguration :: "SubResource option"
  np_FrontendPortRangeStart :: "int option"
  np_FrontendPortRangeEnd :: "int option"

text \<open>An inbound NAT rule or pool with nil properties is \<open>None\<close>.\<close>

record LoadBalancer =
  lb_Name :: "string option"
  lb_Probes :: "Probe list option"
  lb_LoadBalancingRules :: "LoadBalancingRule list option"
  lb_InboundNatRules :: "NatRule option list option"
  lb_InboundNatPools :: "NatPool option list option"
  lb_Tags :: "tags option"

datatype lb_error =
    LbPanic
  | LbProbe hp_error
  | IdleTimeout attr_error
  | SctpUnsupported
  | TransportProtocol string
  | RuleConflict string int
  | NatRuleConflict string int
  | NatPoolConflict string int

definition ServiceAnnotationLoadBalancerIdleTimeout :: string where
  "ServiceAnnotationLoadBalancerIdleTimeout = ''service.beta.kubernetes.io/azure-load-balancer-tcp-idle-timeout''"

section \<open>Properties of a rule\<close>

definition idle_timeout_validator :: "int validator" where
  "idle_timeout_validator = Some (\<lambda>v. if v < 4 \<or> 100 < v then Some ''idle timeout value must be a whole number'' else None)"

definition getExpectedLoadBalancingRulePropertiesForPort ::
  "lb_config \<Rightarrow> Service \<Rightarrow> string \<Rightarrow> string \<Rightarrow> int \<Rightarrow> int \<Rightarrow> string \<Rightarrow> (lb_error, RuleProperties) result" where
  "getExpectedLoadBalancingRulePropertiesForPort az service lbFrontendIPConfigID lbBackendPoolID port nodePort transportProto =
     (case Getint32ValueFromK8sSvcAnnotation (svc_Annotations service) ServiceAnnotationLoadBalancerIdleTimeout [idle_timeout_validator] of
        Inl e \<Rightarrow> Inl (IdleTimeout e)
      | Inr timeout \<Rightarrow>
          (let nodeTarget = (IsK8sServiceUsingInternalLoadBalancer service \<and> isBackendPoolIPv6 lbBackendPoolID)
           in Inr \<lparr>lp_Protocol = transportProto,
                lp_FrontendPort = Some port,
                lp_BackendPort = Some (if nodeTarget then nodePort else port),
                lp_DisableOutboundSnat = Some (DisableLoadBalancerOutboundSNAT az),
                lp_EnableFloatingIP = Some (\<not> nodeTarget),
                lp_LoadDistribution = (if svc_SessionAffinity service = ''ClientIP'' then ''SourceIP'' else ''Default''),
                lp_FrontendIPConfiguration = Some (Some lbFrontendIPConfigID),
                lp_BackendAddressPool = Some (Some lbBackendPoolID),
                lp_Probe = None,
                lp_IdleTimeoutInMinutes = Some (deref timeout 4),
                lp_EnableTCPReset = (if EqualFold transportProto ''Tcp'' \<and> UseStandardLoadBalancer az
                  then Some (\<not> IsTCPResetDisabled (svc_Annotations service)) else None)\<rparr>))"

definition getExpectedHAModeLoadBalancingRuleProperties ::
  "lb_config \<Rightarrow> Service \<Rightarrow> string \<Rightarrow> string \<Rightarrow> (lb_error, RuleProperties) result" where
  "getExpectedHAModeLoadBalancingRuleProperties az service lbFrontendIPConfigID lbBackendPoolID =
     (case getExpectedLoadBalancingRulePropertiesForPort az service lbFrontendIPConfigID lbBackendPoolID 0 0 ''All'' of
        Inl e \<Rightarrow> Inl e
      | Inr props \<Rightarrow> Inr (props\<lparr>lp_EnableTCPReset := Some (\<not> IsTCPResetDisabled (svc_Annotations service))\<rparr>))"

section \<open>Expected rules and probes\<close>

text \<open>\<open>RequestsOnlyLocalTraffic\<close>, \<open>NeedsHealthCheck\<close> and \<open>GetServiceHealthCheckPathPort\<close> of \<open>k8s.io/cloud-provider\<close>.\<close>

definition NeedsHealthCheck :: "Service \<Rightarrow> bool" where
  "NeedsHealthCheck service = (svc_Type service = ''LoadBalancer'' \<and> svc_ExternalTrafficPolicy service = ''Local'')"

definition GetServiceHealthCheckPathPort :: "Service \<Rightarrow> string \<times> int" where
  "GetServiceHealthCheckPathPort service =
     (if \<not> NeedsHealthCheck service then ([], 0)
      else if svc_HealthCheckNodePort service = 0 then ([], 0)
      else (''/healthz'', svc_HealthCheckNodePort service))"

text \<open>The probe that all ports share: the one of the health check node port of a local service, or the shared probe of all
  cluster services. The second component is \<open>useSharedProbe\<close>.\<close>

definition node_probe :: "lb_config \<Rightarrow> Service \<Rightarrow> bool \<Rightarrow> (lb_error, Probe option) result" where
  "node_probe az service isIPv6 =
     (if NeedsHealthCheck service \<and>
         \<not> (IsPLSEnabled (svc_Annotations service) \<and> IsPLSProxyProtocolEnabled (svc_Annotations service))
      then let (podPresencePath, podPresencePort) = GetServiceHealthCheckPathPort service
           in (case getLoadBalancerRuleName service ''TCP'' podPresencePort isIPv6 of
                 None \<Rightarrow> Inl LbPanic
               | Some lbRuleName \<Rightarrow>
                   (case getHealthProbeConfigProbeIntervalAndNumOfProbe service podPresencePort of
                      Inl e \<Rightarrow> Inl (LbProbe e)
                    | Inr (probeInterval, numberOfProbes) \<Rightarrow>
                        Inr (Some \<lparr>pb_ID = None, pb_Name = Some lbRuleName,
                          pb_Properties = Some \<lparr>pp_Protocol = ''Http'', pp_Port = Some podPresencePort,
                            pp_RequestPath = Some podPresencePath, pp_IntervalInSeconds = Some probeInterval,
                            pp_ProbeThreshold = Some numberOfProbes, pp_LoadBalancingRules = None\<rparr>\<rparr>)))
      else Inr None)"

definition common_probe :: "lb_config \<Rightarrow> Service \<Rightarrow> bool \<Rightarrow> (lb_error, Probe option \<times> bool) result" where
  "common_probe az service isIPv6 =
     (case node_probe az service isIPv6 of
        Inl e \<Rightarrow> Inl e
      | Inr p \<Rightarrow>
          if useSharedLoadBalancerHealthProbeMode az \<and> \<not> EqualFold (svc_ExternalTrafficPolicy service) ''Local''
          then Inr (Some (buildClusterServiceSharedProbe az), True) else Inr (p, False))"

text \<open>The first port that gives a probe, errors ignored.\<close>

fun ha_probe :: "lb_config \<Rightarrow> Service \<Rightarrow> string \<Rightarrow> ServicePort list \<Rightarrow> Probe option" where
  "ha_probe az service lbRuleName [] = None"
| "ha_probe az service lbRuleName (port # ports) =
     (case buildHealthProbeRulesForPort az service port lbRuleName None False of
        Inr (Some p) \<Rightarrow> Some p
      | _ \<Rightarrow> ha_probe az service lbRuleName ports)"

definition probe_ref :: "lb_config \<Rightarrow> string \<Rightarrow> Probe \<Rightarrow> SubResource option" where
  "probe_ref az lbName probe = Some (Some (getLoadBalancerProbeID az lbName (deref (pb_Name probe) [])))"

type_synonym expectation = "Probe list \<times> LoadBalancingRule list"

definition ha_rules ::
  "lb_config \<Rightarrow> Service \<Rightarrow> string \<Rightarrow> string \<Rightarrow> string \<Rightarrow> bool \<Rightarrow> Probe option \<Rightarrow> expectation \<times> lb_error option" where
  "ha_rules az service fipID poolID lbName isIPv6 common =
     (case getloadbalancerHAmodeRuleName service isIPv6 of
        None \<Rightarrow> (([], []), Some LbPanic)
      | Some lbRuleName \<Rightarrow>
          (case getExpectedHAModeLoadBalancingRuleProperties az service fipID poolID of
             Inl e \<Rightarrow> (([], []), Some e)
           | Inr props \<Rightarrow>
               (let probe = (case common of None \<Rightarrow> ha_probe az service lbRuleName (svc_Ports service) | Some p \<Rightarrow> Some p);
                    props' = (case probe of None \<Rightarrow> props | Some p \<Rightarrow> props\<lparr>lp_Probe := probe_ref az lbName p\<rparr>)
                in ((opt_list probe, [\<lparr>lr_Name = Some lbRuleName, lr_Properties = Some props'\<rparr>]), None))))"

definition SctpAllowed :: "lb_config \<Rightarrow> Service \<Rightarrow> bool" where
  "SctpAllowed az service = (UseStandardLoadBalancer az \<and> IsK8sServiceUsingInternalLoadBalancer service)"

text \<open>The probe of one port: nothing, an own probe, or the common one, which is added once.\<close>

definition port_probe ::
  "lb_config \<Rightarrow> Service \<Rightarrow> ServicePort \<Rightarrow> string \<Rightarrow> Probe option \<Rightarrow> bool \<Rightarrow> bool \<Rightarrow> (lb_error, Probe option \<times> Probe list \<times> bool) result" where
  "port_probe az service port lbRuleName common useShared added =
     (if IsHealthProbeRuleOnK8sServicePortDisabled (svc_Annotations service) (sp_Port port) then Inr (None, [], added)
      else case buildHealthProbeRulesForPort az service port lbRuleName common useShared of
             Inl e \<Rightarrow> Inl (LbProbe e)
           | Inr (Some p) \<Rightarrow> Inr (Some p, [p], added)
           | Inr None \<Rightarrow>
               (case common of
                  None \<Rightarrow> Inr (None, [], added)
                | Some c \<Rightarrow> Inr (Some c, (if added then [] else [c]), True)))"

definition port_rule ::
  "lb_config \<Rightarrow> Service \<Rightarrow> string \<Rightarrow> string \<Rightarrow> string \<Rightarrow> bool \<Rightarrow> Probe option \<Rightarrow> bool \<Rightarrow> ServicePort \<Rightarrow> bool \<Rightarrow>
   (lb_error, Probe list \<times> LoadBalancingRule list \<times> bool) result" where
  "port_rule az service fipID poolID lbName isIPv6 common useShared port added =
     (case getLoadBalancerRuleName service (sp_Protocol port) (sp_Port port) isIPv6 of
        None \<Rightarrow> Inl LbPanic
      | Some lbRuleName \<Rightarrow>
          if IsLBRuleOnK8sServicePortDisabled (svc_Annotations service) (sp_Port port) then Inr ([], [], added)
          else if sp_Protocol port = ''SCTP'' \<and> \<not> SctpAllowed az service then Inl SctpUnsupported
          else (case getProtocolsFromKubernetesProtocol (sp_Protocol port) of
                 Inl e \<Rightarrow> Inl (TransportProtocol e)
               | Inr (transportProto, _, _) \<Rightarrow>
                   (case getExpectedLoadBalancingRulePropertiesForPort az service fipID poolID (sp_Port port) (sp_NodePort port) transportProto of
                      Inl e \<Rightarrow> Inl e
                    | Inr props0 \<Rightarrow>
                        (case port_probe az service port lbRuleName common useShared added of
                           Inl e \<Rightarrow> Inl e
                         | Inr (probe, probes, added') \<Rightarrow>
                             let props1 = (case probe of None \<Rightarrow> props0 | Some p \<Rightarrow> props0\<lparr>lp_Probe := probe_ref az lbName p\<rparr>);
                                 props2 = (if IsK8sServiceDisableLoadBalancerFloatingIP service
                                           then props1\<lparr>lp_BackendPort := Some (sp_NodePort port), lp_EnableFloatingIP := Some False\<rparr>
                                           else props1)
                             in Inr (probes, [\<lparr>lr_Name = Some lbRuleName, lr_Properties = Some props2\<rparr>], added')))))"

fun port_rules ::
  "lb_config \<Rightarrow> Service \<Rightarrow> string \<Rightarrow> string \<Rightarrow> string \<Rightarrow> bool \<Rightarrow> Probe option \<Rightarrow> bool \<Rightarrow> ServicePort list \<Rightarrow> bool \<Rightarrow> expectation \<Rightarrow>
   expectation \<times> lb_error option" where
  "port_rules az service fipID poolID lbName isIPv6 common useShared [] added acc = (acc, None)"
| "port_rules az service fipID poolID lbName isIPv6 common useShared (port # ports) added acc =
     (case port_rule az service fipID poolID lbName isIPv6 common useShared port added of
        Inl e \<Rightarrow> (acc, Some e)
      | Inr (probes, rules, added') \<Rightarrow>
          port_rules az service fipID poolID lbName isIPv6 common useShared ports added' (fst acc @ probes, snd acc @ rules))"

definition getExpectedLBRules ::
  "lb_config \<Rightarrow> Service \<Rightarrow> string \<Rightarrow> string \<Rightarrow> string \<Rightarrow> bool \<Rightarrow> expectation \<times> lb_error option" where
  "getExpectedLBRules az service lbFrontendIPConfigID lbBackendPoolID lbName isIPv6 =
     (case common_probe az service isIPv6 of
        Inl e \<Rightarrow> (([], []), Some e)
      | Inr (common, useSharedProbe) \<Rightarrow>
          if IsK8sServiceUsingInternalLoadBalancer service \<and> UseStandardLoadBalancer az \<and> IsK8sServiceHasHAModeEnabled service
          then ha_rules az service lbFrontendIPConfigID lbBackendPoolID lbName isIPv6 common
          else port_rules az service lbFrontendIPConfigID lbBackendPoolID lbName isIPv6 common useSharedProbe (svc_Ports service)
                 False ([], []))"

section \<open>Conflicts\<close>

definition refers_to :: "SubResource option \<Rightarrow> string \<Rightarrow> bool" where
  "refers_to r i = (case r of Some (Some j) \<Rightarrow> EqualFold j i | _ \<Rightarrow> False)"

definition lbRuleConflictsWithPort :: "LoadBalancingRule \<Rightarrow> string \<Rightarrow> ServicePort \<Rightarrow> bool" where
  "lbRuleConflictsWithPort rule frontendIPConfigID port =
     (case lr_Properties rule of
        None \<Rightarrow> False
      | Some p \<Rightarrow> refers_to (lp_FrontendIPConfiguration p) frontendIPConfigID \<and> EqualFold (lp_Protocol p) (sp_Protocol port) \<and>
                  lp_FrontendPort p = Some (sp_Port port))"

definition inboundNatRuleConflictsWithPort :: "NatRule option \<Rightarrow> string \<Rightarrow> ServicePort \<Rightarrow> bool" where
  "inboundNatRuleConflictsWithPort r frontendIPConfigID port =
     (case r of
        None \<Rightarrow> False
      | Some n \<Rightarrow> refers_to (ir_FrontendIPConfiguration n) frontendIPConfigID \<and> EqualFold (ir_Protocol n) (sp_Protocol port) \<and>
                  ir_FrontendPort n = Some (sp_Port port))"

definition inboundNatPoolConflictsWithPort :: "NatPool option \<Rightarrow> string \<Rightarrow> ServicePort \<Rightarrow> bool" where
  "inboundNatPoolConflictsWithPort pool frontendIPConfigID port =
     (case pool of
        None \<Rightarrow> False
      | Some n \<Rightarrow> refers_to (np_FrontendIPConfiguration n) frontendIPConfigID \<and> EqualFold (np_Protocol n) (sp_Protocol port) \<and>
          (case (np_FrontendPortRangeStart n, np_FrontendPortRangeEnd n) of
             (Some a, Some b) \<Rightarrow> a \<le> sp_Port port \<and> sp_Port port \<le> b
           | _ \<Rightarrow> False))"

text \<open>The messages name the conflicting object, so that an object without a name panics.\<close>

fun rule_conflict :: "Service \<Rightarrow> string \<Rightarrow> ServicePort \<Rightarrow> LoadBalancingRule list \<Rightarrow> lb_error option" where
  "rule_conflict service fipID port [] = None"
| "rule_conflict service fipID port (rule # rules) =
     (if lbRuleConflictsWithPort rule fipID port then
        (case lr_Name rule of
           None \<Rightarrow> Some LbPanic
         | Some name \<Rightarrow> if serviceOwnsRule service name then rule_conflict service fipID port rules
                        else Some (RuleConflict name (sp_Port port)))
      else rule_conflict service fipID port rules)"

definition nat_rule_conflict :: "string \<Rightarrow> ServicePort \<Rightarrow> NatRule option list \<Rightarrow> lb_error option" where
  "nat_rule_conflict fipID port rules =
     (case find (\<lambda>r. inboundNatRuleConflictsWithPort r fipID port) rules of
        Some (Some n) \<Rightarrow> Some (case ir_Name n of None \<Rightarrow> LbPanic | Some name \<Rightarrow> NatRuleConflict name (sp_Port port))
      | _ \<Rightarrow> None)"

definition nat_pool_conflict :: "string \<Rightarrow> ServicePort \<Rightarrow> NatPool option list \<Rightarrow> lb_error option" where
  "nat_pool_conflict fipID port pools =
     (case find (\<lambda>r. inboundNatPoolConflictsWithPort r fipID port) pools of
        Some (Some n) \<Rightarrow> Some (case np_Name n of None \<Rightarrow> LbPanic | Some name \<Rightarrow> NatPoolConflict name (sp_Port port))
      | _ \<Rightarrow> None)"

fun port_conflicts :: "LoadBalancer \<Rightarrow> string \<Rightarrow> Service \<Rightarrow> ServicePort list \<Rightarrow> lb_error option" where
  "port_conflicts lb fipID service [] = None"
| "port_conflicts lb fipID service (port # ports) =
     (case rule_conflict service fipID port (deref (lb_LoadBalancingRules lb) []) of
        Some e \<Rightarrow> Some e
      | None \<Rightarrow>
          (case nat_rule_conflict fipID port (deref (lb_InboundNatRules lb) []) of
             Some e \<Rightarrow> Some e
           | None \<Rightarrow>
               (case nat_pool_conflict fipID port (deref (lb_InboundNatPools lb) []) of
                  Some e \<Rightarrow> Some e
                | None \<Rightarrow> port_conflicts lb fipID service ports)))"

definition checkLoadBalancerResourcesConflicts :: "LoadBalancer \<Rightarrow> string \<Rightarrow> Service \<Rightarrow> lb_error option" where
  "checkLoadBalancerResourcesConflicts lb frontendIPConfigID service = port_conflicts lb frontendIPConfigID service (svc_Ports service)"

section \<open>Comparing rules\<close>

definition equalSubResource :: "SubResource option \<Rightarrow> SubResource option \<Rightarrow> bool" where
  "equalSubResource s t =
     (case (s, t) of
        (None, None) \<Rightarrow> True
      | (Some a, Some b) \<Rightarrow> EqualFold (deref a []) (deref b [])
      | _ \<Rightarrow> False)"

definition equalLoadBalancingRulePropertiesFormat :: "RuleProperties option \<Rightarrow> RuleProperties option \<Rightarrow> bool \<Rightarrow> bool" where
  "equalLoadBalancingRulePropertiesFormat s0 t0 wantLB =
     (case (s0, t0) of
        (Some s, Some t) \<Rightarrow>
          if lp_Protocol s \<noteq> lp_Protocol t then False
          else
            (lp_Protocol s = ''Tcp'' \<longrightarrow> deref (lp_EnableTCPReset s) False = deref (lp_EnableTCPReset t) False) \<and>
            equalSubResource (lp_FrontendIPConfiguration s) (lp_FrontendIPConfiguration t) \<and>
            equalSubResource (lp_BackendAddressPool s) (lp_BackendAddressPool t) \<and>
            lp_LoadDistribution s = lp_LoadDistribution t \<and> lp_FrontendPort s = lp_FrontendPort t \<and>
            lp_BackendPort s = lp_BackendPort t \<and> equalSubResource (lp_Probe s) (lp_Probe t) \<and>
            lp_EnableFloatingIP s = lp_EnableFloatingIP t \<and>
            deref (lp_DisableOutboundSnat s) False = deref (lp_DisableOutboundSnat t) False \<and>
            (wantLB \<and> lp_IdleTimeoutInMinutes s \<noteq> None \<and> lp_IdleTimeoutInMinutes t \<noteq> None \<longrightarrow>
             lp_IdleTimeoutInMinutes s = lp_IdleTimeoutInMinutes t)
      | _ \<Rightarrow> False)"

fun findRule :: "LoadBalancingRule list \<Rightarrow> LoadBalancingRule \<Rightarrow> bool \<Rightarrow> bool" where
  "findRule [] rule wantLB = False"
| "findRule (existingRule # rules) rule wantLB =
     (if EqualFold (deref (lr_Name existingRule) []) (deref (lr_Name rule) []) \<and>
         equalLoadBalancingRulePropertiesFormat (lr_Properties existingRule) (lr_Properties rule) wantLB
      then True else findRule rules rule wantLB)"

section \<open>Reconciliation of a list of sub-resources\<close>

text \<open>\<open>reconcileLBProbes\<close> and \<open>reconcileLBRules\<close> have the same two loops: from the last element to the first, one that the
  service owns and does not expect is taken out; then the expected ones that are missing are appended. \<open>None\<close> is the panic
  on an element without a name, or of the comparison.\<close>

fun evict :: "('a \<Rightarrow> bool option) \<Rightarrow> nat \<Rightarrow> 'a list \<times> bool \<Rightarrow> ('a list \<times> bool) option" where
  "evict unwanted 0 s = Some s"
| "evict unwanted (Suc i) (xs, dirty) =
     (case unwanted (xs ! i) of
        None \<Rightarrow> None
      | Some True \<Rightarrow> evict unwanted i (take i xs @ drop (i + 1) xs, True)
      | Some False \<Rightarrow> evict unwanted i (xs, dirty))"

fun add_missing :: "('a list \<Rightarrow> 'a \<Rightarrow> bool option) \<Rightarrow> ('a \<Rightarrow> string option) \<Rightarrow> 'a list \<Rightarrow> 'a list \<times> bool \<Rightarrow> ('a list \<times> bool) option" where
  "add_missing found name [] s = Some s"
| "add_missing found name (e # es) (xs, dirty) =
     (case (found xs e, name e) of
        (Some True, Some _) \<Rightarrow> add_missing found name es (xs, dirty)
      | (Some False, Some _) \<Rightarrow> add_missing found name es (xs @ [e], True)
      | _ \<Rightarrow> None)"

definition unwanted_by :: "Service \<Rightarrow> ('a list \<Rightarrow> 'a \<Rightarrow> bool option) \<Rightarrow> ('a \<Rightarrow> string option) \<Rightarrow> 'a list \<Rightarrow> 'a \<Rightarrow> bool option" where
  "unwanted_by service found name expected x =
     (case name x of
        None \<Rightarrow> None
      | Some n \<Rightarrow> if serviceOwnsRule service n then map_option Not (found expected x) else Some False)"

definition reconcile_list ::
  "Service \<Rightarrow> ('a list \<Rightarrow> 'a \<Rightarrow> bool option) \<Rightarrow> ('a \<Rightarrow> string option) \<Rightarrow> 'a list option \<Rightarrow> 'a list \<Rightarrow> ('a list option \<times> bool) option" where
  "reconcile_list service found name current expected =
     (let xs = deref current []
      in case evict (unwanted_by service found name expected) (length xs) (xs, False) of
           None \<Rightarrow> None
         | Some s \<Rightarrow>
             (case add_missing found name expected s of
                None \<Rightarrow> None
              | Some (ys, dirty) \<Rightarrow> Some (if dirty then Some ys else current, dirty)))"

definition reconcileLBProbes :: "lb_config \<Rightarrow> LoadBalancer \<Rightarrow> Service \<Rightarrow> bool \<Rightarrow> Probe list \<Rightarrow> (LoadBalancer \<times> bool) option" where
  "reconcileLBProbes az lb service wantLb expectedProbes0 =
     (case keepSharedProbe az service (lb_Probes lb) expectedProbes0 wantLb of
        None \<Rightarrow> None
      | Some (expectedProbes, _) \<Rightarrow>
          map_option (\<lambda>(ps, dirty). (lb\<lparr>lb_Probes := ps\<rparr>, dirty))
            (reconcile_list service findProbe pb_Name (lb_Probes lb) expectedProbes))"

definition reconcileLBRules :: "LoadBalancer \<Rightarrow> Service \<Rightarrow> bool \<Rightarrow> LoadBalancingRule list \<Rightarrow> (LoadBalancer \<times> bool) option" where
  "reconcileLBRules lb service wantLb expectedRules =
     map_option (\<lambda>(rs, dirty). (lb\<lparr>lb_LoadBalancingRules := rs\<rparr>, dirty))
       (reconcile_list service (\<lambda>rs r. Some (findRule rs r wantLb)) lr_Name (lb_LoadBalancingRules lb) expectedRules)"

definition ensureLoadBalancerTagged :: "Config \<Rightarrow> LoadBalancer \<Rightarrow> LoadBalancer \<times> bool" where
  "ensureLoadBalancerTagged cfg lb =
     (if cfg_Tags cfg = [] \<and> cfg_TagsMap cfg = [] then (lb, False)
      else case reconcileTags (cfg_SystemTags cfg) (deref (lb_Tags lb) []) (parseTags (cfg_Tags cfg) (cfg_TagsMap cfg)) of
             (tags, changed) \<Rightarrow> (lb\<lparr>lb_Tags := Some tags\<rparr>, changed))"

section \<open>The part of reconcileLoadBalancer for probes, rules and tags\<close>

definition expect_family ::
  "lb_config \<Rightarrow> LoadBalancer \<Rightarrow> Service \<Rightarrow> (bool \<Rightarrow> string) \<Rightarrow> (bool \<Rightarrow> string) \<Rightarrow> string \<Rightarrow> bool \<Rightarrow> bool \<Rightarrow> expectation \<Rightarrow>
   (lb_error, expectation) result" where
  "expect_family az lb service fipIDs poolIDs lbName enabled isIPv6 acc =
     (if \<not> enabled then Inr acc
      else case checkLoadBalancerResourcesConflicts lb (fipIDs isIPv6) service of
             Some e \<Rightarrow> Inl e
           | None \<Rightarrow>
               (case getExpectedLBRules az service (fipIDs isIPv6) (poolIDs isIPv6) lbName isIPv6 of
                  (_, Some e) \<Rightarrow> Inl e
                | ((probes, rules), None) \<Rightarrow> Inr (fst acc @ probes, snd acc @ rules)))"

definition expected_rules ::
  "lb_config \<Rightarrow> LoadBalancer \<Rightarrow> Service \<Rightarrow> (bool \<Rightarrow> string) \<Rightarrow> (bool \<Rightarrow> string) \<Rightarrow> string \<Rightarrow> bool \<Rightarrow> (lb_error, expectation) result" where
  "expected_rules az lb service fipIDs poolIDs lbName wantLb =
     (let (v4Enabled, v6Enabled) = getIPFamiliesEnabled service
      in case expect_family az lb service fipIDs poolIDs lbName (wantLb \<and> v4Enabled) False ([], []) of
           Inl e \<Rightarrow> Inl e
         | Inr acc \<Rightarrow> expect_family az lb service fipIDs poolIDs lbName (wantLb \<and> v6Enabled) True acc)"

definition reconcile_probes_rules ::
  "lb_config \<Rightarrow> Config \<Rightarrow> LoadBalancer \<Rightarrow> Service \<Rightarrow> (bool \<Rightarrow> string) \<Rightarrow> (bool \<Rightarrow> string) \<Rightarrow> string \<Rightarrow> bool \<Rightarrow>
   (lb_error, LoadBalancer \<times> bool) result" where
  "reconcile_probes_rules az cfg lb service fipIDs poolIDs lbName wantLb =
     (case expected_rules az lb service fipIDs poolIDs lbName wantLb of
        Inl e \<Rightarrow> Inl e
      | Inr (expectedProbes, expectedRules) \<Rightarrow>
          (case reconcileLBProbes az lb service wantLb expectedProbes of
             None \<Rightarrow> Inl LbPanic
           | Some (lb1, dirty1) \<Rightarrow>
               (case reconcileLBRules lb1 service wantLb expectedRules of
                  None \<Rightarrow> Inl LbPanic
                | Some (lb2, dirty2) \<Rightarrow>
                    (case ensureLoadBalancerTagged cfg lb2 of (lb3, dirty3) \<Rightarrow> Inr (lb3, dirty1 \<or> dirty2 \<or> dirty3)))))"

end
