(* ===== verification/LbFacts.thy ===== *)
theory LbFacts
  imports LbRules
begin

text \<open>
  Facts on load balancing rules and probes: what the two loops of a reconciliation compute, proved once for a list of
  sub-resources and interpreted for probes and for rules; what a service expects; and that names keep services apart.
\<close>

section \<open>The loops\<close>

lemma evict_filter:
  assumes "i \<le> length xs" "list_all (\<lambda>x. unwanted x = Some (P x)) xs"
  shows "evict unwanted i (xs, d) = Some (filter (\<lambda>x. \<not> P x) (take i xs) @ drop i xs, d \<or> list_ex P (take i xs))"
  using assms
proof (induction i arbitrary: xs d)
  case (Suc i)
  then have u: "unwanted (xs ! i) = Some (P (xs ! i))" by (auto simp: list_all_length)
  have t: "take (Suc i) xs = take i xs @ [xs ! i]" using Suc.prems(1) by (simp add: take_Suc_conv_app_nth)
  show ?case
  proof (cases "P (xs ! i)")
    case True
    have "list_all (\<lambda>x. unwanted x = Some (P x)) (take i xs @ drop (i + 1) xs)"
      using Suc.prems(2) by (auto simp: list_all_iff dest: in_set_takeD in_set_dropD)
    from Suc.IH[OF _ this, of True] show ?thesis using True Suc.prems(1) by (simp add: u t min_def)
  next
    case False
    from Suc.IH[OF _ Suc.prems(2), of d] show ?thesis
      using False Suc.prems(1) by (simp add: u t Suc_leD Cons_nth_drop_Suc)
  qed
qed simp

locale sub_resources =
  fixes found :: "'a list \<Rightarrow> 'a \<Rightarrow> bool option"
    and name :: "'a \<Rightarrow> string option"
    and same :: "'a \<Rightarrow> 'a \<Rightarrow> bool"
    and wf :: "'a \<Rightarrow> bool"
  assumes found_iff: "list_all wf xs \<Longrightarrow> wf x \<Longrightarrow> found xs x = Some (\<exists>y \<in> set xs. same y x)"
    and same_refl: "wf x \<Longrightarrow> same x x"
    and same_sym: "same x y \<Longrightarrow> same y x"
    and named: "wf x \<Longrightarrow> name x \<noteq> None"
begin

definition owned :: "Service \<Rightarrow> 'a \<Rightarrow> bool" where
  "owned service x = serviceOwnsRule service (the (name x))"

definition stale :: "Service \<Rightarrow> 'a list \<Rightarrow> 'a \<Rightarrow> bool" where
  "stale service expected x = (owned service x \<and> \<not> (\<exists>e \<in> set expected. same e x))"

lemma unwanted_stale:
  "list_all wf expected \<Longrightarrow> wf x \<Longrightarrow> unwanted_by service found name expected x = Some (stale service expected x)"
  using named[of x] found_iff[of expected x] by (auto simp: unwanted_by_def stale_def owned_def)

lemma add_missing_adds:
  assumes "list_all wf es" "list_all wf xs"
  shows "\<exists>as. add_missing found name es (xs, d) = Some (xs @ as, d \<or> as \<noteq> []) \<and> set as \<subseteq> set es \<and>
    (\<forall>e \<in> set es. \<exists>y \<in> set (xs @ as). same y e) \<and> ((\<forall>e \<in> set es. \<exists>y \<in> set xs. same y e) \<longrightarrow> as = [])"
  using assms
proof (induction es arbitrary: xs d)
  case (Cons e es)
  then have e: "wf e" "name e \<noteq> None" "list_all wf es" using named by auto
  note f = found_iff[OF Cons.prems(2) e(1)]
  show ?case
  proof (cases "\<exists>y \<in> set xs. same y e")
    case True
    obtain as where "add_missing found name es (xs, d) = Some (xs @ as, d \<or> as \<noteq> [])" "set as \<subseteq> set es"
        "\<forall>e \<in> set es. \<exists>y \<in> set (xs @ as). same y e" "(\<forall>e \<in> set es. \<exists>y \<in> set xs. same y e) \<longrightarrow> as = []"
      using Cons.IH[OF e(3) Cons.prems(2), of d] by blast
    then show ?thesis using True f e(2) by (intro exI[of _ as]) (auto split: option.splits)
  next
    case False
    have "list_all wf (xs @ [e])" using Cons.prems(2) e(1) by simp
    from Cons.IH[OF e(3) this, of True] obtain as where as: "add_missing found name es (xs @ [e], True) = Some ((xs @ [e]) @ as, True)"
        "set as \<subseteq> set es" "\<forall>e' \<in> set es. \<exists>y \<in> set ((xs @ [e]) @ as). same y e'"
      by auto
    have "add_missing found name (e # es) (xs, d) = Some (xs @ e # as, d \<or> e # as \<noteq> [])"
      using False f e(2) as(1) by (auto split: option.splits)
    moreover have "\<forall>e' \<in> set (e # es). \<exists>y \<in> set (xs @ e # as). same y e'" using as(3) same_refl[OF e(1)] by auto
    ultimately show ?thesis using as(2) False by (intro exI[of _ "e # as"]) auto
  qed
qed simp

text \<open>The result of a reconciliation.\<close>

lemma reconcile_list_result:
  assumes "list_all wf (deref current [])" "list_all wf expected"
  obtains result as dirty where
    "reconcile_list service found name current expected = Some (result, dirty)"
    "deref result [] = filter (\<lambda>x. \<not> stale service expected x) (deref current []) @ as" "set as \<subseteq> set expected"
    "\<forall>e \<in> set expected. \<exists>y \<in> set (deref result []). same y e" "\<not> dirty \<Longrightarrow> result = current"
    "list_all (\<lambda>x. \<not> stale service expected x) (deref current []) \<Longrightarrow>
       (\<forall>e \<in> set expected. \<exists>y \<in> set (deref current []). same y e) \<Longrightarrow> \<not> dirty"
proof -
  let ?xs = "deref current []" and ?kept = "filter (\<lambda>x. \<not> stale service expected x) (deref current [])"
  let ?ex = "list_ex (stale service expected) (deref current [])"
  have ev: "evict (unwanted_by service found name expected) (length ?xs) (?xs, False) = Some (?kept, ?ex)"
    using evict_filter[of "length ?xs" ?xs "unwanted_by service found name expected" "stale service expected" False]
      unwanted_stale[OF assms(2)] assms(1) by (simp add: list_all_iff)
  have "list_all wf ?kept" using assms(1) by (simp add: list_all_iff)
  from add_missing_adds[OF assms(2) this, of ?ex]
  obtain as where as: "add_missing found name expected (?kept, ?ex) = Some (?kept @ as, ?ex \<or> as \<noteq> [])" "set as \<subseteq> set expected"
      "\<forall>e \<in> set expected. \<exists>y \<in> set (?kept @ as). same y e" "(\<forall>e \<in> set expected. \<exists>y \<in> set ?kept. same y e) \<longrightarrow> as = []"
    by blast
  have kept: "\<not> ?ex \<longleftrightarrow> ?kept = ?xs" by (auto simp: list_ex_iff filter_id_conv)
  let ?res = "if ?ex \<or> as \<noteq> [] then Some (?kept @ as) else current"
  have res: "deref ?res [] = ?kept @ as" using kept by (simp add: deref_def)
  have clean: "\<not> (?ex \<or> as \<noteq> [])"
    if "list_all (\<lambda>x. \<not> stale service expected x) ?xs" "\<forall>e \<in> set expected. \<exists>y \<in> set ?xs. same y e"
  proof -
    have "\<not> ?ex" using that(1) by (auto simp: list_all_iff list_ex_iff)
    then show ?thesis using that(2) as(4) kept by simp
  qed
  show ?thesis
  proof (rule that[of ?res "?ex \<or> as \<noteq> []" as])
    show "reconcile_list service found name current expected = Some (?res, ?ex \<or> as \<noteq> [])"
      using as(1) ev by (simp add: reconcile_list_def Let_def)
    show "\<forall>e \<in> set expected. \<exists>y \<in> set (deref ?res []). same y e" unfolding res by (rule as(3))
  qed (use res as(2) clean in simp_all)
qed

lemma reconcile_list_covers:
  assumes "list_all wf (deref current [])" "list_all wf expected"
  shows "\<exists>result dirty. reconcile_list service found name current expected = Some (result, dirty) \<and>
    (\<forall>e \<in> set expected. \<exists>y \<in> set (deref result []). same y e)"
  by (rule reconcile_list_result[OF assms, of service]) blast

lemma reconcile_list_exact:
  assumes "list_all wf (deref current [])" "list_all wf expected" "list_all (owned service) expected"
  shows "\<exists>result dirty. reconcile_list service found name current expected = Some (result, dirty) \<and>
    (\<forall>e \<in> set expected. \<exists>y \<in> set (deref result []). same y e) \<and>
    (\<forall>y \<in> set (deref result []). owned service y \<longrightarrow> (\<exists>e \<in> set expected. same e y)) \<and>
    filter (\<lambda>y. \<not> owned service y) (deref result []) = filter (\<lambda>y. \<not> owned service y) (deref current []) \<and>
    (\<not> dirty \<longrightarrow> result = current) \<and> reconcile_list service found name result expected = Some (result, False)"
proof -
  let ?kept = "filter (\<lambda>x. \<not> stale service expected x) (deref current [])"
  obtain result as dirty where r: "reconcile_list service found name current expected = Some (result, dirty)"
      "deref result [] = ?kept @ as" "set as \<subseteq> set expected" "\<forall>e \<in> set expected. \<exists>y \<in> set (deref result []). same y e"
      "\<not> dirty \<Longrightarrow> result = current"
    by (rule reconcile_list_result[OF assms(1,2), of service]) blast
  have wf_as: "list_all wf as" "list_all (owned service) as" using r(3) assms(2,3) by (auto simp: list_all_iff)
  have wf: "list_all wf (deref result [])" unfolding r(2) using assms(1) wf_as by (auto simp: list_all_iff)
  have only: "\<forall>y \<in> set (deref result []). owned service y \<longrightarrow> (\<exists>e \<in> set expected. same e y)"
    unfolding r(2) using r(3) same_refl assms(2) by (auto simp: stale_def list_all_iff)
  have others: "filter (\<lambda>y. \<not> owned service y) (deref result []) = filter (\<lambda>y. \<not> owned service y) (deref current [])"
  proof -
    have "filter (\<lambda>y. \<not> owned service y) as = []" using wf_as(2) by (simp add: filter_empty_conv list_all_iff)
    moreover have "filter (\<lambda>y. \<not> owned service y) ?kept = filter (\<lambda>y. \<not> owned service y) (deref current [])"
      unfolding filter_filter by (rule filter_cong[OF refl]) (auto simp: stale_def)
    ultimately show ?thesis by (simp add: r(2))
  qed
  have "list_all (\<lambda>x. \<not> stale service expected x) (deref result [])"
    using only unfolding stale_def list_all_iff by blast
  then have "reconcile_list service found name result expected = Some (result, False)"
    using r(4) by (rule_tac reconcile_list_result[OF wf assms(2), of service]) auto
  with r(1,4,5) only others show ?thesis by blast
qed

end

section \<open>Probes and rules\<close>

definition probe_ok :: "Probe \<Rightarrow> bool" where
  "probe_ok p = (pb_Name p \<noteq> None \<and> pb_Properties p \<noteq> None)"

definition same_probes :: "Probe \<Rightarrow> Probe \<Rightarrow> bool" where
  "same_probes a b = (EqualFold (deref (pb_Name a) []) (deref (pb_Name b) []) \<and> rel_option same_probe (pb_Properties a) (pb_Properties b))"

definition rule_ok :: "LoadBalancingRule \<Rightarrow> bool" where
  "rule_ok r = (lr_Name r \<noteq> None \<and> lr_Properties r \<noteq> None)"

definition same_rules :: "bool \<Rightarrow> LoadBalancingRule \<Rightarrow> LoadBalancingRule \<Rightarrow> bool" where
  "same_rules wantLb a b = (EqualFold (deref (lr_Name a) []) (deref (lr_Name b) []) \<and>
     equalLoadBalancingRulePropertiesFormat (lr_Properties a) (lr_Properties b) wantLb)"

lemma findProbe_iff: "list_all probe_ok ps \<Longrightarrow> probe_ok p \<Longrightarrow> findProbe ps p = Some (\<exists>y \<in> set ps. same_probes y p)"
  by (induction ps) (auto simp: probe_ok_def same_probes_def)

lemma findRule_iff: "findRule rs r wantLb \<longleftrightarrow> (\<exists>y \<in> set rs. same_rules wantLb y r)"
  by (induction rs) (auto simp: same_rules_def)

lemma same_probe_sym: "same_probe a b \<Longrightarrow> same_probe b a"
  by (simp add: same_probe_def EqualFold_def)

lemma equalSubResource_refl [simp]: "equalSubResource s s"
  by (cases s) (simp_all add: equalSubResource_def)

lemma equalSubResource_sym: "equalSubResource s t \<Longrightarrow> equalSubResource t s"
  by (auto simp: equalSubResource_def EqualFold_def split: option.splits)

interpretation probes: sub_resources findProbe pb_Name same_probes probe_ok
proof
  fix x y :: Probe
  show "same_probes x x" if "probe_ok x"
    using that by (auto simp: probe_ok_def same_probes_def same_probe_def)
  show "same_probes y x" if "same_probes x y"
    using that by (cases "pb_Properties x"; cases "pb_Properties y") (auto simp: same_probes_def EqualFold_def same_probe_sym)
qed (simp_all add: findProbe_iff probe_ok_def)

interpretation rules: sub_resources "\<lambda>rs r. Some (findRule rs r wantLb)" lr_Name "same_rules wantLb" rule_ok for wantLb
proof
  fix x y :: LoadBalancingRule
  show "same_rules wantLb x x" if "rule_ok x"
    using that by (auto simp: rule_ok_def same_rules_def equalLoadBalancingRulePropertiesFormat_def)
  show "same_rules wantLb y x" if "same_rules wantLb x y"
    using that equalSubResource_sym
    by (auto simp: same_rules_def EqualFold_def equalLoadBalancingRulePropertiesFormat_def split: option.splits if_splits)
qed (simp_all add: findRule_iff rule_ok_def)

section \<open>What a service expects\<close>

lemma rule_name_prefix:
  assumes "getLoadBalancerRuleName service protocol port isIPv6 = Some n"
  shows "\<exists>rest. n = getRulePrefix service @ rest"
  using assms
  by (auto simp: getLoadBalancerRuleName_def getResourceByIPFamily_def Let_def split: option.splits if_splits)

lemma rule_name_owned:
  assumes "getLoadBalancerRuleName service protocol port isIPv6 = Some n"
  shows "serviceOwnsRule service n"
  using rule_name_prefix[OF assms] by (auto simp: serviceOwnsRule_def HasPrefix_iff ToUpper_def)

lemma buildHealthProbe_named:
  assumes "buildHealthProbeRulesForPort az service port n common shared = Inr (Some p)"
  shows "pb_Name p = Some n" "pb_Properties p \<noteq> None"
  using assms by (auto simp: buildHealthProbeRulesForPort_def finish_probe_def split: if_splits sum.splits option.splits prod.splits)

lemma common_probe_ok: "common_probe az service isIPv6 = Inr (Some p, shared) \<Longrightarrow> probe_ok p"
  by (auto simp: common_probe_def node_probe_def buildClusterServiceSharedProbe_def probe_ok_def
      split: if_splits sum.splits option.splits prod.splits)

text \<open>A rule of the expectation is complete, belongs to the service, and its probe is among the expected ones.\<close>

definition rule_expected :: "lb_config \<Rightarrow> Service \<Rightarrow> string \<Rightarrow> Probe list \<Rightarrow> LoadBalancingRule \<Rightarrow> bool" where
  "rule_expected az service lbName ps r =
     (\<exists>n q. lr_Name r = Some n \<and> lr_Properties r = Some q \<and> serviceOwnsRule service n \<and>
        (lp_Probe q = None \<or> (\<exists>p \<in> set ps. lp_Probe q = probe_ref az lbName p)))"

definition expectation_ok :: "lb_config \<Rightarrow> Service \<Rightarrow> string \<Rightarrow> expectation \<Rightarrow> bool" where
  "expectation_ok az service lbName x = (list_all probe_ok (fst x) \<and> list_all (rule_expected az service lbName (fst x)) (snd x))"

lemma rule_expected_mono: "rule_expected az service lbName ps r \<Longrightarrow> set ps \<subseteq> set qs \<Longrightarrow> rule_expected az service lbName qs r"
  unfolding rule_expected_def by blast

lemma expectation_ok_append:
  "expectation_ok az service lbName (ps, rs) \<Longrightarrow> expectation_ok az service lbName (qs, ts) \<Longrightarrow>
   expectation_ok az service lbName (ps @ qs, rs @ ts)"
  by (auto simp: expectation_ok_def list_all_iff intro: rule_expected_mono)

lemma port_probe_expected:
  assumes "port_probe az service port n common shared added = Inr (probe, ps, added')"
    and "\<forall>c. common = Some c \<longrightarrow> probe_ok c" "\<forall>c. added \<longrightarrow> common = Some c \<longrightarrow> c \<in> set qs"
  shows "list_all probe_ok ps" "\<forall>p. probe = Some p \<longrightarrow> p \<in> set (qs @ ps)"
    "\<forall>c. added' \<longrightarrow> common = Some c \<longrightarrow> c \<in> set (qs @ ps)"
  using assms buildHealthProbe_named[of az service port n common shared]
  by (auto simp: port_probe_def probe_ok_def split: if_splits sum.splits option.splits)

lemma port_rule_expected:
  assumes "port_rule az service fip pool lbName isIPv6 common shared port added = Inr (ps, rs, added')"
    and common: "\<forall>c. common = Some c \<longrightarrow> probe_ok c" "\<forall>c. added \<longrightarrow> common = Some c \<longrightarrow> c \<in> set qs"
  shows "list_all probe_ok ps \<and> list_all (rule_expected az service lbName (qs @ ps)) rs \<and>
    (\<forall>c. added' \<longrightarrow> common = Some c \<longrightarrow> c \<in> set (qs @ ps))"
proof -
  obtain n where n: "getLoadBalancerRuleName service (sp_Protocol port) (sp_Port port) isIPv6 = Some n"
    using assms(1) by (auto simp: port_rule_def split: option.splits)
  show ?thesis
  proof (cases "IsLBRuleOnK8sServicePortDisabled (svc_Annotations service) (sp_Port port)")
    case True
    then show ?thesis using assms(1) common(2) by (auto simp: port_rule_def n)
  next
    case False
    have sctp: "\<not> (sp_Protocol port = ''SCTP'' \<and> \<not> SctpAllowed az service)"
      using assms(1) False by (auto simp: port_rule_def n split: if_splits)
    obtain tp x y where t: "getProtocolsFromKubernetesProtocol (sp_Protocol port) = Inr (tp, x, y)"
      using assms(1) False sctp by (auto simp: port_rule_def n split: sum.splits)
    obtain props where q: "getExpectedLoadBalancingRulePropertiesForPort az service fip pool (sp_Port port) (sp_NodePort port) tp = Inr props"
      using assms(1) False sctp t by (auto simp: port_rule_def n split: sum.splits)
    then have none: "lp_Probe props = None"
      by (auto simp: getExpectedLoadBalancingRulePropertiesForPort_def Let_def split: sum.splits)
    obtain probe where p: "port_probe az service port n common shared added = Inr (probe, ps, added')"
      using assms(1) False sctp t q by (auto simp: port_rule_def n Let_def split: sum.splits)
    note P = port_probe_expected[OF p common]
    define q1 where "q1 = (case probe of None \<Rightarrow> props | Some p \<Rightarrow> props\<lparr>lp_Probe := probe_ref az lbName p\<rparr>)"
    define q2 where "q2 = (if IsK8sServiceDisableLoadBalancerFloatingIP service
      then q1\<lparr>lp_BackendPort := Some (sp_NodePort port), lp_EnableFloatingIP := Some False\<rparr> else q1)"
    have "rs = [\<lparr>lr_Name = Some n, lr_Properties = Some q2\<rparr>]"
      using assms(1) False sctp by (auto simp: port_rule_def n t q p Let_def q1_def q2_def)
    moreover have "lp_Probe q2 = None \<or> (\<exists>p \<in> set (qs @ ps). lp_Probe q2 = probe_ref az lbName p)"
    proof (cases probe)
      case (Some p0)
      have "p0 \<in> set (qs @ ps)" using P(2) Some by blast
      moreover have "lp_Probe q2 = probe_ref az lbName p0" by (simp add: Some q1_def q2_def)
      ultimately show ?thesis by blast
    qed (simp add: q1_def q2_def none)
    ultimately have "list_all (rule_expected az service lbName (qs @ ps)) rs"
      using rule_name_owned[OF n] by (simp add: rule_expected_def)
    then show ?thesis using P(1,3) by blast
  qed
qed

lemma port_rules_expected:
  assumes "port_rules az service fip pool lbName isIPv6 common shared ports added acc = (x, None)"
    and "\<forall>c. common = Some c \<longrightarrow> probe_ok c" "\<forall>c. added \<longrightarrow> common = Some c \<longrightarrow> c \<in> set (fst acc)"
    and "expectation_ok az service lbName acc"
  shows "expectation_ok az service lbName x"
  using assms
proof (induction ports arbitrary: added acc)
  case (Cons port ports)
  obtain ps rs added' where r: "port_rule az service fip pool lbName isIPv6 common shared port added = Inr (ps, rs, added')"
    using Cons.prems(1) by (auto split: sum.splits)
  note R = port_rule_expected[OF r Cons.prems(2,3)]
  have "expectation_ok az service lbName (fst acc @ ps, snd acc @ rs)"
    using Cons.prems(4) R by (auto simp: expectation_ok_def list_all_iff intro: rule_expected_mono)
  then show ?case
    using Cons.prems(1,2) R r by (intro Cons.IH[of added' "(fst acc @ ps, snd acc @ rs)"]) auto
qed simp

lemma ha_probe_named: "ha_probe az service n ports = Some p \<Longrightarrow> probe_ok p"
  by (induction ports) (auto simp: probe_ok_def dest: buildHealthProbe_named split: sum.splits option.splits)

lemma getExpectedLBRules_ok:
  assumes "getExpectedLBRules az service fip pool lbName isIPv6 = (x, None)"
  shows "expectation_ok az service lbName x"
proof -
  obtain common shared where c: "common_probe az service isIPv6 = Inr (common, shared)"
    using assms by (auto simp: getExpectedLBRules_def split: sum.splits)
  have ok: "common = Some p \<Longrightarrow> probe_ok p" for p using common_probe_ok c by blast
  show ?thesis
  proof (cases "IsK8sServiceUsingInternalLoadBalancer service \<and> UseStandardLoadBalancer az \<and> IsK8sServiceHasHAModeEnabled service")
    case True
    then have h: "ha_rules az service fip pool lbName isIPv6 common = (x, None)"
      using assms c by (simp add: getExpectedLBRules_def)
    obtain n where n: "getloadbalancerHAmodeRuleName service isIPv6 = Some n"
      using h by (auto simp: ha_rules_def split: option.splits)
    then have own: "serviceOwnsRule service n"
      by (auto simp: getloadbalancerHAmodeRuleName_def split: list.splits intro: rule_name_owned)
    obtain props where p: "getExpectedHAModeLoadBalancingRuleProperties az service fip pool = Inr props"
      using h n by (auto simp: ha_rules_def split: sum.splits)
    then have none: "lp_Probe props = None"
      by (auto simp: getExpectedHAModeLoadBalancingRuleProperties_def getExpectedLoadBalancingRulePropertiesForPort_def Let_def
          split: sum.splits)
    show ?thesis
      using h n p none own ok ha_probe_named[of az service n "svc_Ports service"]
      by (auto simp: ha_rules_def Let_def expectation_ok_def rule_expected_def opt_list_def split: option.splits)
  next
    case False
    then have "port_rules az service fip pool lbName isIPv6 common shared (svc_Ports service) False ([], []) = (x, None)"
      using assms c by (auto simp: getExpectedLBRules_def)
    then show ?thesis by (rule port_rules_expected) (use ok in \<open>auto simp: expectation_ok_def\<close>)
  qed
qed

lemma expect_family_ok:
  assumes "expect_family az lb service fips pools lbName enabled isIPv6 acc = Inr x" "expectation_ok az service lbName acc"
  shows "expectation_ok az service lbName x"
proof (cases enabled)
  case True
  then obtain ps rs where "getExpectedLBRules az service (fips isIPv6) (pools isIPv6) lbName isIPv6 = ((ps, rs), None)"
      "x = (fst acc @ ps, snd acc @ rs)"
    using assms(1) by (auto simp: expect_family_def split: option.splits prod.splits)
  then show ?thesis using getExpectedLBRules_ok assms(2) expectation_ok_append[of az service lbName "fst acc" "snd acc"] by simp
qed (use assms in \<open>auto simp: expect_family_def\<close>)

lemma expected_rules_ok:
  assumes "expected_rules az lb service fips pools lbName wantLb = Inr x"
  shows "expectation_ok az service lbName x"
proof -
  obtain v4 v6 where v: "getIPFamiliesEnabled service = (v4, v6)" by fastforce
  then obtain acc where e: "expect_family az lb service fips pools lbName (wantLb \<and> v4) False ([], []) = Inr acc"
      "expect_family az lb service fips pools lbName (wantLb \<and> v6) True acc = Inr x"
    using assms by (auto simp: expected_rules_def split: sum.splits)
  show ?thesis by (rule expect_family_ok[OF e(2) expect_family_ok[OF e(1)]]) (simp add: expectation_ok_def)
qed

end
