(* ===== verification/LbProperties.thy ===== *)
theory LbProperties
  imports LbFacts
begin

text \<open>
  Properties of health probes, of load balancing rules and of their reconciliation.
\<close>

section \<open>Reconciliation\<close>

definition rule_owned :: "Service \<Rightarrow> LoadBalancingRule \<Rightarrow> bool" where
  "rule_owned service r = serviceOwnsRule service (the (lr_Name r))"

lemma rule_owned_eq: "rules.owned = rule_owned"
  by (simp add: fun_eq_iff rule_owned_def rules.owned_def)

text \<open>The identifier of a probe is that of a probe in the list.\<close>

definition probe_resolves :: "lb_config \<Rightarrow> string \<Rightarrow> Probe list \<Rightarrow> LoadBalancingRule \<Rightarrow> bool" where
  "probe_resolves az lbName ps r =
     (case lr_Properties r of
        None \<Rightarrow> False
      | Some q \<Rightarrow>
          (case lp_Probe q of
             None \<Rightarrow> True
           | Some i \<Rightarrow> \<exists>p \<in> set ps. EqualFold (deref i []) (getLoadBalancerProbeID az lbName (deref (pb_Name p) []))))"

lemma probe_id_fold:
  "EqualFold a b \<Longrightarrow> EqualFold (getLoadBalancerProbeID az lbName a) (getLoadBalancerProbeID az lbName b)"
  by (simp add: EqualFold_def ToLower_def getLoadBalancerProbeID_def getLoadBalancerProbeIDWithRG_def lb_resource_id_def)

lemma same_rules_resolves:
  assumes "same_rules wantLb e r" "rule_expected az service lbName ps e"
    and "\<forall>p \<in> set ps. \<exists>y \<in> set ps'. same_probes y p"
  shows "probe_resolves az lbName ps' r"
proof -
  obtain q where q: "lr_Properties e = Some q" "lp_Probe q = None \<or> (\<exists>p \<in> set ps. lp_Probe q = probe_ref az lbName p)"
    using assms(2) by (auto simp: rule_expected_def)
  then obtain t where t: "lr_Properties r = Some t" "equalSubResource (lp_Probe q) (lp_Probe t)"
    using assms(1) by (auto simp: same_rules_def equalLoadBalancingRulePropertiesFormat_def split: option.splits if_splits)
  show ?thesis
  proof (cases "lp_Probe q")
    case None
    then show ?thesis using t by (auto simp: probe_resolves_def equalSubResource_def split: option.splits)
  next
    case (Some i)
    then obtain p where p: "p \<in> set ps" "i = Some (getLoadBalancerProbeID az lbName (deref (pb_Name p) []))"
      using q(2) by (auto simp: probe_ref_def)
    then obtain y where y: "y \<in> set ps'" "EqualFold (deref (pb_Name y) []) (deref (pb_Name p) [])"
      using assms(3) by (auto simp: same_probes_def)
    obtain j where j: "lp_Probe t = Some j" "EqualFold (deref i []) (deref j [])"
      using t(2) Some by (auto simp: equalSubResource_def split: option.splits)
    have "EqualFold (deref j []) (getLoadBalancerProbeID az lbName (deref (pb_Name y) []))"
      using probe_id_fold[OF y(2), of az lbName] j(2) p(2) by (simp add: EqualFold_def deref_def)
    then show ?thesis using t(1) j(1) y(1) by (auto simp: probe_resolves_def)
  qed
qed

lemma reconcileLBProbes_covers:
  assumes "keep_shared_loop az service (\<not> wantLb) (deref (lb_Probes lb) []) = Inr keep"
    and "list_all probe_ok (deref (lb_Probes lb) [])" "list_all probe_ok ps"
  shows "\<exists>qs dirty. reconcileLBProbes az lb service wantLb ps = Some (lb\<lparr>lb_Probes := qs\<rparr>, dirty) \<and>
    (\<forall>p \<in> set ps. \<exists>y \<in> set (deref qs []). same_probes y p)"
proof -
  let ?ps = "if keep then ps @ [buildClusterServiceSharedProbe az] else ps"
  have "list_all probe_ok ?ps" using assms(3) by (simp add: probe_ok_def buildClusterServiceSharedProbe_def)
  from probes.reconcile_list_covers[OF assms(2) this, of service]
  obtain qs dirty where q: "reconcile_list service findProbe pb_Name (lb_Probes lb) ?ps = Some (qs, dirty)"
      "\<forall>p \<in> set ?ps. \<exists>y \<in> set (deref qs []). same_probes y p" by blast
  have "reconcileLBProbes az lb service wantLb ps = Some (lb\<lparr>lb_Probes := qs\<rparr>, dirty)"
    using assms(1) q(1) by (simp add: reconcileLBProbes_def keepSharedProbe_def)
  moreover have "\<forall>p \<in> set ps. \<exists>y \<in> set (deref qs []). same_probes y p" using q(2) by (auto split: if_splits)
  ultimately show ?thesis by blast
qed


text \<open>A service with one port on an empty load balancer.\<close>

definition ex_az :: "string \<Rightarrow> lb_config" where
  "ex_az mode = \<lparr>lc_SubscriptionID = ''s'', lc_NetworkResourceSubscriptionID = [], lc_ResourceGroup = ''rg'', lc_LoadBalancerResourceGroup = [],
     lc_LoadBalancerSku = ''standard'', lc_DisableOutboundSNAT = None, lc_HealthProbeMode = mode, lc_SharedProbePort = 9, lc_SharedProbePath = ''/h''\<rparr>"

definition ex_svc :: "(string \<times> string) list \<Rightarrow> Service" where
  "ex_svc annotations =
     \<lparr>svc_Namespace = ''default'', svc_Name = ''web'', svc_UID = ''1'', svc_Annotations = annotations,
      svc_Ports = [\<lparr>sp_Name = ''http'', sp_Protocol = ''TCP'', sp_AppProtocol = None, sp_Port = 8, sp_NodePort = 9\<rparr>],
      svc_LoadBalancerSourceRanges = [], svc_ExternalTrafficPolicy = ''Cluster'', svc_HealthCheckNodePort = 0,
      svc_IPFamilies = [''IPv4''], svc_LoadBalancerIP = [], svc_Ingress = [], svc_Type = ''LoadBalancer'', svc_SessionAffinity = ''None''\<rparr>"

definition ex_cfg :: Config where
  "ex_cfg = \<lparr>cfg_Tags = [], cfg_TagsMap = [], cfg_SystemTags = []\<rparr>"

definition ex_lb :: "Probe list option \<Rightarrow> LoadBalancingRule list option \<Rightarrow> LoadBalancer" where
  "ex_lb ps rs = \<lparr>lb_Name = Some ''lb'', lb_Probes = ps, lb_LoadBalancingRules = rs, lb_InboundNatRules = None, lb_InboundNatPools = None, lb_Tags = None\<rparr>"

definition ex_expected :: "(lb_error, expectation) result" where
  "ex_expected = expected_rules (ex_az []) (ex_lb None None) (ex_svc []) (\<lambda>_. ''fip'') (\<lambda>_. ''pool'') ''lb'' True"

lemma ex_expected_value:
  "case ex_expected of Inl _ \<Rightarrow> False | Inr (ps, rs) \<Rightarrow> map pb_Name ps = [Some ''a1-TCP-8''] \<and> map lr_Name rs = [Some ''a1-TCP-8'']"
  by code_simp


section \<open>The shared probe\<close>

lemma other_service_rule_shared: "other_service_rule service False i rules \<noteq> Inr True"
  by (induction rules) (auto split: option.splits sum.splits)

lemma keep_shared_shared:
  "useSharedLoadBalancerHealthProbeMode az \<Longrightarrow> keep_shared_loop az service False ps = Inr keep \<Longrightarrow> \<not> keep"
  using other_service_rule_shared
  by (induction ps) (auto simp: Let_def split: if_splits sum.splits bool.splits)

text \<open>In the mode with a shared probe, a reconciliation of a service that expects no probe, such as one whose ports all disable
  their probe, removes the shared probe also when rules of other services refer to it: only a service that is being deleted
  makes sure that nobody else needs the probe. The rules of the other services stay and then refer to nothing.\<close>

theorem shared_probe_evicted:
  assumes "expected_rules az lb service fips pools lbName True = Inr ([], rs)"
    and "list_all rule_ok (deref (lb_LoadBalancingRules lb) [])" "list_all probe_ok (deref (lb_Probes lb) [])"
    and "keep_shared_loop az service False (deref (lb_Probes lb) []) = Inr keep"
    and "useSharedLoadBalancerHealthProbeMode az" "\<not> EqualFold (svc_ExternalTrafficPolicy service) ''Local''"
    and "r \<in> set (deref (lb_LoadBalancingRules lb) [])" "\<not> rule_owned service r"
  shows "\<exists>lb' dirty. reconcile_probes_rules az cfg lb service fips pools lbName True = Inr (lb', dirty) \<and>
    r \<in> set (deref (lb_LoadBalancingRules lb') []) \<and> list_all (\<lambda>p. pb_Name p \<noteq> Some SharedProbeName) (deref (lb_Probes lb') [])"
proof -
  have keep: "\<not> keep" by (rule keep_shared_shared[OF assms(5,4)])
  obtain qs as d1 where q: "reconcile_list service findProbe pb_Name (lb_Probes lb) [] = Some (qs, d1)"
      "deref qs [] = filter (\<lambda>p. \<not> probes.stale service [] p) (deref (lb_Probes lb) []) @ as" "set as \<subseteq> {}"
    by (rule probes.reconcile_list_result[OF assms(3), of "[]" service]) auto
  have gone: "list_all (\<lambda>p. pb_Name p \<noteq> Some SharedProbeName) (deref qs [])"
    using q(2,3) assms(6) by (auto simp: list_all_iff probes.stale_def probes.owned_def serviceOwnsRule_def)
  have run1: "reconcileLBProbes az lb service True [] = Some (lb\<lparr>lb_Probes := qs\<rparr>, d1)"
    using assms(4) keep q(1) by (simp add: reconcileLBProbes_def keepSharedProbe_def)
  have rs: "list_all rule_ok rs" "list_all (rule_owned service) rs"
    using expected_rules_ok[OF assms(1)]
    by (auto simp: expectation_ok_def list_all_iff rule_expected_def rule_ok_def rule_owned_def dest!: bspec)
  obtain ts d2 where t: "reconcile_list service (\<lambda>rs r. Some (findRule rs r True)) lr_Name (lb_LoadBalancingRules lb) rs = Some (ts, d2)"
      "filter (\<lambda>r. \<not> rule_owned service r) (deref ts []) = filter (\<lambda>r. \<not> rule_owned service r) (deref (lb_LoadBalancingRules lb) [])"
    using rules.reconcile_list_exact[unfolded rule_owned_eq, OF assms(2) rs, of True] by blast
  have stays: "r \<in> set (deref ts [])" using t(2) assms(7,8) by (metis (mono_tags, lifting) mem_Collect_eq set_filter)
  obtain lb' d3 where tagged: "ensureLoadBalancerTagged cfg (lb\<lparr>lb_Probes := qs, lb_LoadBalancingRules := ts\<rparr>) = (lb', d3)" by fastforce
  then have lb': "lb_LoadBalancingRules lb' = ts" "lb_Probes lb' = qs"
    by (auto simp: ensureLoadBalancerTagged_def split: if_splits prod.splits)
  have "reconcile_probes_rules az cfg lb service fips pools lbName True = Inr (lb', d1 \<or> d2 \<or> d3)"
    by (simp add: reconcile_probes_rules_def assms(1) run1 reconcileLBRules_def t(1) tagged)
  then show ?thesis using stays gone lb' by auto
qed

text \<open>Another service has a rule that refers to the shared probe; the service of the reconciliation disables the probe of its port.\<close>

definition ex_other :: LoadBalancingRule where
  "ex_other = \<lparr>lr_Name = Some ''a2-TCP-7'',
     lr_Properties = Some \<lparr>lp_Protocol = ''Tcp'', lp_FrontendPort = Some 7, lp_BackendPort = Some 7, lp_DisableOutboundSnat = None,
       lp_EnableFloatingIP = Some True, lp_LoadDistribution = ''Default'', lp_FrontendIPConfiguration = Some (Some ''other''),
       lp_BackendAddressPool = Some (Some ''pool''), lp_Probe = probe_ref (ex_az ''shared'') ''lb'' (buildClusterServiceSharedProbe (ex_az ''shared'')),
       lp_IdleTimeoutInMinutes = None, lp_EnableTCPReset = None\<rparr>\<rparr>"

definition ex_shared_lb :: LoadBalancer where
  "ex_shared_lb = ex_lb
     (Some [\<lparr>pb_ID = Some ''p'', pb_Name = Some SharedProbeName,
        pb_Properties = map_option (\<lambda>q. q\<lparr>pp_LoadBalancingRules := Some [Some ''/r/a2-TCP-7'']\<rparr>) (pb_Properties (buildClusterServiceSharedProbe (ex_az ''shared'')))\<rparr>])
     (Some [ex_other])"

definition ex_silent :: Service where
  "ex_silent = ex_svc [(''service.beta.kubernetes.io/port_8_no_probe_rule'', ''true'')]"

lemma ex_silent_expected:
  "case expected_rules (ex_az ''shared'') ex_shared_lb ex_silent (\<lambda>_. ''fip'') (\<lambda>_. ''pool'') ''lb'' True of Inl _ \<Rightarrow> False | Inr (ps, rs) \<Rightarrow> ps = []"
  by code_simp

lemma ex_silent_checks:
  "list_all rule_ok (deref (lb_LoadBalancingRules ex_shared_lb) [])" "list_all probe_ok (deref (lb_Probes ex_shared_lb) [])"
  "keep_shared_loop (ex_az ''shared'') ex_silent False (deref (lb_Probes ex_shared_lb) []) = Inr False"
  "useSharedLoadBalancerHealthProbeMode (ex_az ''shared'')" "\<not> EqualFold (svc_ExternalTrafficPolicy ex_silent) ''Local''"
  "ex_other \<in> set (deref (lb_LoadBalancingRules ex_shared_lb) [])" "\<not> rule_owned ex_silent ex_other"
  by code_simp+

theorem shared_probe_evicted_witness:
  "probe_resolves (ex_az ''shared'') ''lb'' (deref (lb_Probes ex_shared_lb) []) ex_other \<and>
   (\<exists>lb' dirty. reconcile_probes_rules (ex_az ''shared'') ex_cfg ex_shared_lb ex_silent (\<lambda>_. ''fip'') (\<lambda>_. ''pool'') ''lb'' True = Inr (lb', dirty) \<and>
      ex_other \<in> set (deref (lb_LoadBalancingRules lb') []) \<and>
      list_all (\<lambda>p. pb_Name p \<noteq> Some SharedProbeName) (deref (lb_Probes lb') []))"
proof -
  obtain rs where e: "expected_rules (ex_az ''shared'') ex_shared_lb ex_silent (\<lambda>_. ''fip'') (\<lambda>_. ''pool'') ''lb'' True = Inr ([], rs)"
    using ex_silent_expected by (auto split: sum.splits prod.splits)
  have "probe_resolves (ex_az ''shared'') ''lb'' (deref (lb_Probes ex_shared_lb) []) ex_other" by code_simp
  then show ?thesis using shared_probe_evicted[OF e ex_silent_checks, of ex_cfg] by blast
qed

section \<open>Interval and number of probes\<close>

lemma ParseInt_range: "ParseInt w s = Inr v \<Longrightarrow> - (2 ^ (w - 1)) \<le> v \<and> v < 2 ^ (w - 1)"
  by (auto simp: ParseInt_def Let_def split: option.splits if_splits prod.splits)

lemma Getint32_validated:
  assumes "Getint32ValueFromK8sSvcAnnotation as key [Some f] = Inr (Some v)"
  shows "f v = None" "v < 2 ^ 31"
  using assms ParseInt_range[of 32]
  by (auto simp: Getint32ValueFromK8sSvcAnnotation_def extractInt32FromString_def Let_def split: sum.splits option.splits)

lemma int_config_validated:
  assumes "int_config service port key annotation (Some f) dflt = Inr v" "f dflt = None" "dflt < 2 ^ 31"
  shows "f v = None \<and> v < 2 ^ 31"
  using assms Getint32_validated[of "svc_Annotations service" _ f v]
  by (auto simp: int_config_def GetInt32HealthProbeConfigOfPortFromK8sSvcAnnotation_def split: sum.splits option.splits)

lemma mul_int32_small:
  assumes "0 \<le> a * b" "a * b < 2 ^ 31"
  shows "mul_int32 a b = a * b"
proof -
  have "mul_int32 a b = signed_take_bit 31 (a * b)"
    by (simp add: mul_int32_def sint_sbintrunc' flip: of_int_mult)
  also have "\<dots> = a * b" using assms by (simp add: signed_take_bit_int_eq_self_iff)
  finally show ?thesis .
qed

text \<open>C32. An accepted configuration of a probe has an interval of at least 5 seconds and at least 2 probes, and the total is below
  120 seconds, unless the product of the two numbers does not fit in 32 bits: the product is computed with wrap-around, so that
  some configurations with a huge total are accepted.\<close>

theorem health_probe_total:
  assumes "getHealthProbeConfigProbeIntervalAndNumOfProbe service port = Inr (i, n)"
  shows "5 \<le> i \<and> i < 2 ^ 31 \<and> 2 \<le> n \<and> n < 2 ^ 31 \<and> (i * n < 120 \<or> 2 ^ 31 \<le> i * n)"
proof -
  have *: "getHealthProbeConfigNumOfProbe service port = Inr n" "getHealthProbeConfigProbeInterval service port = Inr i"
      "mul_int32 i n < 120"
    using assms by (auto simp: getHealthProbeConfigProbeIntervalAndNumOfProbe_def split: sum.splits if_splits)
  have n: "2 \<le> n" "n < 2 ^ 31"
    using int_config_validated[OF *(1)[unfolded getHealthProbeConfigNumOfProbe_def numOfProbeValidator_def]]
    by (auto simp: HealthProbeDefaultNumOfProbe_def split: if_splits)
  have i: "5 \<le> i" "i < 2 ^ 31"
    using int_config_validated[OF *(2)[unfolded getHealthProbeConfigProbeInterval_def probeIntervalValidator_def]]
    by (auto simp: HealthProbeDefaultProbeInterval_def split: if_splits)
  have "i * n < 120" if "i * n < 2 ^ 31"
    using mul_int32_small[of i n] that i(1) n(1) *(3) by simp
  then show ?thesis using i n by auto
qed

text \<open>Sixteen bits for each of the two numbers: the product is \<open>0\<close>.\<close>

definition ex_slow :: Service where
  "ex_slow = ex_svc [(ServiceAnnotationLoadBalancerHealthProbeInterval, ''65536''), (ServiceAnnotationLoadBalancerHealthProbeNumOfProbe, ''65536'')]"

lemma ex_slow_parse: "ParseInt 32 ''65536'' = Inr 65536"
  by (simp add: ParseInt_def parse_nat_def digit_val_def Let_def)

lemma ex_slow_annotations:
  "map_of (svc_Annotations ex_slow) (BuildHealthProbeAnnotationKeyForPort 8 HealthProbeParamsNumOfProbe) = None"
  "map_of (svc_Annotations ex_slow) (BuildHealthProbeAnnotationKeyForPort 8 HealthProbeParamsProbeInterval) = None"
  "map_of (svc_Annotations ex_slow) ServiceAnnotationLoadBalancerHealthProbeNumOfProbe = Some ''65536''"
  "map_of (svc_Annotations ex_slow) ServiceAnnotationLoadBalancerHealthProbeInterval = Some ''65536''"
  by code_simp+

lemma ex_slow_value: "getHealthProbeConfigProbeIntervalAndNumOfProbe ex_slow 8 = Inr (65536, 65536)"
proof -
  have "int_config ex_slow 8 key a (Some f) d = Inr 65536"
    if "map_of (svc_Annotations ex_slow) (BuildHealthProbeAnnotationKeyForPort 8 key) = None"
      "map_of (svc_Annotations ex_slow) a = Some ''65536''" "f 65536 = None" for key a f d
    using that ex_slow_parse
    by (simp add: int_config_def GetInt32HealthProbeConfigOfPortFromK8sSvcAnnotation_def Getint32ValueFromK8sSvcAnnotation_def
        GetAttributeValueInSvcAnnotation_def extractInt32FromString_def TrimSpace_def is_space_def)
  moreover have "mul_int32 65536 65536 = 0" by (simp add: mul_int32_def)
  ultimately show ?thesis
    by (simp add: getHealthProbeConfigProbeIntervalAndNumOfProbe_def getHealthProbeConfigNumOfProbe_def
        getHealthProbeConfigProbeInterval_def numOfProbeValidator_def probeIntervalValidator_def ex_slow_annotations)
qed

theorem health_probe_total_witness:
  "getHealthProbeConfigProbeIntervalAndNumOfProbe ex_slow 8 = Inr (65536, 65536) \<and> (5::int) \<le> 65536 \<and> (2::int) ^ 31 \<le> 65536 * 65536"
  using health_probe_total[OF ex_slow_value] ex_slow_value by simp

end
