(* ===== verification/NodeCaches.thy ===== *)
theory NodeCaches
  imports CloudAllocator AzureUtils
begin

text \<open>
  The caches of node properties in \<open>pkg/provider/azure.go\<close>: the handlers of the node informer that maintain them
  (\<open>SetInformers\<close>, \<open>updateNodeCaches\<close>, \<open>updateNodeTaint\<close>) and the functions that read them. A Go map is an association
  list; \<open>None\<close> is the panic of an insertion into a set that is not initialized. Calls of the Kubernetes API and of the VM
  set are actions.
\<close>

record K8sNode =
  kn_Name :: string
  kn_Labels :: "(string \<times> string) list"
  kn_Addresses :: "NodeAddress list"
  kn_Taints :: "Taint list"
  kn_Conditions :: "NodeCondition list"

record node_caches =
  nc_nodeNames :: IgnoreCaseSet
  nc_nodeZones :: "(string \<times> IgnoreCaseSet) list"
  nc_nodeResourceGroups :: "(string \<times> string) list"
  nc_unmanagedNodes :: IgnoreCaseSet
  nc_excludeLoadBalancerNodes :: IgnoreCaseSet
  nc_nodePrivateIPs :: "(string \<times> IgnoreCaseSet) list"
  nc_nodePrivateIPToNodeNameMap :: "(string \<times> string) list"
  nc_nodesWithCorrectLoadBalancerByPrimaryVMSet :: "string set"

definition LabelTopologyZone :: string where
  "LabelTopologyZone = ''topology.kubernetes.io/zone''"

definition LabelNodeExcludeBalancers :: string where
  "LabelNodeExcludeBalancers = ''node.kubernetes.io/exclude-from-external-load-balancers''"

definition ExternalResourceGroupLabel :: string where
  "ExternalResourceGroupLabel = ''kubernetes.azure.com/resource-group''"

definition ManagedByAzureLabel :: string where
  "ManagedByAzureLabel = ''kubernetes.azure.com/managed''"

definition NotManagedByAzureLabelValue :: string where
  "NotManagedByAzureLabelValue = ''false''"

text \<open>The caches of a new cloud (\<open>NewCloud\<close>).\<close>

definition new_caches :: node_caches where
  "new_caches =
     \<lparr>nc_nodeNames = NewString [], nc_nodeZones = [], nc_nodeResourceGroups = [], nc_unmanagedNodes = NewString [],
      nc_excludeLoadBalancerNodes = NewString [], nc_nodePrivateIPs = [], nc_nodePrivateIPToNodeNameMap = [],
      nc_nodesWithCorrectLoadBalancerByPrimaryVMSet = {}\<rparr>"

definition isAvailabilityZone :: "string \<Rightarrow> string \<Rightarrow> bool" where
  "isAvailabilityZone location zone = HasPrefix zone (location @ ''-'')"

section \<open>Properties of a node\<close>

definition zone_of :: "string \<Rightarrow> K8sNode \<Rightarrow> string option" where
  "zone_of location node =
     (case map_of (kn_Labels node) LabelTopologyZone of
        Some zone \<Rightarrow> if isAvailabilityZone location zone then Some zone else None
      | None \<Rightarrow> None)"

definition isNodeManagedByCloudProvider :: "K8sNode \<Rightarrow> bool" where
  "isNodeManagedByCloudProvider node =
     (case map_of (kn_Labels node) ManagedByAzureLabel of
        None \<Rightarrow> True
      | Some managed \<Rightarrow> \<not> EqualFold managed NotManagedByAzureLabelValue)"

definition private_ips :: "K8sNode \<Rightarrow> string list" where
  "private_ips node = getNodePrivateIPAddresses (kn_Addresses node)"

text \<open>The set a map of sets has for a key; nil for a missing key.\<close>

definition set_at :: "(string \<times> IgnoreCaseSet) list \<Rightarrow> string \<Rightarrow> IgnoreCaseSet" where
  "set_at m k = (case map_of m k of None \<Rightarrow> None | Some s \<Rightarrow> s)"

text \<open>\<open>m[k].Delete(item)\<close>: the set is changed in place.\<close>

definition delete_at :: "string \<Rightarrow> string \<Rightarrow> (string \<times> IgnoreCaseSet) list \<Rightarrow> (string \<times> IgnoreCaseSet) list" where
  "delete_at k item m = (case map_of m k of None \<Rightarrow> m | Some s \<Rightarrow> put k (snd (set_Delete s item)) m)"

section \<open>updateNodeCaches\<close>

definition forget_zone :: "string \<Rightarrow> K8sNode \<Rightarrow> (string \<times> IgnoreCaseSet) list \<Rightarrow> (string \<times> IgnoreCaseSet) list" where
  "forget_zone location node zones =
     (case zone_of location node of
        None \<Rightarrow> zones
      | Some z \<Rightarrow>
          (let zones' = delete_at z (kn_Name node) zones
           in if set_Len (set_at zones' z) = 0 then put z None zones' else zones'))"

definition forget_node :: "string \<Rightarrow> K8sNode \<Rightarrow> node_caches \<Rightarrow> node_caches" where
  "forget_node location node c =
     c\<lparr>nc_nodeNames := snd (set_Delete (nc_nodeNames c) (kn_Name node)),
       nc_nodeZones := forget_zone location node (nc_nodeZones c),
       nc_nodeResourceGroups :=
         (if map_of (kn_Labels node) ExternalResourceGroupLabel \<noteq> None then del (kn_Name node) (nc_nodeResourceGroups c)
          else nc_nodeResourceGroups c),
       nc_unmanagedNodes :=
         (if \<not> isNodeManagedByCloudProvider node then snd (set_Delete (nc_unmanagedNodes c) (kn_Name node)) else nc_unmanagedNodes c),
       nc_nodePrivateIPs := fold (delete_at (kn_Name node)) (private_ips node) (nc_nodePrivateIPs c),
       nc_nodePrivateIPToNodeNameMap := fold del (private_ips node) (nc_nodePrivateIPToNodeNameMap c)\<rparr>"

definition forget_deleted :: "K8sNode \<Rightarrow> node_caches \<Rightarrow> node_caches option" where
  "forget_deleted node c =
     map_option
       (\<lambda>excluded. c\<lparr>nc_excludeLoadBalancerNodes := excluded,
          nc_nodesWithCorrectLoadBalancerByPrimaryVMSet := nc_nodesWithCorrectLoadBalancerByPrimaryVMSet c - {ToLower (kn_Name node)},
          nc_nodePrivateIPs := del (ToLower (kn_Name node)) (nc_nodePrivateIPs c)\<rparr>)
       (set_Insert (nc_excludeLoadBalancerNodes c) [kn_Name node])"

definition add_ip :: "string \<Rightarrow> string \<Rightarrow> (string \<times> IgnoreCaseSet) list \<Rightarrow> (string \<times> IgnoreCaseSet) list" where
  "add_ip name address m = put (ToLower name) (SafeInsert (set_at m (ToLower name)) [address]) m"

definition excluded_node :: "K8sNode \<Rightarrow> bool" where
  "excluded_node node =
     (if \<not> isNodeManagedByCloudProvider node then True
      else map_of (kn_Labels node) LabelNodeExcludeBalancers \<noteq> None)"

definition add_node :: "string \<Rightarrow> K8sNode \<Rightarrow> node_caches \<Rightarrow> node_caches option" where
  "add_node location node c =
     (case (if \<not> isNodeManagedByCloudProvider node then set_Insert (nc_unmanagedNodes c) [kn_Name node] else Some (nc_unmanagedNodes c)) of
        None \<Rightarrow> None
      | Some unmanaged \<Rightarrow>
          (case (if excluded_node node then set_Insert (nc_excludeLoadBalancerNodes c) [kn_Name node]
                 else Some (snd (set_Delete (nc_excludeLoadBalancerNodes c) (kn_Name node)))) of
             None \<Rightarrow> None
           | Some excluded \<Rightarrow>
               Some (c\<lparr>nc_nodeNames := SafeInsert (nc_nodeNames c) [kn_Name node],
                 nc_nodeZones :=
                   (case zone_of location node of
                      None \<Rightarrow> nc_nodeZones c
                    | Some z \<Rightarrow> put z (SafeInsert (set_at (nc_nodeZones c) z) [kn_Name node]) (nc_nodeZones c)),
                 nc_nodeResourceGroups :=
                   (case map_of (kn_Labels node) ExternalResourceGroupLabel of
                      None \<Rightarrow> nc_nodeResourceGroups c
                    | Some rg \<Rightarrow> if 0 < length rg then put (kn_Name node) (ToLower rg) (nc_nodeResourceGroups c)
                                else nc_nodeResourceGroups c),
                 nc_unmanagedNodes := unmanaged,
                 nc_excludeLoadBalancerNodes := excluded,
                 nc_nodePrivateIPs := fold (add_ip (kn_Name node)) (private_ips node) (nc_nodePrivateIPs c),
                 nc_nodePrivateIPToNodeNameMap :=
                   fold (\<lambda>address. put address (kn_Name node)) (private_ips node) (nc_nodePrivateIPToNodeNameMap c)\<rparr>)))"

definition updateNodeCaches :: "string \<Rightarrow> K8sNode option \<Rightarrow> K8sNode option \<Rightarrow> node_caches \<Rightarrow> node_caches option" where
  "updateNodeCaches location prevNode newNode c =
     (case (case prevNode of
              None \<Rightarrow> Some c
            | Some p \<Rightarrow>
                if newNode = None then forget_deleted p (forget_node location p c) else Some (forget_node location p c)) of
        None \<Rightarrow> None
      | Some c' \<Rightarrow> (case newNode of None \<Rightarrow> Some c' | Some n \<Rightarrow> add_node location n c'))"

section \<open>Taints and handlers\<close>

datatype node_action =
    RemoveTaintOffNode string Taint
  | AddOrUpdateTaintOnNode string Taint
  | DeleteCacheForNode string

definition nodeOutOfServiceTaint :: Taint where
  "nodeOutOfServiceTaint = \<lparr>taint_Key = ''node.kubernetes.io/out-of-service'', taint_Effect = ''NoExecute''\<rparr>"

definition nodeShutdownTaint :: Taint where
  "nodeShutdownTaint = \<lparr>taint_Key = ''node.cloudprovider.kubernetes.io/shutdown'', taint_Effect = ''NoSchedule''\<rparr>"

definition isNodeReady :: "K8sNode option \<Rightarrow> bool" where
  "isNodeReady node =
     (case node of
        None \<Rightarrow> False
      | Some n \<Rightarrow> (case snd (GetNodeCondition (Some (kn_Conditions n)) ''Ready'') of None \<Rightarrow> False | Some c \<Rightarrow> cond_Status c = ConditionTrue))"

definition updateNodeTaint :: "bool \<Rightarrow> K8sNode option \<Rightarrow> node_action list" where
  "updateNodeTaint hasKubeClient node =
     (case node of
        None \<Rightarrow> []
      | Some n \<Rightarrow>
          if \<not> hasKubeClient then []
          else if isNodeReady node then [RemoveTaintOffNode (kn_Name n) nodeOutOfServiceTaint]
          else if \<not> TaintExists (kn_Taints n) nodeOutOfServiceTaint \<and> TaintExists (kn_Taints n) nodeShutdownTaint
          then [AddOrUpdateTaintOnNode (kn_Name n) nodeOutOfServiceTaint]
          else [])"

text \<open>Objects the informer hands to the delete handler.\<close>

datatype deleted_object =
    DeletedNode K8sNode
  | DeletedFinalStateUnknown "K8sNode option"
  | OtherObject

datatype node_event =
    AddFunc K8sNode
  | UpdateFunc K8sNode K8sNode
  | DeleteFunc deleted_object

fun deleted_node :: "deleted_object \<Rightarrow> K8sNode option" where
  "deleted_node (DeletedNode n) = Some n"
| "deleted_node (DeletedFinalStateUnknown x) = x"
| "deleted_node OtherObject = None"

fun handle_node_event :: "string \<Rightarrow> bool \<Rightarrow> node_event \<Rightarrow> node_caches \<Rightarrow> (node_caches \<times> node_action list) option" where
  "handle_node_event location client (AddFunc n) c =
     map_option (\<lambda>c'. (c', updateNodeTaint client (Some n))) (updateNodeCaches location None (Some n) c)"
| "handle_node_event location client (UpdateFunc p n) c =
     map_option (\<lambda>c'. (c', updateNodeTaint client (Some n))) (updateNodeCaches location (Some p) (Some n) c)"
| "handle_node_event location client (DeleteFunc x) c =
     (case deleted_node x of
        None \<Rightarrow> Some (c, [])
      | Some n \<Rightarrow> map_option (\<lambda>c'. (c', [DeleteCacheForNode (kn_Name n)])) (updateNodeCaches location (Some n) None c))"

section \<open>Readers\<close>

text \<open>\<open>nodeInformerSynced\<close>: \<open>None\<close> when no informer was set.\<close>

definition NotSynced :: "string \<Rightarrow> string" where
  "NotSynced what = ''node informer is not synced when trying to '' @ what"

definition GetActiveZones :: "bool option \<Rightarrow> node_caches \<Rightarrow> (string, IgnoreCaseSet) result" where
  "GetActiveZones synced c =
     (case synced of
        None \<Rightarrow> Inl ''azure cloud provider doesn't have informers set''
      | Some False \<Rightarrow> Inl (NotSynced ''GetActiveZones'')
      | Some True \<Rightarrow> Inr (NewString (map fst (filter (\<lambda>(zone, nodes). 0 < set_Len nodes) (nc_nodeZones c)))))"

definition GetNodeResourceGroup :: "string \<Rightarrow> bool option \<Rightarrow> node_caches \<Rightarrow> string \<Rightarrow> (string, string) result" where
  "GetNodeResourceGroup resourceGroup synced c nodeName =
     (case synced of
        None \<Rightarrow> Inr resourceGroup
      | Some False \<Rightarrow> Inl (NotSynced ''GetNodeResourceGroup'')
      | Some True \<Rightarrow> Inr (case map_of (nc_nodeResourceGroups c) nodeName of Some rg \<Rightarrow> rg | None \<Rightarrow> resourceGroup))"

definition GetNodeNames :: "bool option \<Rightarrow> node_caches \<Rightarrow> (string, IgnoreCaseSet) result" where
  "GetNodeNames synced c =
     (case synced of
        None \<Rightarrow> Inr None
      | Some False \<Rightarrow> Inl (NotSynced ''GetNodeNames'')
      | Some True \<Rightarrow> Inr (Some (case nc_nodeNames c of None \<Rightarrow> {} | Some x \<Rightarrow> x)))"

definition GetResourceGroups :: "string \<Rightarrow> bool option \<Rightarrow> node_caches \<Rightarrow> (string, IgnoreCaseSet) result" where
  "GetResourceGroups resourceGroup synced c =
     (case synced of
        None \<Rightarrow> Inr (NewString [resourceGroup])
      | Some False \<Rightarrow> Inl (NotSynced ''GetResourceGroups'')
      | Some True \<Rightarrow> Inr (NewString (resourceGroup # map snd (nc_nodeResourceGroups c))))"

definition GetUnmanagedNodes :: "bool option \<Rightarrow> node_caches \<Rightarrow> (string, IgnoreCaseSet) result" where
  "GetUnmanagedNodes synced c =
     (case synced of
        None \<Rightarrow> Inr None
      | Some False \<Rightarrow> Inl (NotSynced ''GetUnmanagedNodes'')
      | Some True \<Rightarrow> Inr (Some (case nc_unmanagedNodes c of None \<Rightarrow> {} | Some x \<Rightarrow> x)))"

definition IsNodeUnmanaged :: "bool option \<Rightarrow> node_caches \<Rightarrow> string \<Rightarrow> (string, bool) result" where
  "IsNodeUnmanaged synced c nodeName =
     (case GetUnmanagedNodes synced c of Inl e \<Rightarrow> Inl e | Inr nodes \<Rightarrow> Inr (set_Has nodes nodeName))"

definition ShouldNodeExcludedFromLoadBalancer :: "string \<Rightarrow> bool option \<Rightarrow> node_caches \<Rightarrow> string \<Rightarrow> (string, bool) result" where
  "ShouldNodeExcludedFromLoadBalancer resourceGroup synced c nodeName =
     (case synced of
        None \<Rightarrow> Inr False
      | Some False \<Rightarrow> Inl (NotSynced ''fetch node caches'')
      | Some True \<Rightarrow>
          (case map_of (nc_nodeResourceGroups c) nodeName of
             Some rg \<Rightarrow> if \<not> EqualFold rg resourceGroup then Inr True else Inr (set_Has (nc_excludeLoadBalancerNodes c) nodeName)
           | None \<Rightarrow> Inr (set_Has (nc_excludeLoadBalancerNodes c) nodeName)))"

end
