(* ===== verification/NodeCacheFacts.thy ===== *)
theory NodeCacheFacts
  imports NodeCaches
begin

text \<open>
  What the node caches hold after any sequence of informer events. The specification is the cluster the events describe: the
  nodes by name, the names of nodes that were deleted and not added again, and whether no two nodes ever had a private
  address in common. \<open>node_view\<close> relates it to the caches; each handler keeps it.
\<close>

section \<open>Sets that track a predicate\<close>

text \<open>The set holds the spellings of exactly the lower-case strings that satisfy \<open>P\<close>.\<close>

definition tracks :: "IgnoreCaseSet \<Rightarrow> (string \<Rightarrow> bool) \<Rightarrow> bool" where
  "tracks s P \<longleftrightarrow> (\<forall>x. set_Has s x \<longleftrightarrow> P (ToLower x))"

lemma tracks_ins: "tracks s P \<Longrightarrow> tracks (SafeInsert s [k]) (\<lambda>x. P x \<or> x = ToLower k)"
  unfolding tracks_def ics.has_ins EqualFold_def by (simp add: eq_commute)

lemma tracks_del: "tracks s P \<Longrightarrow> tracks (snd (set_Delete s k)) (\<lambda>x. P x \<and> x \<noteq> ToLower k)"
  unfolding tracks_def ics.has_del EqualFold_def by (simp add: eq_commute)

lemma tracks_cong: "tracks s P \<Longrightarrow> (\<And>x. P x \<longleftrightarrow> Q x) \<Longrightarrow> tracks s Q"
  by (simp add: tracks_def)

lemma tracks_nil [simp]: "tracks None P \<longleftrightarrow> (\<forall>x. \<not> P (ToLower x))"
  by (simp add: tracks_def set_Has_def)

lemma Insert_initialized: "Initialized s \<Longrightarrow> set_Insert s xs = Some (SafeInsert s xs)"
  by (cases s) (simp_all add: Initialized_def SafeInsert_def)

lemma Initialized_SafeInsert [simp]: "Initialized (SafeInsert s xs)"
  by (cases s) (simp_all add: Initialized_def SafeInsert_def NewString_def)

lemma Initialized_Delete [simp]: "Initialized (snd (set_Delete s x)) = Initialized s"
  by (simp add: set_Delete_def Initialized_def Let_def)

definition finite_ics :: "IgnoreCaseSet \<Rightarrow> bool" where
  "finite_ics s \<longleftrightarrow> (case s of None \<Rightarrow> True | Some x \<Rightarrow> finite x \<and> (\<forall>i \<in> x. ToLower i = i))"

lemma finite_SafeInsert [simp]: "finite_ics (SafeInsert s xs) = finite_ics s"
  by (cases s) (simp_all add: finite_ics_def SafeInsert_def NewString_def ball_Un)

lemma finite_Delete [simp]: "finite_ics (snd (set_Delete s x)) = finite_ics s"
proof (cases s)
  case (Some x)
  have "(\<forall>i \<in> x - {ToLower x'}. ToLower i = i) \<longleftrightarrow> (\<forall>i \<in> x. ToLower i = i)" for x'
    by (metis DiffE DiffI ToLower_idem singletonD)
  then show ?thesis by (simp add: Some set_Delete_def finite_ics_def Let_def)
qed (simp add: set_Delete_def Let_def)

lemma finite_nil [simp]: "finite_ics None"
  by (simp add: finite_ics_def)

section \<open>Maps of sets\<close>

lemma set_at_put [simp]: "set_at (put k s m) k' = (if k' = k then s else set_at m k')"
  by (simp add: set_at_def)

lemma set_at_del [simp]: "set_at (del k m) k' = (if k' = k then None else set_at m k')"
  by (simp add: set_at_def)

lemma set_at_delete_at [simp]:
  "set_at (delete_at k a m) k' = (if k' = k then snd (set_Delete (set_at m k) a) else set_at m k')"
  by (auto simp: set_at_def delete_at_def set_Delete_def Initialized_def Let_def split: option.split)

lemma set_at_delete_all_other: "k' \<noteq> k \<Longrightarrow> set_at (fold (delete_at k) as m) k' = set_at m k'"
  by (induction "as" arbitrary: m) simp_all

lemma tracks_delete_all:
  "tracks (set_at m k) P \<Longrightarrow> tracks (set_at (fold (delete_at k) as m) k) (\<lambda>x. P x \<and> x \<notin> ToLower ` set as)"
proof (induction "as" arbitrary: m P)
  case (Cons a as)
  from Cons.IH [of "delete_at k a m", simplified, OF tracks_del [OF Cons.prems, of a]] show ?case
    by (simp only: fold_simps o_apply) (erule tracks_cong, auto)
qed simp

lemma set_at_add_all_other: "k' \<noteq> ToLower k \<Longrightarrow> set_at (fold (add_ip k) as m) k' = set_at m k'"
  by (induction "as" arbitrary: m) (simp_all add: add_ip_def)

lemma tracks_add_all:
  "tracks (set_at m (ToLower k)) P \<Longrightarrow> tracks (set_at (fold (add_ip k) as m) (ToLower k)) (\<lambda>x. P x \<or> x \<in> ToLower ` set as)"
proof (induction "as" arbitrary: m P)
  case (Cons a as)
  have "tracks (set_at (add_ip k a m) (ToLower k)) (\<lambda>x. P x \<or> x = ToLower a)"
    using tracks_ins [OF Cons.prems] by (simp add: add_ip_def)
  from Cons.IH [OF this] show ?case
    by (simp only: fold_simps o_apply) (erule tracks_cong, auto)
qed simp

lemma map_of_delete_all: "map_of (fold del as m) a = (if a \<in> set as then None else map_of m a)"
  by (induction "as" arbitrary: m) auto

lemma map_of_put_all: "map_of (fold (\<lambda>a. put a k) as m) a = (if a \<in> set as then Some k else map_of m a)"
  by (induction "as" arbitrary: m) auto

section \<open>The cluster the events describe\<close>

record cluster =
  cl_nodes :: "(string \<times> K8sNode) list"
  cl_gone :: "string set"
  cl_clean :: bool

definition empty_cluster :: cluster where
  "empty_cluster = \<lparr>cl_nodes = [], cl_gone = {}, cl_clean = True\<rparr>"

definition fresh_ips :: "(string \<times> K8sNode) list \<Rightarrow> K8sNode \<Rightarrow> bool" where
  "fresh_ips nodes n = list_all (\<lambda>(k, m). k = kn_Name n \<or> set (private_ips m) \<inter> set (private_ips n) = {}) nodes"

definition join_cluster :: "K8sNode \<Rightarrow> cluster \<Rightarrow> cluster" where
  "join_cluster n s =
     \<lparr>cl_nodes = put (kn_Name n) n (cl_nodes s), cl_gone = cl_gone s - {kn_Name n}, cl_clean = (cl_clean s \<and> fresh_ips (cl_nodes s) n)\<rparr>"

definition leave_cluster :: "K8sNode \<Rightarrow> cluster \<Rightarrow> cluster" where
  "leave_cluster p s = s\<lparr>cl_nodes := del (kn_Name p) (cl_nodes s), cl_gone := insert (kn_Name p) (cl_gone s)\<rparr>"

text \<open>
  \<open>None\<close> for an event that does not fit the cluster: the informer hands the handlers the object it had for the name, and
  names of nodes are lower-case (RFC 1123).
\<close>

fun next_cluster :: "node_event \<Rightarrow> cluster \<Rightarrow> cluster option" where
  "next_cluster (AddFunc n) s =
     (if map_of (cl_nodes s) (kn_Name n) = None \<and> ToLower (kn_Name n) = kn_Name n then Some (join_cluster n s) else None)"
| "next_cluster (UpdateFunc p n) s =
     (if map_of (cl_nodes s) (kn_Name p) = Some p \<and> kn_Name n = kn_Name p then Some (join_cluster n s) else None)"
| "next_cluster (DeleteFunc x) s =
     (case deleted_node x of
        None \<Rightarrow> Some s
      | Some p \<Rightarrow> if map_of (cl_nodes s) (kn_Name p) = Some p then Some (leave_cluster p s) else None)"

definition external_rg :: "K8sNode \<Rightarrow> string option" where
  "external_rg n = (case map_of (kn_Labels n) ExternalResourceGroupLabel of Some rg \<Rightarrow> if rg = [] then None else Some (ToLower rg) | None \<Rightarrow> None)"

text \<open>The caches agree with the nodes \<open>ns\<close>, the deleted names \<open>gone\<close> and, if addresses were never shared, the owners of addresses.\<close>

definition zones_view :: "string \<Rightarrow> (string \<rightharpoonup> K8sNode) \<Rightarrow> (string \<times> IgnoreCaseSet) list \<Rightarrow> bool" where
  "zones_view loc ns zones \<longleftrightarrow> distinct (map fst zones) \<and>
     (\<forall>z. finite_ics (set_at zones z) \<and> tracks (set_at zones z) (\<lambda>k. \<exists>n. ns k = Some n \<and> zone_of loc n = Some z))"

definition ips_view :: "(string \<rightharpoonup> K8sNode) \<Rightarrow> (string \<times> IgnoreCaseSet) list \<Rightarrow> bool" where
  "ips_view ns ips \<longleftrightarrow> (\<forall>k. tracks (set_at ips k) (\<lambda>a. \<exists>n. ns k = Some n \<and> a \<in> ToLower ` set (private_ips n)))"

definition owners_view :: "(string \<rightharpoonup> K8sNode) \<Rightarrow> (string \<times> string) list \<Rightarrow> bool" where
  "owners_view ns owners \<longleftrightarrow> (\<forall>a k. map_of owners a = Some k \<longleftrightarrow> (\<exists>n. ns k = Some n \<and> a \<in> set (private_ips n)))"

definition disjoint_ips :: "(string \<rightharpoonup> K8sNode) \<Rightarrow> bool" where
  "disjoint_ips ns \<longleftrightarrow>
     (\<forall>k l m n a. ns k = Some m \<longrightarrow> ns l = Some n \<longrightarrow> a \<in> set (private_ips m) \<longrightarrow> a \<in> set (private_ips n) \<longrightarrow> k = l)"

definition node_view :: "string \<Rightarrow> (string \<rightharpoonup> K8sNode) \<Rightarrow> string set \<Rightarrow> bool \<Rightarrow> node_caches \<Rightarrow> bool" where
  "node_view loc ns gone clean c \<longleftrightarrow>
     (\<forall>k n. ns k = Some n \<longrightarrow> kn_Name n = k \<and> ToLower k = k) \<and>
     tracks (nc_nodeNames c) (\<lambda>k. ns k \<noteq> None) \<and>
     zones_view loc ns (nc_nodeZones c) \<and>
     (\<forall>k. map_of (nc_nodeResourceGroups c) k = Option.bind (ns k) external_rg) \<and>
     Initialized (nc_unmanagedNodes c) \<and>
     tracks (nc_unmanagedNodes c) (\<lambda>k. \<exists>n. ns k = Some n \<and> \<not> isNodeManagedByCloudProvider n) \<and>
     Initialized (nc_excludeLoadBalancerNodes c) \<and>
     tracks (nc_excludeLoadBalancerNodes c) (\<lambda>k. k \<in> gone \<or> (\<exists>n. ns k = Some n \<and> excluded_node n)) \<and>
     ips_view ns (nc_nodePrivateIPs c) \<and>
     (clean \<longrightarrow> disjoint_ips ns \<and> owners_view ns (nc_nodePrivateIPToNodeNameMap c))"

lemma distinct_delete_at: "distinct (map fst m) \<Longrightarrow> distinct (map fst (delete_at k a m))"
  by (auto simp: delete_at_def distinct_put split: option.split)

lemma Len_0_tracks: "finite_ics s \<Longrightarrow> set_Len s = 0 \<Longrightarrow> tracks s P \<Longrightarrow> tracks None P"
  by (cases s) (simp_all add: finite_ics_def set_Len_def tracks_def set_Has_def)

lemma forget_zones:
  assumes "zones_view loc ns zones" "ns k = Some p" "kn_Name p = k" "ToLower k = k"
  shows "zones_view loc (ns(k := None)) (forget_zone loc p zones)"
proof (cases "zone_of loc p")
  case None
  then have "(\<exists>n. (ns(k := None)) l = Some n \<and> zone_of loc n = Some z) \<longleftrightarrow> (\<exists>n. ns l = Some n \<and> zone_of loc n = Some z)" for l z
    using assms(2) by auto
  then show ?thesis using assms(1) None by (simp only: zones_view_def forget_zone_def) simp
next
  case (Some z)
  define zones' where "zones' = delete_at z k zones"
  have *: "finite_ics (set_at zones' y) \<and> tracks (set_at zones' y) (\<lambda>l. \<exists>n. (ns(k := None)) l = Some n \<and> zone_of loc n = Some y)" for y
  proof (cases "y = z")
    case True
    have "tracks (set_at zones z) (\<lambda>l. \<exists>n. ns l = Some n \<and> zone_of loc n = Some z)" using assms(1) by (simp add: zones_view_def)
    from tracks_del [OF this, of k] show ?thesis
      using assms(1,4) True by (auto simp: zones'_def zones_view_def elim!: tracks_cong)
  next
    case False
    have "tracks (set_at zones y) (\<lambda>l. \<exists>n. ns l = Some n \<and> zone_of loc n = Some y)" "finite_ics (set_at zones y)"
      using assms(1) by (simp_all add: zones_view_def)
    then show ?thesis using False Some assms(2) by (auto simp: zones'_def elim!: tracks_cong)
  qed
  have d: "distinct (map fst zones')" using assms(1) by (simp add: zones'_def zones_view_def distinct_delete_at)
  have f: "forget_zone loc p zones = (if set_Len (set_at zones' z) = 0 then put z None zones' else zones')"
    using Some assms(3) by (simp add: forget_zone_def zones'_def Let_def)
  show ?thesis
  proof (cases "set_Len (set_at zones' z) = 0")
    case True
    then have "tracks None (\<lambda>l. \<exists>n. (ns(k := None)) l = Some n \<and> zone_of loc n = Some z)"
      using * [of z] Len_0_tracks by blast
    then show ?thesis using * d True unfolding f zones_view_def by (simp add: distinct_put)
  qed (use * d f in \<open>simp add: zones_view_def\<close>)
qed

lemma forget_ips:
  assumes "ips_view ns ips" "ns k = Some p"
  shows "ips_view (ns(k := None)) (fold (delete_at k) (private_ips p) ips)"
  unfolding ips_view_def
proof
  fix l
  have *: "tracks (set_at ips l) (\<lambda>a. \<exists>n. ns l = Some n \<and> a \<in> ToLower ` set (private_ips n))"
    using assms(1) by (simp add: ips_view_def)
  show "tracks (set_at (fold (delete_at k) (private_ips p) ips) l)
     (\<lambda>a. \<exists>n. (ns(k := None)) l = Some n \<and> a \<in> ToLower ` set (private_ips n))"
  proof (cases "l = k")
    case True
    then show ?thesis using tracks_delete_all [OF * [unfolded True], of "private_ips p"] assms(2) by (auto elim!: tracks_cong)
  qed (use * in \<open>simp add: set_at_delete_all_other\<close>)
qed

lemma disjoint_ips_drop: "disjoint_ips ns \<Longrightarrow> disjoint_ips (ns(k := None))"
  unfolding disjoint_ips_def fun_upd_def by (metis option.distinct(1))

lemma forget_owners:
  assumes d: "disjoint_ips ns" and o: "owners_view ns owners" and p: "ns k = Some p"
  shows "owners_view (ns(k := None)) (fold del (private_ips p) owners)"
  unfolding owners_view_def
proof (intro allI)
  fix a l
  have own: "map_of owners a = Some l \<longleftrightarrow> (\<exists>n. ns l = Some n \<and> a \<in> set (private_ips n))"
    using o unfolding owners_view_def by blast
  show "map_of (fold del (private_ips p) owners) a = Some l \<longleftrightarrow> (\<exists>n. (ns(k := None)) l = Some n \<and> a \<in> set (private_ips n))"
  proof (cases "a \<in> set (private_ips p)")
    case True
    then have "\<not> (\<exists>n. (ns(k := None)) l = Some n \<and> a \<in> set (private_ips n))"
      using d p unfolding disjoint_ips_def fun_upd_def by (metis option.distinct(1))
    then show ?thesis using True by (simp add: map_of_delete_all)
  next
    case False
    then show ?thesis using own p by (cases "l = k") (simp_all add: map_of_delete_all)
  qed
qed

lemma node_viewD:
  assumes "node_view loc ns gone clean c"
  shows view_name: "ns k = Some n \<Longrightarrow> kn_Name n = k \<and> ToLower k = k"
    and view_names: "tracks (nc_nodeNames c) (\<lambda>k. ns k \<noteq> None)"
    and view_zones: "zones_view loc ns (nc_nodeZones c)"
    and view_rgs: "map_of (nc_nodeResourceGroups c) k = Option.bind (ns k) external_rg"
    and view_unmanaged: "tracks (nc_unmanagedNodes c) (\<lambda>k. \<exists>n. ns k = Some n \<and> \<not> isNodeManagedByCloudProvider n)"
    and view_excluded: "tracks (nc_excludeLoadBalancerNodes c) (\<lambda>k. k \<in> gone \<or> (\<exists>n. ns k = Some n \<and> excluded_node n))"
    and view_init: "Initialized (nc_unmanagedNodes c)" "Initialized (nc_excludeLoadBalancerNodes c)"
    and view_ips: "ips_view ns (nc_nodePrivateIPs c)"
    and view_owners: "clean \<Longrightarrow> disjoint_ips ns" "clean \<Longrightarrow> owners_view ns (nc_nodePrivateIPToNodeNameMap c)"
  by (insert assms, unfold node_view_def) (elim conjE; simp)+

lemma node_viewI:
  assumes "\<And>k n. ns k = Some n \<Longrightarrow> kn_Name n = k \<and> ToLower k = k"
    and "tracks (nc_nodeNames c) (\<lambda>k. ns k \<noteq> None)"
    and "zones_view loc ns (nc_nodeZones c)"
    and "\<And>k. map_of (nc_nodeResourceGroups c) k = Option.bind (ns k) external_rg"
    and "Initialized (nc_unmanagedNodes c)"
    and "tracks (nc_unmanagedNodes c) (\<lambda>k. \<exists>n. ns k = Some n \<and> \<not> isNodeManagedByCloudProvider n)"
    and "Initialized (nc_excludeLoadBalancerNodes c)"
    and "tracks (nc_excludeLoadBalancerNodes c) (\<lambda>k. k \<in> gone \<or> (\<exists>n. ns k = Some n \<and> excluded_node n))"
    and "ips_view ns (nc_nodePrivateIPs c)"
    and "clean \<Longrightarrow> disjoint_ips ns \<and> owners_view ns (nc_nodePrivateIPToNodeNameMap c)"
  shows "node_view loc ns gone clean c"
  unfolding node_view_def by (intro conjI allI impI assms) (auto dest: assms(1,10))

lemma forget_unmanaged:
  assumes t: "tracks s (\<lambda>l. \<exists>n. ns l = Some n \<and> \<not> isNodeManagedByCloudProvider n)" and p: "ns k = Some p" and k: "ToLower k = k"
  shows "tracks (if \<not> isNodeManagedByCloudProvider p then snd (set_Delete s k) else s)
    (\<lambda>l. \<exists>n. (ns(k := None)) l = Some n \<and> \<not> isNodeManagedByCloudProvider n)"
proof (cases "isNodeManagedByCloudProvider p")
  case True
  with p have "(\<exists>n. ns l = Some n \<and> \<not> isNodeManagedByCloudProvider n) \<longleftrightarrow> (\<exists>n. (ns(k := None)) l = Some n \<and> \<not> isNodeManagedByCloudProvider n)" for l
    by auto
  with tracks_cong [OF t] True show ?thesis by simp
next
  case False
  have "tracks (snd (set_Delete s k)) (\<lambda>l. \<exists>n. (ns(k := None)) l = Some n \<and> \<not> isNodeManagedByCloudProvider n)"
    by (rule tracks_cong [OF tracks_del [OF t]]) (simp add: k)
  with False show ?thesis by simp
qed

lemma forget_excluded:
  assumes "tracks s (\<lambda>l. l \<in> gone \<or> (\<exists>n. ns l = Some n \<and> excluded_node n))" "ns k = Some p"
  shows "tracks s (\<lambda>l. l \<in> (if excluded_node p then insert k gone else gone) \<or> (\<exists>n. (ns(k := None)) l = Some n \<and> excluded_node n))"
  by (rule tracks_cong [OF assms(1)]) (use assms(2) in auto)

lemma forget_sel [simp]:
  "nc_nodeNames (forget_node loc p c) = snd (set_Delete (nc_nodeNames c) (kn_Name p))"
  "nc_nodeZones (forget_node loc p c) = forget_zone loc p (nc_nodeZones c)"
  "nc_unmanagedNodes (forget_node loc p c) =
     (if \<not> isNodeManagedByCloudProvider p then snd (set_Delete (nc_unmanagedNodes c) (kn_Name p)) else nc_unmanagedNodes c)"
  "nc_excludeLoadBalancerNodes (forget_node loc p c) = nc_excludeLoadBalancerNodes c"
  "nc_nodePrivateIPs (forget_node loc p c) = fold (delete_at (kn_Name p)) (private_ips p) (nc_nodePrivateIPs c)"
  "nc_nodePrivateIPToNodeNameMap (forget_node loc p c) = fold del (private_ips p) (nc_nodePrivateIPToNodeNameMap c)"
  by (simp_all add: forget_node_def)

lemma forget_view:
  assumes v: "node_view loc ns gone clean c" and p: "ns (kn_Name p) = Some p"
  shows "node_view loc (ns(kn_Name p := None)) (if excluded_node p then insert (kn_Name p) gone else gone) clean (forget_node loc p c)"
proof -
  let ?k = "kn_Name p"
  have k: "ToLower ?k = ?k" using view_name [OF v p] by simp
  have names: "tracks (snd (set_Delete (nc_nodeNames c) ?k)) (\<lambda>l. (ns(?k := None)) l \<noteq> None)"
    by (rule tracks_cong [OF tracks_del [OF view_names [OF v]]]) (simp add: k)
  have rgs: "map_of (nc_nodeResourceGroups (forget_node loc p c)) l = Option.bind ((ns(?k := None)) l) external_rg" for l
    using view_rgs [OF v, of l] p by (cases "l = ?k") (auto simp: forget_node_def external_rg_def)
  have wf: "(ns(?k := None)) l = Some n \<Longrightarrow> kn_Name n = l \<and> ToLower l = l" for l n
    using view_name [OF v, of l n] by (simp split: if_splits)
  have owners: "clean \<Longrightarrow> disjoint_ips (ns(?k := None)) \<and> owners_view (ns(?k := None)) (fold del (private_ips p) (nc_nodePrivateIPToNodeNameMap c))"
    using view_owners [OF v] p forget_owners disjoint_ips_drop by blast
  have init: "Initialized (nc_unmanagedNodes (forget_node loc p c))" using view_init [OF v] by simp
  show ?thesis
    by (rule node_viewI) (simp_all only: forget_sel(1,2,3,4,5,6) wf names rgs init [unfolded forget_sel] view_init [OF v] owners
        forget_zones [OF view_zones [OF v] p refl k] forget_unmanaged [OF view_unmanaged [OF v] p k]
        forget_excluded [OF view_excluded [OF v] p] forget_ips [OF view_ips [OF v] p])
qed

lemma deleted_view:
  assumes v: "node_view loc ns gone clean c" and p: "ns (kn_Name p) = None" "ToLower (kn_Name p) = kn_Name p"
  shows "\<exists>c'. forget_deleted p c = Some c' \<and> node_view loc ns (insert (kn_Name p) gone) clean c'"
proof -
  let ?c = "c\<lparr>nc_excludeLoadBalancerNodes := SafeInsert (nc_excludeLoadBalancerNodes c) [kn_Name p],
    nc_nodesWithCorrectLoadBalancerByPrimaryVMSet := nc_nodesWithCorrectLoadBalancerByPrimaryVMSet c - {ToLower (kn_Name p)},
    nc_nodePrivateIPs := del (ToLower (kn_Name p)) (nc_nodePrivateIPs c)\<rparr>"
  have "forget_deleted p c = Some ?c" by (simp add: forget_deleted_def Insert_initialized [OF view_init(2) [OF v]])
  moreover have "node_view loc ns (insert (kn_Name p) gone) clean ?c"
  proof (rule node_viewI)
    show "tracks (nc_excludeLoadBalancerNodes ?c) (\<lambda>l. l \<in> insert (kn_Name p) gone \<or> (\<exists>n. ns l = Some n \<and> excluded_node n))"
      by simp (rule tracks_cong [OF tracks_ins [OF view_excluded [OF v]]], simp add: p, blast)
    show "ips_view ns (nc_nodePrivateIPs ?c)" using view_ips [OF v] p by (simp add: ips_view_def)
  qed (simp_all add: view_names [OF v, simplified] view_zones [OF v] view_rgs [OF v] view_unmanaged [OF v] view_init [OF v] view_owners [OF v] view_name [OF v])
  ultimately show ?thesis by blast
qed

lemma add_zones:
  assumes z: "zones_view loc ns zones" and n: "ns k = None" "ToLower k = k"
  shows "zones_view loc (ns(k \<mapsto> n))
    (case zone_of loc n of None \<Rightarrow> zones | Some z \<Rightarrow> put z (SafeInsert (set_at zones z) [k]) zones)"
proof -
  have t: "tracks (set_at zones y) (\<lambda>l. \<exists>m. ns l = Some m \<and> zone_of loc m = Some y)" "finite_ics (set_at zones y)" for y
    using z by (simp_all add: zones_view_def)
  have d: "distinct (map fst zones)" using z by (simp add: zones_view_def)
  have other: "tracks (set_at zones y) (\<lambda>l. \<exists>m. (ns(k \<mapsto> n)) l = Some m \<and> zone_of loc m = Some y)" if "zone_of loc n \<noteq> Some y" for y
    by (rule tracks_cong [OF t(1)]) (use n that in auto)
  have own: "tracks (SafeInsert (set_at zones y) [k]) (\<lambda>l. \<exists>m. (ns(k \<mapsto> n)) l = Some m \<and> zone_of loc m = Some y)"
    if "zone_of loc n = Some y" for y
    by (rule tracks_cong [OF tracks_ins [OF t(1)]]) (use n that in auto)
  show ?thesis
  proof (cases "zone_of loc n")
    case None
    then show ?thesis using d t(2) other unfolding zones_view_def by simp
  next
    case (Some y)
    have "finite_ics (set_at (put y (SafeInsert (set_at zones y) [k]) zones) x) \<and>
        tracks (set_at (put y (SafeInsert (set_at zones y) [k]) zones) x) (\<lambda>l. \<exists>m. (ns(k \<mapsto> n)) l = Some m \<and> zone_of loc m = Some x)" for x
      using own [OF Some] other [of x] t(2) Some by (cases "x = y") (simp_all only: set_at_put finite_SafeInsert if_True if_False option.inject, simp_all)
    then show ?thesis using distinct_put [OF d] Some unfolding zones_view_def by simp
  qed
qed

lemma add_ips:
  assumes i: "ips_view ns ips" and n: "ns k = None" "ToLower k = k"
  shows "ips_view (ns(k \<mapsto> n)) (fold (add_ip k) (private_ips n) ips)"
  unfolding ips_view_def
proof
  fix l
  have t: "tracks (set_at ips l) (\<lambda>a. \<exists>m. ns l = Some m \<and> a \<in> ToLower ` set (private_ips m))" for l
    using i by (simp add: ips_view_def)
  show "tracks (set_at (fold (add_ip k) (private_ips n) ips) l) (\<lambda>a. \<exists>m. (ns(k \<mapsto> n)) l = Some m \<and> a \<in> ToLower ` set (private_ips m))"
  proof (cases "l = k")
    case True
    have "tracks (set_at (fold (add_ip k) (private_ips n) ips) (ToLower k)) (\<lambda>a. \<exists>m. (ns(k \<mapsto> n)) k = Some m \<and> a \<in> ToLower ` set (private_ips m))"
      by (rule tracks_cong [OF tracks_add_all [OF t]]) (simp add: n)
    then show ?thesis by (simp only: n True)
  next
    case False
    then show ?thesis using t [of l] n by (simp add: set_at_add_all_other)
  qed
qed

lemma add_owners:
  assumes d: "disjoint_ips ns" and o: "owners_view ns owners" and n: "ns k = None"
    and f: "\<And>l m a. ns l = Some m \<Longrightarrow> a \<in> set (private_ips m) \<Longrightarrow> a \<in> set (private_ips n) \<Longrightarrow> False"
  shows "disjoint_ips (ns(k \<mapsto> n)) \<and> owners_view (ns(k \<mapsto> n)) (fold (\<lambda>a. put a k) (private_ips n) owners)"
proof
  show "disjoint_ips (ns(k \<mapsto> n))"
    unfolding disjoint_ips_def
  proof (intro allI impI)
    fix i l m m' a
    assume a: "(ns(k \<mapsto> n)) i = Some m" "(ns(k \<mapsto> n)) l = Some m'" "a \<in> set (private_ips m)" "a \<in> set (private_ips m')"
    show "i = l"
    proof (cases "i = k \<or> l = k")
      case True
      then show ?thesis using a f [of i m a] f [of l m' a] by (cases "i = k"; cases "l = k") simp_all
    next
      case False
      then have "ns i = Some m" "ns l = Some m'" using a by simp_all
      with d a(3,4) show ?thesis unfolding disjoint_ips_def by blast
    qed
  qed
  show "owners_view (ns(k \<mapsto> n)) (fold (\<lambda>a. put a k) (private_ips n) owners)"
    unfolding owners_view_def
  proof (intro allI)
    fix a l
    have own: "map_of owners a = Some l \<longleftrightarrow> (\<exists>m. ns l = Some m \<and> a \<in> set (private_ips m))"
      using o unfolding owners_view_def by blast
    show "map_of (fold (\<lambda>a. put a k) (private_ips n) owners) a = Some l \<longleftrightarrow> (\<exists>m. (ns(k \<mapsto> n)) l = Some m \<and> a \<in> set (private_ips m))"
    proof (cases "a \<in> set (private_ips n)")
      case True
      then show ?thesis using f [of l _ a] by (cases "l = k") (auto simp: map_of_put_all)
    next
      case False
      then show ?thesis using own n by (cases "l = k") (auto simp: map_of_put_all)
    qed
  qed
qed

lemma add_unmanaged:
  assumes t: "tracks s (\<lambda>l. \<exists>m. ns l = Some m \<and> \<not> isNodeManagedByCloudProvider m)" and n: "ns k = None" "ToLower k = k"
  shows "tracks (if \<not> isNodeManagedByCloudProvider n then SafeInsert s [k] else s)
    (\<lambda>l. \<exists>m. (ns(k \<mapsto> n)) l = Some m \<and> \<not> isNodeManagedByCloudProvider m)"
proof (cases "isNodeManagedByCloudProvider n")
  case True
  have "tracks s (\<lambda>l. \<exists>m. (ns(k \<mapsto> n)) l = Some m \<and> \<not> isNodeManagedByCloudProvider m)"
    by (rule tracks_cong [OF t]) (use n True in auto)
  with True show ?thesis by simp
next
  case False
  have "tracks (SafeInsert s [k]) (\<lambda>l. \<exists>m. (ns(k \<mapsto> n)) l = Some m \<and> \<not> isNodeManagedByCloudProvider m)"
    by (rule tracks_cong [OF tracks_ins [OF t]]) (use n False in auto)
  with False show ?thesis by simp
qed

lemma add_excluded:
  assumes t: "tracks s (\<lambda>l. l \<in> gone \<or> (\<exists>m. ns l = Some m \<and> excluded_node m))" and n: "ns k = None" "ToLower k = k"
  shows "tracks (if excluded_node n then SafeInsert s [k] else snd (set_Delete s k))
    (\<lambda>l. l \<in> gone - {k} \<or> (\<exists>m. (ns(k \<mapsto> n)) l = Some m \<and> excluded_node m))"
proof (cases "excluded_node n")
  case True
  have "tracks (SafeInsert s [k]) (\<lambda>l. l \<in> gone - {k} \<or> (\<exists>m. (ns(k \<mapsto> n)) l = Some m \<and> excluded_node m))"
    by (rule tracks_cong [OF tracks_ins [OF t]]) (use n True in auto)
  with True show ?thesis by simp
next
  case False
  have "tracks (snd (set_Delete s k)) (\<lambda>l. l \<in> gone - {k} \<or> (\<exists>m. (ns(k \<mapsto> n)) l = Some m \<and> excluded_node m))"
    by (rule tracks_cong [OF tracks_del [OF t]]) (use n False in auto)
  with False show ?thesis by simp
qed

lemma add_view:
  assumes v: "node_view loc ns gone clean c" and n: "ns (kn_Name n) = None" "ToLower (kn_Name n) = kn_Name n"
    and f: "fresh \<Longrightarrow> \<forall>l m. ns l = Some m \<longrightarrow> set (private_ips m) \<inter> set (private_ips n) = {}"
  shows "\<exists>c'. add_node loc n c = Some c' \<and> node_view loc (ns(kn_Name n \<mapsto> n)) (gone - {kn_Name n}) (clean \<and> fresh) c'"
proof -
  let ?k = "kn_Name n" let ?ns = "ns(kn_Name n \<mapsto> n)"
  let ?unmanaged = "if \<not> isNodeManagedByCloudProvider n then SafeInsert (nc_unmanagedNodes c) [?k] else nc_unmanagedNodes c"
  let ?excluded = "if excluded_node n then SafeInsert (nc_excludeLoadBalancerNodes c) [?k]
    else snd (set_Delete (nc_excludeLoadBalancerNodes c) ?k)"
  have "(if \<not> isNodeManagedByCloudProvider n then set_Insert (nc_unmanagedNodes c) [?k] else Some (nc_unmanagedNodes c)) = Some ?unmanaged"
    "(if excluded_node n then set_Insert (nc_excludeLoadBalancerNodes c) [?k]
      else Some (snd (set_Delete (nc_excludeLoadBalancerNodes c) ?k))) = Some ?excluded"
    by (simp_all add: Insert_initialized view_init [OF v])
  then obtain c' where c': "add_node loc n c = Some c'"
    and sel: "nc_nodeNames c' = SafeInsert (nc_nodeNames c) [?k]"
      "nc_nodeZones c' = (case zone_of loc n of None \<Rightarrow> nc_nodeZones c
         | Some z \<Rightarrow> put z (SafeInsert (set_at (nc_nodeZones c) z) [?k]) (nc_nodeZones c))"
      "nc_nodeResourceGroups c' = (case map_of (kn_Labels n) ExternalResourceGroupLabel of None \<Rightarrow> nc_nodeResourceGroups c
         | Some rg \<Rightarrow> if 0 < length rg then put ?k (ToLower rg) (nc_nodeResourceGroups c) else nc_nodeResourceGroups c)"
      "nc_unmanagedNodes c' = ?unmanaged" "nc_excludeLoadBalancerNodes c' = ?excluded"
      "nc_nodePrivateIPs c' = fold (add_ip ?k) (private_ips n) (nc_nodePrivateIPs c)"
      "nc_nodePrivateIPToNodeNameMap c' = fold (\<lambda>a. put a ?k) (private_ips n) (nc_nodePrivateIPToNodeNameMap c)"
    unfolding add_node_def by simp
  have names: "tracks (SafeInsert (nc_nodeNames c) [?k]) (\<lambda>l. ?ns l \<noteq> None)"
    by (rule tracks_cong [OF tracks_ins [OF view_names [OF v]]]) (simp add: n)
  have rgs: "map_of (nc_nodeResourceGroups c') l = Option.bind (?ns l) external_rg" for l
    using view_rgs [OF v, of l] n by (cases "l = ?k") (auto simp: sel(3) external_rg_def split: option.split)
  have init: "Initialized ?unmanaged" "Initialized ?excluded" using view_init [OF v] by simp_all
  have wf: "?ns l = Some m \<Longrightarrow> kn_Name m = l \<and> ToLower l = l" for l m
    using view_name [OF v, of l m] n by (auto split: if_splits)
  have owners: "disjoint_ips ?ns \<and> owners_view ?ns (nc_nodePrivateIPToNodeNameMap c')" if "clean \<and> fresh"
    unfolding sel(7) by (rule add_owners) (use that view_owners [OF v] n f in blast)+
  have "node_view loc ?ns (gone - {?k}) (clean \<and> fresh) c'"
    by (rule node_viewI) (simp_all only: sel(1,2,4,5,6) names rgs init wf owners add_zones [OF view_zones [OF v] n]
        add_unmanaged [OF view_unmanaged [OF v] n] add_excluded [OF view_excluded [OF v] n] add_ips [OF view_ips [OF v] n])
  with c' show ?thesis by blast
qed

section \<open>Sequences of events\<close>

fun next_all :: "node_event list \<Rightarrow> cluster \<Rightarrow> cluster option" where
  "next_all [] s = Some s"
| "next_all (e # es) s = Option.bind (next_cluster e s) (next_all es)"

fun run_events :: "string \<Rightarrow> bool \<Rightarrow> node_event list \<Rightarrow> node_caches \<Rightarrow> (node_caches \<times> node_action list) option" where
  "run_events location client [] c = Some (c, [])"
| "run_events location client (e # es) c =
     (case handle_node_event location client e c of
        None \<Rightarrow> None
      | Some (c', as) \<Rightarrow> map_option (\<lambda>(c'', bs). (c'', as @ bs)) (run_events location client es c'))"

abbreviation cluster_view :: "string \<Rightarrow> cluster \<Rightarrow> node_caches \<Rightarrow> bool" where
  "cluster_view loc s c \<equiv> node_view loc (map_of (cl_nodes s)) (cl_gone s) (cl_clean s) c"

lemma fresh_ipsD:
  assumes "fresh_ips nodes n" "map_of nodes l = Some m" "l \<noteq> kn_Name n"
  shows "set (private_ips m) \<inter> set (private_ips n) = {}"
  using assms map_of_SomeD by (fastforce simp: fresh_ips_def list_all_iff)

lemma handle_view:
  assumes v: "cluster_view loc s c" and n: "next_cluster e s = Some s'"
  shows "\<exists>c' as. handle_node_event loc client e c = Some (c', as) \<and> cluster_view loc s' c'"
proof (cases e)
  case (AddFunc m)
  with n have m: "map_of (cl_nodes s) (kn_Name m) = None" "ToLower (kn_Name m) = kn_Name m" and s': "s' = join_cluster m s"
    by (simp_all split: if_splits)
  have "\<forall>l x. map_of (cl_nodes s) l = Some x \<longrightarrow> set (private_ips x) \<inter> set (private_ips m) = {}" if "fresh_ips (cl_nodes s) m"
    using fresh_ipsD [OF that] m(1) by (metis option.distinct(1))
  from add_view [OF v m this] show ?thesis by (auto simp: AddFunc s' join_cluster_def updateNodeCaches_def)
next
  case (UpdateFunc p m)
  with n have p: "map_of (cl_nodes s) (kn_Name p) = Some p" and m: "kn_Name p = kn_Name m" and s': "s' = join_cluster m s"
    by (simp_all split: if_splits)
  let ?ns = "(map_of (cl_nodes s))(kn_Name m := None)"
  have low: "ToLower (kn_Name m) = kn_Name m" using view_name [OF v p] m by simp
  have "\<forall>l x. ?ns l = Some x \<longrightarrow> set (private_ips x) \<inter> set (private_ips m) = {}" if "fresh_ips (cl_nodes s) m"
    using fresh_ipsD [OF that] by (simp split: if_splits)
  from add_view [where ns = ?ns and fresh = "fresh_ips (cl_nodes s) m", OF forget_view [OF v p, unfolded m] _ low this] obtain c' where
    "add_node loc m (forget_node loc p c) = Some c'"
    "node_view loc (?ns(kn_Name m \<mapsto> m)) ((if excluded_node p then insert (kn_Name m) (cl_gone s) else cl_gone s) - {kn_Name m})
      (cl_clean s \<and> fresh_ips (cl_nodes s) m) c'" by auto
  moreover have "(if excluded_node p then insert (kn_Name m) (cl_gone s) else cl_gone s) - {kn_Name m} = cl_gone s - {kn_Name m}" by simp
  ultimately show ?thesis by (simp add: UpdateFunc s' join_cluster_def updateNodeCaches_def)
next
  case (DeleteFunc x)
  show ?thesis
  proof (cases "deleted_node x")
    case (Some p)
    with n DeleteFunc have p: "map_of (cl_nodes s) (kn_Name p) = Some p" and s': "s' = leave_cluster p s" by (simp_all split: if_splits)
    have low: "ToLower (kn_Name p) = kn_Name p" using view_name [OF v p] by simp
    from deleted_view [OF forget_view [OF v p] _ low] obtain c' where
      "forget_deleted p (forget_node loc p c) = Some c'"
      "node_view loc ((map_of (cl_nodes s))(kn_Name p := None)) (insert (kn_Name p) (cl_gone s)) (cl_clean s) c'"
      by (auto split: if_splits)
    then show ?thesis by (simp add: DeleteFunc Some s' leave_cluster_def updateNodeCaches_def)
  qed (use n v DeleteFunc in simp)
qed

lemma run_view:
  assumes "cluster_view loc s c" "next_all es s = Some s'"
  shows "\<exists>c' as. run_events loc client es c = Some (c', as) \<and> cluster_view loc s' c'"
  using assms
proof (induction es arbitrary: s c)
  case (Cons e es)
  then obtain t where t: "next_cluster e s = Some t" "next_all es t = Some s'" by (auto simp: bind_eq_Some_conv)
  from handle_view [OF Cons.prems(1) t(1)] obtain d as where d: "handle_node_event loc client e c = Some (d, as)" "cluster_view loc t d" by blast
  from Cons.IH [OF d(2) t(2)] d(1) show ?case by auto
qed simp

lemma new_caches_view: "cluster_view loc empty_cluster new_caches"
  by (rule node_viewI) (simp_all add: empty_cluster_def new_caches_def tracks_def set_Has_def NewString_def zones_view_def set_at_def
      Initialized_def ips_view_def disjoint_ips_def owners_view_def)

lemma Len_pos_tracks:
  assumes "finite_ics s" "tracks s P"
  shows "0 < set_Len s \<longleftrightarrow> (\<exists>k. ToLower k = k \<and> P k)"
proof (cases s)
  case None
  then have "\<not> P (ToLower k)" for k using assms(2) by simp
  then have "\<not> (\<exists>k. ToLower k = k \<and> P k)" by metis
  then show ?thesis using None by (simp add: set_Len_def)
next
  case (Some x)
  then have "k \<in> x \<longleftrightarrow> ToLower k = k \<and> P k" for k
    using assms unfolding finite_ics_def tracks_def set_Has_def by simp metis
  then have "x \<noteq> {} \<longleftrightarrow> (\<exists>k. ToLower k = k \<and> P k)" by blast
  then show ?thesis using Some assms(1) by (simp add: set_Len_def finite_ics_def card_gt_0_iff)
qed

lemma active_zones:
  assumes "zones_view loc ns zones"
  shows "set_Has (NewString (map fst (filter (\<lambda>(zone, nodes). 0 < set_Len nodes) zones))) z \<longleftrightarrow>
    (\<exists>k n y. ToLower k = k \<and> ns k = Some n \<and> zone_of loc n = Some y \<and> EqualFold y z)"
proof -
  have zv: "distinct (map fst zones)" "finite_ics (set_at zones y)"
    "tracks (set_at zones y) (\<lambda>k. \<exists>n. ns k = Some n \<and> zone_of loc n = Some y)" for y
    using assms by (simp_all add: zones_view_def)
  have len: "(\<exists>s. (y, s) \<in> set zones \<and> 0 < set_Len s) \<longleftrightarrow> 0 < set_Len (set_at zones y)" for y
  proof (cases "map_of zones y")
    case None
    then have "(y, s) \<notin> set zones" for s by (force simp: map_of_eq_None_iff)
    then show ?thesis using None by (simp add: set_at_def set_Len_def)
  next
    case (Some t)
    then have "(y, s) \<in> set zones \<longleftrightarrow> s = t" for s using map_of_eq_Some_iff [OF zv(1), of y s] by simp metis
    then show ?thesis using Some by (simp add: set_at_def)
  qed
  have "set_Has (NewString (map fst (filter (\<lambda>(zone, nodes). 0 < set_Len nodes) zones))) z \<longleftrightarrow>
      (\<exists>y. (\<exists>s. (y, s) \<in> set zones \<and> 0 < set_Len s) \<and> EqualFold y z)"
    by (force simp: set_Has_def NewString_def EqualFold_def)
  then show ?thesis unfolding len Len_pos_tracks [OF zv(2,3)] by blast
qed

end
