(* ===== verification/NodeCacheProperties.thy ===== *)
theory NodeCacheProperties
  imports NodeCacheFacts
begin

text \<open>What the readers of the node caches answer after any sequence of informer events.\<close>

lemma NewString_nodes: "tracks s P \<Longrightarrow> tracks (Some (case s of None \<Rightarrow> {} | Some x \<Rightarrow> x)) P"
  by (cases s) (simp_all add: tracks_def set_Has_def)

lemma unmanaged_answer:
  assumes "node_view loc ns gone clean c"
  shows "IsNodeUnmanaged (Some True) c x = Inr (\<exists>n. ns (ToLower x) = Some n \<and> \<not> isNodeManagedByCloudProvider n)"
  using NewString_nodes [OF view_unmanaged [OF assms]] by (simp add: IsNodeUnmanaged_def GetUnmanagedNodes_def tracks_def)

lemma excluded_answer:
  assumes "node_view loc ns gone clean c"
  shows "ShouldNodeExcludedFromLoadBalancer rg (Some True) c k =
    Inr ((\<exists>r. Option.bind (ns k) external_rg = Some r \<and> \<not> EqualFold r rg) \<or> ToLower k \<in> gone \<or> (\<exists>n. ns (ToLower k) = Some n \<and> excluded_node n))"
  using view_excluded [OF assms] view_rgs [OF assms, of k]
  by (simp add: ShouldNodeExcludedFromLoadBalancer_def tracks_def split: option.split)

lemma zones_answer:
  assumes v: "node_view loc ns gone clean c" and z: "GetActiveZones (Some True) c = Inr zones"
  shows "set_Has zones z \<longleftrightarrow> (\<exists>k n y. ns k = Some n \<and> zone_of loc n = Some y \<and> EqualFold y z)"
proof -
  have "set_Has zones z \<longleftrightarrow> (\<exists>k n y. ToLower k = k \<and> ns k = Some n \<and> zone_of loc n = Some y \<and> EqualFold y z)"
    using active_zones [OF view_zones [OF v], of z] z by (simp add: GetActiveZones_def)
  then show ?thesis using view_name [OF v] by blast
qed

text \<open>C33. The node caches refine the cluster. Whatever sequence of add, update and delete events the informer delivers (each update
  and delete with the object delivered before), no handler panics, and afterwards the readers answer from the current nodes:
  the node names are those of the cluster; the active zones are the availability zones of its nodes; the resource group of a
  node is its external one or the default; a node is unmanaged iff its label says so; it is excluded from load balancers iff
  it is in a foreign resource group, was deleted, is unmanaged or carries the label. Updates leave no trace of the old labels.
\<close>

theorem node_caches_refine_cluster:
  assumes "next_all es empty_cluster = Some s"
  shows "\<exists>c as names zones. run_events loc client es new_caches = Some (c, as) \<and>
    GetNodeNames (Some True) c = Inr names \<and> (\<forall>x. set_Has names x \<longleftrightarrow> map_of (cl_nodes s) (ToLower x) \<noteq> None) \<and>
    GetActiveZones (Some True) c = Inr zones \<and>
    (\<forall>z. set_Has zones z \<longleftrightarrow> (\<exists>k n y. map_of (cl_nodes s) k = Some n \<and> zone_of loc n = Some y \<and> EqualFold y z)) \<and>
    (\<forall>rg k. GetNodeResourceGroup rg (Some True) c k =
       Inr (case Option.bind (map_of (cl_nodes s) k) external_rg of Some r \<Rightarrow> r | None \<Rightarrow> rg)) \<and>
    (\<forall>x. IsNodeUnmanaged (Some True) c x = Inr (\<exists>n. map_of (cl_nodes s) (ToLower x) = Some n \<and> \<not> isNodeManagedByCloudProvider n)) \<and>
    (\<forall>rg k. ShouldNodeExcludedFromLoadBalancer rg (Some True) c k =
       Inr ((\<exists>r. Option.bind (map_of (cl_nodes s) k) external_rg = Some r \<and> \<not> EqualFold r rg) \<or> ToLower k \<in> cl_gone s \<or>
            (\<exists>n. map_of (cl_nodes s) (ToLower k) = Some n \<and> excluded_node n)))"
proof -
  from run_view [OF new_caches_view assms] obtain c as where
    run: "run_events loc client es new_caches = Some (c, as)" and v: "cluster_view loc s c" by blast
  have names: "\<forall>x. set_Has (Some (case nc_nodeNames c of None \<Rightarrow> {} | Some x \<Rightarrow> x)) x \<longleftrightarrow> map_of (cl_nodes s) (ToLower x) \<noteq> None"
    using NewString_nodes [OF view_names [OF v]] unfolding tracks_def .
  have "\<forall>rg k. GetNodeResourceGroup rg (Some True) c k = Inr (case Option.bind (map_of (cl_nodes s) k) external_rg of Some r \<Rightarrow> r | None \<Rightarrow> rg)"
    using view_rgs [OF v] by (simp add: GetNodeResourceGroup_def)
  moreover obtain zones where "GetActiveZones (Some True) c = Inr zones" by (simp add: GetActiveZones_def)
  moreover have "GetNodeNames (Some True) c = Inr (Some (case nc_nodeNames c of None \<Rightarrow> {} | Some x \<Rightarrow> x))" by (simp add: GetNodeNames_def)
  ultimately show ?thesis
    using run names zones_answer [OF v] unmanaged_answer [OF v] excluded_answer [OF v] by blast
qed

text \<open>C34. The address caches after any sequence of events: the addresses recorded for a node are exactly those of its current
  object. If in addition no two nodes ever had a private address in common, an address maps to the node that has it and to
  nothing when no node has it.
\<close>

theorem node_private_ips_exact:
  assumes "next_all es empty_cluster = Some s" and "run_events loc client es new_caches = Some (c, as)"
  shows "(\<forall>k a. set_Has (set_at (nc_nodePrivateIPs c) k) a \<longleftrightarrow>
      (\<exists>n b. map_of (cl_nodes s) k = Some n \<and> b \<in> set (private_ips n) \<and> EqualFold b a)) \<and>
    (cl_clean s \<longrightarrow> (\<forall>a k. map_of (nc_nodePrivateIPToNodeNameMap c) a = Some k \<longleftrightarrow>
      (\<exists>n. map_of (cl_nodes s) k = Some n \<and> a \<in> set (private_ips n))))"
proof -
  from run_view [OF new_caches_view assms(1), of loc client] assms(2) have v: "cluster_view loc s c" by simp
  have "set_Has (set_at (nc_nodePrivateIPs c) k) a \<longleftrightarrow>
      (\<exists>n b. map_of (cl_nodes s) k = Some n \<and> b \<in> set (private_ips n) \<and> EqualFold b a)" for k a
    using view_ips [OF v] by (simp add: ips_view_def tracks_def ToLower_image) blast
  then show ?thesis using view_owners(2) [OF v] by (simp add: owners_view_def)
qed

section \<open>A run\<close>

definition demo_node :: "string \<Rightarrow> (string \<times> string) list \<Rightarrow> string \<Rightarrow> K8sNode" where
  "demo_node name labels ip =
     \<lparr>kn_Name = name, kn_Labels = labels, kn_Addresses = [\<lparr>na_Type = ''InternalIP'', na_Address = ip\<rparr>], kn_Taints = [], kn_Conditions = []\<rparr>"

definition demo_events :: "node_event list" where
  "demo_events =
     [AddFunc (demo_node ''a'' [(ManagedByAzureLabel, ''false'')] ''1''),
      AddFunc (demo_node ''b'' [(LabelTopologyZone, ''eu-1'')] ''2''),
      UpdateFunc (demo_node ''a'' [(ManagedByAzureLabel, ''false'')] ''1'') (demo_node ''a'' [(ExternalResourceGroupLabel, ''RG'')] ''1''),
      DeleteFunc (DeletedFinalStateUnknown (Some (demo_node ''b'' [(LabelTopologyZone, ''eu-1'')] ''2'')))]"

definition demo_cluster :: cluster where
  "demo_cluster = the (next_all demo_events empty_cluster)"

lemma demo_next: "next_all demo_events empty_cluster = Some demo_cluster"
proof -
  have "next_all demo_events empty_cluster \<noteq> None" by code_simp
  then show ?thesis by (auto simp: demo_cluster_def)
qed

lemma demo_facts:
  "map_of (cl_nodes demo_cluster) ''a'' = Some (demo_node ''a'' [(ExternalResourceGroupLabel, ''RG'')] ''1'')"
  "map_of (cl_nodes demo_cluster) ''b'' = None" "''b'' \<in> cl_gone demo_cluster" "cl_clean demo_cluster"
  "external_rg (demo_node ''a'' [(ExternalResourceGroupLabel, ''RG'')] ''1'') = Some ''rg''"
  "isNodeManagedByCloudProvider (demo_node ''a'' [(ExternalResourceGroupLabel, ''RG'')] ''1'')"
  "private_ips (demo_node ''a'' [(ExternalResourceGroupLabel, ''RG'')] ''1'') = [''1'']"
  "ToLower ''a'' = ''a''" "ToLower ''B'' = ''b''"
  by code_simp+

theorem node_caches_refine_cluster_witness:
  "\<exists>c as. run_events ''eu'' False demo_events new_caches = Some (c, as) \<and>
     GetNodeResourceGroup ''x'' (Some True) c ''a'' = Inr ''rg'' \<and> IsNodeUnmanaged (Some True) c ''a'' = Inr False \<and>
     ShouldNodeExcludedFromLoadBalancer ''x'' (Some True) c ''B'' = Inr True"
proof -
  from node_caches_refine_cluster [OF demo_next, of "''eu''" False] obtain c as where
    *: "run_events ''eu'' False demo_events new_caches = Some (c, as)"
      "GetNodeResourceGroup ''x'' (Some True) c ''a'' =
        Inr (case Option.bind (map_of (cl_nodes demo_cluster) ''a'') external_rg of Some r \<Rightarrow> r | None \<Rightarrow> ''x'')"
      "IsNodeUnmanaged (Some True) c ''a'' =
        Inr (\<exists>n. map_of (cl_nodes demo_cluster) (ToLower ''a'') = Some n \<and> \<not> isNodeManagedByCloudProvider n)"
      "ShouldNodeExcludedFromLoadBalancer ''x'' (Some True) c ''B'' =
       Inr ((\<exists>r. Option.bind (map_of (cl_nodes demo_cluster) ''B'') external_rg = Some r \<and> \<not> EqualFold r ''x'') \<or>
            ToLower ''B'' \<in> cl_gone demo_cluster \<or> (\<exists>n. map_of (cl_nodes demo_cluster) (ToLower ''B'') = Some n \<and> excluded_node n))"
    by blast
  show ?thesis
    by (rule exI [of _ c], rule exI [of _ "as"]) (simp only: * demo_facts bind.bind_lunit option.case option.inject, simp add: demo_facts)
qed

theorem node_private_ips_exact_witness:
  "\<exists>c as. run_events ''eu'' False demo_events new_caches = Some (c, as) \<and>
     map_of (nc_nodePrivateIPToNodeNameMap c) ''1'' = Some ''a'' \<and> set_Has (set_at (nc_nodePrivateIPs c) ''a'') ''1''"
proof -
  have "run_events ''eu'' False demo_events new_caches \<noteq> None" by code_simp
  then obtain c as where run: "run_events ''eu'' False demo_events new_caches = Some (c, as)" by auto
  from node_private_ips_exact [OF demo_next run] show ?thesis
    using run demo_facts(1,4,7) by (auto simp: EqualFold_def)
qed

text \<open>
  The map from addresses to nodes loses live addresses when addresses are reused. After node \<open>b\<close> was added with the address
  of node \<open>a\<close> and \<open>a\<close> was deleted afterwards, \<open>b\<close> is in the cluster with that address, and the map has no entry for it.
\<close>

theorem node_ip_reuse_lost:
  "\<exists>es s c as n. next_all es empty_cluster = Some s \<and> run_events ''eu'' False es new_caches = Some (c, as) \<and>
     map_of (cl_nodes s) ''b'' = Some n \<and> ''1'' \<in> set (private_ips n) \<and> map_of (nc_nodePrivateIPToNodeNameMap c) ''1'' = None"
proof -
  define es where "es = [AddFunc (demo_node ''a'' [] ''1''), AddFunc (demo_node ''b'' [] ''1''), DeleteFunc (DeletedNode (demo_node ''a'' [] ''1''))]"
  have "case next_all es empty_cluster of None \<Rightarrow> False | Some s \<Rightarrow>
      (case map_of (cl_nodes s) ''b'' of None \<Rightarrow> False | Some n \<Rightarrow> ''1'' \<in> set (private_ips n))"
    "case run_events ''eu'' False es new_caches of None \<Rightarrow> False | Some (c, as) \<Rightarrow> map_of (nc_nodePrivateIPToNodeNameMap c) ''1'' = None"
    unfolding es_def by code_simp+
  then show ?thesis by (auto split: option.splits)
qed

end
