(* ===== verification/BackendPool.thy ===== *)
theory BackendPool
  imports NodeCaches LbRules
begin

text \<open>
  Backend pools that hold addresses of nodes: the helpers of \<open>pkg/provider/azure_loadbalancer_backendpool.go\<close>,
  \<open>azure_loadbalancer_repo.go\<close> and \<open>azure_utils.go\<close> that read and change the addresses of a pool. A pool without properties is
  one whose embedded pointer is nil; reading a field through it panics, which is \<open>None\<close>.
\<close>

record BackendAddressProperties =
  ap_IPAddress :: "string option"
  ap_VirtualNetwork :: "SubResource option"

record BackendAddress =
  ba_Name :: "string option"
  ba_Properties :: "BackendAddressProperties option"

record BackendPoolProperties =
  bpp_VirtualNetwork :: "SubResource option"
  bpp_LoadBalancerBackendAddresses :: "BackendAddress list option"
  bpp_BackendIPConfigurations :: "SubResource list option"

record BackendAddressPool =
  bp_Name :: "string option"
  bp_Properties :: "BackendPoolProperties option"

record pooled_lb = LoadBalancer +
  lb_BackendAddressPools :: "BackendAddressPool list option"

text \<open>\<open>ptr.Deref(address.IPAddress, "")\<close>; \<open>None\<close> is the panic for an address without properties.\<close>

definition ba_IP :: "BackendAddress \<Rightarrow> string option" where
  "ba_IP a = map_option (\<lambda>p. deref (ap_IPAddress p) []) (ba_Properties a)"

text \<open>The addresses of a pool, none if its properties or its list are nil.\<close>

definition pool_addresses :: "BackendAddressPool \<Rightarrow> BackendAddress list" where
  "pool_addresses bp = (case bp_Properties bp of None \<Rightarrow> [] | Some p \<Rightarrow> deref (bpp_LoadBalancerBackendAddresses p) [])"

definition isLBBackendPoolsExisting :: "(bool \<Rightarrow> string) \<Rightarrow> string option \<Rightarrow> bool \<times> bool" where
  "isLBBackendPoolsExisting lbBackendPoolNames bpName =
     (let v4 = EqualFold (deref bpName []) (lbBackendPoolNames False); v6 = EqualFold (deref bpName []) (lbBackendPoolNames True)
      in (v4 \<or> v6, v6))"

fun has_empty_ip :: "BackendAddress list \<Rightarrow> bool option" where
  "has_empty_ip [] = Some False"
| "has_empty_ip (a # as) = (case ba_IP a of None \<Rightarrow> None | Some ip \<Rightarrow> if ip = [] then Some True else has_empty_ip as)"

definition isNICPool :: "BackendAddressPool \<Rightarrow> bool option" where
  "isNICPool bp = has_empty_ip (pool_addresses bp)"

definition countNICsOnBackendPool :: "BackendAddressPool \<Rightarrow> nat" where
  "countNICsOnBackendPool bp =
     (case bp_Properties bp of
        None \<Rightarrow> 0
      | Some p \<Rightarrow> (case bpp_BackendIPConfigurations p of None \<Rightarrow> 0 | Some cs \<Rightarrow> length cs))"

definition countIPsOnBackendPool :: "BackendAddressPool \<Rightarrow> nat" where
  "countIPsOnBackendPool bp = length (filter (\<lambda>a. case ba_IP a of None \<Rightarrow> False | Some ip \<Rightarrow> ip \<noteq> []) (pool_addresses bp))"

definition hasIPAddressInBackendPool :: "BackendAddressPool \<Rightarrow> string \<Rightarrow> bool" where
  "hasIPAddressInBackendPool bp ipAddress = (\<exists>a \<in> set (pool_addresses bp). ba_IP a = Some ipAddress)"

definition getVnetResourceID :: "string \<Rightarrow> string \<Rightarrow> string \<Rightarrow> string \<Rightarrow> string" where
  "getVnetResourceID subscriptionID resourceGroup vnetResourceGroup vnetName =
     (let rg = (if 0 < length vnetResourceGroup then vnetResourceGroup else resourceGroup)
      in ''/subscriptions/'' @ subscriptionID @ ''/resourceGroups/'' @ rg @ ''/providers/Microsoft.Network/virtualNetworks/'' @ vnetName)"

text \<open>An address of the pool for a node; a missing name in the map reads as the empty string.\<close>

definition new_address :: "(string \<times> string) list \<Rightarrow> string \<Rightarrow> BackendAddress" where
  "new_address owners ipAddress =
     \<lparr>ba_Name = Some (case map_of owners ipAddress of None \<Rightarrow> [] | Some n \<Rightarrow> n),
      ba_Properties = Some \<lparr>ap_IPAddress = Some ipAddress, ap_VirtualNetwork = None\<rparr>\<rparr>"

definition addNodeIPAddressesToBackendPool ::
  "string \<Rightarrow> (string \<times> string) list \<Rightarrow> BackendAddressPool \<Rightarrow> string list \<Rightarrow> bool \<times> BackendAddressPool" where
  "addNodeIPAddressesToBackendPool vnetID owners bp nodeIPAddresses =
     (let p = (case bp_Properties bp of
                 None \<Rightarrow> \<lparr>bpp_VirtualNetwork = Some (Some vnetID), bpp_LoadBalancerBackendAddresses = None, bpp_BackendIPConfigurations = None\<rparr>
               | Some p \<Rightarrow>
                   if (case bpp_VirtualNetwork p of None \<Rightarrow> True | Some v \<Rightarrow> v = None)
                   then p\<lparr>bpp_VirtualNetwork := Some (Some vnetID)\<rparr> else p);
          addresses = deref (bpp_LoadBalancerBackendAddresses p) [];
          added = filter (\<lambda>ip. \<not> hasIPAddressInBackendPool bp ip) nodeIPAddresses
      in (added \<noteq> [], bp\<lparr>bp_Properties := Some (p\<lparr>bpp_LoadBalancerBackendAddresses := Some (addresses @ map (new_address owners) added)\<rparr>)\<rparr>))"

text \<open>Whether the loop of \<open>removeNodeIPAddressesFromBackendPool\<close> removes the address.\<close>

definition drop_address :: "IgnoreCaseSet \<Rightarrow> bool \<Rightarrow> bool \<Rightarrow> BackendAddress \<Rightarrow> bool" where
  "drop_address nodeIPsSet allIPs isNodeIP a =
     (case ba_IP a of
        None \<Rightarrow> False
      | Some ip \<Rightarrow> if ip = [] then isNodeIP else allIPs \<or> set_Has nodeIPsSet ip)"

text \<open>The pool is passed by value, but its properties by reference: the new list is visible to the caller.\<close>

definition removeNodeIPAddressesFromBackendPool ::
  "BackendAddressPool \<Rightarrow> string list \<Rightarrow> bool \<Rightarrow> bool \<Rightarrow> bool \<Rightarrow> bool \<times> BackendAddressPool" where
  "removeNodeIPAddressesFromBackendPool bp nodeIPAddresses allIPs useMultipleSLBs isNodeIP =
     (case bp_Properties bp of
        None \<Rightarrow> (False, bp)
      | Some p \<Rightarrow>
          (case bpp_LoadBalancerBackendAddresses p of
             None \<Rightarrow> (False, bp)
           | Some addresses \<Rightarrow>
               (let dropped = drop_address (NewString nodeIPAddresses) allIPs isNodeIP;
                    rest = filter (\<lambda>a. \<not> dropped a) addresses;
                    changed = (\<exists>a \<in> set addresses. dropped a);
                    bp' = bp\<lparr>bp_Properties := Some (p\<lparr>bpp_LoadBalancerBackendAddresses := Some rest\<rparr>)\<rparr>
                in if allIPs then (changed, bp')
                   else if rest = [] \<and> \<not> useMultipleSLBs then (False, bp)
                   else if changed then (True, bp')
                   else (False, bp))))"

definition getBackendPoolNodeNames :: "(string \<times> string) list \<Rightarrow> BackendAddressPool \<Rightarrow> string list" where
  "getBackendPoolNodeNames owners bp =
     remdups (map (\<lambda>ip. ToLower (case map_of owners ip of None \<Rightarrow> [] | Some n \<Rightarrow> n)) (concat (map (\<lambda>a. opt_list (ba_IP a)) (pool_addresses bp))))"

definition newBackendPool :: "pooled_lb \<Rightarrow> bool \<Rightarrow> string \<Rightarrow> bool \<times> pooled_lb" where
  "newBackendPool lb isBackendPoolPreConfigured lbBackendPoolName =
     (False, lb\<lparr>lb_BackendAddressPools := Some (deref (lb_BackendAddressPools lb) [] @
        [\<lparr>bp_Name = Some lbBackendPoolName,
          bp_Properties = Some \<lparr>bpp_VirtualNetwork = None, bpp_LoadBalancerBackendAddresses = None, bpp_BackendIPConfigurations = None\<rparr>\<rparr>])\<rparr>)"

section \<open>What they compute\<close>

text \<open>The addresses of a pool that are not empty.\<close>

definition pool_ips :: "BackendAddressPool \<Rightarrow> string list" where
  "pool_ips bp = concat (map (\<lambda>a. opt_list (ba_IP a)) (pool_addresses bp))"

lemma pool_ips_iff: "ip \<in> set (pool_ips bp) \<longleftrightarrow> hasIPAddressInBackendPool bp ip"
  by (force simp: pool_ips_def hasIPAddressInBackendPool_def opt_list_def split: option.splits)

lemma new_address_IP [simp]: "ba_IP (new_address owners ip) = Some ip"
  by (simp add: ba_IP_def new_address_def)

lemma add_addresses:
  "pool_addresses (snd (addNodeIPAddressesToBackendPool vnetID owners bp ips)) =
     pool_addresses bp @ map (new_address owners) (filter (\<lambda>ip. ip \<notin> set (pool_ips bp)) ips)"
  by (simp add: addNodeIPAddressesToBackendPool_def pool_addresses_def Let_def pool_ips_iff split: option.split)

lemma concat_new_address: "concat (map (\<lambda>a. opt_list (ba_IP a)) (map (new_address owners) ips)) = ips"
  by (induction ips) simp_all

lemma pool_add_ips:
  "pool_ips (snd (addNodeIPAddressesToBackendPool vnetID owners bp ips)) = pool_ips bp @ filter (\<lambda>ip. ip \<notin> set (pool_ips bp)) ips"
  unfolding pool_ips_def [of "snd _"] add_addresses map_append concat_append concat_new_address pool_ips_def [symmetric] ..

lemma add_changed: "fst (addNodeIPAddressesToBackendPool vnetID owners bp ips) \<longleftrightarrow> \<not> set ips \<subseteq> set (pool_ips bp)"
  by (auto simp: addNodeIPAddressesToBackendPool_def Let_def filter_empty_conv pool_ips_iff)

text \<open>With several load balancers the pool may become empty: the removal keeps exactly the other addresses.\<close>

lemma remove_addresses:
  "pool_addresses (snd (removeNodeIPAddressesFromBackendPool bp ips False True isNodeIP)) =
     filter (\<lambda>a. \<not> drop_address (NewString ips) False isNodeIP a) (pool_addresses bp)"
  by (auto simp: removeNodeIPAddressesFromBackendPool_def pool_addresses_def Let_def filter_id_conv split: option.splits)

lemma pool_remove_ips:
  "pool_ips (snd (removeNodeIPAddressesFromBackendPool bp ips False True True)) =
     filter (\<lambda>ip. ip \<noteq> [] \<and> \<not> set_Has (NewString ips) ip) (pool_ips bp)"
proof -
  have "concat (map (\<lambda>a. opt_list (ba_IP a)) (filter (\<lambda>a. \<not> drop_address (NewString ips) False True a) as)) =
      filter (\<lambda>ip. ip \<noteq> [] \<and> \<not> set_Has (NewString ips) ip) (concat (map (\<lambda>a. opt_list (ba_IP a)) as))" for "as"
    by (induction "as") (auto simp: drop_address_def split: option.split)
  then show ?thesis by (simp add: pool_ips_def remove_addresses)
qed

end
