(* ===== verification/MultiSlb.thy ===== *)
theory MultiSlb
  imports BackendPool
begin

text \<open>
  Placement of nodes and services on several standard load balancers (\<open>pkg/provider/azure_loadbalancer.go\<close>,
  \<open>azure.go\<close>, \<open>config/multi_slb.go\<close>). The name of the VM set of a node and the compiled form of a label selector are
  arguments; the latter is \<open>Inl\<close> where \<open>LabelSelectorAsSelector\<close> returns an error.
\<close>

record label_requirement =
  lq_Key :: string
  lq_Operator :: string
  lq_Values :: "string list"

record LabelSelector =
  ls_MatchLabels :: "(string \<times> string) list"
  ls_MatchExpressions :: "label_requirement list"

type_synonym selector_parser = "LabelSelector \<Rightarrow> (string, (string \<times> string) list \<Rightarrow> bool) result"

record SlbConfig =
  sc_Name :: string
  sc_AllowServicePlacement :: "bool option"
  sc_PrimaryVMSet :: string
  sc_ServiceLabelSelector :: "LabelSelector option"
  sc_ServiceNamespaceSelector :: "LabelSelector option"
  sc_NodeSelector :: "LabelSelector option"
  sc_ActiveServices :: IgnoreCaseSet
  sc_ActiveNodes :: IgnoreCaseSet

record slb_state =
  sl_configs :: "SlbConfig list"
  sl_marked :: "string set"

section \<open>checkEnableMultipleStandardLoadBalancers\<close>

fun check_configs :: "IgnoreCaseSet \<Rightarrow> IgnoreCaseSet \<Rightarrow> SlbConfig list \<Rightarrow> string option" where
  "check_configs names primaryVMSets [] = None"
| "check_configs names primaryVMSets (c # cs) =
     (if set_Has names (sc_Name c) then Some (''duplicated multiple standard load balancer configuration name '' @ sc_Name c)
      else if sc_PrimaryVMSet c = [] then Some (''multiple standard load balancer configuration '' @ sc_Name c @ '' must have primary VMSet'')
      else if set_Has primaryVMSets (sc_PrimaryVMSet c)
      then Some (''duplicated primary VMSet '' @ sc_PrimaryVMSet c @ '' in multiple standard load balancer configurations '' @ sc_Name c)
      else check_configs (SafeInsert names [sc_Name c]) (SafeInsert primaryVMSets [sc_PrimaryVMSet c]) cs)"

definition DefaultLoadBalancerBackendPoolUpdateIntervalInSeconds :: int where
  "DefaultLoadBalancerBackendPoolUpdateIntervalInSeconds = 30"

text \<open>Returns the error and the interval of the updates of backend pools.\<close>

definition checkEnableMultipleStandardLoadBalancers :: "bool \<Rightarrow> SlbConfig list \<Rightarrow> int \<Rightarrow> string option \<times> int" where
  "checkEnableMultipleStandardLoadBalancers nodeIPConfig configs interval =
     (if nodeIPConfig
      then (Some ''multiple standard load balancers cannot be used with backend pool type nodeIPConfiguration'', interval)
      else case check_configs (NewString []) (NewString []) configs of
        Some e \<Rightarrow> (Some e, interval)
      | None \<Rightarrow> (None, if interval = 0 then DefaultLoadBalancerBackendPoolUpdateIntervalInSeconds else interval))"

section \<open>Nodes\<close>

definition isLBInList :: "'a LoadBalancer_scheme list option \<Rightarrow> string \<Rightarrow> bool" where
  "isLBInList lbs lbConfigName =
     (case lbs of
        None \<Rightarrow> False
      | Some xs \<Rightarrow> \<exists>lb \<in> set xs. EqualFold (trimSuffixIgnoreCase (deref (lb_Name lb) []) InternalLoadBalancerNameSuffix) lbConfigName)"

text \<open>The load balancer of a configuration exists, or is the one that is being reconciled.\<close>

definition available :: "string \<Rightarrow> 'a LoadBalancer_scheme list option \<Rightarrow> SlbConfig \<Rightarrow> bool" where
  "available lbName lbs c \<longleftrightarrow>
     isLBInList lbs (sc_Name c) \<or> EqualFold (trimSuffixIgnoreCase lbName InternalLoadBalancerNameSuffix) (sc_Name c)"

definition set_elems :: "IgnoreCaseSet \<Rightarrow> string set" where
  "set_elems s = (case s of None \<Rightarrow> {} | Some x \<Rightarrow> x)"

text \<open>
  \<open>nodeNameToLBConfigIDXMap\<close> is a function from names to the last configuration that has the node, as the loop over the
  configurations leaves it.
\<close>

definition config_index :: "SlbConfig list \<Rightarrow> string \<Rightarrow> nat option" where
  "config_index configs name =
     (case filter (\<lambda>i. name \<in> set_elems (sc_ActiveNodes (configs ! i))) [0..<length configs] of
        [] \<Rightarrow> None
      | is \<Rightarrow> Some (last is))"

definition removeDeletedNodesFromLoadBalancerConfigurations ::
  "K8sNode list \<Rightarrow> SlbConfig list \<Rightarrow> SlbConfig list \<times> (string \<Rightarrow> nat option)" where
  "removeDeletedNodesFromLoadBalancerConfigurations nodes configs =
     (let nodeNamesSet = NewString (map kn_Name nodes);
          configs' = map (\<lambda>c. c\<lparr>sc_ActiveNodes := map_option (Set.filter (set_Has nodeNamesSet)) (sc_ActiveNodes c)\<rparr>) configs
      in (configs', config_index configs'))"

definition removeNodeFromLBConfig :: "(string \<Rightarrow> nat option) \<Rightarrow> string \<Rightarrow> SlbConfig list \<Rightarrow> SlbConfig list" where
  "removeNodeFromLBConfig idxMap nodeName configs =
     (case idxMap nodeName of
        None \<Rightarrow> configs
      | Some i \<Rightarrow> configs[i := (configs ! i)\<lparr>sc_ActiveNodes := snd (set_Delete (sc_ActiveNodes (configs ! i)) (ToLower nodeName))\<rparr>])"

definition insert_node :: "nat \<Rightarrow> string \<Rightarrow> SlbConfig list \<Rightarrow> SlbConfig list" where
  "insert_node i nodeName configs =
     configs[i := (configs ! i)\<lparr>sc_ActiveNodes := SafeInsert (sc_ActiveNodes (configs ! i)) [nodeName]\<rparr>]"

text \<open>The configuration the primary VM set selects: the first that names it and is available.\<close>

definition primary_config :: "string \<Rightarrow> 'a LoadBalancer_scheme list option \<Rightarrow> string \<Rightarrow> SlbConfig list \<Rightarrow> nat option" where
  "primary_config lbName lbs vmSetName configs =
     List.find (\<lambda>i. EqualFold (sc_PrimaryVMSet (configs ! i)) vmSetName \<and> available lbName lbs (configs ! i)) [0..<length configs]"

definition place_by_vmset :: "string \<Rightarrow> 'a LoadBalancer_scheme list option \<Rightarrow> (string \<Rightarrow> nat option) \<Rightarrow> string \<Rightarrow> string \<Rightarrow> slb_state \<Rightarrow> slb_state" where
  "place_by_vmset lbName lbs idxMap vmSetName name s =
     (case primary_config lbName lbs vmSetName (sl_configs s) of
        None \<Rightarrow> s
      | Some i \<Rightarrow>
          (let marked = insert (ToLower name) (sl_marked s)
           in if set_Has (sc_ActiveNodes (sl_configs s ! i)) name then s\<lparr>sl_marked := marked\<rparr>
              else s\<lparr>sl_marked := marked, sl_configs := insert_node i name (removeNodeFromLBConfig idxMap name (sl_configs s))\<rparr>))"

fun accommodateNodesByPrimaryVMSet ::
  "(K8sNode \<Rightarrow> (string, string) result) \<Rightarrow> string \<Rightarrow> 'a LoadBalancer_scheme list option \<Rightarrow> (string \<Rightarrow> nat option) \<Rightarrow>
   K8sNode list \<Rightarrow> slb_state \<Rightarrow> string option \<times> slb_state" where
  "accommodateNodesByPrimaryVMSet vmSetName lbName lbs idxMap [] s = (None, s)"
| "accommodateNodesByPrimaryVMSet vmSetName lbName lbs idxMap (node # nodes) s =
     (if ToLower (kn_Name node) \<in> sl_marked s then accommodateNodesByPrimaryVMSet vmSetName lbName lbs idxMap nodes s
      else case vmSetName node of
        Inl err \<Rightarrow> (Some err, s)
      | Inr v \<Rightarrow> accommodateNodesByPrimaryVMSet vmSetName lbName lbs idxMap nodes (place_by_vmset lbName lbs idxMap v (kn_Name node) s))"

text \<open>The configurations whose node selector matches, in order; an error of the parser ends the call.\<close>

definition has_selector :: "LabelSelector option \<Rightarrow> bool" where
  "has_selector sel = (case sel of None \<Rightarrow> False | Some l \<Rightarrow> 0 < length (ls_MatchLabels l) \<or> 0 < length (ls_MatchExpressions l))"

fun selected_configs ::
  "selector_parser \<Rightarrow> string \<Rightarrow> 'a LoadBalancer_scheme list option \<Rightarrow> (string \<times> string) list \<Rightarrow> SlbConfig list \<Rightarrow> nat list \<Rightarrow>
   (string, nat list) result" where
  "selected_configs parse lbName lbs labels configs [] = Inr []"
| "selected_configs parse lbName lbs labels configs (i # is) =
     (if \<not> has_selector (sc_NodeSelector (configs ! i)) then selected_configs parse lbName lbs labels configs is
      else case parse (the (sc_NodeSelector (configs ! i))) of
        Inl err \<Rightarrow> Inl err
      | Inr matches \<Rightarrow>
          (case selected_configs parse lbName lbs labels configs is of
             Inl err \<Rightarrow> Inl err
           | Inr js \<Rightarrow> Inr (if matches labels \<and> available lbName lbs (configs ! i) then i # js else js)))"

definition eligible_configs ::
  "selector_parser \<Rightarrow> string \<Rightarrow> 'a LoadBalancer_scheme list option \<Rightarrow> (string \<times> string) list \<Rightarrow> SlbConfig list \<Rightarrow> (string, nat list) result" where
  "eligible_configs parse lbName lbs labels configs =
     (case selected_configs parse lbName lbs labels configs [0..<length configs] of
        Inl err \<Rightarrow> Inl err
      | Inr js \<Rightarrow>
          (let is = (if js = [] then filter (\<lambda>i. sc_NodeSelector (configs ! i) = None) [0..<length configs] else js)
           in Inr (filter (\<lambda>i. available lbName lbs (configs ! i)) is)))"

definition MaxInt32 :: int where
  "MaxInt32 = 2147483647"

text \<open>The first of the indices with the fewest nodes; \<open>None\<close> is the index -1.\<close>

fun fewest_nodes :: "SlbConfig list \<Rightarrow> nat list \<Rightarrow> nat option \<Rightarrow> int \<Rightarrow> nat option" where
  "fewest_nodes configs [] minIdx minNodes = minIdx"
| "fewest_nodes configs (i # is) minIdx minNodes =
     (let n = int (set_Len (sc_ActiveNodes (configs ! i)))
      in if n < minNodes then fewest_nodes configs is (Some i) n else fewest_nodes configs is minIdx minNodes)"

definition place_by_selector :: "(string \<Rightarrow> nat option) \<Rightarrow> nat list \<Rightarrow> string \<Rightarrow> SlbConfig list \<Rightarrow> SlbConfig list \<times> string list" where
  "place_by_selector idxMap eligible name configs =
     (if (case idxMap name of None \<Rightarrow> False | Some i \<Rightarrow> i \<in> set eligible) then (configs, [])
      else
        (let minIdx = fewest_nodes configs eligible None MaxInt32;
             configs' = (if idxMap name \<noteq> None \<and> idxMap name \<noteq> minIdx then removeNodeFromLBConfig idxMap name configs else configs)
         in case minIdx of
              None \<Rightarrow> (configs', [''failed to find a lb for node '' @ name])
            | Some i \<Rightarrow> (insert_node i name configs', [])))"

text \<open>Returns the error, the warnings sent as events, and the state.\<close>

fun accommodateNodesByNodeSelector ::
  "selector_parser \<Rightarrow> string \<Rightarrow> 'a LoadBalancer_scheme list option \<Rightarrow> (string \<Rightarrow> nat option) \<Rightarrow>
   K8sNode list \<Rightarrow> slb_state \<Rightarrow> string option \<times> string list \<times> slb_state" where
  "accommodateNodesByNodeSelector parse lbName lbs idxMap [] s = (None, [], s)"
| "accommodateNodesByNodeSelector parse lbName lbs idxMap (node # nodes) s =
     (if ToLower (kn_Name node) \<in> sl_marked s then accommodateNodesByNodeSelector parse lbName lbs idxMap nodes s
      else case eligible_configs parse lbName lbs (kn_Labels node) (sl_configs s) of
        Inl err \<Rightarrow> (Some err, [], s)
      | Inr eligible \<Rightarrow>
          (let (configs, warnings) = place_by_selector idxMap eligible (kn_Name node) (sl_configs s);
               (err, warnings', s') = accommodateNodesByNodeSelector parse lbName lbs idxMap nodes (s\<lparr>sl_configs := configs\<rparr>)
           in (err, warnings @ warnings', s')))"

section \<open>Nodes recorded after a restart\<close>

definition record_pool :: "(string \<times> string) list \<Rightarrow> (bool \<Rightarrow> string) \<Rightarrow> string \<Rightarrow> BackendAddressPool \<Rightarrow> SlbConfig list \<Rightarrow> SlbConfig list" where
  "record_pool owners bpNames lbName bp configs =
     (if fst (isLBBackendPoolsExisting bpNames (bp_Name bp))
      then map (\<lambda>c. if EqualFold (trimSuffixIgnoreCase lbName InternalLoadBalancerNameSuffix) (sc_Name c)
                 then c\<lparr>sc_ActiveNodes := SafeInsert (sc_ActiveNodes c) (getBackendPoolNodeNames owners bp)\<rparr> else c) configs
      else configs)"

text \<open>\<open>None\<close> is the panic when the list is nil.\<close>

definition recordExistingNodesOnLoadBalancers ::
  "bool \<Rightarrow> (string \<times> string) list \<Rightarrow> string \<Rightarrow> pooled_lb list option \<Rightarrow> SlbConfig list \<Rightarrow> (string, SlbConfig list) result option" where
  "recordExistingNodesOnLoadBalancers nodeIP owners clusterName lbs configs =
     (if \<not> nodeIP then Some (Inl ''must use backend pool type nodeIP'')
      else case lbs of
        None \<Rightarrow> None
      | Some xs \<Rightarrow>
          Some (Inr (fold (\<lambda>lb. fold (record_pool owners (getBackendPoolNames clusterName) (deref (lb_Name lb) []))
                                  (deref (lb_BackendAddressPools lb) [])) xs configs)))"

definition reconcileMultipleStandardLoadBalancerBackendNodes ::
  "(K8sNode \<Rightarrow> (string, string) result) \<Rightarrow> selector_parser \<Rightarrow> bool \<Rightarrow> (string \<times> string) list \<Rightarrow> string \<Rightarrow> string \<Rightarrow> pooled_lb list option \<Rightarrow>
   K8sNode list \<Rightarrow> bool \<Rightarrow> slb_state \<Rightarrow> (string option \<times> string list \<times> slb_state) option" where
  "reconcileMultipleStandardLoadBalancerBackendNodes vmSetName parse nodeIP owners clusterName lbName lbs nodes init s =
     (case (if init then recordExistingNodesOnLoadBalancers nodeIP owners clusterName lbs (sl_configs s) else Some (Inr (sl_configs s))) of
        None \<Rightarrow> None
      | Some (Inl err) \<Rightarrow> Some (Some err, [], s)
      | Some (Inr configs) \<Rightarrow>
          (let (configs', idxMap) = removeDeletedNodesFromLoadBalancerConfigurations nodes configs;
               (err, s') = accommodateNodesByPrimaryVMSet vmSetName lbName lbs idxMap nodes (s\<lparr>sl_configs := configs'\<rparr>)
           in Some (if err \<noteq> None then (err, [], s')
                    else accommodateNodesByNodeSelector parse lbName lbs idxMap nodes s')))"

section \<open>The end of safeDeleteLoadBalancer\<close>

fun forget_lb :: "string \<Rightarrow> SlbConfig list \<Rightarrow> string set \<Rightarrow> SlbConfig list \<times> string set" where
  "forget_lb lbName [] marked = ([], marked)"
| "forget_lb lbName (c # cs) marked =
     (if EqualFold (trimSuffixIgnoreCase lbName InternalLoadBalancerNameSuffix) (sc_Name c)
      then (c\<lparr>sc_ActiveNodes := NewString []\<rparr> # cs, marked - set_elems (sc_ActiveNodes c))
      else (let (cs', marked') = forget_lb lbName cs marked in (c # cs', marked')))"

fun getActiveNodesByLoadBalancerName :: "string \<Rightarrow> SlbConfig list \<Rightarrow> IgnoreCaseSet" where
  "getActiveNodesByLoadBalancerName lbName [] = NewString []"
| "getActiveNodesByLoadBalancerName lbName (c # cs) =
     (if EqualFold (trimSuffixIgnoreCase lbName InternalLoadBalancerNameSuffix) (sc_Name c) then sc_ActiveNodes c
      else getActiveNodesByLoadBalancerName lbName cs)"

end
