(* ===== verification/MultiSlbFacts.thy ===== *)
theory MultiSlbFacts
  imports MultiSlb
begin

text \<open>
  Placement of nodes: how each step changes which nodes are active on which load balancer configuration, and the invariant that
  a node is active on at most one.
\<close>

definition node_on :: "SlbConfig list \<Rightarrow> string \<Rightarrow> nat \<Rightarrow> bool" where
  "node_on cs x i \<longleftrightarrow> i < length cs \<and> set_Has (sc_ActiveNodes (cs ! i)) x"

definition exclusive :: "SlbConfig list \<Rightarrow> bool" where
  "exclusive cs \<longleftrightarrow> (\<forall>x i j. node_on cs x i \<longrightarrow> node_on cs x j \<longrightarrow> i = j)"

definition lower_sets :: "SlbConfig list \<Rightarrow> bool" where
  "lower_sets cs \<longleftrightarrow> (\<forall>i < length cs. \<forall>x \<in> set_elems (sc_ActiveNodes (cs ! i)). ToLower x = x)"

definition slb_ok :: "slb_state \<Rightarrow> bool" where
  "slb_ok s \<longleftrightarrow> exclusive (sl_configs s) \<and> lower_sets (sl_configs s)"

text \<open>The part of the configurations that does not change.\<close>

definition slb_spec :: "SlbConfig list \<Rightarrow> SlbConfig list" where
  "slb_spec cs = map (\<lambda>c. c\<lparr>sc_ActiveNodes := None\<rparr>) cs"

lemma length_spec: "slb_spec cs = slb_spec cs' \<Longrightarrow> length cs = length cs'"
  unfolding slb_spec_def by (metis length_map)

lemma spec_nth:
  assumes "slb_spec cs = slb_spec cs'" "i < length cs"
  shows "sc_Name (cs ! i) = sc_Name (cs' ! i)" "sc_PrimaryVMSet (cs ! i) = sc_PrimaryVMSet (cs' ! i)"
    "sc_NodeSelector (cs ! i) = sc_NodeSelector (cs' ! i)"
proof -
  have "slb_spec cs ! i = slb_spec cs' ! i" using assms(1) by simp
  then have "(cs ! i)\<lparr>sc_ActiveNodes := None\<rparr> = (cs' ! i)\<lparr>sc_ActiveNodes := None\<rparr>"
    using assms length_spec [OF assms(1)] by (simp add: slb_spec_def)
  then show "sc_Name (cs ! i) = sc_Name (cs' ! i)" "sc_PrimaryVMSet (cs ! i) = sc_PrimaryVMSet (cs' ! i)"
    "sc_NodeSelector (cs ! i) = sc_NodeSelector (cs' ! i)"
    by (metis SlbConfig.select_convs SlbConfig.surjective SlbConfig.update_convs)+
qed

lemma available_cong:
  assumes "slb_spec cs = slb_spec cs'" "i < length cs"
  shows "available lbName lbs (cs ! i) = available lbName lbs (cs' ! i)"
  using spec_nth [OF assms] by (simp add: available_def)

lemma find_cong: "(\<And>i. i \<in> set is \<Longrightarrow> P i = Q i) \<Longrightarrow> List.find P is = List.find Q is"
  by (induction "is") auto

lemma primary_config_cong:
  assumes "slb_spec cs = slb_spec cs'"
  shows "primary_config lbName lbs v cs = primary_config lbName lbs v cs'"
  unfolding primary_config_def length_spec [OF assms, symmetric]
  by (rule find_cong) (simp add: spec_nth [OF assms] available_cong [OF assms])

lemma selected_cong:
  assumes "slb_spec cs = slb_spec cs'" "\<forall>i \<in> set is. i < length cs"
  shows "selected_configs parse lbName lbs labels cs is = selected_configs parse lbName lbs labels cs' is"
  using assms(2)
proof (induction "is")
  case (Cons a "is")
  then have a: "sc_NodeSelector (cs ! a) = sc_NodeSelector (cs' ! a)" "available lbName lbs (cs ! a) = available lbName lbs (cs' ! a)"
    by (simp_all add: spec_nth(3) [OF assms(1)] available_cong [OF assms(1)])
  from Cons show ?case unfolding selected_configs.simps a by (simp split: sum.split)
qed simp

lemma eligible_cong:
  assumes "slb_spec cs = slb_spec cs'"
  shows "eligible_configs parse lbName lbs labels cs = eligible_configs parse lbName lbs labels cs'"
proof -
  have s: "selected_configs parse lbName lbs labels cs [0..<length cs] = selected_configs parse lbName lbs labels cs' [0..<length cs']"
    using selected_cong [OF assms, of "[0..<length cs]"] length_spec [OF assms] by simp
  have f: "filter (\<lambda>i. sc_NodeSelector (cs ! i) = None) [0..<length cs] = filter (\<lambda>i. sc_NodeSelector (cs' ! i) = None) [0..<length cs']"
    unfolding length_spec [OF assms, symmetric] by (rule filter_cong) (simp_all add: spec_nth [OF assms])
  have sub: "set js \<subseteq> {..<length cs}" if "selected_configs parse lbName lbs labels cs' is = Inr js" "set is \<subseteq> {..<length cs}" for "is" js
    using that by (induction "is" arbitrary: js) (auto split: if_splits sum.splits)
  have a: "filter (\<lambda>i. available lbName lbs (cs ! i)) is = filter (\<lambda>i. available lbName lbs (cs' ! i)) is" if "set is \<subseteq> {..<length cs}" for "is"
    using that by (intro filter_cong) (auto simp: available_cong [OF assms])
  show ?thesis
  proof (cases "selected_configs parse lbName lbs labels cs' [0..<length cs']")
    case (Inr js)
    then have "set js \<subseteq> {..<length cs}" using sub length_spec [OF assms] by (metis atLeast_upt lessThan_subset_iff order_refl)
    moreover have "set (filter (\<lambda>i. sc_NodeSelector (cs' ! i) = None) [0..<length cs']) \<subseteq> {..<length cs}" using length_spec [OF assms] by auto
    ultimately show ?thesis unfolding eligible_configs_def s f Inr by (simp add: Let_def a)
  qed (simp add: eligible_configs_def s)
qed

lemma eligible_range:
  assumes "eligible_configs parse lbName lbs labels cs = Inr is"
  shows "set is \<subseteq> {..<length cs}" "\<forall>i \<in> set is. available lbName lbs (cs ! i)"
proof -
  have sub: "set js \<subseteq> {..<length cs}" if "selected_configs parse lbName lbs labels cs ks = Inr js" "set ks \<subseteq> {..<length cs}" for ks js
    using that by (induction ks arbitrary: js) (auto split: if_splits sum.splits)
  have "set js \<subseteq> {..<length cs}" if "selected_configs parse lbName lbs labels cs [0..<length cs] = Inr js" for js
    using sub [OF that] by (simp add: atLeast0LessThan)
  then show "set is \<subseteq> {..<length cs}" "\<forall>i \<in> set is. available lbName lbs (cs ! i)"
    using assms by (fastforce simp: eligible_configs_def Let_def split: sum.splits if_splits)+
qed

section \<open>Single operations\<close>

lemma spec_update: "i < length cs \<Longrightarrow> slb_spec (cs[i := (cs ! i)\<lparr>sc_ActiveNodes := s\<rparr>]) = slb_spec cs"
  by (simp add: slb_spec_def map_update list_update_same_conv)

lemma spec_insert [simp]: "slb_spec (insert_node i n cs) = slb_spec cs"
  by (cases "i < length cs") (simp_all add: insert_node_def spec_update list_update_beyond)

lemma spec_remove [simp]: "slb_spec (removeNodeFromLBConfig idx n cs) = slb_spec cs"
proof (cases "idx n")
  case (Some i)
  then show ?thesis by (cases "i < length cs") (simp_all add: removeNodeFromLBConfig_def spec_update list_update_beyond)
qed (simp add: removeNodeFromLBConfig_def)

lemma on_insert:
  "i < length cs \<Longrightarrow> node_on (insert_node i n cs) x j \<longleftrightarrow> node_on cs x j \<or> j = i \<and> EqualFold n x"
  by (auto simp: node_on_def insert_node_def nth_list_update ics.has_ins)

lemma on_remove:
  "node_on (removeNodeFromLBConfig idx n cs) x j \<longleftrightarrow> node_on cs x j \<and> \<not> (idx n = Some j \<and> EqualFold n x)"
proof (cases "idx n")
  case (Some i)
  show ?thesis
  proof (cases "i = j")
    case True
    then show ?thesis by (cases "j < length cs") (simp_all add: Some node_on_def removeNodeFromLBConfig_def ics.has_del)
  qed (simp add: Some node_on_def removeNodeFromLBConfig_def)
qed (simp add: removeNodeFromLBConfig_def)

text \<open>The index map is right for a node.\<close>

definition idx_ok :: "(string \<Rightarrow> nat option) \<Rightarrow> SlbConfig list \<Rightarrow> string \<Rightarrow> bool" where
  "idx_ok idx cs n \<longleftrightarrow> (\<forall>i. idx n = Some i \<longleftrightarrow> node_on cs n i)"

lemma on_fold: "EqualFold n x \<Longrightarrow> node_on cs x i = node_on cs n i"
  unfolding node_on_def using ics.has_fold by blast

lemma on_move:
  assumes "idx_ok idx cs n" "i < length cs"
  shows "node_on (insert_node i n (removeNodeFromLBConfig idx n cs)) x j \<longleftrightarrow> (if EqualFold n x then j = i else node_on cs x j)"
proof -
  have "i < length (removeNodeFromLBConfig idx n cs)" using assms(2) length_spec [OF spec_remove] by simp
  moreover have "idx n = Some j \<longleftrightarrow> node_on cs n j" for j using assms(1) by (simp add: idx_ok_def)
  ultimately show ?thesis using on_fold [of n x cs j] by (auto simp: on_insert on_remove)
qed

text \<open>The state after a step has the node \<open>n\<close> exactly where \<open>r\<close> says and the others where they were.\<close>

definition placed :: "string \<Rightarrow> nat option \<Rightarrow> SlbConfig list \<Rightarrow> SlbConfig list \<Rightarrow> bool" where
  "placed n r cs cs' \<longleftrightarrow> slb_spec cs' = slb_spec cs \<and> (\<forall>x j. node_on cs' x j \<longleftrightarrow> (if EqualFold n x then r = Some j else node_on cs x j))"

lemma placed_same: "idx_ok idx cs n \<Longrightarrow> placed n (idx n) cs cs"
  unfolding placed_def idx_ok_def by (simp add: on_fold)

lemma placed_move: "idx_ok idx cs n \<Longrightarrow> i < length cs \<Longrightarrow> placed n (Some i) cs (insert_node i n (removeNodeFromLBConfig idx n cs))"
  by (auto simp: placed_def on_move)

lemma placed_remove:
  assumes "idx_ok idx cs n"
  shows "placed n None cs (removeNodeFromLBConfig idx n cs)"
  unfolding placed_def
proof (intro conjI allI)
  fix x j
  show "node_on (removeNodeFromLBConfig idx n cs) x j \<longleftrightarrow> (if EqualFold n x then None = Some j else node_on cs x j)"
    using assms on_fold [of n x cs j] by (simp add: on_remove idx_ok_def)
qed simp

lemma primary_config_range: "primary_config lbName lbs v cs = Some i \<Longrightarrow> i < length cs"
  unfolding primary_config_def by (auto simp: find_Some_iff)

lemma place_by_vmset_placed:
  assumes i: "idx_ok idx (sl_configs s) n"
  shows "placed n (case primary_config lbName lbs v (sl_configs s) of None \<Rightarrow> idx n | Some i \<Rightarrow> Some i)
    (sl_configs s) (sl_configs (place_by_vmset lbName lbs idx v n s))"
proof (cases "primary_config lbName lbs v (sl_configs s)")
  case None
  then show ?thesis using placed_same [OF i] by (simp add: place_by_vmset_def)
next
  case (Some k)
  note k = primary_config_range [OF Some]
  show ?thesis
  proof (cases "set_Has (sc_ActiveNodes (sl_configs s ! k)) n")
    case True
    then have "idx n = Some k" using i k by (simp add: idx_ok_def node_on_def)
    then show ?thesis using placed_same [OF i] Some True by (simp add: place_by_vmset_def Let_def)
  next
    case False
    then show ?thesis using placed_move [OF i k] Some by (simp add: place_by_vmset_def Let_def)
  qed
qed

lemma place_by_vmset_marked:
  "sl_marked (place_by_vmset lbName lbs idx v n s) =
     (if primary_config lbName lbs v (sl_configs s) = None then sl_marked s else insert (ToLower n) (sl_marked s))"
  by (auto simp: place_by_vmset_def Let_def split: option.split)

lemma fewest_nodes_range:
  "fewest_nodes cs is m k = Some i \<Longrightarrow> i \<in> set is \<or> m = Some i"
  by (induction "is" arbitrary: m k) (auto simp: Let_def split: if_splits)

lemma fewest_nodes_some:
  "fewest_nodes cs is m k = None \<Longrightarrow> m = None \<and> (\<forall>i \<in> set is. k \<le> int (set_Len (sc_ActiveNodes (cs ! i))))"
  by (induction "is" arbitrary: m k) (auto simp: Let_def split: if_splits)

lemma place_by_selector_placed:
  assumes i: "idx_ok idx cs n" and e: "set eligible \<subseteq> {..<length cs}"
    and small: "\<forall>i < length cs. int (set_Len (sc_ActiveNodes (cs ! i))) < MaxInt32"
  shows "\<exists>r. placed n r cs (fst (place_by_selector idx eligible n cs)) \<and>
    (eligible = [] \<longrightarrow> r = None) \<and> (eligible \<noteq> [] \<longrightarrow> (\<exists>i \<in> set eligible. r = Some i))"
proof (cases "\<exists>k \<in> set eligible. idx n = Some k")
  case True
  then have "place_by_selector idx eligible n cs = (cs, [])" by (auto simp: place_by_selector_def)
  then show ?thesis using placed_same [OF i] True by auto
next
  case no: False
  show ?thesis
  proof (cases "fewest_nodes cs eligible None MaxInt32")
    case None
    have "eligible = []"
    proof (rule ccontr)
      assume "eligible \<noteq> []"
      then obtain k where "k \<in> set eligible" by (cases eligible) auto
      then show False using fewest_nodes_some [OF None] small e by fastforce
    qed
    moreover have "placed n None cs (fst (place_by_selector idx eligible n cs))"
    proof (cases "idx n")
      case None
      then show ?thesis using placed_same [OF i] no \<open>fewest_nodes cs eligible None MaxInt32 = None\<close> by (simp add: place_by_selector_def)
    next
      case (Some k)
      then show ?thesis using placed_remove [OF i] no \<open>fewest_nodes cs eligible None MaxInt32 = None\<close> by (simp add: place_by_selector_def Let_def)
    qed
    ultimately show ?thesis by auto
  next
    case (Some k)
    then have k: "k \<in> set eligible" using fewest_nodes_range [OF Some] by simp
    have "fst (place_by_selector idx eligible n cs) = insert_node k n (removeNodeFromLBConfig idx n cs)"
    proof (cases "idx n")
      case None
      then show ?thesis using Some by (simp add: place_by_selector_def Let_def removeNodeFromLBConfig_def)
    next
      case (Some l)
      then show ?thesis using no k \<open>fewest_nodes cs eligible None MaxInt32 = Some k\<close> by (auto simp: place_by_selector_def Let_def)
    qed
    then show ?thesis using placed_move [OF i, of k] k e by (intro exI [of _ "Some k"]) auto
  qed
qed

section \<open>The loops\<close>

text \<open>Only nodes in \<open>N\<close> move, and they stay on at most one load balancer.\<close>

definition moves :: "string set \<Rightarrow> SlbConfig list \<Rightarrow> SlbConfig list \<Rightarrow> bool" where
  "moves N cs cs' \<longleftrightarrow> slb_spec cs' = slb_spec cs \<and> (exclusive cs \<longrightarrow> exclusive cs') \<and>
     (\<forall>x j. ToLower x \<notin> N \<longrightarrow> node_on cs' x j = node_on cs x j)"

lemma moves_refl: "moves N cs cs"
  by (simp add: moves_def)

lemma moves_trans: "moves M cs cs' \<Longrightarrow> moves N cs' cs'' \<Longrightarrow> M \<subseteq> K \<Longrightarrow> N \<subseteq> K \<Longrightarrow> moves K cs cs''"
  unfolding moves_def by (metis subsetD)

lemma moves_mono: "moves M cs cs' \<Longrightarrow> M \<subseteq> K \<Longrightarrow> moves K cs cs'"
  unfolding moves_def by blast

lemma placed_moves: "placed n r cs cs' \<Longrightarrow> moves {ToLower n} cs cs'"
  unfolding moves_def placed_def exclusive_def EqualFold_def by (metis option.inject singletonI)

lemma moves_idx_ok: "moves N cs cs' \<Longrightarrow> idx_ok idx cs m \<Longrightarrow> ToLower m \<notin> N \<Longrightarrow> idx_ok idx cs' m"
  by (simp add: moves_def idx_ok_def)

definition within :: "string set \<Rightarrow> SlbConfig list \<Rightarrow> bool" where
  "within N cs \<longleftrightarrow> (\<forall>i < length cs. set_elems (sc_ActiveNodes (cs ! i)) \<subseteq> N)"

lemma elems_ins: "set_elems (SafeInsert s [n]) = insert (ToLower n) (set_elems s)"
  by (cases s) (simp_all add: set_elems_def SafeInsert_def NewString_def)

lemma elems_del: "set_elems (snd (set_Delete s n)) \<subseteq> set_elems s"
  by (cases s) (auto simp: set_elems_def set_Delete_def Let_def)

lemma within_update:
  assumes "within N cs" "i < length cs \<Longrightarrow> set_elems (sc_ActiveNodes c) \<subseteq> N"
  shows "within N (cs[i := c])"
  unfolding within_def
proof (intro allI impI)
  fix j
  assume "j < length (cs[i := c])"
  then show "set_elems (sc_ActiveNodes (cs[i := c] ! j)) \<subseteq> N" using assms by (cases "i = j") (simp_all add: within_def)
qed

lemma within_insert: "within N cs \<Longrightarrow> ToLower n \<in> N \<Longrightarrow> within N (insert_node i n cs)"
  unfolding insert_node_def by (rule within_update) (simp_all add: within_def elems_ins)

lemma within_remove:
  assumes "within N cs"
  shows "within N (removeNodeFromLBConfig idx n cs)"
proof (cases "idx n")
  case (Some i)
  have "within N (cs[i := (cs ! i)\<lparr>sc_ActiveNodes := snd (set_Delete (sc_ActiveNodes (cs ! i)) (ToLower n))\<rparr>])"
    by (rule within_update [OF assms]) (use assms elems_del in \<open>fastforce simp: within_def\<close>)
  then show ?thesis by (simp add: removeNodeFromLBConfig_def Some)
qed (simp add: removeNodeFromLBConfig_def assms)

lemma within_place:
  assumes "within N (sl_configs s)" "ToLower n \<in> N"
  shows "within N (sl_configs (place_by_vmset lbName lbs idx v n s))"
    and "within N (fst (place_by_selector idx eligible n (sl_configs s)))"
proof -
  show "within N (sl_configs (place_by_vmset lbName lbs idx v n s))"
    using assms by (simp add: place_by_vmset_def Let_def within_insert within_remove split: option.split)
  show "within N (fst (place_by_selector idx eligible n (sl_configs s)))"
    using assms by (simp add: place_by_selector_def Let_def within_insert within_remove split: option.split)
qed

lemma within_Len:
  assumes "within N cs" "finite N" "int (card N) < MaxInt32"
  shows "\<forall>i < length cs. int (set_Len (sc_ActiveNodes (cs ! i))) < MaxInt32"
proof (intro allI impI)
  fix i
  assume "i < length cs"
  then have "set_elems (sc_ActiveNodes (cs ! i)) \<subseteq> N" using assms(1) by (simp add: within_def)
  moreover have "set_Len (sc_ActiveNodes (cs ! i)) = card (set_elems (sc_ActiveNodes (cs ! i)))"
    by (simp add: set_Len_def set_elems_def split: option.split)
  ultimately show "int (set_Len (sc_ActiveNodes (cs ! i))) < MaxInt32" using card_mono [OF assms(2)] assms(3) by (metis le_less_trans of_nat_le_iff)
qed

abbreviation names :: "K8sNode list \<Rightarrow> string set" where
  "names nodes \<equiv> kn_Name ` set nodes"

definition nodes_ok :: "K8sNode list \<Rightarrow> bool" where
  "nodes_ok nodes \<longleftrightarrow> distinct (map kn_Name nodes) \<and> (\<forall>n \<in> set nodes. ToLower (kn_Name n) = kn_Name n)"

definition vmset_placed :: "(K8sNode \<Rightarrow> (string, string) result) \<Rightarrow> string \<Rightarrow> 'a LoadBalancer_scheme list option \<Rightarrow> slb_state \<Rightarrow> slb_state \<Rightarrow> K8sNode \<Rightarrow> bool" where
  "vmset_placed vmSetName lbName lbs s s' m \<longleftrightarrow>
     (\<exists>v. vmSetName m = Inr v \<and>
        (case primary_config lbName lbs v (sl_configs s) of
           None \<Rightarrow> kn_Name m \<notin> sl_marked s' \<and> (\<forall>j. node_on (sl_configs s') (kn_Name m) j \<longleftrightarrow> node_on (sl_configs s) (kn_Name m) j)
         | Some i \<Rightarrow> kn_Name m \<in> sl_marked s' \<and> (\<forall>j. node_on (sl_configs s') (kn_Name m) j \<longleftrightarrow> j = i)))"

lemma primary_loop:
  assumes "accommodateNodesByPrimaryVMSet vmSetName lbName lbs idx nodes s = (err, s')"
    and "nodes_ok nodes" "\<forall>n \<in> set nodes. idx_ok idx (sl_configs s) (kn_Name n)" "within N (sl_configs s)" "names nodes \<subseteq> N"
  shows "moves (names nodes - sl_marked s) (sl_configs s) (sl_configs s') \<and> within N (sl_configs s') \<and>
    sl_marked s \<subseteq> sl_marked s' \<and> sl_marked s' \<subseteq> sl_marked s \<union> names nodes \<and>
    (err = None \<longrightarrow> (\<forall>m \<in> set nodes. kn_Name m \<notin> sl_marked s \<longrightarrow> vmset_placed vmSetName lbName lbs s s' m))"
  using assms
proof (induction nodes arbitrary: s)
  case (Cons n nodes)
  have n: "ToLower (kn_Name n) = kn_Name n" "kn_Name n \<notin> names nodes" "nodes_ok nodes"
    using Cons.prems(2) by (auto simp: nodes_ok_def)
  show ?case
  proof (cases "kn_Name n \<in> sl_marked s")
    case True
    then have "accommodateNodesByPrimaryVMSet vmSetName lbName lbs idx nodes s = (err, s')" using Cons.prems(1) n(1) by simp
    from Cons.IH [OF this n(3)] Cons.prems(3-5) show ?thesis using True by auto
  next
    case unmarked: False
    show ?thesis
    proof (cases "vmSetName n")
      case (Inl e)
      then show ?thesis using Cons.prems unmarked n(1) by (auto simp: moves_refl)
    next
      case (Inr v)
      define t where "t = place_by_vmset lbName lbs idx v (kn_Name n) s"
      have run: "accommodateNodesByPrimaryVMSet vmSetName lbName lbs idx nodes t = (err, s')"
        using Cons.prems(1) unmarked Inr n(1) by (simp add: t_def)
      define r where "r = (case primary_config lbName lbs v (sl_configs s) of None \<Rightarrow> idx (kn_Name n) | Some i \<Rightarrow> Some i)"
      have p: "placed (kn_Name n) r (sl_configs s) (sl_configs t)"
        unfolding t_def r_def by (rule place_by_vmset_placed) (use Cons.prems(3) in simp)
      have mv: "moves {kn_Name n} (sl_configs s) (sl_configs t)" using placed_moves [OF p] n(1) by simp
      have other: "ToLower (kn_Name m) = kn_Name m \<and> kn_Name m \<noteq> kn_Name n" if "m \<in> set nodes" for m
        using n(2,3) that by (metis imageI nodes_ok_def)
      have idx: "\<forall>m \<in> set nodes. idx_ok idx (sl_configs t) (kn_Name m)"
        using Cons.prems(3) other by (auto intro: moves_idx_ok [OF mv])
      have wt: "within N (sl_configs t)" unfolding t_def by (rule within_place(1)) (use Cons.prems(4,5) n(1) in auto)
      from Cons.IH [OF run n(3) idx wt] Cons.prems(5)
      have IH: "moves (names nodes - sl_marked t) (sl_configs t) (sl_configs s')" "within N (sl_configs s')"
        "sl_marked t \<subseteq> sl_marked s'" "sl_marked s' \<subseteq> sl_marked t \<union> names nodes"
        "err = None \<Longrightarrow> m \<in> set nodes \<Longrightarrow> kn_Name m \<notin> sl_marked t \<Longrightarrow> vmset_placed vmSetName lbName lbs t s' m" for m
        by auto
      have mt: "sl_marked t = (if primary_config lbName lbs v (sl_configs s) = None then sl_marked s else insert (kn_Name n) (sl_marked s))"
        using n(1) by (simp add: t_def place_by_vmset_marked)
      have spec: "slb_spec (sl_configs t) = slb_spec (sl_configs s)" using mv by (simp add: moves_def)
      have here: "node_on (sl_configs s') (kn_Name n) j \<longleftrightarrow> r = Some j" for j
      proof -
        have "node_on (sl_configs s') (kn_Name n) j = node_on (sl_configs t) (kn_Name n) j" using IH(1) n(1,2) by (simp add: moves_def)
        then show ?thesis using p by (simp add: placed_def)
      qed
      have vp: "vmset_placed vmSetName lbName lbs s s' n"
      proof (cases "primary_config lbName lbs v (sl_configs s)")
        case None
        have "idx_ok idx (sl_configs s) (kn_Name n)" using Cons.prems(3) by simp
        then show ?thesis using here None unmarked mt IH(3,4) n(2) Inr by (auto simp: vmset_placed_def r_def idx_ok_def)
      next
        case (Some i)
        then show ?thesis using here mt IH(3) Inr by (auto simp: vmset_placed_def r_def)
      qed
      have rest: "vmset_placed vmSetName lbName lbs s s' m" if "err = None" "m \<in> set nodes" "kn_Name m \<notin> sl_marked s" for m
      proof -
        have ne: "kn_Name m \<noteq> kn_Name n" using other that(2) by blast
        then have "kn_Name m \<notin> sl_marked t" using mt that(3) by simp
        note m = IH(5) [OF that(1,2) this]
        have e: "node_on (sl_configs t) (kn_Name m) j = node_on (sl_configs s) (kn_Name m) j" for j
          using mv other [OF that(2)] by (simp add: moves_def)
        from m show ?thesis unfolding vmset_placed_def primary_config_cong [OF spec] e .
      qed
      have "moves (names (n # nodes) - sl_marked s) (sl_configs s) (sl_configs s')"
        by (rule moves_trans [OF mv IH(1)]) (use unmarked mt in auto)
      moreover have "sl_marked s \<subseteq> sl_marked s'" "sl_marked s' \<subseteq> sl_marked s \<union> names (n # nodes)" using IH(3,4) mt by (auto split: if_splits)
      ultimately show ?thesis using IH(2) vp rest by auto
    qed
  qed
qed (simp add: moves_refl)

definition selector_placed :: "selector_parser \<Rightarrow> string \<Rightarrow> 'a LoadBalancer_scheme list option \<Rightarrow> SlbConfig list \<Rightarrow> SlbConfig list \<Rightarrow> K8sNode \<Rightarrow> bool" where
  "selector_placed parse lbName lbs cs cs' m \<longleftrightarrow>
     (\<exists>is r. eligible_configs parse lbName lbs (kn_Labels m) cs = Inr is \<and> (\<forall>j. node_on cs' (kn_Name m) j \<longleftrightarrow> r = Some j) \<and>
        (is = [] \<longrightarrow> r = None) \<and> (is \<noteq> [] \<longrightarrow> (\<exists>i \<in> set is. r = Some i)))"

lemma selector_loop:
  assumes "accommodateNodesByNodeSelector parse lbName lbs idx nodes s = (err, ws, s')"
    and "nodes_ok nodes" "\<forall>n \<in> set nodes. kn_Name n \<notin> sl_marked s \<longrightarrow> idx_ok idx (sl_configs s) (kn_Name n)"
    and "within N (sl_configs s)" "names nodes \<subseteq> N" and N: "finite N" "int (card N) < MaxInt32"
  shows "moves (names nodes - sl_marked s) (sl_configs s) (sl_configs s') \<and> within N (sl_configs s') \<and> sl_marked s' = sl_marked s \<and>
    (err = None \<longrightarrow> (\<forall>m \<in> set nodes. kn_Name m \<notin> sl_marked s \<longrightarrow> selector_placed parse lbName lbs (sl_configs s) (sl_configs s') m))"
  using assms(1-5)
proof (induction nodes arbitrary: s ws)
  case (Cons n nodes)
  have n: "ToLower (kn_Name n) = kn_Name n" "kn_Name n \<notin> names nodes" "nodes_ok nodes"
    using Cons.prems(2) by (auto simp: nodes_ok_def)
  show ?case
  proof (cases "kn_Name n \<in> sl_marked s")
    case True
    then have "accommodateNodesByNodeSelector parse lbName lbs idx nodes s = (err, ws, s')" using Cons.prems(1) n(1) by simp
    from Cons.IH [OF this n(3)] Cons.prems(3-5) show ?thesis using True by auto
  next
    case unmarked: False
    show ?thesis
    proof (cases "eligible_configs parse lbName lbs (kn_Labels n) (sl_configs s)")
      case (Inl e)
      then show ?thesis using Cons.prems unmarked n(1) by (auto simp: moves_refl)
    next
      case (Inr eligible)
      define cs where "cs = fst (place_by_selector idx eligible (kn_Name n) (sl_configs s))"
      obtain ws' where run: "accommodateNodesByNodeSelector parse lbName lbs idx nodes (s\<lparr>sl_configs := cs\<rparr>) = (err, ws', s')"
        using Cons.prems(1) unmarked Inr n(1) by (auto simp: cs_def split: prod.splits)
      have ok: "idx_ok idx (sl_configs s) (kn_Name n)" using Cons.prems(3) unmarked by simp
      obtain r where p: "placed (kn_Name n) r (sl_configs s) cs" and r: "eligible = [] \<longrightarrow> r = None" "eligible \<noteq> [] \<longrightarrow> (\<exists>i \<in> set eligible. r = Some i)"
        using place_by_selector_placed [OF ok eligible_range(1) [OF Inr] within_Len [OF Cons.prems(4) N]] unfolding cs_def by blast
      have mv: "moves {kn_Name n} (sl_configs s) cs" using placed_moves [OF p] n(1) by simp
      have other: "ToLower (kn_Name m) = kn_Name m \<and> kn_Name m \<noteq> kn_Name n" if "m \<in> set nodes" for m
        using n(2,3) that by (metis imageI nodes_ok_def)
      have idx: "\<forall>m \<in> set nodes. kn_Name m \<notin> sl_marked s \<longrightarrow> idx_ok idx cs (kn_Name m)"
        using Cons.prems(3) other by (auto intro: moves_idx_ok [OF mv])
      have wt: "within N cs" unfolding cs_def by (rule within_place(2)) (use Cons.prems(4,5) n(1) in auto)
      from Cons.IH [OF run n(3)] idx wt Cons.prems(5)
      have IH: "moves (names nodes - sl_marked s) cs (sl_configs s')" "within N (sl_configs s')" "sl_marked s' = sl_marked s"
        "err = None \<Longrightarrow> m \<in> set nodes \<Longrightarrow> kn_Name m \<notin> sl_marked s \<Longrightarrow> selector_placed parse lbName lbs cs (sl_configs s') m" for m
        by auto
      have spec: "slb_spec cs = slb_spec (sl_configs s)" using mv by (simp add: moves_def)
      have "node_on (sl_configs s') (kn_Name n) j \<longleftrightarrow> r = Some j" for j
      proof -
        have "node_on (sl_configs s') (kn_Name n) j = node_on cs (kn_Name n) j" using IH(1) n(1,2) by (simp add: moves_def)
        then show ?thesis using p by (simp add: placed_def)
      qed
      then have "selector_placed parse lbName lbs (sl_configs s) (sl_configs s') n" unfolding selector_placed_def using Inr r by blast
      moreover have "selector_placed parse lbName lbs (sl_configs s) (sl_configs s') m" if "err = None" "m \<in> set nodes" "kn_Name m \<notin> sl_marked s" for m
        using IH(4) [OF that] unfolding selector_placed_def eligible_cong [OF spec] .
      moreover have "moves (names (n # nodes) - sl_marked s) (sl_configs s) (sl_configs s')"
        by (rule moves_trans [OF mv IH(1)]) (use unmarked in auto)
      ultimately show ?thesis using IH(2,3) by auto
    qed
  qed
qed (simp add: moves_refl)

end
