(* ===== verification/MultiSlbProperties.thy ===== *)
theory MultiSlbProperties
  imports MultiSlbFacts
begin

text \<open>Where \<open>reconcileMultipleStandardLoadBalancerBackendNodes\<close> puts the nodes.\<close>

abbreviation deleted_removed :: "K8sNode list \<Rightarrow> SlbConfig list \<Rightarrow> SlbConfig list" where
  "deleted_removed nodes cs \<equiv> fst (removeDeletedNodesFromLoadBalancerConfigurations nodes cs)"

abbreviation deleted_index :: "K8sNode list \<Rightarrow> SlbConfig list \<Rightarrow> string \<Rightarrow> nat option" where
  "deleted_index nodes cs \<equiv> snd (removeDeletedNodesFromLoadBalancerConfigurations nodes cs)"

lemma has_elems: "ToLower x = x \<Longrightarrow> x \<in> set_elems s \<longleftrightarrow> set_Has s x"
  by (simp add: set_elems_def set_Has_def split: option.split)

lemma has_names: "nodes_ok nodes \<Longrightarrow> set_Has (NewString (map kn_Name nodes)) x \<longleftrightarrow> ToLower x \<in> names nodes"
  unfolding set_Has_def NewString_def nodes_ok_def by (auto simp: image_iff)

lemma deleted_removed_on:
  assumes "nodes_ok nodes"
  shows "node_on (deleted_removed nodes cs) x j \<longleftrightarrow> node_on cs x j \<and> ToLower x \<in> names nodes"
proof -
  have "set_Has (map_option (Set.filter (set_Has (NewString (map kn_Name nodes)))) s) x \<longleftrightarrow> set_Has s x \<and> ToLower x \<in> names nodes" for s
    using has_names [OF assms, of "ToLower x"] by (cases s) (simp_all add: set_Has_def [of None] set_Has_def [of "Some _"])
  then show ?thesis by (cases "j < length cs") (simp_all add: node_on_def removeDeletedNodesFromLoadBalancerConfigurations_def Let_def)
qed

lemma deleted_removed_spec: "slb_spec (deleted_removed nodes cs) = slb_spec cs"
  by (simp add: slb_spec_def removeDeletedNodesFromLoadBalancerConfigurations_def Let_def)

lemma deleted_removed_within:
  assumes "nodes_ok nodes" "lower_sets cs"
  shows "within (names nodes) (deleted_removed nodes cs)"
  unfolding within_def
proof (intro allI impI subsetI)
  fix i x
  assume i: "i < length (deleted_removed nodes cs)" and x: "x \<in> set_elems (sc_ActiveNodes (deleted_removed nodes cs ! i))"
  from i have i': "i < length cs" by (simp add: removeDeletedNodesFromLoadBalancerConfigurations_def Let_def)
  from x i' have "x \<in> set_elems (sc_ActiveNodes (cs ! i))" "set_Has (NewString (map kn_Name nodes)) x"
    by (auto simp: removeDeletedNodesFromLoadBalancerConfigurations_def Let_def set_elems_def split: option.splits)
  then show "x \<in> names nodes" using assms i' has_names [OF assms(1)] by (auto simp: lower_sets_def)
qed

lemma config_index_ok:
  assumes "exclusive cs" "ToLower n = n"
  shows "idx_ok (config_index cs) cs n"
proof -
  let ?is = "filter (\<lambda>i. n \<in> set_elems (sc_ActiveNodes (cs ! i))) [0..<length cs]"
  have mem: "i \<in> set ?is \<longleftrightarrow> node_on cs n i" for i using has_elems [OF assms(2)] by (auto simp: node_on_def)
  show ?thesis
  proof (cases ?is)
    case Nil
    then have "\<not> node_on cs n i" for i using mem by simp
    then show ?thesis using Nil by (simp add: idx_ok_def config_index_def)
  next
    case (Cons k ks)
    then have "last ?is \<in> set ?is" by simp
    then have l: "node_on cs n (last ?is)" using mem by blast
    have "config_index cs n = Some (last ?is)" using Cons by (simp add: config_index_def)
    then show ?thesis using l assms(1) unfolding idx_ok_def exclusive_def by auto
  qed
qed

lemma deleted_removed_exclusive: "nodes_ok nodes \<Longrightarrow> exclusive cs \<Longrightarrow> exclusive (deleted_removed nodes cs)"
  unfolding exclusive_def deleted_removed_on by blast

lemma deleted_index_ok:
  assumes "nodes_ok nodes" "exclusive cs" "n \<in> set nodes"
  shows "idx_ok (deleted_index nodes cs) (deleted_removed nodes cs) (kn_Name n)"
proof -
  have "deleted_index nodes cs = config_index (deleted_removed nodes cs)"
    by (simp add: removeDeletedNodesFromLoadBalancerConfigurations_def Let_def)
  then show ?thesis using config_index_ok [OF deleted_removed_exclusive [OF assms(1,2)]] assms(1,3) by (simp add: nodes_ok_def)
qed

text \<open>The two loops after the removal.\<close>

lemma reconcile_cases:
  assumes "reconcileMultipleStandardLoadBalancerBackendNodes vmSetName parse nodeIP owners clusterName lbName lbs nodes False s = Some (err, ws, s')"
  obtains e t where
    "accommodateNodesByPrimaryVMSet vmSetName lbName lbs (deleted_index nodes (sl_configs s)) nodes (s\<lparr>sl_configs := deleted_removed nodes (sl_configs s)\<rparr>) = (e, t)"
    "e \<noteq> None \<and> err = e \<and> s' = t \<or>
     e = None \<and> accommodateNodesByNodeSelector parse lbName lbs (deleted_index nodes (sl_configs s)) nodes t = (err, ws, s')"
  using assms by (auto simp: reconcileMultipleStandardLoadBalancerBackendNodes_def Let_def split: prod.splits if_splits)

lemma reconcile_steps:
  assumes ok: "slb_ok s" "nodes_ok nodes" "int (length nodes) < MaxInt32"
    and run: "reconcileMultipleStandardLoadBalancerBackendNodes vmSetName parse nodeIP owners clusterName lbName lbs nodes False s = Some (err, ws, s')"
  obtains t where "moves (names nodes - sl_marked s) (deleted_removed nodes (sl_configs s)) (sl_configs s')"
    "within (names nodes) (sl_configs s')" "sl_marked s \<subseteq> sl_marked s'"
    "err = None \<longrightarrow> (\<forall>m \<in> set nodes. kn_Name m \<notin> sl_marked s \<longrightarrow>
       vmset_placed vmSetName lbName lbs (s\<lparr>sl_configs := deleted_removed nodes (sl_configs s)\<rparr>) t m)"
    "err = None \<longrightarrow> (\<forall>m \<in> set nodes. kn_Name m \<notin> sl_marked t \<longrightarrow> selector_placed parse lbName lbs (sl_configs t) (sl_configs s') m)"
    "err = None \<longrightarrow> (\<forall>m \<in> set nodes. kn_Name m \<in> sl_marked t \<longrightarrow> (\<forall>j. node_on (sl_configs s') (kn_Name m) j = node_on (sl_configs t) (kn_Name m) j))"
    "slb_spec (sl_configs t) = slb_spec (sl_configs s)"
proof -
  let ?cs = "deleted_removed nodes (sl_configs s)" let ?idx = "deleted_index nodes (sl_configs s)"
  let ?s = "s\<lparr>sl_configs := ?cs\<rparr>" let ?N = "names nodes"
  have ex: "exclusive (sl_configs s)" and low: "lower_sets (sl_configs s)" using ok(1) by (simp_all add: slb_ok_def)
  have idx: "\<forall>n \<in> set nodes. idx_ok ?idx (sl_configs ?s) (kn_Name n)" using deleted_index_ok [OF ok(2) ex] by simp
  have win: "within ?N (sl_configs ?s)" using deleted_removed_within [OF ok(2) low] by simp
  have N: "finite ?N" "int (card ?N) < MaxInt32" using ok(3) card_image_le [of "set nodes" kn_Name] card_length [of nodes] by simp_all
  obtain e t where e: "accommodateNodesByPrimaryVMSet vmSetName lbName lbs ?idx nodes ?s = (e, t)"
    and c: "e \<noteq> None \<and> err = e \<and> s' = t \<or> e = None \<and> accommodateNodesByNodeSelector parse lbName lbs ?idx nodes t = (err, ws, s')"
    using reconcile_cases [OF run] by blast
  note P = primary_loop [OF e ok(2) idx win subset_refl]
  have sp: "slb_spec (sl_configs t) = slb_spec (sl_configs s)" using P deleted_removed_spec by (simp add: moves_def)
  from c show thesis
  proof
    assume "e \<noteq> None \<and> err = e \<and> s' = t"
    then show thesis using P sp by (intro that [of t]) auto
  next
    assume c: "e = None \<and> accommodateNodesByNodeSelector parse lbName lbs ?idx nodes t = (err, ws, s')"
    have "\<forall>n \<in> set nodes. kn_Name n \<notin> sl_marked t \<longrightarrow> idx_ok ?idx (sl_configs t) (kn_Name n)"
    proof (intro ballI impI)
      fix n
      assume n: "n \<in> set nodes" "kn_Name n \<notin> sl_marked t"
      then have "vmset_placed vmSetName lbName lbs ?s t n" using P c by auto
      then have "\<forall>j. node_on (sl_configs t) (kn_Name n) j \<longleftrightarrow> node_on ?cs (kn_Name n) j" using n(2) by (auto simp: vmset_placed_def split: option.splits)
      then show "idx_ok ?idx (sl_configs t) (kn_Name n)" using idx n(1) by (simp add: idx_ok_def)
    qed
    note S = selector_loop [OF conjunct2 [OF c] ok(2) this _ subset_refl N]
    have tail: "\<forall>m \<in> set nodes. kn_Name m \<in> sl_marked t \<longrightarrow> (\<forall>j. node_on (sl_configs s') (kn_Name m) j = node_on (sl_configs t) (kn_Name m) j)"
      using S P ok(2) by (simp add: moves_def nodes_ok_def)
    have "moves (?N - sl_marked s) ?cs (sl_configs s')"
      by (rule moves_trans [of "?N - sl_marked s" _ "sl_configs t" "?N - sl_marked t"]) (use P S in auto)
    then show thesis using P S sp c tail by (intro that [of t]) auto
  qed
qed

lemma within_on: "within N cs \<Longrightarrow> node_on cs x i \<Longrightarrow> ToLower x \<in> N"
  by (auto simp: within_def node_on_def set_elems_def set_Has_def split: option.splits)

lemma within_lower: "within (names nodes) cs \<Longrightarrow> nodes_ok nodes \<Longrightarrow> lower_sets cs"
  by (force simp: within_def lower_sets_def nodes_ok_def)

lemma reconcile_keeps_ok:
  assumes ok: "slb_ok s" "nodes_ok nodes" "int (length nodes) < MaxInt32"
    and run: "reconcileMultipleStandardLoadBalancerBackendNodes vmSetName parse nodeIP owners clusterName lbName lbs nodes False s = Some (err, ws, s')"
  shows "slb_ok s'"
proof -
  obtain t where t: "moves (names nodes - sl_marked s) (deleted_removed nodes (sl_configs s)) (sl_configs s')" "within (names nodes) (sl_configs s')"
    by (rule reconcile_steps [OF ok run])
  have "exclusive (sl_configs s')" using t(1) ok deleted_removed_exclusive unfolding moves_def slb_ok_def by blast
  then show ?thesis using within_lower [OF t(2) ok(2)] by (simp add: slb_ok_def)
qed



section \<open>A run\<close>

definition demo_slb :: "string \<Rightarrow> string \<Rightarrow> SlbConfig" where
  "demo_slb name vmset =
     \<lparr>sc_Name = name, sc_AllowServicePlacement = None, sc_PrimaryVMSet = vmset, sc_ServiceLabelSelector = None,
      sc_ServiceNamespaceSelector = None, sc_NodeSelector = None, sc_ActiveServices = None, sc_ActiveNodes = None\<rparr>"

definition demo_slbs :: slb_state where
  "demo_slbs = \<lparr>sl_configs = [demo_slb ''l1'' ''v1'', demo_slb ''l2'' ''v2''], sl_marked = {}\<rparr>"

definition demo_lb :: "string \<Rightarrow> pooled_lb" where
  "demo_lb name = \<lparr>lb_Name = Some name, lb_Probes = None, lb_LoadBalancingRules = None, lb_InboundNatRules = None, lb_InboundNatPools = None,
     lb_Tags = None, lb_BackendAddressPools = None\<rparr>"

definition slb_node :: "string \<Rightarrow> K8sNode" where
  "slb_node name = \<lparr>kn_Name = name, kn_Labels = [], kn_Addresses = [], kn_Taints = [], kn_Conditions = []\<rparr>"

abbreviation demo_reconcile :: "K8sNode list \<Rightarrow> slb_state \<Rightarrow> (string option \<times> string list \<times> slb_state) option" where
  "demo_reconcile \<equiv> \<lambda>nodes. reconcileMultipleStandardLoadBalancerBackendNodes (\<lambda>n. Inr (if kn_Name n = ''a'' then ''V2'' else ''x''))
     (\<lambda>_. Inr (\<lambda>_. True)) True [] ''c'' ''l1'' (Some [demo_lb ''l2'']) nodes False"

lemma demo_slb_facts:
  "slb_ok demo_slbs" "nodes_ok [slb_node ''a'', slb_node ''b'']" "nodes_ok [slb_node ''b'']"
  "int (length [slb_node ''a'', slb_node ''b'']) < MaxInt32" "int (length [slb_node ''b'']) < MaxInt32"
  by (auto simp: slb_ok_def exclusive_def lower_sets_def node_on_def demo_slbs_def demo_slb_def set_Has_def set_elems_def nodes_ok_def
      slb_node_def MaxInt32_def ToLower_def to_lower_char_def less_Suc_eq nth_Cons' split: if_splits)

lemma demo_run:
  "case demo_reconcile [slb_node ''a'', slb_node ''b''] demo_slbs of
     Some (None, ws, s1) \<Rightarrow> ''a'' \<in> sl_marked s1 \<and>
       (case demo_reconcile [slb_node ''b''] s1 of
          Some (None, ws', s2) \<Rightarrow> (case demo_reconcile [slb_node ''a'', slb_node ''b''] s2 of Some (None, ws'', s3) \<Rightarrow> True | _ \<Rightarrow> False)
        | _ \<Rightarrow> False)
   | _ \<Rightarrow> False"
  by code_simp

lemma success_cases:
  assumes "case r of Some (None, ws, s) \<Rightarrow> P ws s | _ \<Rightarrow> False"
  obtains ws s where "r = Some (None, ws, s)" "P ws s"
  using assms by (auto split: option.splits prod.splits)



end
