(* ===== verification/SlbServices.thy ===== *)
theory SlbServices
  imports MultiSlb
begin

text \<open>
  Placement of services on several standard load balancers (\<open>pkg/provider/azure_loadbalancer.go\<close>): which load balancers a
  service may use, which of them it gets, and the record of the services that are active on each. The labels of the service and
  the answer of the API server for the labels of its namespace are arguments.
\<close>

definition isLoadBalancerInUseByService :: "Service \<Rightarrow> SlbConfig \<Rightarrow> bool" where
  "isLoadBalancerInUseByService service c = set_Has (sc_ActiveServices c) (getServiceName service)"

fun getServiceCurrentLoadBalancerName :: "Service \<Rightarrow> SlbConfig list \<Rightarrow> string" where
  "getServiceCurrentLoadBalancerName service [] = []"
| "getServiceCurrentLoadBalancerName service (c # cs) =
     (if isLoadBalancerInUseByService service c then sc_Name c else getServiceCurrentLoadBalancerName service cs)"

section \<open>getEligibleLoadBalancersForService\<close>

datatype lb_failure = PlacementFlag | LabelSelectorFailed | NamespaceSelectorFailed

datatype eligible_error =
    NotConfigured string nat
  | SelectorError string
  | NoneEligible string "string list" "(lb_failure \<times> string) list"

text \<open>One step of the loop over the candidates: why the load balancer is dropped, if it is, and whether a selector matched.\<close>

definition judge_namespace ::
  "selector_parser \<Rightarrow> (string, (string \<times> string) list) result \<Rightarrow> bool \<Rightarrow> SlbConfig \<Rightarrow> (string, lb_failure option \<times> bool) result" where
  "judge_namespace parse nsLabels matched c =
     (case sc_ServiceNamespaceSelector c of
        None \<Rightarrow> Inr (None, matched)
      | Some sel \<Rightarrow>
          (case parse sel of
             Inl e \<Rightarrow> Inl e
           | Inr m \<Rightarrow>
               (case nsLabels of
                  Inl e \<Rightarrow> Inl e
                | Inr ls \<Rightarrow> if \<not> m ls then Inr (Some NamespaceSelectorFailed, matched) else Inr (None, True))))"

definition judge_lb ::
  "selector_parser \<Rightarrow> (string, (string \<times> string) list) result \<Rightarrow> (string \<times> string) list \<Rightarrow> Service \<Rightarrow> SlbConfig \<Rightarrow>
   (string, lb_failure option \<times> bool) result" where
  "judge_lb parse nsLabels svcLabels service c =
     (if \<not> deref (sc_AllowServicePlacement c) True \<and> \<not> isLoadBalancerInUseByService service c then Inr (Some PlacementFlag, False)
      else case sc_ServiceLabelSelector c of
        None \<Rightarrow> judge_namespace parse nsLabels False c
      | Some sel \<Rightarrow>
          (case parse sel of
             Inl e \<Rightarrow> Inl e
           | Inr m \<Rightarrow> if \<not> m svcLabels then Inr (Some LabelSelectorFailed, False) else judge_namespace parse nsLabels True c))"

text \<open>The loop runs from the last candidate to the first.\<close>

fun filter_lbs ::
  "(SlbConfig \<Rightarrow> (string, lb_failure option \<times> bool) result) \<Rightarrow> SlbConfig list \<Rightarrow>
   (string, SlbConfig list \<times> (lb_failure \<times> string) list \<times> bool) result" where
  "filter_lbs judge [] = Inr ([], [], False)"
| "filter_lbs judge (c # cs) =
     (case filter_lbs judge cs of
        Inl e \<Rightarrow> Inl e
      | Inr (kept, failed, matched) \<Rightarrow>
          (case judge c of
             Inl e \<Rightarrow> Inl e
           | Inr (None, m) \<Rightarrow> Inr (c # kept, failed, matched \<or> m)
           | Inr (Some f, m) \<Rightarrow> Inr (kept, failed @ [(f, sc_Name c)], matched \<or> m)))"

definition selected_by_annotation :: "Service \<Rightarrow> SlbConfig list \<Rightarrow> (eligible_error, SlbConfig list) result" where
  "selected_by_annotation service configs =
     (let lbsFromAnnotation = GetLoadBalancerConfigurationsNames service
      in if 0 < length lbsFromAnnotation
         then (let eligible = filter (\<lambda>c. set_Has (NewString lbsFromAnnotation) (sc_Name c)) configs
               in if eligible = [] then Inl (NotConfigured (svc_Name service) (length lbsFromAnnotation)) else Inr eligible)
         else Inr configs)"

definition getEligibleLoadBalancersForService ::
  "selector_parser \<Rightarrow> (string, (string \<times> string) list) result \<Rightarrow> (string \<times> string) list \<Rightarrow> Service \<Rightarrow> SlbConfig list \<Rightarrow>
   (eligible_error, string list) result" where
  "getEligibleLoadBalancersForService parse nsLabels svcLabels service configs =
     (case selected_by_annotation service configs of
        Inl e \<Rightarrow> Inl e
      | Inr candidates \<Rightarrow>
          (case filter_lbs (judge_lb parse nsLabels svcLabels service) candidates of
             Inl e \<Rightarrow> Inl (SelectorError e)
           | Inr (kept, failed, selectorMatched) \<Rightarrow>
               if kept = [] then Inl (NoneEligible (getServiceName service) (map sc_Name candidates) failed)
               else Inr (map sc_Name
                 (if selectorMatched then filter (\<lambda>c. \<not> (sc_ServiceLabelSelector c = None \<and> sc_ServiceNamespaceSelector c = None)) kept
                  else kept))))"

section \<open>getMostEligibleLBForService\<close>

text \<open>Whether the name of the load balancer passes the test and it is of the wanted kind; \<open>None\<close> is the panic on a nil name.\<close>

definition lb_matches :: "(string \<Rightarrow> bool) \<Rightarrow> bool \<Rightarrow> 'a LoadBalancer_scheme \<Rightarrow> bool option" where
  "lb_matches test isInternal lb =
     (if \<not> test (trimSuffixIgnoreCase (deref (lb_Name lb) []) InternalLoadBalancerNameSuffix) then Some False
      else case lb_Name lb of None \<Rightarrow> None | Some n \<Rightarrow> Some (isInternalLoadBalancer n = isInternal))"

fun lb_exists :: "bool \<Rightarrow> string \<Rightarrow> 'a LoadBalancer_scheme list \<Rightarrow> bool option" where
  "lb_exists isInternal name [] = Some False"
| "lb_exists isInternal name (lb # lbs) =
     (case lb_matches (\<lambda>n. EqualFold n name) isInternal lb of
        None \<Rightarrow> None
      | Some b \<Rightarrow> if b then Some True else lb_exists isInternal name lbs)"

text \<open>The first eligible name without a load balancer.\<close>

fun first_missing :: "bool \<Rightarrow> 'a LoadBalancer_scheme list \<Rightarrow> string list \<Rightarrow> string option option" where
  "first_missing isInternal lbs [] = Some None"
| "first_missing isInternal lbs (name # names) =
     (case lb_exists isInternal name lbs of
        None \<Rightarrow> None
      | Some b \<Rightarrow> if b then first_missing isInternal lbs names else Some (Some name))"

fun fewest_rules :: "bool \<Rightarrow> string list \<Rightarrow> 'a LoadBalancer_scheme list \<Rightarrow> string \<Rightarrow> int \<Rightarrow> string option" where
  "fewest_rules isInternal eligible [] expected ruleCount = Some expected"
| "fewest_rules isInternal eligible (lb # lbs) expected ruleCount =
     (case lb_matches (\<lambda>n. StringInSlice n eligible) isInternal lb of
        None \<Rightarrow> None
      | Some b \<Rightarrow>
          (case (if b then lb_LoadBalancingRules lb else None) of
             None \<Rightarrow> fewest_rules isInternal eligible lbs expected ruleCount
           | Some rules \<Rightarrow>
               if int (length rules) < ruleCount
               then fewest_rules isInternal eligible lbs (deref (lb_Name lb) []) (int (length rules))
               else fewest_rules isInternal eligible lbs expected ruleCount))"

definition getMostEligibleLBForService ::
  "string \<Rightarrow> string list \<Rightarrow> 'a LoadBalancer_scheme list option \<Rightarrow> bool \<Rightarrow> string option" where
  "getMostEligibleLBForService currentLBName eligibleLBs existingLBs isInternal =
     (if StringInSlice currentLBName eligibleLBs then Some currentLBName
      else case first_missing isInternal (deref existingLBs []) eligibleLBs of
        None \<Rightarrow> None
      | Some (Some name) \<Rightarrow> Some name
      | Some None \<Rightarrow>
          map_option (\<lambda>expected. trimSuffixIgnoreCase expected InternalLoadBalancerNameSuffix)
            (fewest_rules isInternal eligibleLBs (deref existingLBs []) [] 301))"

text \<open>
  \<open>multi\<close> and \<open>single\<close> are \<open>UseMultipleStandardLoadBalancers\<close> and \<open>UseSingleStandardLoadBalancer\<close>; \<open>primary\<close> is the name of
  the primary VM set.
\<close>

definition getAzureLoadBalancerName ::
  "selector_parser \<Rightarrow> (string, (string \<times> string) list) result \<Rightarrow> (string \<times> string) list \<Rightarrow> string \<Rightarrow> string \<Rightarrow> bool \<Rightarrow> bool \<Rightarrow>
   SlbConfig list \<Rightarrow> Service \<Rightarrow> 'a LoadBalancer_scheme list option \<Rightarrow> string \<Rightarrow> string \<Rightarrow> bool \<Rightarrow> (eligible_error, string) result option" where
  "getAzureLoadBalancerName parse nsLabels svcLabels loadBalancerName primary single multi configs service existingLBs clusterName0 vmSetName isInternal =
     (let clusterName = (if loadBalancerName \<noteq> [] then loadBalancerName else clusterName0);
          suffix = (\<lambda>prefix. if isInternal then prefix @ InternalLoadBalancerNameSuffix else prefix)
      in if multi
         then (case getEligibleLoadBalancersForService parse nsLabels svcLabels service configs of
                 Inl e \<Rightarrow> Some (Inl e)
               | Inr eligible \<Rightarrow>
                   map_option (\<lambda>prefix. Inr (suffix prefix))
                     (getMostEligibleLBForService (getServiceCurrentLoadBalancerName service configs) eligible existingLBs
                        (requiresInternalLoadBalancer service)))
         else Some (Inr (suffix (if EqualFold vmSetName primary \<or> single then clusterName else vmSetName))))"

section \<open>Active services\<close>

fun reconcileMultipleStandardLoadBalancerConfigurationStatus :: "bool \<Rightarrow> string \<Rightarrow> string \<Rightarrow> SlbConfig list \<Rightarrow> SlbConfig list" where
  "reconcileMultipleStandardLoadBalancerConfigurationStatus wantLb svcName lbName [] = []"
| "reconcileMultipleStandardLoadBalancerConfigurationStatus wantLb svcName lbName (c # cs) =
     (if EqualFold (trimSuffixIgnoreCase lbName InternalLoadBalancerNameSuffix) (sc_Name c)
      then c\<lparr>sc_ActiveServices := (if wantLb then SafeInsert (sc_ActiveServices c) [svcName]
                                  else snd (set_Delete (sc_ActiveServices c) svcName))\<rparr> # cs
      else c # reconcileMultipleStandardLoadBalancerConfigurationStatus wantLb svcName lbName cs)"

text \<open>The services of the cluster by the lower-case prefix of their rules; later services overwrite earlier ones.\<close>

definition rule_prefixes :: "Service list \<Rightarrow> (string \<times> string) list" where
  "rule_prefixes svcs =
     fold (\<lambda>svc m. if EqualFold (svc_Type svc) ''LoadBalancer'' then put (ToLower (DefaultLoadBalancerName svc)) (getServiceName svc) m else m) svcs []"

definition activate_rule :: "(string \<times> string) list \<Rightarrow> string \<Rightarrow> LoadBalancingRule \<Rightarrow> SlbConfig list \<Rightarrow> SlbConfig list" where
  "activate_rule prefixMap lbName rule configs =
     (case map_of prefixMap (ToLower (hd (Split (deref (lr_Name rule) []) ''-''))) of
        None \<Rightarrow> configs
      | Some svcName \<Rightarrow>
          map (\<lambda>c. if EqualFold (trimSuffixIgnoreCase lbName InternalLoadBalancerNameSuffix) (sc_Name c)
                 then c\<lparr>sc_ActiveServices := SafeInsert (sc_ActiveServices c) [svcName]\<rparr> else c) configs)"

text \<open>
  Returns the error, the flag \<open>multipleStandardLoadBalancerConfigurationsSynced\<close>, the warnings and the state; \<open>None\<close> is a panic
  on a nil list. \<open>svcs\<close> is the answer of the API server for the services.
\<close>

definition reconcileMultipleStandardLoadBalancerConfigurations ::
  "(K8sNode \<Rightarrow> (string, string) result) \<Rightarrow> selector_parser \<Rightarrow> bool \<Rightarrow> (string \<times> string) list \<Rightarrow> bool \<Rightarrow> (string, Service list) result \<Rightarrow>
   pooled_lb list option \<Rightarrow> string \<Rightarrow> pooled_lb list option \<Rightarrow> K8sNode list \<Rightarrow> bool \<Rightarrow> slb_state \<Rightarrow>
   (string option \<times> bool \<times> string list \<times> slb_state) option" where
  "reconcileMultipleStandardLoadBalancerConfigurations vmSetName parse nodeIP owners multi svcs lbs clusterName existingLBs nodes synced s =
     (if \<not> multi \<or> synced then Some (None, synced, [], s)
      else if \<not> (\<exists>c \<in> set (sl_configs s). EqualFold (sc_Name c) clusterName)
      then Some (Some (''multiple standard load balancers are enabled but no configuration named '' @ clusterName @ '' is found''), synced, [], s)
      else case svcs of
        Inl e \<Rightarrow> Some (Some (''failed to list all load balancer services: '' @ e), synced, [], s)
      | Inr items \<Rightarrow>
          (case existingLBs of
             None \<Rightarrow> None
           | Some xs \<Rightarrow>
               (let configs = fold (\<lambda>lb. fold (activate_rule (rule_prefixes items) (deref (lb_Name lb) [])) (deref (lb_LoadBalancingRules lb) []))
                                xs (sl_configs s)
                in map_option (\<lambda>(err, ws, s'). (err, err = None, ws, s'))
                     (reconcileMultipleStandardLoadBalancerBackendNodes vmSetName parse nodeIP owners clusterName [] lbs nodes True
                        (s\<lparr>sl_configs := configs\<rparr>)))))"

section \<open>Lists of load balancers\<close>

fun addOrUpdateLBInList :: "'a LoadBalancer_scheme list \<Rightarrow> 'a LoadBalancer_scheme \<Rightarrow> 'a LoadBalancer_scheme list" where
  "addOrUpdateLBInList [] target = [target]"
| "addOrUpdateLBInList (lb # lbs) target =
     (if EqualFold (deref (lb_Name lb) []) (deref (lb_Name target) []) then target # lbs else lb # addOrUpdateLBInList lbs target)"

text \<open>The loop removes the last load balancer with the name.\<close>

fun removeLBFromList :: "'a LoadBalancer_scheme list \<Rightarrow> string \<Rightarrow> 'a LoadBalancer_scheme list" where
  "removeLBFromList [] lbName = []"
| "removeLBFromList (lb # lbs) lbName =
     (if \<exists>x \<in> set lbs. EqualFold (deref (lb_Name x) []) lbName then lb # removeLBFromList lbs lbName
      else if EqualFold (deref (lb_Name lb) []) lbName then lbs
      else lb # lbs)"

end
