(* ===== verification/SlbServiceProperties.thy ===== *)
theory SlbServiceProperties
  imports SlbServices
begin

text \<open>Which load balancers a service may use and which one it gets.\<close>

section \<open>The eligible load balancers\<close>

definition allowed :: "Service \<Rightarrow> SlbConfig \<Rightarrow> bool" where
  "allowed service c \<longleftrightarrow> deref (sc_AllowServicePlacement c) True \<or> isLoadBalancerInUseByService service c"

definition label_ok :: "selector_parser \<Rightarrow> (string \<times> string) list \<Rightarrow> SlbConfig \<Rightarrow> bool" where
  "label_ok parse svcLabels c \<longleftrightarrow>
     (case sc_ServiceLabelSelector c of None \<Rightarrow> True | Some sel \<Rightarrow> (case parse sel of Inl _ \<Rightarrow> False | Inr m \<Rightarrow> m svcLabels))"

definition namespace_ok :: "selector_parser \<Rightarrow> (string, (string \<times> string) list) result \<Rightarrow> SlbConfig \<Rightarrow> bool" where
  "namespace_ok parse nsLabels c \<longleftrightarrow>
     (case sc_ServiceNamespaceSelector c of
        None \<Rightarrow> True
      | Some sel \<Rightarrow> (case parse sel of Inl _ \<Rightarrow> False | Inr m \<Rightarrow> (case nsLabels of Inl _ \<Rightarrow> False | Inr ls \<Rightarrow> m ls)))"

definition selective :: "SlbConfig \<Rightarrow> bool" where
  "selective c \<longleftrightarrow> sc_ServiceLabelSelector c \<noteq> None \<or> sc_ServiceNamespaceSelector c \<noteq> None"

text \<open>A selector of the load balancer matched before the load balancer was kept or dropped.\<close>

definition some_selector_matched ::
  "selector_parser \<Rightarrow> (string, (string \<times> string) list) result \<Rightarrow> (string \<times> string) list \<Rightarrow> Service \<Rightarrow> SlbConfig \<Rightarrow> bool" where
  "some_selector_matched parse nsLabels svcLabels service c \<longleftrightarrow>
     allowed service c \<and> label_ok parse svcLabels c \<and>
     (sc_ServiceLabelSelector c \<noteq> None \<or> sc_ServiceNamespaceSelector c \<noteq> None \<and> namespace_ok parse nsLabels c)"

lemma judge_lb_kept:
  assumes "judge_lb parse nsLabels svcLabels service c = Inr (v, m)"
  shows "v = None \<longleftrightarrow> allowed service c \<and> label_ok parse svcLabels c \<and> namespace_ok parse nsLabels c"
    "m \<longleftrightarrow> some_selector_matched parse nsLabels svcLabels service c"
  using assms
  by (auto simp: judge_lb_def judge_namespace_def allowed_def label_ok_def namespace_ok_def some_selector_matched_def
      split: if_splits option.splits sum.splits)

lemma filter_lbs_spec:
  "filter_lbs judge cs = Inr (kept, failed, matched) \<Longrightarrow>
     kept = filter (\<lambda>c. \<exists>m. judge c = Inr (None, m)) cs \<and> (matched \<longleftrightarrow> (\<exists>c \<in> set cs. \<exists>v. judge c = Inr (v, True))) \<and>
     (\<forall>c \<in> set cs. \<exists>v m. judge c = Inr (v, m))"
proof (induction cs arbitrary: kept failed matched)
  case (Cons c cs)
  from Cons.prems obtain k f m where t: "filter_lbs judge cs = Inr (k, f, m)" by (auto split: sum.splits)
  note IH = Cons.IH [OF t]
  from Cons.prems t obtain v b where j: "judge c = Inr (v, b)" by (auto split: sum.splits)
  show ?case
  proof (cases v)
    case None
    then show ?thesis using Cons.prems t j IH by auto
  next
    case (Some x)
    then show ?thesis using Cons.prems t j IH by auto
  qed
qed simp

text \<open>C37. The load balancers a service is offered. When the call succeeds, the result are, in the order of the configuration, the
  names of the candidates (those the annotation names, or all) that allow placement or already serve the service and whose label
  and namespace selectors, if any, match; and if a selector of any candidate matched, only those that have a selector.
\<close>

theorem getEligibleLoadBalancersForService_spec:
  assumes "getEligibleLoadBalancersForService parse nsLabels svcLabels service configs = Inr names"
  shows "\<exists>candidates. selected_by_annotation service configs = Inr candidates \<and>
    names = map sc_Name (filter (\<lambda>c. allowed service c \<and> label_ok parse svcLabels c \<and> namespace_ok parse nsLabels c \<and>
      ((\<exists>d \<in> set candidates. some_selector_matched parse nsLabels svcLabels service d) \<longrightarrow> selective c)) candidates)"
proof -
  let ?judge = "judge_lb parse nsLabels svcLabels service"
  from assms obtain candidates kept failed matched where c: "selected_by_annotation service configs = Inr candidates"
    and f: "filter_lbs ?judge candidates = Inr (kept, failed, matched)"
    and n: "names = map sc_Name (if matched then filter (\<lambda>c. \<not> (sc_ServiceLabelSelector c = None \<and> sc_ServiceNamespaceSelector c = None)) kept else kept)"
    by (auto simp: getEligibleLoadBalancersForService_def split: sum.splits if_splits)
  note F = filter_lbs_spec [OF f]
  have j: "(\<exists>m. ?judge c = Inr (None, m)) \<longleftrightarrow> allowed service c \<and> label_ok parse svcLabels c \<and> namespace_ok parse nsLabels c"
    "(\<exists>v. ?judge c = Inr (v, True)) \<longleftrightarrow> some_selector_matched parse nsLabels svcLabels service c" if mem: "c \<in> set candidates" for c
  proof -
    obtain v m where v: "?judge c = Inr (v, m)" using F mem by blast
    show "(\<exists>m. ?judge c = Inr (None, m)) \<longleftrightarrow> allowed service c \<and> label_ok parse svcLabels c \<and> namespace_ok parse nsLabels c"
      "(\<exists>v. ?judge c = Inr (v, True)) \<longleftrightarrow> some_selector_matched parse nsLabels svcLabels service c"
      using judge_lb_kept [OF v] v by auto
  qed
  have m: "matched \<longleftrightarrow> (\<exists>d \<in> set candidates. some_selector_matched parse nsLabels svcLabels service d)" using F j(2) by blast
  have k: "kept = filter (\<lambda>c. allowed service c \<and> label_ok parse svcLabels c \<and> namespace_ok parse nsLabels c) candidates"
    using F filter_cong [OF refl j(1), of candidates] by simp
  have "names = map sc_Name (filter (\<lambda>c. allowed service c \<and> label_ok parse svcLabels c \<and> namespace_ok parse nsLabels c \<and> (matched \<longrightarrow> selective c)) candidates)"
    unfolding n k by (cases matched) (simp_all add: selective_def filter_filter conj_assoc conj_comms)
  then show ?thesis unfolding m using c by blast
qed

section \<open>The chosen load balancer\<close>

definition eligible_lb :: "string list \<Rightarrow> bool \<Rightarrow> 'a LoadBalancer_scheme \<Rightarrow> bool" where
  "eligible_lb eligible isInternal lb \<longleftrightarrow>
     trimSuffixIgnoreCase (deref (lb_Name lb) []) InternalLoadBalancerNameSuffix \<in> set eligible \<and>
     isInternalLoadBalancer (deref (lb_Name lb) []) = isInternal"

definition rule_count :: "'a LoadBalancer_scheme \<Rightarrow> int" where
  "rule_count lb = int (length (deref (lb_LoadBalancingRules lb) []))"

lemma lb_matches_named:
  "lb_Name lb \<noteq> None \<Longrightarrow> lb_matches test isInternal lb =
     Some (test (trimSuffixIgnoreCase (deref (lb_Name lb) []) InternalLoadBalancerNameSuffix) \<and> isInternalLoadBalancer (deref (lb_Name lb) []) = isInternal)"
  by (auto simp: lb_matches_def)

lemma fewest_rules_min:
  assumes "\<forall>lb \<in> set lbs. lb_Name lb \<noteq> None" "\<forall>lb \<in> set lbs. eligible_lb eligible isInternal lb \<longrightarrow> lb_LoadBalancingRules lb \<noteq> None"
  shows "\<exists>r. fewest_rules isInternal eligible lbs expected count = Some r \<and>
    (r = expected \<and> (\<forall>lb \<in> set lbs. eligible_lb eligible isInternal lb \<longrightarrow> count \<le> rule_count lb) \<or>
     (\<exists>lb \<in> set lbs. eligible_lb eligible isInternal lb \<and> r = deref (lb_Name lb) [] \<and> rule_count lb < count \<and>
        (\<forall>x \<in> set lbs. eligible_lb eligible isInternal x \<longrightarrow> rule_count lb \<le> rule_count x)))"
  using assms
proof (induction lbs arbitrary: expected count)
  case (Cons lb lbs)
  then have IH: "\<exists>r. fewest_rules isInternal eligible lbs e k = Some r \<and>
      (r = e \<and> (\<forall>x \<in> set lbs. eligible_lb eligible isInternal x \<longrightarrow> k \<le> rule_count x) \<or>
       (\<exists>y \<in> set lbs. eligible_lb eligible isInternal y \<and> r = deref (lb_Name y) [] \<and> rule_count y < k \<and>
          (\<forall>x \<in> set lbs. eligible_lb eligible isInternal x \<longrightarrow> rule_count y \<le> rule_count x)))" for e k by simp
  have m: "lb_matches (\<lambda>n. StringInSlice n eligible) isInternal lb = Some (eligible_lb eligible isInternal lb)"
    using Cons.prems(1) by (simp add: lb_matches_named eligible_lb_def StringInSlice_def)
  show ?case
  proof (cases "eligible_lb eligible isInternal lb \<and> rule_count lb < count")
    case True
    then have "fewest_rules isInternal eligible (lb # lbs) expected count = fewest_rules isInternal eligible lbs (deref (lb_Name lb) []) (rule_count lb)"
      using m Cons.prems(2) by (auto simp: rule_count_def)
    then show ?thesis using IH [of "deref (lb_Name lb) []" "rule_count lb"] True by fastforce
  next
    case False
    then have "fewest_rules isInternal eligible (lb # lbs) expected count = fewest_rules isInternal eligible lbs expected count"
      using m Cons.prems(2) by (auto simp: rule_count_def split: option.split)
    then show ?thesis using IH [of expected count] False by fastforce
  qed
qed simp

lemma trim_lower: "ToLower (trimSuffixIgnoreCase x y) = trimSuffixIgnoreCase x y"
proof -
  have "ToLower (take n s) = take n (ToLower s)" for n s by (simp add: ToLower_def take_map)
  then show ?thesis by (simp add: trimSuffixIgnoreCase_def Let_def)
qed

lemma lb_exists_named:
  assumes "\<forall>lb \<in> set lbs. lb_Name lb \<noteq> None" "ToLower name = name"
  shows "lb_exists isInternal name lbs = Some (\<exists>lb \<in> set lbs. eligible_lb [name] isInternal lb)"
  using assms(1)
proof (induction lbs)
  case (Cons lb lbs)
  have "EqualFold (trimSuffixIgnoreCase x y) name \<longleftrightarrow> trimSuffixIgnoreCase x y = name" for x y
    using assms(2) trim_lower by (simp add: EqualFold_def)
  then show ?case using Cons by (simp add: lb_matches_named eligible_lb_def) blast
qed simp

lemma first_missing_named:
  assumes "\<forall>lb \<in> set lbs. lb_Name lb \<noteq> None" "\<forall>e \<in> set es. ToLower e = e"
  shows "(\<exists>e \<in> set es. first_missing isInternal lbs es = Some (Some e)) \<or>
    first_missing isInternal lbs es = Some None \<and> (\<forall>e \<in> set es. \<exists>lb \<in> set lbs. eligible_lb [e] isInternal lb)"
  using assms(2)
proof (induction es)
  case (Cons e es)
  then show ?case using lb_exists_named [OF assms(1), of e isInternal] by auto
qed simp

lemma missing_lb:
  assumes "\<forall>lb \<in> set lbs. lb_Name lb \<noteq> None" "\<forall>e \<in> set es. ToLower e = e" "first_missing isInternal lbs es = Some (Some e)"
  shows "\<not> (\<exists>lb \<in> set lbs. eligible_lb [e] isInternal lb)"
  using assms(2,3)
proof (induction es)
  case (Cons a es)
  then show ?case using lb_exists_named [OF assms(1), of a isInternal] by (auto split: if_splits)
qed simp


text \<open>Without the lower-case names the last case finds nothing: the names are compared exactly with a lower-case one, and the
  service gets the empty name.\<close>

lemma upper_case_config_unplaced:
  "getMostEligibleLBForService [] [''LB''] (Some [(\<lparr>lb_Name = Some ''LB'', lb_Probes = None, lb_LoadBalancingRules = Some [],
     lb_InboundNatRules = None, lb_InboundNatPools = None, lb_Tags = None\<rparr> :: LoadBalancer)]) False = Some []"
  by code_simp

section \<open>A service without a load balancer\<close>

definition demo_selector :: "string \<Rightarrow> LabelSelector" where
  "demo_selector k = \<lparr>ls_MatchLabels = [(k, ''y'')], ls_MatchExpressions = []\<rparr>"

definition demo_parse :: selector_parser where
  "demo_parse sel = Inr (\<lambda>ls. \<forall>p \<in> set (ls_MatchLabels sel). map_of ls (fst p) = Some (snd p))"

definition demo_config :: "string \<Rightarrow> LabelSelector option \<Rightarrow> LabelSelector option \<Rightarrow> SlbConfig" where
  "demo_config name l n =
     \<lparr>sc_Name = name, sc_AllowServicePlacement = None, sc_PrimaryVMSet = name, sc_ServiceLabelSelector = l,
      sc_ServiceNamespaceSelector = n, sc_NodeSelector = None, sc_ActiveServices = None, sc_ActiveNodes = None\<rparr>"

definition demo_service :: Service where
  "demo_service = \<lparr>svc_Namespace = ''n'', svc_Name = ''s'', svc_UID = ''u'', svc_Annotations = [], svc_Ports = [], svc_LoadBalancerSourceRanges = [],
     svc_ExternalTrafficPolicy = ''Cluster'', svc_HealthCheckNodePort = 0, svc_IPFamilies = [], svc_LoadBalancerIP = [], svc_Ingress = [],
     svc_Type = ''LoadBalancer'', svc_SessionAffinity = []\<rparr>"

text \<open>A service can be left without a load balancer and without an error. The configuration has a load balancer without selectors,
  where the service may be placed, and one whose label selector matches the service while its namespace selector does not. The
  second is dropped, its matching label selector then excludes the first, the list of eligible load balancers is empty, and the
  name of the load balancer of the service is the empty string.
\<close>

theorem eligible_empty_without_error:
  "let configs = [demo_config ''a'' None None, demo_config ''b'' (Some (demo_selector ''l'')) (Some (demo_selector ''m''))];
       labels = [(''l'', ''y'')]; nsLabels = Inr []
   in allowed demo_service (configs ! 0) \<and> label_ok demo_parse labels (configs ! 0) \<and> namespace_ok demo_parse nsLabels (configs ! 0) \<and>
      getEligibleLoadBalancersForService demo_parse nsLabels labels demo_service configs = Inr [] \<and>
      getAzureLoadBalancerName demo_parse nsLabels labels [] ''v'' False True configs demo_service (None :: LoadBalancer list option) ''c'' ''v'' False = Some (Inr [])"
  by code_simp

theorem getEligibleLoadBalancersForService_spec_witness:
  "let configs = [demo_config ''a'' None None, demo_config ''b'' (Some (demo_selector ''l'')) None]
   in getEligibleLoadBalancersForService demo_parse (Inl []) [(''l'', ''y'')] demo_service configs = Inr [''b''] \<and>
      selected_by_annotation demo_service configs = Inr configs \<and>
      [''b''] = map sc_Name (filter (\<lambda>c. allowed demo_service c \<and> label_ok demo_parse [(''l'', ''y'')] c \<and> namespace_ok demo_parse (Inl []) c \<and> selective c) configs)"
proof -
  define configs where "configs = [demo_config ''a'' None None, demo_config ''b'' (Some (demo_selector ''l'')) None]"
  have g: "getEligibleLoadBalancersForService demo_parse (Inl []) [(''l'', ''y'')] demo_service configs = Inr [''b'']"
    and a: "selected_by_annotation demo_service configs = Inr configs"
    and m: "\<exists>d \<in> set configs. some_selector_matched demo_parse (Inl []) [(''l'', ''y'')] demo_service d"
    unfolding configs_def by code_simp+
  from getEligibleLoadBalancersForService_spec [OF g] a m
  have "[''b''] = map sc_Name (filter (\<lambda>c. allowed demo_service c \<and> label_ok demo_parse [(''l'', ''y'')] c \<and> namespace_ok demo_parse (Inl []) c \<and> selective c) configs)"
    by simp
  then show ?thesis using g a unfolding configs_def [symmetric] Let_def by blast
qed


end
