(* ===== verification/LocalServices.thy ===== *)
theory LocalServices
  imports MultiSlb
begin

text \<open>
  Backend pools of services with external traffic policy Local (\<open>pkg/provider/azure_local_services.go\<close>): the queue of
  operations on backend pools and its processing, the handlers of the EndpointSlice informer, and the calls that compare the
  addresses of a pool with the endpoints. The requests for backend pools act on a world; the order in which Go visits a map or
  a set is an argument (\<open>visit\<close>, \<open>enum\<close>), and so is \<open>utilnet.IsIPv6String\<close>.
\<close>

datatype update_kind = UpdateAdd | UpdateRemove | UpdateOther string

record update_op =
  uo_serviceName :: string
  uo_loadBalancerName :: string
  uo_backendPoolName :: string
  uo_kind :: update_kind
  uo_nodeIPs :: "string list"

record serviceInfo =
  si_ipFamily :: string
  si_lbName :: string

text \<open>An endpoint is the name of its node.\<close>

record EndpointSlice =
  es_Namespace :: string
  es_Name :: string
  es_Labels :: "(string \<times> string) list"
  es_Endpoints :: "string option list"

definition ServiceNameLabel :: string where
  "ServiceNameLabel = ''kubernetes.io/service-name''"

definition IPVersionIPv6StringLower :: string where
  "IPVersionIPv6StringLower = ''ipv6''"

definition getServiceNameOfEndpointSlice :: "EndpointSlice \<Rightarrow> string" where
  "getServiceNameOfEndpointSlice es = (case map_of (es_Labels es) ServiceNameLabel of None \<Rightarrow> [] | Some n \<Rightarrow> n)"

definition UnsortedList :: "(string set \<Rightarrow> string list) \<Rightarrow> IgnoreCaseSet \<Rightarrow> string list" where
  "UnsortedList enum s = (case s of None \<Rightarrow> [] | Some x \<Rightarrow> enum x)"

section \<open>The queue\<close>

definition getAddIPsToBackendPoolOperation :: "string \<Rightarrow> string \<Rightarrow> string \<Rightarrow> string list \<Rightarrow> update_op" where
  "getAddIPsToBackendPoolOperation serviceName loadBalancerName backendPoolName nodeIPs =
     \<lparr>uo_serviceName = serviceName, uo_loadBalancerName = loadBalancerName, uo_backendPoolName = backendPoolName, uo_kind = UpdateAdd, uo_nodeIPs = nodeIPs\<rparr>"

definition getRemoveIPsFromBackendPoolOperation :: "string \<Rightarrow> string \<Rightarrow> string \<Rightarrow> string list \<Rightarrow> update_op" where
  "getRemoveIPsFromBackendPoolOperation serviceName loadBalancerName backendPoolName nodeIPs =
     \<lparr>uo_serviceName = serviceName, uo_loadBalancerName = loadBalancerName, uo_backendPoolName = backendPoolName, uo_kind = UpdateRemove, uo_nodeIPs = nodeIPs\<rparr>"

definition updater_addOperation :: "update_op \<Rightarrow> update_op list \<Rightarrow> update_op list" where
  "updater_addOperation op operations = operations @ [op]"

definition updater_removeOperation :: "string \<Rightarrow> update_op list \<Rightarrow> update_op list" where
  "updater_removeOperation serviceName operations = filter (\<lambda>op. \<not> EqualFold (uo_serviceName op) serviceName) operations"

definition getLocalServiceInfo :: "(string \<times> serviceInfo) list \<Rightarrow> string \<Rightarrow> serviceInfo option" where
  "getLocalServiceInfo infos serviceName = map_of infos serviceName"

section \<open>process\<close>

record retry_error =
  rerr_HTTPStatusCode :: int
  rerr_Retriable :: bool

definition IsNotFound :: "retry_error option \<Rightarrow> bool" where
  "IsNotFound err = (case err of None \<Rightarrow> False | Some e \<Rightarrow> rerr_HTTPStatusCode e = 404)"

record 'w pool_client =
  plc_GetLBBackendPool :: "'w \<Rightarrow> string \<Rightarrow> string \<Rightarrow> 'w \<times> (retry_error, BackendAddressPool) result"
  plc_CreateOrUpdateBackendPools :: "'w \<Rightarrow> string \<Rightarrow> string \<Rightarrow> BackendAddressPool \<Rightarrow> 'w \<times> retry_error option"

text \<open>Whether the operation belongs to a local service that is on the load balancer of the operation.\<close>

definition accepted_op :: "(string \<times> serviceInfo) list \<Rightarrow> update_op \<Rightarrow> bool" where
  "accepted_op infos op =
     (case getLocalServiceInfo infos (ToLower (uo_serviceName op)) of
        None \<Rightarrow> False
      | Some si \<Rightarrow> EqualFold (si_lbName si) (uo_loadBalancerName op))"

definition op_key :: "update_op \<Rightarrow> string" where
  "op_key op = uo_loadBalancerName op @ '':'' @ uo_backendPoolName op"

text \<open>One operation on a pool; \<open>None\<close> is the panic for an unknown kind.\<close>

definition apply_op :: "string \<Rightarrow> (string \<times> string) list \<Rightarrow> update_op \<Rightarrow> BackendAddressPool \<Rightarrow> (bool \<times> BackendAddressPool) option" where
  "apply_op vnetID owners op bp =
     (case uo_kind op of
        UpdateRemove \<Rightarrow> Some (removeNodeIPAddressesFromBackendPool bp (uo_nodeIPs op) False True True)
      | UpdateAdd \<Rightarrow> Some (addNodeIPAddressesToBackendPool vnetID owners bp (uo_nodeIPs op))
      | UpdateOther _ \<Rightarrow> None)"

fun apply_ops :: "string \<Rightarrow> (string \<times> string) list \<Rightarrow> update_op list \<Rightarrow> BackendAddressPool \<Rightarrow> (bool \<times> BackendAddressPool) option" where
  "apply_ops vnetID owners [] bp = Some (False, bp)"
| "apply_ops vnetID owners (op # ops) bp =
     (case apply_op vnetID owners op bp of
        None \<Rightarrow> None
      | Some (c, bp') \<Rightarrow> map_option (\<lambda>(c', bp''). (c \<or> c', bp'')) (apply_ops vnetID owners ops bp'))"

text \<open>The result is sent to the service of the first operation only.\<close>

definition notify :: "string \<Rightarrow> bool \<Rightarrow> update_op list \<Rightarrow> (string \<times> string \<times> bool) list" where
  "notify operationName success ops = (case ops of [] \<Rightarrow> [] | op # _ \<Rightarrow> [(uo_serviceName op, operationName, success)])"

text \<open>Returns the operations to queue again and the notifications.\<close>

definition processError :: "retry_error \<Rightarrow> string \<Rightarrow> update_op list \<Rightarrow> update_op list \<times> (string \<times> string \<times> bool) list" where
  "processError rerr operationName ops =
     (if IsNotFound (Some rerr) then ([], [])
      else if rerr_Retriable rerr then (ops, [])
      else ([], notify operationName False ops))"

definition process_group ::
  "'w pool_client \<Rightarrow> string \<Rightarrow> (string \<times> string) list \<Rightarrow> string \<Rightarrow> update_op list \<Rightarrow> 'w \<Rightarrow>
   ('w \<times> update_op list \<times> (string \<times> string \<times> bool) list) option" where
  "process_group client vnetID owners key ops w =
     (let parts = Split key '':''; lbName = parts ! 0; poolName = parts ! 1; operationName = lbName @ ''/'' @ poolName;
          (w1, res) = plc_GetLBBackendPool client w lbName poolName
      in case res of
           Inl rerr \<Rightarrow> Some (w1, processError rerr operationName ops)
         | Inr bp \<Rightarrow>
             (case apply_ops vnetID owners ops bp of
                None \<Rightarrow> None
              | Some (changed, bp') \<Rightarrow>
                  if \<not> changed then Some (w1, [], notify operationName True ops)
                  else
                    (let (w2, err) = plc_CreateOrUpdateBackendPools client w1 lbName poolName bp'
                     in case err of
                          Some rerr \<Rightarrow> Some (w2, processError rerr operationName ops)
                        | None \<Rightarrow> Some (w2, [], notify operationName True ops))))"

fun process_groups ::
  "'w pool_client \<Rightarrow> string \<Rightarrow> (string \<times> string) list \<Rightarrow> (string \<Rightarrow> update_op list) \<Rightarrow> string list \<Rightarrow> 'w \<Rightarrow>
   ('w \<times> update_op list \<times> (string \<times> string \<times> bool) list) option" where
  "process_groups client vnetID owners groupOf [] w = Some (w, [], [])"
| "process_groups client vnetID owners groupOf (key # keys) w =
     (case process_group client vnetID owners key (groupOf key) w of
        None \<Rightarrow> None
      | Some (w', again, notes) \<Rightarrow>
          map_option (\<lambda>(w'', again', notes'). (w'', again @ again', notes @ notes'))
            (process_groups client vnetID owners groupOf keys w'))"

text \<open>Returns the world, the new queue and the notifications.\<close>

definition process ::
  "(string list \<Rightarrow> string list) \<Rightarrow> 'w pool_client \<Rightarrow> string \<Rightarrow> (string \<times> string) list \<Rightarrow> (string \<times> serviceInfo) list \<Rightarrow> update_op list \<Rightarrow> 'w \<Rightarrow>
   ('w \<times> update_op list \<times> (string \<times> string \<times> bool) list) option" where
  "process visit client vnetID owners infos operations w =
     (if operations = [] then Some (w, [], [])
      else
        (let ops = filter (accepted_op infos) operations
         in process_groups client vnetID owners (\<lambda>key. filter (\<lambda>op. op_key op = key) ops) (visit (remdups (map op_key ops))) w))"

section \<open>Names\<close>

definition getLocalServiceBackendPoolName :: "string \<Rightarrow> bool \<Rightarrow> string" where
  "getLocalServiceBackendPoolName serviceName0 ipv6 =
     (let serviceName = ToLower (replace_char (CHR ''/'') (CHR ''-'') serviceName0)
      in if ipv6 then serviceName @ ''-'' @ IPVersionIPv6StringLower else serviceName)"

text \<open>\<open>multi\<close> is \<open>UseMultipleStandardLoadBalancers\<close>.\<close>

definition getBackendPoolNameForService :: "bool \<Rightarrow> Service \<Rightarrow> string \<Rightarrow> bool \<Rightarrow> string" where
  "getBackendPoolNameForService multi service clusterName ipv6 =
     (if \<not> isLocalService service \<or> \<not> multi then getBackendPoolName clusterName ipv6
      else getLocalServiceBackendPoolName (getServiceName service) ipv6)"

definition getBackendPoolNamesForService :: "bool \<Rightarrow> Service \<Rightarrow> string \<Rightarrow> bool \<Rightarrow> string" where
  "getBackendPoolNamesForService multi service clusterName =
     (if \<not> isLocalService service \<or> \<not> multi then getBackendPoolNames clusterName
      else getLocalServiceBackendPoolName (getServiceName service))"

definition getLocalServiceBackendPoolID :: "lb_config \<Rightarrow> string \<Rightarrow> string \<Rightarrow> bool \<Rightarrow> string" where
  "getLocalServiceBackendPoolID az serviceName lbName ipv6 = getBackendPoolID az lbName (getLocalServiceBackendPoolName serviceName ipv6)"

definition getBackendPoolIDsForService :: "lb_config \<Rightarrow> bool \<Rightarrow> Service \<Rightarrow> string \<Rightarrow> string \<Rightarrow> bool \<Rightarrow> string" where
  "getBackendPoolIDsForService az multi service clusterName lbName =
     (if \<not> isLocalService service \<or> \<not> multi then getBackendPoolIDs az clusterName lbName
      else getLocalServiceBackendPoolID az (getServiceName service) lbName)"

definition localServiceOwnsBackendPool :: "string \<Rightarrow> string \<Rightarrow> bool" where
  "localServiceOwnsBackendPool serviceName bpName =
     (if HasSuffix (ToLower bpName) IPVersionIPv6StringLower then EqualFold (getLocalServiceBackendPoolName serviceName True) bpName
      else EqualFold (getLocalServiceBackendPoolName serviceName False) bpName)"

section \<open>Comparing addresses\<close>

definition compareNodeIPs :: "string list \<Rightarrow> string list \<Rightarrow> string list" where
  "compareNodeIPs previousIPs currentIPs = sort (remdups (filter (\<lambda>ip. ip \<notin> set currentIPs) previousIPs))"

text \<open>The pools in the order Go visits the map; the first pool without a change ends the call.\<close>

fun reconcileIPsInLocalServiceBackendPoolsAsync ::
  "string \<Rightarrow> string \<Rightarrow> (string \<times> string list) list \<Rightarrow> string list \<Rightarrow> update_op list \<Rightarrow> update_op list" where
  "reconcileIPsInLocalServiceBackendPoolsAsync lbName serviceName [] expectedIPs operations = operations"
| "reconcileIPsInLocalServiceBackendPoolsAsync lbName serviceName ((bpName, currentIPs) # pools) expectedIPs operations =
     (let ipsToBeDeleted = compareNodeIPs currentIPs expectedIPs
      in if length ipsToBeDeleted = 0 \<and> length currentIPs = length expectedIPs then operations
         else
           (let operations1 = (if 0 < length ipsToBeDeleted
                then updater_addOperation (getRemoveIPsFromBackendPoolOperation serviceName lbName bpName ipsToBeDeleted) operations else operations);
                operations2 = (if 0 < length expectedIPs
                then updater_addOperation (getAddIPsToBackendPoolOperation serviceName lbName bpName expectedIPs) operations1 else operations1)
            in reconcileIPsInLocalServiceBackendPoolsAsync lbName serviceName pools expectedIPs operations2))"

definition applyIPChangesAmongLocalServiceBackendPoolsByIPFamily ::
  "(string \<Rightarrow> bool) \<Rightarrow> string \<Rightarrow> string \<Rightarrow> (string \<times> string list) list \<Rightarrow> string list \<Rightarrow> update_op list \<Rightarrow> update_op list" where
  "applyIPChangesAmongLocalServiceBackendPoolsByIPFamily isIPv6String lbName serviceName pools expectedIPs operations =
     (let v6 = filter (\<lambda>(bpName, ips). managedResourceHasIPv6Suffix bpName) pools;
          v4 = filter (\<lambda>(bpName, ips). \<not> managedResourceHasIPv6Suffix bpName) pools
      in reconcileIPsInLocalServiceBackendPoolsAsync lbName serviceName v4 (filter (\<lambda>ip. \<not> isIPv6String ip) expectedIPs)
           (reconcileIPsInLocalServiceBackendPoolsAsync lbName serviceName v6 (filter isIPv6String expectedIPs) operations))"

section \<open>Endpoints\<close>

type_synonym slice_cache = "(string \<times> EndpointSlice) list"

definition slice_key :: "EndpointSlice \<Rightarrow> string" where
  "slice_key es = ToLower (es_Namespace es @ ''/'' @ es_Name es)"

text \<open>\<open>None\<close> is nil: there is no EndpointSlice for the service.\<close>

definition getLocalServiceEndpointsNodeNames :: "slice_cache \<Rightarrow> Service \<Rightarrow> IgnoreCaseSet" where
  "getLocalServiceEndpointsNodeNames slices service =
     (let eps = filter (\<lambda>es. EqualFold (getServiceNameOfEndpointSlice es) (svc_Name service) \<and> EqualFold (es_Namespace es) (svc_Namespace service)) (map snd slices)
      in if length eps = 0 then None
         else NewString (concat (map (\<lambda>es. map (\<lambda>n. deref n []) (es_Endpoints es)) eps)))"

definition node_ips :: "(string set \<Rightarrow> string list) \<Rightarrow> (string \<times> IgnoreCaseSet) list \<Rightarrow> string list \<Rightarrow> string list" where
  "node_ips enum nodePrivateIPs nodeNames = concat (map (\<lambda>n. UnsortedList enum (set_at nodePrivateIPs (ToLower n))) nodeNames)"

text \<open>The addresses of the pools the service owns; \<open>None\<close> is the panic on a nil list or address.\<close>

fun owned_pools :: "string \<Rightarrow> BackendAddressPool list \<Rightarrow> (string \<times> string list) list option" where
  "owned_pools serviceName [] = Some []"
| "owned_pools serviceName (bp # bps) =
     (let bpName = deref (bp_Name bp) []
      in if \<not> localServiceOwnsBackendPool serviceName bpName then owned_pools serviceName bps
         else case bp_Properties bp of
           None \<Rightarrow> None
         | Some p \<Rightarrow>
             (case bpp_LoadBalancerBackendAddresses p of
                None \<Rightarrow> None
              | Some as \<Rightarrow>
                  if \<exists>a \<in> set as. (case ba_Properties a of None \<Rightarrow> True | Some ap \<Rightarrow> ap_IPAddress ap = None) then None
                  else map_option (\<lambda>rest. if map_of rest bpName \<noteq> None then rest else (bpName, map (\<lambda>a. deref (ba_IP a) []) as) # rest)
                    (owned_pools serviceName bps)))"

definition checkAndApplyLocalServiceBackendPoolUpdates ::
  "(string \<Rightarrow> bool) \<Rightarrow> (string set \<Rightarrow> string list) \<Rightarrow> (string \<times> IgnoreCaseSet) list \<Rightarrow> slice_cache \<Rightarrow> pooled_lb \<Rightarrow> Service \<Rightarrow> update_op list \<Rightarrow>
   update_op list option" where
  "checkAndApplyLocalServiceBackendPoolUpdates isIPv6String enum nodePrivateIPs slices lb service operations =
     (let serviceName = getServiceName service; endpointsNodeNames = getLocalServiceEndpointsNodeNames slices service
      in if endpointsNodeNames = None then Some operations
         else
           (let expectedIPs = node_ips enum nodePrivateIPs (UnsortedList enum endpointsNodeNames)
            in case lb_BackendAddressPools lb of
                 None \<Rightarrow> None
               | Some bps \<Rightarrow>
                   (case owned_pools serviceName bps of
                      None \<Rightarrow> None
                    | Some pools \<Rightarrow>
                        map_option (\<lambda>lbName. applyIPChangesAmongLocalServiceBackendPoolsByIPFamily isIPv6String lbName serviceName pools expectedIPs operations)
                          (lb_Name lb))))"

section \<open>The handlers of the EndpointSlice informer\<close>

datatype slice_event =
    SliceAdd EndpointSlice
  | SliceUpdate EndpointSlice EndpointSlice
  | SliceDelete "EndpointSlice option"

definition slice_pools :: "string \<Rightarrow> string \<Rightarrow> string list" where
  "slice_pools key ipFamily =
     (if ToLower ipFamily = ToLower ''IPv4'' then [getLocalServiceBackendPoolName key False]
      else if ToLower ipFamily = ToLower ''IPv6'' then [getLocalServiceBackendPoolName key True]
      else [getLocalServiceBackendPoolName key False, getLocalServiceBackendPoolName key True])"

definition slice_nodes :: "EndpointSlice \<Rightarrow> string list" where
  "slice_nodes es = map (\<lambda>n. deref n []) (es_Endpoints es)"

text \<open>
  \<open>None\<close> is the panic of the type assertion when the deleted object is not an EndpointSlice. \<open>hasUpdater\<close> is whether the updater
  of backend pools runs.
\<close>

fun handle_slice_event ::
  "(string \<Rightarrow> bool) \<Rightarrow> (string set \<Rightarrow> string list) \<Rightarrow> bool \<Rightarrow> (string \<times> IgnoreCaseSet) list \<Rightarrow> (string \<times> serviceInfo) list \<Rightarrow> slice_event \<Rightarrow>
   slice_cache \<times> update_op list \<Rightarrow> (slice_cache \<times> update_op list) option" where
  "handle_slice_event isIPv6String enum hasUpdater nodePrivateIPs infos (SliceAdd es) (slices, operations) = Some (put (slice_key es) es slices, operations)"
| "handle_slice_event isIPv6String enum hasUpdater nodePrivateIPs infos (SliceUpdate previousES newES) (slices, operations) =
     (let svcName = getServiceNameOfEndpointSlice newES
      in if svcName = [] then Some (slices, operations)
         else
           (let slices' = put (slice_key newES) newES slices; key = ToLower (es_Namespace newES @ ''/'' @ svcName)
            in case getLocalServiceInfo infos key of
                 None \<Rightarrow> Some (slices', operations)
               | Some si \<Rightarrow>
                   (let previousIPs = node_ips enum nodePrivateIPs (slice_nodes previousES); currentIPs = node_ips enum nodePrivateIPs (slice_nodes newES)
                    in Some (slices',
                         if hasUpdater
                         then applyIPChangesAmongLocalServiceBackendPoolsByIPFamily isIPv6String (si_lbName si) key
                                (map (\<lambda>bpName. (bpName, previousIPs)) (slice_pools key (si_ipFamily si))) currentIPs operations
                         else operations))))"
| "handle_slice_event isIPv6String enum hasUpdater nodePrivateIPs infos (SliceDelete es) (slices, operations) =
     (case es of None \<Rightarrow> None | Some e \<Rightarrow> Some (del (slice_key e) slices, operations))"

section \<open>Cleaning up\<close>

text \<open>
  The requests \<open>DeleteLBBackendPool\<close> and \<open>ListManagedLBs\<close> act on the world. The pools of one load balancer, in order, up to the
  first error; the result says whether a pool was deleted.
\<close>

fun cleanup_pools ::
  "('w \<Rightarrow> string \<Rightarrow> string \<Rightarrow> 'w \<times> 'e option) \<Rightarrow> string \<Rightarrow> string \<Rightarrow> BackendAddressPool list \<Rightarrow> 'w \<Rightarrow> 'w \<times> ('e, bool) result" where
  "cleanup_pools deletePool serviceName lbName [] w = (w, Inr False)"
| "cleanup_pools deletePool serviceName lbName (bp # bps) w =
     (let bpName = deref (bp_Name bp) []
      in if \<not> localServiceOwnsBackendPool serviceName bpName then cleanup_pools deletePool serviceName lbName bps w
         else
           (case deletePool w lbName bpName of
              (w1, Some e) \<Rightarrow> (w1, Inl e)
            | (w1, None) \<Rightarrow> (case cleanup_pools deletePool serviceName lbName bps w1 of (w2, r) \<Rightarrow> (w2, map_sum id (\<lambda>_. True) r))))"

fun cleanup_lbs ::
  "('w \<Rightarrow> string \<Rightarrow> string \<Rightarrow> 'w \<times> 'e option) \<Rightarrow> string \<Rightarrow> pooled_lb list \<Rightarrow> 'w \<Rightarrow> 'w \<times> ('e, bool) result" where
  "cleanup_lbs deletePool serviceName [] w = (w, Inr False)"
| "cleanup_lbs deletePool serviceName (lb # lbs) w =
     (case cleanup_pools deletePool serviceName (deref (lb_Name lb) []) (deref (lb_BackendAddressPools lb) []) w of
        (w1, Inl e) \<Rightarrow> (w1, Inl e)
      | (w1, Inr c) \<Rightarrow> (case cleanup_lbs deletePool serviceName lbs w1 of (w2, r) \<Rightarrow> (w2, map_sum id (\<lambda>c'. c \<or> c') r)))"

definition cleanupLocalServiceBackendPool ::
  "('w \<Rightarrow> string \<Rightarrow> string \<Rightarrow> 'w \<times> 'e option) \<Rightarrow> ('w \<Rightarrow> 'w \<times> ('e, pooled_lb list option) result) \<Rightarrow> Service \<Rightarrow> pooled_lb list option \<Rightarrow> 'w \<Rightarrow>
   'w \<times> ('e, pooled_lb list option) result" where
  "cleanupLocalServiceBackendPool deletePool listManagedLBs svc lbs w =
     (case cleanup_lbs deletePool (getServiceName svc) (deref lbs []) w of
        (w1, Inl e) \<Rightarrow> (w1, Inl e)
      | (w1, Inr changed) \<Rightarrow> if changed then listManagedLBs w1 else (w1, Inr lbs))"

end
