(* ===== verification/LocalServiceFacts.thy ===== *)
theory LocalServiceFacts
  imports LocalServices NetText
begin

text \<open>
  The processing of the queue of backend pool updates refines operations on sets of addresses, and bringing a pool in line with
  the endpoints of its service and processing the queue leaves exactly the addresses of the nodes that host them.
\<close>

section \<open>Operations on sets of addresses\<close>

definition op_sem :: "update_op \<Rightarrow> string set \<Rightarrow> string set" where
  "op_sem op A =
     (case uo_kind op of
        UpdateAdd \<Rightarrow> A \<union> set (uo_nodeIPs op)
      | UpdateRemove \<Rightarrow> {a \<in> A. a \<noteq> [] \<and> \<not> set_Has (NewString (uo_nodeIPs op)) a}
      | UpdateOther _ \<Rightarrow> A)"

definition known_op :: "update_op \<Rightarrow> bool" where
  "known_op op = (case uo_kind op of UpdateOther _ \<Rightarrow> False | _ \<Rightarrow> True)"

lemma remove_unchanged:
  "fst (removeNodeIPAddressesFromBackendPool bp ips False True True) \<or>
   snd (removeNodeIPAddressesFromBackendPool bp ips False True True) = bp"
  by (simp add: removeNodeIPAddressesFromBackendPool_def Let_def split: option.split)

lemma apply_op_ips:
  assumes "known_op op"
  shows "\<exists>c bp'. apply_op vnetID owners op bp = Some (c, bp') \<and> set (pool_ips bp') = op_sem op (set (pool_ips bp)) \<and>
    (\<not> c \<longrightarrow> set (pool_ips bp') = set (pool_ips bp))"
proof (cases "uo_kind op")
  case UpdateAdd
  let ?r = "addNodeIPAddressesToBackendPool vnetID owners bp (uo_nodeIPs op)"
  have "set (pool_ips (snd ?r)) = op_sem op (set (pool_ips bp))" by (auto simp: pool_add_ips op_sem_def UpdateAdd)
  moreover have "\<not> fst ?r \<Longrightarrow> set (pool_ips (snd ?r)) = set (pool_ips bp)" by (auto simp: pool_add_ips add_changed)
  ultimately show ?thesis by (metis (mono_tags) UpdateAdd apply_op_def prod.collapse update_kind.simps(8))
next
  case UpdateRemove
  let ?r = "removeNodeIPAddressesFromBackendPool bp (uo_nodeIPs op) False True True"
  have "set (pool_ips (snd ?r)) = op_sem op (set (pool_ips bp))" by (auto simp: pool_remove_ips op_sem_def UpdateRemove)
  moreover have "\<not> fst ?r \<Longrightarrow> set (pool_ips (snd ?r)) = set (pool_ips bp)" using remove_unchanged by metis
  ultimately show ?thesis by (metis (mono_tags) UpdateRemove apply_op_def prod.collapse update_kind.simps(9))
qed (use assms in \<open>simp add: known_op_def\<close>)

lemma apply_ops_ips:
  assumes "\<forall>op \<in> set ops. known_op op"
  shows "\<exists>c bp'. apply_ops vnetID owners ops bp = Some (c, bp') \<and> set (pool_ips bp') = fold op_sem ops (set (pool_ips bp)) \<and>
    (\<not> c \<longrightarrow> set (pool_ips bp') = set (pool_ips bp))"
  using assms
proof (induction ops arbitrary: bp)
  case (Cons op ops)
  obtain c b where b: "apply_op vnetID owners op bp = Some (c, b)" "set (pool_ips b) = op_sem op (set (pool_ips bp))"
    "\<not> c \<longrightarrow> set (pool_ips b) = set (pool_ips bp)" using apply_op_ips Cons.prems by (metis list.set_intros(1))
  obtain c' b' where b': "apply_ops vnetID owners ops b = Some (c', b')" "set (pool_ips b') = fold op_sem ops (set (pool_ips b))"
    "\<not> c' \<longrightarrow> set (pool_ips b') = set (pool_ips b)" using Cons.IH Cons.prems by (metis list.set_intros(2))
  show ?case using b b' by simp metis
qed auto

section \<open>A store of pools\<close>

text \<open>
  Requests that succeed: a pool that exists is read as it was last written, and a pool that does not exist gives the status
  404.
\<close>

definition pool_store :: "'w pool_client \<Rightarrow> ('w \<Rightarrow> string \<times> string \<Rightarrow> BackendAddressPool option) \<Rightarrow> bool" where
  "pool_store client view \<longleftrightarrow>
     (\<forall>w lb p. plc_GetLBBackendPool client w lb p =
        (w, case view w (lb, p) of Some bp \<Rightarrow> Inr bp | None \<Rightarrow> Inl \<lparr>rerr_HTTPStatusCode = 404, rerr_Retriable = False\<rparr>)) \<and>
     (\<forall>w lb p bp. \<exists>w'. plc_CreateOrUpdateBackendPools client w lb p bp = (w', None) \<and> view w' = (view w)((lb, p) \<mapsto> bp))"

text \<open>Two views of a pool agree up to the operations.\<close>

definition pool_updated :: "update_op list \<Rightarrow> BackendAddressPool option \<Rightarrow> BackendAddressPool option \<Rightarrow> bool" where
  "pool_updated ops v v' \<longleftrightarrow>
     (case v of None \<Rightarrow> v' = None | Some bp \<Rightarrow> (\<exists>bp'. v' = Some bp' \<and> set (pool_ips bp') = fold op_sem ops (set (pool_ips bp))))"

lemma split_key: "CHR '':'' \<notin> set lb \<Longrightarrow> CHR '':'' \<notin> set p \<Longrightarrow> Split (lb @ '':'' @ p) '':'' = [lb, p]"
  using Split_Join [of "[lb, p]" "CHR '':''"] by simp

lemma process_group_updates:
  assumes store: "pool_store client view" and known: "\<forall>op \<in> set ops. known_op op" and colon: "CHR '':'' \<notin> set lb" "CHR '':'' \<notin> set p"
  shows "\<exists>w' sent. process_group client vnetID owners (lb @ '':'' @ p) ops w = Some (w', [], sent) \<and>
    (\<forall>k. if k = (lb, p) then pool_updated ops (view w k) (view w' k) else view w' k = view w k)"
proof -
  have get: "plc_GetLBBackendPool client w lb p =
      (w, case view w (lb, p) of Some bp \<Rightarrow> Inr bp | None \<Rightarrow> Inl \<lparr>rerr_HTTPStatusCode = 404, rerr_Retriable = False\<rparr>)"
    using store by (simp add: pool_store_def)
  show ?thesis
  proof (cases "view w (lb, p)")
    case None
    then show ?thesis
      unfolding process_group_def split_key [OF colon] by (simp add: get processError_def IsNotFound_def pool_updated_def)
  next
    case (Some bp)
    obtain c bp' where a: "apply_ops vnetID owners ops bp = Some (c, bp')" "set (pool_ips bp') = fold op_sem ops (set (pool_ips bp))"
      "\<not> c \<longrightarrow> set (pool_ips bp') = set (pool_ips bp)" using apply_ops_ips [OF known] by blast
    obtain w' where put: "plc_CreateOrUpdateBackendPools client w lb p bp' = (w', None)" "view w' = (view w)((lb, p) \<mapsto> bp')"
      using store unfolding pool_store_def by blast
    show ?thesis
    proof (cases c)
      case True
      then show ?thesis unfolding process_group_def split_key [OF colon] by (simp add: get Some a put pool_updated_def)
    next
      case False
      then show ?thesis using a(3) unfolding process_group_def split_key [OF colon] by (simp add: get Some a pool_updated_def)
    qed
  qed
qed

definition plain_names :: "update_op \<Rightarrow> bool" where
  "plain_names op \<longleftrightarrow> CHR '':'' \<notin> set (uo_loadBalancerName op) \<and> CHR '':'' \<notin> set (uo_backendPoolName op)"

lemma op_key_inj: "plain_names op \<Longrightarrow> CHR '':'' \<notin> set lb \<Longrightarrow> CHR '':'' \<notin> set p \<Longrightarrow>
    op_key op = lb @ '':'' @ p \<longleftrightarrow> uo_loadBalancerName op = lb \<and> uo_backendPoolName op = p"
  unfolding op_key_def plain_names_def by (metis list.inject split_key)

lemma process_groups_updates:
  assumes store: "pool_store client view" and known: "\<forall>op \<in> set ops. known_op op \<and> plain_names op"
    and keys: "distinct keys" "\<forall>key \<in> set keys. \<exists>op \<in> set ops. op_key op = key"
  shows "\<exists>w' sent. process_groups client vnetID owners (\<lambda>key. filter (\<lambda>op. op_key op = key) ops) keys w = Some (w', [], sent) \<and>
    (\<forall>lb p. if CHR '':'' \<notin> set lb \<and> CHR '':'' \<notin> set p \<and> lb @ '':'' @ p \<in> set keys
       then pool_updated (filter (\<lambda>op. op_key op = lb @ '':'' @ p) ops) (view w (lb, p)) (view w' (lb, p))
       else view w' (lb, p) = view w (lb, p))"
  using keys
proof (induction keys arbitrary: w)
  case (Cons key keys)
  then obtain op where op: "op \<in> set ops" "op_key op = key" by auto
  define lb p where "lb = uo_loadBalancerName op" and "p = uo_backendPoolName op"
  have key: "key = lb @ '':'' @ p" and colon: "CHR '':'' \<notin> set lb" "CHR '':'' \<notin> set p"
    using op known by (auto simp: lb_def p_def op_key_def plain_names_def)
  let ?grp = "\<lambda>key. filter (\<lambda>op. op_key op = key) ops"
  have "\<forall>op \<in> set (?grp key). known_op op" using known by simp
  from process_group_updates [OF store this colon] obtain w1 n1 where
    1: "process_group client vnetID owners key (?grp key) w = Some (w1, [], n1)"
      "\<And>k. if k = (lb, p) then pool_updated (?grp key) (view w k) (view w1 k) else view w1 k = view w k"
    unfolding key by blast
  obtain w2 n2 where
    2: "process_groups client vnetID owners ?grp keys w1 = Some (w2, [], n2)"
      "\<And>a b. if CHR '':'' \<notin> set a \<and> CHR '':'' \<notin> set b \<and> a @ '':'' @ b \<in> set keys
         then pool_updated (?grp (a @ '':'' @ b)) (view w1 (a, b)) (view w2 (a, b)) else view w2 (a, b) = view w1 (a, b)"
    using Cons.IH [of w1] Cons.prems by auto
  have "if CHR '':'' \<notin> set a \<and> CHR '':'' \<notin> set b \<and> a @ '':'' @ b \<in> set (key # keys)
       then pool_updated (?grp (a @ '':'' @ b)) (view w (a, b)) (view w2 (a, b)) else view w2 (a, b) = view w (a, b)" for a b
  proof (cases "(a, b) = (lb, p)")
    case True
    then have "a @ '':'' @ b \<notin> set keys" using Cons.prems(1) key by simp
    then have "view w2 (a, b) = view w1 (a, b)" using 2(2) [of a b] by simp
    then show ?thesis using 1(2) [of "(a, b)"] True colon key by simp
  next
    case False
    have "a @ '':'' @ b \<noteq> key" if "CHR '':'' \<notin> set a" "CHR '':'' \<notin> set b"
      using split_key [OF that] split_key [OF colon] False key by auto
    then show ?thesis using 1(2) [of "(a, b)"] 2(2) [of a b] False by auto
  qed
  moreover have "process_groups client vnetID owners ?grp (key # keys) w = Some (w2, [], n1 @ n2)" using 1(1) 2(1) by simp
  ultimately show ?case by blast
qed simp

text \<open>\<open>visit\<close> lists the keys in some order.\<close>

definition visits :: "(string list \<Rightarrow> string list) \<Rightarrow> bool" where
  "visits visit \<longleftrightarrow> (\<forall>ks. distinct ks \<longrightarrow> distinct (visit ks) \<and> set (visit ks) = set ks)"

lemma process_updates:
  assumes store: "pool_store client view" and visit: "visits visit" and known: "\<forall>op \<in> set ops. known_op op \<and> plain_names op"
  shows "\<exists>w' sent. process visit client vnetID owners infos ops w = Some (w', [], sent) \<and>
    (\<forall>lb p. CHR '':'' \<notin> set lb \<and> CHR '':'' \<notin> set p \<longrightarrow>
       pool_updated (filter (\<lambda>op. accepted_op infos op \<and> uo_loadBalancerName op = lb \<and> uo_backendPoolName op = p) ops) (view w (lb, p)) (view w' (lb, p)))"
proof (cases "ops = []")
  case True
  then show ?thesis by (simp add: process_def pool_updated_def split: option.split)
next
  case False
  define acc where "acc = filter (accepted_op infos) ops"
  define keys where "keys = visit (remdups (map op_key acc))"
  have keys: "distinct keys" "set keys = op_key ` set acc" using visit by (simp_all add: visits_def keys_def)
  have kacc: "\<forall>op \<in> set acc. known_op op \<and> plain_names op" using known by (simp add: acc_def)
  obtain w' sent where
    run: "process_groups client vnetID owners (\<lambda>key. filter (\<lambda>op. op_key op = key) acc) keys w = Some (w', [], sent)"
    and upd: "\<And>lb p. if CHR '':'' \<notin> set lb \<and> CHR '':'' \<notin> set p \<and> lb @ '':'' @ p \<in> set keys
       then pool_updated (filter (\<lambda>op. op_key op = lb @ '':'' @ p) acc) (view w (lb, p)) (view w' (lb, p))
       else view w' (lb, p) = view w (lb, p)"
    using process_groups_updates [OF store kacc keys(1), of vnetID owners w] keys(2) by auto
  have "pool_updated (filter (\<lambda>op. accepted_op infos op \<and> uo_loadBalancerName op = lb \<and> uo_backendPoolName op = p) ops) (view w (lb, p)) (view w' (lb, p))"
    if c: "CHR '':'' \<notin> set lb" "CHR '':'' \<notin> set p" for lb p
  proof -
    have f: "filter (\<lambda>op. op_key op = lb @ '':'' @ p) acc =
        filter (\<lambda>op. accepted_op infos op \<and> uo_loadBalancerName op = lb \<and> uo_backendPoolName op = p) ops"
      unfolding acc_def filter_filter by (rule filter_cong) (use known op_key_inj [OF _ c] in auto)
    show ?thesis
    proof (cases "lb @ '':'' @ p \<in> set keys")
      case True
      then show ?thesis using upd [of lb p] c unfolding f by simp
    next
      case no: False
      then have "filter (\<lambda>op. op_key op = lb @ '':'' @ p) acc = []" unfolding keys(2) filter_empty_conv by (metis imageI)
      then show ?thesis using upd [of lb p] no unfolding f by (simp add: pool_updated_def split: option.split)
    qed
  qed
  moreover have "process visit client vnetID owners infos ops w = Some (w', [], sent)"
    using run False unfolding process_def keys_def acc_def by (simp add: Let_def)
  ultimately show ?thesis by blast
qed

section \<open>Bringing a pool in line\<close>

lemma set_compare: "set (compareNodeIPs xs ys) = set xs - set ys"
  by (auto simp: compareNodeIPs_def)

text \<open>Addresses that are compared ignoring the case are equal when both are in lower case.\<close>

lemma has_lower: "\<forall>x \<in> set xs. ToLower x = x \<Longrightarrow> ToLower a = a \<Longrightarrow> set_Has (NewString xs) a \<longleftrightarrow> a \<in> set xs"
  by (force simp: set_Has_def NewString_def)

definition plain_ips :: "string list \<Rightarrow> bool" where
  "plain_ips ips \<longleftrightarrow> distinct ips \<and> (\<forall>ip \<in> set ips. ip \<noteq> [] \<and> ToLower ip = ip)"

lemma reconcile_one_pool_ops:
  "reconcileIPsInLocalServiceBackendPoolsAsync lb svc [(bp, cur)] expected [] =
     (let del = compareNodeIPs cur expected
      in if del = [] \<and> length cur = length expected then []
         else (if del = [] then [] else [getRemoveIPsFromBackendPoolOperation svc lb bp del]) @
              (if expected = [] then [] else [getAddIPsToBackendPoolOperation svc lb bp expected]))"
  by (simp add: Let_def updater_addOperation_def)

lemma sem_remove: "op_sem (getRemoveIPsFromBackendPoolOperation svc lb bp ips) A = {a \<in> A. a \<noteq> [] \<and> \<not> set_Has (NewString ips) a}"
  by (simp add: op_sem_def getRemoveIPsFromBackendPoolOperation_def)

lemma sem_add: "op_sem (getAddIPsToBackendPoolOperation svc lb bp ips) A = A \<union> set ips"
  by (simp add: op_sem_def getAddIPsToBackendPoolOperation_def)

lemma reconcile_one_pool:
  assumes cur: "plain_ips cur" and exp: "plain_ips expected"
  shows "fold op_sem (reconcileIPsInLocalServiceBackendPoolsAsync lb svc [(bp, cur)] expected []) (set cur) = set expected"
proof -
  let ?del = "compareNodeIPs cur expected"
  have rem: "{a \<in> set cur. a \<noteq> [] \<and> \<not> set_Has (NewString ?del) a} = set cur \<inter> set expected"
  proof -
    have low: "\<forall>x \<in> set ?del. ToLower x = x" using cur by (simp add: set_compare plain_ips_def)
    have "set_Has (NewString ?del) a \<longleftrightarrow> a \<in> set cur - set expected" if "a \<in> set cur" for a
      using has_lower [OF low, of a] cur that by (simp add: plain_ips_def set_compare)
    moreover have "a \<noteq> []" if "a \<in> set cur" for a using cur that by (auto simp: plain_ips_def)
    ultimately show ?thesis by blast
  qed
  have sub: "set cur \<subseteq> set expected" if "?del = []" using that set_compare [of cur expected] by auto
  show ?thesis
  proof (cases "?del = []")
    case True
    show ?thesis
    proof (cases "length cur = length expected")
      case len: True
      have "card (set cur) = card (set expected)" using len cur exp by (simp add: plain_ips_def distinct_card)
      then have "set cur = set expected" using card_subset_eq [OF _ sub [OF True]] by simp
      then show ?thesis unfolding reconcile_one_pool_ops using True len by simp
    next
      case False
      then show ?thesis unfolding reconcile_one_pool_ops using True sub [OF True] by (auto simp: sem_add Let_def)
    qed
  next
    case False
    then show ?thesis unfolding reconcile_one_pool_ops by (auto simp: sem_add sem_remove Let_def rem)
  qed
qed

lemma reconcile_one_pool_targets:
  "\<forall>op \<in> set (reconcileIPsInLocalServiceBackendPoolsAsync lb svc [(bp, cur)] expected []).
     known_op op \<and> uo_serviceName op = svc \<and> uo_loadBalancerName op = lb \<and> uo_backendPoolName op = bp"
  unfolding reconcile_one_pool_ops
  by (simp add: Let_def getRemoveIPsFromBackendPoolOperation_def getAddIPsToBackendPoolOperation_def known_op_def)

end
