(* ===== verification/LocalServiceProperties.thy ===== *)
theory LocalServiceProperties
  imports LocalServiceFacts
begin

text \<open>Updates of the backend pools of local services.\<close>

text \<open>C39. Processing the queue refines operations on sets. With requests that succeed, a run of the updater on a queue of additions
  and removals empties the queue and does not panic, and every existing pool holds the addresses that the operations on it give
  when they are applied in the order of the queue; operations of services that are not local or not on that load balancer
  any more are ignored, and pools that do not exist are not created. The order in which the pools are visited does not matter.
\<close>

theorem process_refines:
  assumes "pool_store client view" "visits visit" "\<forall>op \<in> set ops. known_op op \<and> plain_names op"
  shows "\<exists>w' sent. process visit client vnetID owners infos ops w = Some (w', [], sent) \<and>
    (\<forall>lb p. CHR '':'' \<notin> set lb \<and> CHR '':'' \<notin> set p \<longrightarrow>
       (case view w (lb, p) of
          None \<Rightarrow> view w' (lb, p) = None
        | Some bp \<Rightarrow> \<exists>bp'. view w' (lb, p) = Some bp' \<and>
            set (pool_ips bp') = fold op_sem (filter (\<lambda>op. accepted_op infos op \<and> uo_loadBalancerName op = lb \<and> uo_backendPoolName op = p) ops)
              (set (pool_ips bp))))"
  using process_updates [OF assms, of vnetID owners infos w] unfolding pool_updated_def .

lemma apply_one_pool:
  "applyIPChangesAmongLocalServiceBackendPoolsByIPFamily isIPv6String lbName svc [(p, cur)] expected [] =
     reconcileIPsInLocalServiceBackendPoolsAsync lbName svc [(p, cur)]
       (filter (\<lambda>ip. isIPv6String ip = managedResourceHasIPv6Suffix p) expected) []"
  by (cases "managedResourceHasIPv6Suffix p")
    (simp_all add: applyIPChangesAmongLocalServiceBackendPoolsByIPFamily_def del: reconcileIPsInLocalServiceBackendPoolsAsync.simps(2))

text \<open>The backend pool of a local service converges. If the service is recorded on the load balancer, has EndpointSlices and owns one
  pool of the load balancer, then comparing the pool with the endpoints and processing the queue leaves in the pool exactly the
  addresses, of the family of the pool, of the nodes that host endpoints of the service (addresses are in lower case and no two
  of them are equal).
\<close>

lemma local_pool_converges:
  assumes store: "pool_store client view" and visit: "visits visit"
    and eps: "getLocalServiceEndpointsNodeNames slices service = Some nodes"
    and lb: "lb_Name lb = Some lbName" "lb_BackendAddressPools lb = Some bps" "owned_pools (getServiceName service) bps = Some [(p, pool_ips bp)]"
    and info: "getLocalServiceInfo infos (ToLower (getServiceName service)) = Some si" "EqualFold (si_lbName si) lbName"
    and pool: "view w (lbName, p) = Some bp" "CHR '':'' \<notin> set lbName" "CHR '':'' \<notin> set p"
    and plain: "plain_ips (pool_ips bp)"
      "plain_ips (filter (\<lambda>ip. isIPv6String ip = managedResourceHasIPv6Suffix p) (node_ips enum nodePrivateIPs (enum nodes)))"
  shows "\<exists>ops w' sent bp'. checkAndApplyLocalServiceBackendPoolUpdates isIPv6String enum nodePrivateIPs slices lb service [] = Some ops \<and>
    process visit client vnetID owners infos ops w = Some (w', [], sent) \<and> view w' (lbName, p) = Some bp' \<and>
    set (pool_ips bp') = set (filter (\<lambda>ip. isIPv6String ip = managedResourceHasIPv6Suffix p) (node_ips enum nodePrivateIPs (enum nodes)))"
proof -
  define expected where "expected = filter (\<lambda>ip. isIPv6String ip = managedResourceHasIPv6Suffix p) (node_ips enum nodePrivateIPs (enum nodes))"
  define svc where "svc = getServiceName service"
  define ops where "ops = reconcileIPsInLocalServiceBackendPoolsAsync lbName svc [(p, pool_ips bp)] expected []"
  have run: "checkAndApplyLocalServiceBackendPoolUpdates isIPv6String enum nodePrivateIPs slices lb service [] = Some ops"
    unfolding checkAndApplyLocalServiceBackendPoolUpdates_def Let_def
    by (simp add: eps lb UnsortedList_def apply_one_pool ops_def expected_def svc_def del: reconcileIPsInLocalServiceBackendPoolsAsync.simps)
  have t: "\<forall>op \<in> set ops. known_op op \<and> uo_serviceName op = svc \<and> uo_loadBalancerName op = lbName \<and> uo_backendPoolName op = p"
    unfolding ops_def by (rule reconcile_one_pool_targets)
  have plain_ops: "\<forall>op \<in> set ops. known_op op \<and> plain_names op" using t pool by (simp add: plain_names_def)
  have f: "filter (\<lambda>op. accepted_op infos op \<and> uo_loadBalancerName op = lbName \<and> uo_backendPoolName op = p) ops = ops"
    using t info by (simp add: filter_id_conv accepted_op_def svc_def)
  obtain w' sent where w': "process visit client vnetID owners infos ops w = Some (w', [], sent)"
    and u: "\<forall>lb p. CHR '':'' \<notin> set lb \<and> CHR '':'' \<notin> set p \<longrightarrow>
       pool_updated (filter (\<lambda>op. accepted_op infos op \<and> uo_loadBalancerName op = lb \<and> uo_backendPoolName op = p) ops) (view w (lb, p)) (view w' (lb, p))"
    using process_updates [OF store visit plain_ops, of vnetID owners infos w] by blast
  have "pool_updated ops (view w (lbName, p)) (view w' (lbName, p))"
    using u [rule_format, OF conjI [OF pool(2,3)]] unfolding f .
  then obtain bp' where "view w' (lbName, p) = Some bp'" "set (pool_ips bp') = fold op_sem ops (set (pool_ips bp))"
    using pool(1) by (auto simp: pool_updated_def)
  moreover have "fold op_sem ops (set (pool_ips bp)) = set expected"
    unfolding ops_def by (rule reconcile_one_pool) (use plain in \<open>simp_all add: expected_def\<close>)
  ultimately have "view w' (lbName, p) = Some bp' \<and> set (pool_ips bp') = set expected" by simp
  then show ?thesis using run w' unfolding expected_def by blast
qed

section \<open>A store\<close>

definition demo_pool :: "string list \<Rightarrow> BackendAddressPool" where
  "demo_pool ips = \<lparr>bp_Name = Some ''n-s'', bp_Properties = Some \<lparr>bpp_VirtualNetwork = None,
     bpp_LoadBalancerBackendAddresses = Some (map (new_address []) ips), bpp_BackendIPConfigurations = None\<rparr>\<rparr>"

definition demo_client :: "(string \<times> string \<Rightarrow> BackendAddressPool option) pool_client" where
  "demo_client =
     \<lparr>plc_GetLBBackendPool = (\<lambda>w lb p. (w, case w (lb, p) of Some bp \<Rightarrow> Inr bp | None \<Rightarrow> Inl \<lparr>rerr_HTTPStatusCode = 404, rerr_Retriable = False\<rparr>)),
      plc_CreateOrUpdateBackendPools = (\<lambda>w lb p bp. (w((lb, p) \<mapsto> bp), None))\<rparr>"

lemma demo_store: "pool_store demo_client (\<lambda>w. w)" and demo_visits: "visits (\<lambda>ks. ks)"
  by (simp_all add: pool_store_def demo_client_def visits_def)

definition demo_slice :: "string \<Rightarrow> string list \<Rightarrow> EndpointSlice" where
  "demo_slice name nodes = \<lparr>es_Namespace = ''n'', es_Name = name, es_Labels = [(ServiceNameLabel, ''s'')], es_Endpoints = map Some nodes\<rparr>"

definition local_service :: Service where
  "local_service = \<lparr>svc_Namespace = ''n'', svc_Name = ''s'', svc_UID = ''u'', svc_Annotations = [], svc_Ports = [], svc_LoadBalancerSourceRanges = [],
     svc_ExternalTrafficPolicy = ''Local'', svc_HealthCheckNodePort = 0, svc_IPFamilies = [], svc_LoadBalancerIP = [], svc_Ingress = [],
     svc_Type = ''LoadBalancer'', svc_SessionAffinity = []\<rparr>"

definition local_lb :: pooled_lb where
  "local_lb = \<lparr>lb_Name = Some ''l'', lb_Probes = None, lb_LoadBalancingRules = None, lb_InboundNatRules = None, lb_InboundNatPools = None,
     lb_Tags = None, lb_BackendAddressPools = Some [demo_pool [''1'']]\<rparr>"

abbreviation local_ips :: "(string \<times> IgnoreCaseSet) list" where
  "local_ips \<equiv> [(''a'', NewString [''1'']), (''b'', NewString [''2''])]"

abbreviation local_infos :: "(string \<times> serviceInfo) list" where
  "local_infos \<equiv> [(''n/s'', \<lparr>si_ipFamily = ''IPv4'', si_lbName = ''l''\<rparr>)]"

theorem process_refines_witness:
  "\<exists>w' sent bp'. process (\<lambda>ks. ks) demo_client ''v'' [] local_infos [getAddIPsToBackendPoolOperation ''n/s'' ''l'' ''n-s'' [''2'']]
       [(''l'', ''n-s'') \<mapsto> demo_pool [''1'']] = Some (w', [], sent) \<and>
     w' (''l'', ''n-s'') = Some bp' \<and> set (pool_ips bp') = {''1'', ''2''}"
proof -
  let ?ops = "[getAddIPsToBackendPoolOperation ''n/s'' ''l'' ''n-s'' [''2'']]"
  have k: "\<forall>op \<in> set ?ops. known_op op \<and> plain_names op" by code_simp
  have f: "filter (\<lambda>op. accepted_op local_infos op \<and> uo_loadBalancerName op = ''l'' \<and> uo_backendPoolName op = ''n-s'') ?ops = ?ops" by code_simp
  have ips: "pool_ips (demo_pool [''1'']) = [''1'']" by code_simp
  have c: "CHR '':'' \<notin> set ''l'' \<and> CHR '':'' \<notin> set ''n-s''" by simp
  from process_refines [OF demo_store demo_visits k, of "''v''" "[]" local_infos "[(''l'', ''n-s'') \<mapsto> demo_pool [''1'']]"]
  obtain w' sent where w: "process (\<lambda>ks. ks) demo_client ''v'' [] local_infos ?ops [(''l'', ''n-s'') \<mapsto> demo_pool [''1'']] = Some (w', [], sent)"
    and u: "\<forall>lb p. CHR '':'' \<notin> set lb \<and> CHR '':'' \<notin> set p \<longrightarrow>
       (case [(''l'', ''n-s'') \<mapsto> demo_pool [''1'']] (lb, p) of
          None \<Rightarrow> w' (lb, p) = None
        | Some bp \<Rightarrow> \<exists>bp'. w' (lb, p) = Some bp' \<and>
            set (pool_ips bp') = fold op_sem (filter (\<lambda>op. accepted_op local_infos op \<and> uo_loadBalancerName op = lb \<and> uo_backendPoolName op = p) ?ops)
              (set (pool_ips bp)))" by blast
  obtain bp' where "w' (''l'', ''n-s'') = Some bp'" "set (pool_ips bp') = fold op_sem ?ops {''1''}"
    using u [rule_format, OF c] unfolding f by (auto simp: ips)
  then show ?thesis using w by (auto simp: sem_add)
qed

abbreviation local_slices :: "string list \<Rightarrow> slice_cache" where
  "local_slices nodes \<equiv> [(''n/e'', demo_slice ''e'' nodes)]"

lemma local_endpoints: "getLocalServiceEndpointsNodeNames (local_slices [''b'']) local_service = Some {''b''}"
  by code_simp

section \<open>Updates of one EndpointSlice\<close>

text \<open>
  The handler takes the addresses of the previous version of the slice for those of the pool, and compares the lengths of lists in
  which the node of every endpoint counts. When the second of two endpoints on node b moves to node a nothing is queued,
  although node a has to be added to the pool.
\<close>

definition elements :: "string set \<Rightarrow> string list" where
  "elements s = filter (\<lambda>x. x \<in> s) [''1'', ''2'']"

lemma slice_update_missed:
  "handle_slice_event (\<lambda>ip. CHR '':'' \<in> set ip) elements True local_ips local_infos
     (SliceUpdate (demo_slice ''e'' [''b'', ''b'']) (demo_slice ''e'' [''b'', ''a''])) (local_slices [''b'', ''b''], []) =
   Some (local_slices [''b'', ''a''], [])"
  by code_simp

text \<open>
  The other slices of the service are not looked at: when a slice loses its endpoint on node b, the address of b is removed from the
  pool although another slice of the service has an endpoint on b.
\<close>

lemma slice_update_removes_shared_node:
  "handle_slice_event (\<lambda>ip. CHR '':'' \<in> set ip) elements True local_ips local_infos
     (SliceUpdate (demo_slice ''e'' [''a'', ''b'']) (demo_slice ''e'' [''a''])) ((''n/f'', demo_slice ''f'' [''b'']) # local_slices [''a'', ''b''], []) =
   Some ((''n/f'', demo_slice ''f'' [''b'']) # local_slices [''a''],
     [getRemoveIPsFromBackendPoolOperation ''n/s'' ''l'' ''n-s'' [''2''], getAddIPsToBackendPoolOperation ''n/s'' ''l'' ''n-s'' [''1'']])"
  by code_simp

text \<open>A service whose name ends in ipv6 does not own its own pool of family IPv4.\<close>

lemma ipv6_named_service_disowned:
  "\<not> localServiceOwnsBackendPool ''n/my-ipv6'' (getLocalServiceBackendPoolName ''n/my-ipv6'' False)"
  by code_simp


section \<open>Cleaning up\<close>

definition owned_pool_names :: "string \<Rightarrow> pooled_lb \<Rightarrow> (string \<times> string) list" where
  "owned_pool_names serviceName lb = map (\<lambda>bp. (deref (lb_Name lb) [], deref (bp_Name bp) []))
     (filter (\<lambda>bp. localServiceOwnsBackendPool serviceName (deref (bp_Name bp) [])) (deref (lb_BackendAddressPools lb) []))"

text \<open>With requests that succeed, exactly the pools of the service are deleted, and the load balancers are read again only then.\<close>

lemma cleanup_pools_log:
  assumes "\<And>w lb p. deletePool w lb p = (w @ [(lb, p)], None)"
  shows "cleanup_pools deletePool serviceName lbName bps w =
    (let ps = map (\<lambda>bp. (lbName, deref (bp_Name bp) [])) (filter (\<lambda>bp. localServiceOwnsBackendPool serviceName (deref (bp_Name bp) [])) bps)
     in (w @ ps, Inr (ps \<noteq> [])))"
  by (induction bps arbitrary: w) (simp_all add: assms Let_def)

lemma cleanup_lbs_log:
  assumes "\<And>w lb p. deletePool w lb p = (w @ [(lb, p)], None)"
  shows "cleanup_lbs deletePool serviceName lbs w =
    (let ps = concat (map (owned_pool_names serviceName) lbs) in (w @ ps, Inr (ps \<noteq> [])))"
  by (induction lbs arbitrary: w) (simp_all add: cleanup_pools_log [OF assms] Let_def owned_pool_names_def)

lemma cleanup_exact:
  assumes "\<And>w lb p. deletePool w lb p = (w @ [(lb, p)], None)"
  shows "cleanupLocalServiceBackendPool deletePool listManagedLBs svc lbs [] =
    (let ps = concat (map (owned_pool_names (getServiceName svc)) (deref lbs []))
     in if ps = [] then ([], Inr lbs) else listManagedLBs ps)"
  by (simp add: cleanupLocalServiceBackendPool_def cleanup_lbs_log [OF assms] Let_def)

end
