(* ===== verification/LocalNodes.thy ===== *)
theory LocalNodes
  imports LocalServiceFacts NodeCacheFacts
begin

text \<open>
  The node caches feed the pools of local services: the addresses recorded for the nodes are the private addresses of the nodes of the
  cluster, in lower case.
\<close>

definition folded :: "IgnoreCaseSet \<Rightarrow> bool" where
  "folded s \<longleftrightarrow> (case s of None \<Rightarrow> True | Some X \<Rightarrow> finite X \<and> (\<forall>x \<in> X. ToLower x = x))"

definition ips_folded :: "(string \<times> IgnoreCaseSet) list \<Rightarrow> bool" where
  "ips_folded m \<longleftrightarrow> (\<forall>k. folded (set_at m k))"

lemma folded_ins: "folded s \<Longrightarrow> folded (SafeInsert s items)"
  by (cases s) (auto simp: folded_def SafeInsert_def NewString_def)

lemma folded_set_Delete: "folded s \<Longrightarrow> folded (snd (set_Delete s item))"
  by (cases s) (auto simp: folded_def set_Delete_def Let_def)

lemma folded_put: "ips_folded m \<Longrightarrow> folded s \<Longrightarrow> ips_folded (put k s m)"
  by (simp add: ips_folded_def set_at_def)

lemma folded_del: "ips_folded m \<Longrightarrow> ips_folded (del k m)"
  by (simp add: ips_folded_def set_at_def folded_def)

lemma folded_at: "ips_folded m \<Longrightarrow> map_of m k = Some s \<Longrightarrow> folded s"
  unfolding ips_folded_def set_at_def by (drule spec [of _ k]) simp

lemma folded_delete_at: "ips_folded m \<Longrightarrow> ips_folded (delete_at k item m)"
  by (cases "map_of m k") (simp_all add: delete_at_def folded_put folded_set_Delete folded_at)

lemma folded_add_ip: "ips_folded m \<Longrightarrow> ips_folded (add_ip name a m)"
  by (simp add: add_ip_def folded_put folded_ins ips_folded_def)

lemma folded_fold: "(\<And>x m. ips_folded m \<Longrightarrow> ips_folded (f x m)) \<Longrightarrow> ips_folded m \<Longrightarrow> ips_folded (fold f xs m)"
  by (induction xs arbitrary: m) simp_all

lemma folded_forget: "ips_folded (nc_nodePrivateIPs c) \<Longrightarrow> ips_folded (nc_nodePrivateIPs (forget_node loc p c))"
  by (simp add: folded_fold folded_delete_at)

lemma folded_add:
  assumes "ips_folded (nc_nodePrivateIPs c)" "add_node loc n c = Some c'"
  shows "ips_folded (nc_nodePrivateIPs c')"
  using assms by (auto simp: add_node_def folded_fold folded_add_ip split: option.splits if_splits)

lemma folded_update:
  assumes "ips_folded (nc_nodePrivateIPs c)" "updateNodeCaches loc p n c = Some c'"
  shows "ips_folded (nc_nodePrivateIPs c')"
  using assms folded_forget [OF assms(1), of loc]
  by (auto simp: updateNodeCaches_def forget_deleted_def folded_del simp del: forget_sel split: option.splits if_splits dest: folded_add)

lemma folded_handle:
  assumes "ips_folded (nc_nodePrivateIPs c)" "handle_node_event loc client e c = Some (c', as)"
  shows "ips_folded (nc_nodePrivateIPs c')"
  using assms by (cases e) (auto split: option.splits dest: folded_update)

lemma folded_run:
  assumes "ips_folded (nc_nodePrivateIPs c)" "run_events loc client es c = Some (c', as)"
  shows "ips_folded (nc_nodePrivateIPs c')"
  using assms
proof (induction es arbitrary: c as)
  case (Cons e es)
  then show ?case by (auto split: option.splits dest: folded_handle)
qed simp

section \<open>Addresses of nodes\<close>

definition enumerates :: "(string set \<Rightarrow> string list) \<Rightarrow> bool" where
  "enumerates enum \<longleftrightarrow> (\<forall>X. finite X \<longrightarrow> set (enum X) = X \<and> distinct (enum X))"

text \<open>No two nodes ever had a private address in common, and addresses are in lower case.\<close>

definition plain_cluster :: "cluster \<Rightarrow> bool" where
  "plain_cluster s \<longleftrightarrow> cl_clean s \<and>
     (\<forall>(k, n) \<in> set (cl_nodes s). \<forall>b \<in> set (private_ips n). ToLower b = b \<and> b \<noteq> [])"

definition cluster_ips :: "cluster \<Rightarrow> string set \<Rightarrow> string set" where
  "cluster_ips s names = {b. \<exists>k n. k \<in> names \<and> map_of (cl_nodes s) k = Some n \<and> b \<in> set (private_ips n)}"

lemma plain_clusterD:
  assumes "plain_cluster s" "map_of (cl_nodes s) k = Some n" "b \<in> set (private_ips n)"
  shows "ToLower b = b" "b \<noteq> []"
  using assms map_of_SomeD [OF assms(2)] by (auto simp: plain_cluster_def)

lemma set_UnsortedList:
  assumes "enumerates enum" "folded s"
  shows "x \<in> set (UnsortedList enum s) \<longleftrightarrow> ToLower x = x \<and> set_Has s x" "distinct (UnsortedList enum s)"
  using assms by (cases s; auto simp: UnsortedList_def folded_def enumerates_def set_Has_def)+

lemma cached_ips:
  assumes v: "cluster_view loc s c" and f: "ips_folded (nc_nodePrivateIPs c)" and e: "enumerates enum" and p: "plain_cluster s"
  shows "x \<in> set (UnsortedList enum (set_at (nc_nodePrivateIPs c) k)) \<longleftrightarrow> (\<exists>n. map_of (cl_nodes s) k = Some n \<and> x \<in> set (private_ips n))"
proof -
  have f': "folded (set_at (nc_nodePrivateIPs c) k)" using f by (simp add: ips_folded_def)
  have "set_Has (set_at (nc_nodePrivateIPs c) k) x \<longleftrightarrow> (\<exists>n. map_of (cl_nodes s) k = Some n \<and> ToLower x \<in> ToLower ` set (private_ips n))"
    using view_ips [OF v] by (simp add: ips_view_def tracks_def)
  moreover have "ToLower ` set (private_ips n) = set (private_ips n)" if "map_of (cl_nodes s) k = Some n" for n
    using plain_clusterD(1) [OF p that] by simp
  ultimately have h: "set_Has (set_at (nc_nodePrivateIPs c) k) x \<longleftrightarrow> (\<exists>n. map_of (cl_nodes s) k = Some n \<and> ToLower x \<in> set (private_ips n))"
    by (cases "map_of (cl_nodes s) k") simp_all
  show ?thesis
  proof (cases "ToLower x = x")
    case True
    then show ?thesis using h by (simp add: set_UnsortedList(1) [OF e f'])
  next
    case False
    then show ?thesis using plain_clusterD(1) [OF p, of k _ x] by (auto simp: set_UnsortedList(1) [OF e f'])
  qed
qed

lemma set_node_ips:
  assumes "cluster_view loc s c" "ips_folded (nc_nodePrivateIPs c)" "enumerates enum" "plain_cluster s" "\<forall>k \<in> set names. ToLower k = k"
  shows "set (node_ips enum (nc_nodePrivateIPs c) names) = cluster_ips s (set names)"
  using assms(5) by (auto simp: node_ips_def cluster_ips_def cached_ips [OF assms(1-4)])

lemma distinct_node_ips:
  assumes "cluster_view loc s c" "ips_folded (nc_nodePrivateIPs c)" "enumerates enum" "plain_cluster s"
    and "\<forall>k \<in> set names. ToLower k = k" "distinct names"
  shows "distinct (node_ips enum (nc_nodePrivateIPs c) names)"
  using assms(5,6)
proof (induction names)
  case (Cons k names)
  have f: "folded (set_at (nc_nodePrivateIPs c) (ToLower k))" using assms(2) by (simp add: ips_folded_def)
  have d: "disjoint_ips (map_of (cl_nodes s))" using view_owners(1) [OF assms(1)] assms(4) by (simp add: plain_cluster_def)
  have "set (UnsortedList enum (set_at (nc_nodePrivateIPs c) k)) \<inter> set (node_ips enum (nc_nodePrivateIPs c) names) = {}"
    using Cons.prems d by (auto simp: set_node_ips [OF assms(1-4)] cluster_ips_def cached_ips [OF assms(1-4)] disjoint_ips_def) blast
  then show ?case using Cons set_UnsortedList(2) [OF assms(3) f] by (simp add: node_ips_def)
qed (simp add: node_ips_def)

lemma plain_node_ips:
  assumes "cluster_view loc s c" "ips_folded (nc_nodePrivateIPs c)" "enumerates enum" "plain_cluster s"
    and "\<forall>k \<in> set names. ToLower k = k" "distinct names"
  shows "plain_ips (filter P (node_ips enum (nc_nodePrivateIPs c) names))"
proof -
  have "ip \<noteq> [] \<and> ToLower ip = ip" if "ip \<in> cluster_ips s (set names)" for ip
    using that plain_clusterD [OF assms(4)] unfolding cluster_ips_def by blast
  then show ?thesis using distinct_node_ips [OF assms] by (simp add: plain_ips_def set_node_ips [OF assms(1-5)])
qed

lemma endpoint_names:
  assumes "getLocalServiceEndpointsNodeNames slices service = Some nodes"
  shows "finite nodes" "\<forall>k \<in> nodes. ToLower k = k"
  using assms by (auto simp: getLocalServiceEndpointsNodeNames_def Let_def NewString_def split: if_splits)

end
